(* ===== verification/Prelude.thy ===== *)
theory Prelude
  imports Main "HOL-Library.AList"
begin

text \<open>
  Shared vocabulary of the development.

  \<^item> \<open>gomap\<close>: a Go \<open>map[K]V\<close>.  A Go map is modelled by an association list with distinct
    keys, read by \<^const>\<open>map_of\<close>, written by \<^const>\<open>AList.update\<close> and \<^const>\<open>AList.delete\<close>;
    its \<open>len\<close> is the \<open>length\<close> of the list.  A \<open>nil\<close> map reads as the empty map, as in Go.
    Go iterates over a map in an unspecified order; every loop over a map that is modelled here
    is shown (or plainly seen) not to depend on the order of the list.
  \<^item> \<open>go_map\<close>: the interface (locale) the components use of such a store, with the laws a
    client relies on, and its interpretation on association lists.
  \<^item> \<open>reach\<close> and \<open>invariant_system\<close>: reachable states of a step relation and the rule that an
    inductive invariant holds in all of them; interpreted for every state machine below.
  \<^item> \<open>named_theorems\<close>: \<open>go_simps\<close> (rewrites for strings, maps and options) and
    \<open>step_frames\<close> (what an operation leaves alone).
\<close>

named_theorems go_simps
named_theorems step_frames

type_synonym ('k, 'v) gomap = "('k \<times> 'v) list"

type_synonym nanos = int

subsection \<open>Go maps\<close>

abbreviation gm_get :: "('k, 'v) gomap \<Rightarrow> 'k \<Rightarrow> 'v option" where
  "gm_get m k \<equiv> map_of m k"

abbreviation gm_put :: "'k \<Rightarrow> 'v \<Rightarrow> ('k, 'v) gomap \<Rightarrow> ('k, 'v) gomap" where
  "gm_put k v m \<equiv> AList.update k v m"

abbreviation gm_del :: "'k \<Rightarrow> ('k, 'v) gomap \<Rightarrow> ('k, 'v) gomap" where
  "gm_del k m \<equiv> AList.delete k m"

abbreviation gm_wf :: "('k, 'v) gomap \<Rightarrow> bool" where
  "gm_wf m \<equiv> distinct (map fst m)"

text \<open>Reading a missing key of a \<open>map[string]string\<close> gives the zero value, the empty string.\<close>

definition str_get :: "(string, string) gomap \<Rightarrow> string \<Rightarrow> string" where
  "str_get m k = (case map_of m k of None \<Rightarrow> [] | Some v \<Rightarrow> v)"

lemma str_get_Nil [simp]: "str_get [] k = []"
  by (simp add: str_get_def)

lemma map_of_del [simp, go_simps]: "map_of (gm_del k m) = (map_of m)(k := None)"
  by (rule delete_conv')

lemma map_of_put [simp, go_simps]: "map_of (gm_put k v m) = (map_of m)(k \<mapsto> v)"
  by (rule update_conv')

lemma gm_wf_put [simp, intro]: "gm_wf m \<Longrightarrow> gm_wf (gm_put k v m)"
  by (rule distinct_update)

lemma gm_wf_del [simp, intro]: "gm_wf m \<Longrightarrow> gm_wf (gm_del k m)"
  by (rule distinct_delete)

lemma gm_del_id: "map_of m k = None \<Longrightarrow> gm_del k m = m"
  by (simp add: map_of_eq_None_iff)

lemma gm_del_dom: "fst ` set (gm_del k m) = fst ` set m - {k}"
  by (metis delete_keys set_map set_removeAll)

lemma length_gm_del:
  "gm_wf m \<Longrightarrow> length (gm_del k m) = (if map_of m k = None then length m else length m - 1)"
proof (induction m)
  case Nil
  then show ?case by simp
next
  case (Cons a m)
  obtain k' v where [simp]: "a = (k', v)" by (cases a)
  show ?case
  proof (cases "k' = k")
    case True
    with Cons.prems have "map_of m k = None" by (simp add: map_of_eq_None_iff)
    with True show ?thesis by (simp add: gm_del_id)
  next
    case False
    with Cons have IH: "length (gm_del k m) = (if map_of m k = None then length m else length m - 1)"
      by simp
    have "map_of m k \<noteq> None \<Longrightarrow> m \<noteq> []" by auto
    with False IH show ?thesis by (cases m) auto
  qed
qed

lemma length_gm_put:
  "length (gm_put k v m) = (if map_of m k = None then Suc (length m) else length m)"
  by (induction m) auto

lemma gm_all_iff:
  "gm_wf m \<Longrightarrow> (\<forall>(k, v) \<in> set m. P k v) \<longleftrightarrow> (\<forall>k v. map_of m k = Some v \<longrightarrow> P k v)"
  by (auto dest: map_of_SomeD)

text \<open>The interface of a store, its laws, and what a client may conclude from them alone.\<close>

locale go_map =
  fixes get :: "'m \<Rightarrow> 'k \<Rightarrow> 'v option"
    and put :: "'k \<Rightarrow> 'v \<Rightarrow> 'm \<Rightarrow> 'm"
    and del :: "'k \<Rightarrow> 'm \<Rightarrow> 'm"
    and wf :: "'m \<Rightarrow> bool"
    and len :: "'m \<Rightarrow> nat"
  assumes get_put: "get (put k v m) = (get m)(k \<mapsto> v)"
    and get_del: "get (del k m) = (get m)(k := None)"
    and wf_put: "wf m \<Longrightarrow> wf (put k v m)"
    and wf_del: "wf m \<Longrightarrow> wf (del k m)"
    and len_put: "len (put k v m) = (if get m k = None then Suc (len m) else len m)"
    and len_del: "wf m \<Longrightarrow> len (del k m) = (if get m k = None then len m else len m - 1)"
begin

lemma get_put_same: "get (put k v m) k = Some v"
  by (simp add: get_put)

lemma get_del_put: "get (del k (put k v m)) = (get m)(k := None)"
  by (simp add: get_put get_del)

lemma len_del_put_fresh:
  assumes "wf m" and "get m k = None"
  shows "len (del k (put k v m)) = len m"
proof -
  have "len (del k (put k v m)) = len (put k v m) - 1"
    using assms len_del [OF wf_put [OF assms(1)]] by (simp add: get_put)
  then show ?thesis
    using assms(2) by (simp add: len_put)
qed

lemma get_put_puts:
  "get (foldr (\<lambda>k. put k v) ks m) = (\<lambda>k. if k \<in> set ks then Some v else get m k)"
  by (induction ks) (auto simp: get_put fun_eq_iff)

end

interpretation amap: go_map "map_of :: ('k, 'v) gomap \<Rightarrow> 'k \<Rightarrow> 'v option" AList.update AList.delete gm_wf length
  by unfold_locales (auto simp: length_gm_put length_gm_del)

subsection \<open>State machines\<close>

inductive reach :: "('s \<Rightarrow> bool) \<Rightarrow> ('s \<Rightarrow> 's \<Rightarrow> bool) \<Rightarrow> 's \<Rightarrow> bool" for init step where
  reach_init: "init s \<Longrightarrow> reach init step s"
| reach_step: "reach init step s \<Longrightarrow> step s t \<Longrightarrow> reach init step t"

locale invariant_system =
  fixes init :: "'s \<Rightarrow> bool" and step :: "'s \<Rightarrow> 's \<Rightarrow> bool" and inv :: "'s \<Rightarrow> bool"
  assumes inv_init: "init s \<Longrightarrow> inv s"
    and inv_step: "step s t \<Longrightarrow> inv s \<Longrightarrow> inv t"
begin

lemma reach_inv: "reach init step s \<Longrightarrow> inv s"
  by (induction rule: reach.induct) (auto intro: inv_init inv_step)

lemma steps_inv: "step\<^sup>*\<^sup>* s t \<Longrightarrow> inv s \<Longrightarrow> inv t"
  by (induction rule: rtranclp_induct) (auto intro: inv_step)

end

lemma reach_steps: "reach init step s \<Longrightarrow> step\<^sup>*\<^sup>* s t \<Longrightarrow> reach init step t"
  by (rotate_tac, induction rule: rtranclp_induct) (auto intro: reach_step)

subsection \<open>Lists and options\<close>

lemma find_cong_pred:
  "(\<And>x. x \<in> set xs \<Longrightarrow> P x = Q x) \<Longrightarrow> find P xs = find Q xs"
  by (induction xs) auto

end
