(* ===== verification/DBus_Types.thy ===== *)
theory DBus_Types
  imports Go_Strings
begin

text \<open>
  \<^verbatim>\<open>internal/dbus/types.go\<close>: the constants of the Secret Service API, the \<open>Secret\<close> structure,
  the D-Bus errors the proxy returns, and \<open>ExtractCollection\<close>, which names the collection an
  item path lies in.
\<close>

type_synonym ObjectPath = string
type_synonym bytes = "char list"

abbreviation ServiceInterface :: string where
  "ServiceInterface \<equiv> ''org.freedesktop.Secret.Service''"
abbreviation CollectionInterface :: string where
  "CollectionInterface \<equiv> ''org.freedesktop.Secret.Collection''"
abbreviation ItemInterface :: string where
  "ItemInterface \<equiv> ''org.freedesktop.Secret.Item''"
abbreviation SessionInterface :: string where
  "SessionInterface \<equiv> ''org.freedesktop.Secret.Session''"
abbreviation PromptInterface :: string where
  "PromptInterface \<equiv> ''org.freedesktop.Secret.Prompt''"
abbreviation ServicePath :: ObjectPath where
  "ServicePath \<equiv> ''/org/freedesktop/secrets''"
abbreviation BusName :: string where
  "BusName \<equiv> ''org.freedesktop.secrets''"
abbreviation AlgorithmPlain :: string where
  "AlgorithmPlain \<equiv> ''plain''"
abbreviation AlgorithmDH :: string where
  "AlgorithmDH \<equiv> ''dh-ietf1024-sha256-aes128-cbc-pkcs7''"

record Secret =
  sec_Session :: ObjectPath
  sec_Parameters :: bytes
  sec_Value :: bytes
  sec_ContentType :: string

definition zeroSecret :: Secret where
  "zeroSecret = \<lparr>sec_Session = [], sec_Parameters = [], sec_Value = [], sec_ContentType = []\<rparr>"

text \<open>A D-Bus error: its name and its one-element body.\<close>

datatype dbus_error = DBusError (err_name: string) (err_body: string)

abbreviation ErrIsLocked :: string where
  "ErrIsLocked \<equiv> ''org.freedesktop.Secret.Error.IsLocked''"
abbreviation ErrNoSession :: string where
  "ErrNoSession \<equiv> ''org.freedesktop.Secret.Error.NoSession''"
abbreviation ErrNoSuchObject :: string where
  "ErrNoSuchObject \<equiv> ''org.freedesktop.Secret.Error.NoSuchObject''"
abbreviation ErrAlreadyExists :: string where
  "ErrAlreadyExists \<equiv> ''org.freedesktop.Secret.Error.AlreadyExists''"
abbreviation ErrNotSupported :: string where
  "ErrNotSupported \<equiv> ''org.freedesktop.DBus.Error.NotSupported''"
abbreviation ErrInvalidSignature :: string where
  "ErrInvalidSignature \<equiv> ''org.freedesktop.DBus.Error.InvalidSignature''"

definition NewDBusError :: "string \<Rightarrow> string \<Rightarrow> dbus_error" where
  "NewDBusError name message = DBusError name message"

definition ErrLocked :: "string \<Rightarrow> dbus_error" where
  "ErrLocked path = NewDBusError ErrIsLocked (''Object '' @ path @ '' is locked'')"

definition ErrSessionNotFound :: "string \<Rightarrow> dbus_error" where
  "ErrSessionNotFound path = NewDBusError ErrNoSession (''Session '' @ path @ '' does not exist'')"

definition ErrObjectNotFound :: "string \<Rightarrow> dbus_error" where
  "ErrObjectNotFound path = NewDBusError ErrNoSuchObject (''Object '' @ path @ '' does not exist'')"

definition ErrUnsupportedAlgorithm :: "string \<Rightarrow> dbus_error" where
  "ErrUnsupportedAlgorithm algo =
     NewDBusError ErrNotSupported (''Algorithm '' @ algo @ '' is not supported'')"

definition ErrAccessDenied :: "string \<Rightarrow> dbus_error" where
  "ErrAccessDenied message = NewDBusError ''org.freedesktop.DBus.Error.AccessDenied'' message"

text \<open>The \<open>error\<close> values of the program that the model distinguishes, and their texts.\<close>

datatype go_error =
    ErrDenied | ErrTimeout | ErrNotFound | ErrIgnored | ErrDeniedByRule
  | ErrCanceled              \<comment> \<open>\<open>ctx.Err()\<close> of a cancelled context\<close>
  | ErrText string           \<comment> \<open>\<open>errors.New\<close>, \<open>fmt.Errorf\<close>, or an error of a called library\<close>
  | ErrDBus dbus_error       \<comment> \<open>a \<open>*dbus.Error\<close> the program built\<close>
  | ErrRemote dbus_error     \<comment> \<open>the error reply of a remote call (a \<open>dbus.Error\<close> value)\<close>

fun error_text :: "go_error \<Rightarrow> string" where
  "error_text ErrDenied = ''access denied by user''"
| "error_text ErrTimeout = ''approval request timed out''"
| "error_text ErrNotFound = ''request not found''"
| "error_text ErrIgnored = ''request ignored by trust rule''"
| "error_text ErrDeniedByRule = ''access denied by trust rule''"
| "error_text ErrCanceled = ''context canceled''"
| "error_text (ErrText s) = s"
| "error_text (ErrDBus e) = err_body e"
| "error_text (ErrRemote e) = err_body e"

definition ErrFailed :: "go_error \<Rightarrow> dbus_error" where
  "ErrFailed err = NewDBusError ''org.freedesktop.DBus.Error.Failed'' (error_text err)"

definition collectionPrefix :: string where
  "collectionPrefix = ''/org/freedesktop/secrets/collection/''"

definition aliasesPrefix :: string where
  "aliasesPrefix = ''/org/freedesktop/secrets/aliases/''"

fun ExtractCollection_loop :: "string list \<Rightarrow> string \<Rightarrow> string" where
  "ExtractCollection_loop [] itemPath = []"
| "ExtractCollection_loop (prefix # ps) itemPath =
     (if HasPrefix itemPath prefix then
        (let rest = drop (length prefix) itemPath in
         case Cut rest (CHR ''/'') of (before, _, ok) \<Rightarrow> if ok then before else rest)
      else ExtractCollection_loop ps itemPath)"

definition ExtractCollection :: "string \<Rightarrow> string" where
  "ExtractCollection itemPath = ExtractCollection_loop [collectionPrefix, aliasesPrefix] itemPath"

lemma aliases_not_collection [simp]: "\<not> HasPrefix (aliasesPrefix @ r) collectionPrefix"
  by (simp add: HasPrefix_def aliasesPrefix_def collectionPrefix_def)

lemma collection_not_aliases [simp]: "\<not> HasPrefix (collectionPrefix @ r) aliasesPrefix"
  by (simp add: HasPrefix_def aliasesPrefix_def collectionPrefix_def)

lemma prefix_clash [simp]:
  "aliasesPrefix @ a \<noteq> collectionPrefix @ b" "collectionPrefix @ b \<noteq> aliasesPrefix @ a"
  "aliasesPrefix @ a \<noteq> collectionPrefix" "collectionPrefix \<noteq> aliasesPrefix @ a"
  by (simp_all add: aliasesPrefix_def collectionPrefix_def)

lemma Cut_fst_if: "(case Cut s c of (b, _, ok) \<Rightarrow> if ok then b else s) = fst (Cut s c)"
  by (simp add: Cut_def)

lemma ExtractCollection_collection [simp]:
  "ExtractCollection (collectionPrefix @ rest) = fst (Cut rest (CHR ''/''))"
  by (simp add: ExtractCollection_def Cut_fst_if)

lemma ExtractCollection_alias [simp]:
  "ExtractCollection (aliasesPrefix @ rest) = fst (Cut rest (CHR ''/''))"
  by (simp add: ExtractCollection_def Cut_fst_if)

lemma Cut_no_slash: "c \<notin> set (fst (Cut s c))"
  by (auto simp: Cut_def dest: set_takeWhileD)

lemma ExtractCollection_no_slash: "CHR ''/'' \<notin> set (ExtractCollection p)"
  unfolding ExtractCollection_def by (simp add: Cut_fst_if Cut_no_slash Let_def)

end
