(* ===== verification/Approval_Types.thy ===== *)
theory Approval_Types
  imports DBus_Types "HOL-Library.Word"
begin

text \<open>
  The data of \<^verbatim>\<open>internal/approval\<close> (\<open>types.go\<close>, \<open>gpgsign.go\<close> and the type declarations of
  \<open>manager.go\<close>).  A Go pointer that may be \<open>nil\<close> is an \<open>option\<close>; \<open>time.Time\<close> and
  \<open>time.Duration\<close> are integers (nanoseconds); a \<open>uint32\<close> is a \<open>32 word\<close>.

  A \<open>Request\<close> of the code also carries the channel \<open>done\<close> and the flag \<open>result\<close>, through which
  the goroutine that resolves a request wakes the one that waits for it.  That shared cell is kept
  beside the requests, in the manager's field \<open>mg_done\<close>: it maps a request ID to the \<open>result\<close>
  with which its \<open>done\<close> channel was closed.
\<close>

type_synonym RequestType = string
type_synonym Resolution = string
type_synonym uint32 = "32 word"

record ItemInfo =
  ii_Path :: string
  ii_Label :: string
  ii_Attributes :: "(string, string) gomap"

record ProcessInfo =
  pi_Name :: string
  pi_PID :: uint32
  pi_Exe :: string
  pi_Args :: "string list"
  pi_CWD :: string

record ProcessMatcher =
  pm_Exe :: string
  pm_Name :: string
  pm_Args :: string
  pm_CWD :: string
  pm_Unit :: string

record SecretMatcher =
  sm_Collection :: string
  sm_Label :: string
  sm_Attributes :: "(string, string) gomap"

record TrustRule =
  tr_Name :: string
  tr_Action :: string
  tr_RequestTypes :: "string list"
  tr_Process :: "ProcessMatcher option"
  tr_Secret :: "SecretMatcher option"
  tr_SearchAttributes :: "(string, string) gomap"

record SenderInfo =
  si_Sender :: string
  si_PID :: uint32
  si_UID :: uint32
  si_UserName :: string
  si_InvokerName :: string
  si_SystemdUnit :: string
  si_ProcessChain :: "ProcessInfo list"
  si_PeerTrusted :: bool

definition zeroSenderInfo :: SenderInfo where
  "zeroSenderInfo = \<lparr>si_Sender = [], si_PID = 0, si_UID = 0, si_UserName = [], si_InvokerName = [],
     si_SystemdUnit = [], si_ProcessChain = [], si_PeerTrusted = False\<rparr>"

record GPGSignInfo =
  gi_RepoName :: string
  gi_Kind :: string
  gi_CommitMsg :: string
  gi_Author :: string
  gi_Committer :: string
  gi_KeyID :: string
  gi_Fingerprint :: string
  gi_ChangedFiles :: "string list"
  gi_ParentHash :: string
  gi_TagName :: string
  gi_Target :: string
  gi_Pushee :: string
  gi_CommitObject :: string

abbreviation RequestTypeGetSecret :: RequestType where "RequestTypeGetSecret \<equiv> ''get_secret''"
abbreviation RequestTypeSearch :: RequestType where "RequestTypeSearch \<equiv> ''search''"
abbreviation RequestTypeDelete :: RequestType where "RequestTypeDelete \<equiv> ''delete''"
abbreviation RequestTypeWrite :: RequestType where "RequestTypeWrite \<equiv> ''write''"
abbreviation RequestTypeSSHSign :: RequestType where "RequestTypeSSHSign \<equiv> ''ssh_sign''"
abbreviation RequestTypeUnlock :: RequestType where "RequestTypeUnlock \<equiv> ''unlock''"
abbreviation RequestTypeGPGSign :: RequestType where "RequestTypeGPGSign \<equiv> ''gpg_sign''"

abbreviation ResolutionApproved :: Resolution where "ResolutionApproved \<equiv> ''approved''"
abbreviation ResolutionDenied :: Resolution where "ResolutionDenied \<equiv> ''denied''"
abbreviation ResolutionExpired :: Resolution where "ResolutionExpired \<equiv> ''expired''"
abbreviation ResolutionCancelled :: Resolution where "ResolutionCancelled \<equiv> ''cancelled''"
abbreviation ResolutionAutoApproved :: Resolution where "ResolutionAutoApproved \<equiv> ''auto_approved''"
abbreviation ResolutionIgnored :: Resolution where "ResolutionIgnored \<equiv> ''ignored''"

record Request =
  rq_ID :: string
  rq_Client :: string
  rq_Items :: "ItemInfo list"
  rq_Session :: string
  rq_CreatedAt :: nanos
  rq_ExpiresAt :: nanos
  rq_Type :: RequestType
  rq_SearchAttributes :: "(string, string) gomap"
  rq_SenderInfo :: SenderInfo
  rq_GPGSignInfo :: "GPGSignInfo option"
  rq_Signature :: bytes
  rq_GPGStatus :: bytes
  rq_GPGExitCode :: int

record HistoryEntry =
  he_Request :: Request
  he_Resolution :: Resolution
  he_ResolvedAt :: nanos

record TrustedSigner =
  ts_ExePath :: string
  ts_RepoPath :: string
  ts_FilePrefix :: string

record AutoApproveRule =
  ar_ID :: string
  ar_InvokerName :: string
  ar_InvokerExe :: string
  ar_RequestType :: RequestType
  ar_Collection :: string
  ar_Attributes :: "(string, string) gomap"
  ar_ExpiresAt :: nanos

datatype EventType =
    EventRequestCreated | EventRequestApproved | EventRequestDenied | EventRequestExpired
  | EventRequestCancelled | EventRequestAutoApproved | EventRequestIgnored
  | EventAutoApproveRuleAdded | EventAutoApproveRuleRemoved

record Event =
  ev_Type :: EventType
  ev_Request :: "Request option"
  ev_Rule :: "AutoApproveRule option"

abbreviation reqEvent :: "EventType \<Rightarrow> Request \<Rightarrow> Event" where
  "reqEvent t r \<equiv> \<lparr>ev_Type = t, ev_Request = Some r, ev_Rule = None\<rparr>"

abbreviation ruleEvent :: "EventType \<Rightarrow> AutoApproveRule \<Rightarrow> Event" where
  "ruleEvent t r \<equiv> \<lparr>ev_Type = t, ev_Request = None, ev_Rule = Some r\<rparr>"

text \<open>
  The approval manager.  An observer is known by a number; \<open>mg_delivered\<close> is the log of the
  \<open>OnEvent\<close> calls made, oldest first (the observers are the WebSocket connections and the desktop
  notification handler).  \<open>mg_panic\<close> records that an operation hit a Go run-time panic (a second
  \<open>close\<close> of a channel, a slice out of range); the process dies there, and the invariants below
  show that the flag stays false.
\<close>

record Manager =
  mg_pending :: "(string, Request) gomap"
  mg_done :: "(string, bool) gomap"
  mg_timeout :: nanos
  mg_disabled :: bool
  mg_observers :: "nat list"
  mg_delivered :: "(nat \<times> Event) list"
  mg_history :: "HistoryEntry list"
  mg_historyMax :: int
  mg_approvalWindow :: nanos
  mg_cache :: "(string, nanos) gomap"
  mg_autoApproveRules :: "AutoApproveRule list"
  mg_autoApproveDuration :: nanos
  mg_trustedSigners :: "TrustedSigner list"
  mg_ignoreChromeDummy :: bool
  mg_trustRules :: "TrustRule list"
  mg_panic :: bool

record ManagerConfig =
  mc_Timeout :: nanos
  mc_HistoryMax :: int
  mc_ApprovalWindow :: nanos
  mc_AutoApproveDuration :: nanos
  mc_TrustedSigners :: "TrustedSigner list"
  mc_IgnoreChromeDummy :: bool
  mc_TrustRules :: "TrustRule list"

definition NewManager :: "ManagerConfig \<Rightarrow> Manager" where
  "NewManager cfg = \<lparr>mg_pending = [], mg_done = [], mg_timeout = mc_Timeout cfg,
     mg_disabled = False, mg_observers = [], mg_delivered = [], mg_history = [],
     mg_historyMax = mc_HistoryMax cfg, mg_approvalWindow = mc_ApprovalWindow cfg, mg_cache = [],
     mg_autoApproveRules = [], mg_autoApproveDuration = mc_AutoApproveDuration cfg,
     mg_trustedSigners = mc_TrustedSigners cfg, mg_ignoreChromeDummy = mc_IgnoreChromeDummy cfg,
     mg_trustRules = mc_TrustRules cfg, mg_panic = False\<rparr>"

definition NewDisabledManager :: Manager where
  "NewDisabledManager = \<lparr>mg_pending = [], mg_done = [], mg_timeout = 0,
     mg_disabled = True, mg_observers = [], mg_delivered = [], mg_history = [],
     mg_historyMax = 100, mg_approvalWindow = 0, mg_cache = [],
     mg_autoApproveRules = [], mg_autoApproveDuration = 0,
     mg_trustedSigners = [], mg_ignoreChromeDummy = False, mg_trustRules = [],
     mg_panic = False\<rparr>"

end
