(* ===== verification/Go_Glob.thy ===== *)
theory Go_Glob
  imports Go_Strings
begin

text \<open>
  Go's \<open>path.Match\<close>, the shell-pattern matcher every rule of the program is decided by.  The
  functions are those of the standard library (\<open>scanChunk\<close>, \<open>matchChunk\<close>, \<open>getEsc\<close>,
  \<open>Match\<close>), one HOL function each; \<open>None\<close> is \<open>ErrBadPattern\<close>.  A character of the model is one
  rune, so the model is exact for single-byte characters.  Callers of the program write
  \<open>ok, _ := path.Match(...)\<close>: \<open>globOK\<close> is that \<open>ok\<close>, false on a bad pattern.
\<close>

fun dropStars :: "string \<Rightarrow> bool \<times> string" where
  "dropStars (x # xs) = (if x = CHR ''*'' then (True, snd (dropStars xs)) else (False, x # xs))"
| "dropStars [] = (False, [])"

text \<open>The index at which the scan stops: at the end or at a star outside a class.\<close>

fun scanLen :: "bool \<Rightarrow> string \<Rightarrow> nat" where
  "scanLen inrange [] = 0"
| "scanLen inrange [x] = (if x = CHR ''*'' \<and> \<not> inrange then 0 else 1)"
| "scanLen inrange (x # y # ys) =
    (if x = CHR 0x5C then 2 + scanLen inrange ys
     else if x = CHR ''*'' \<and> \<not> inrange then 0
     else 1 + scanLen (if x = CHR ''['' then True else if x = CHR '']'' then False else inrange)
                (y # ys))"

definition scanChunk :: "string \<Rightarrow> bool \<times> string \<times> string" where
  "scanChunk pattern = (let (star, p) = dropStars pattern; i = scanLen False p
     in (star, take i p, drop i p))"

definition getEsc :: "string \<Rightarrow> (char \<times> string) option" where
  "getEsc chunk = (case chunk of [] \<Rightarrow> None
     | c # cs \<Rightarrow>
        (if c = CHR ''-'' \<or> c = CHR '']'' then None
         else (let body = (if c = CHR 0x5C then cs else chunk)
               in (case body of [] \<Rightarrow> None
                   | r # n \<Rightarrow> if n = [] then None else Some (r, n)))))"

lemma getEsc_shorter: "getEsc chunk = Some (r, n) \<Longrightarrow> length n < length chunk"
  by (auto simp: getEsc_def Let_def split: list.splits if_splits)

text \<open>
  The loop over the ranges of a class: \<open>r\<close> is the rune to test (\<open>None\<close> once the match has
  failed and the text is no longer read), \<open>nrange\<close> says whether a range was already read.
\<close>

function classLoop :: "char option \<Rightarrow> bool \<Rightarrow> bool \<Rightarrow> string \<Rightarrow> (bool \<times> string) option" where
  "classLoop r matched nrange chunk =
    (if chunk \<noteq> [] \<and> hd chunk = CHR '']'' \<and> nrange then Some (matched, tl chunk)
     else (case getEsc chunk of None \<Rightarrow> None
       | Some (lo, c1) \<Rightarrow>
          (case (if hd c1 = CHR ''-'' then getEsc (tl c1) else Some (lo, c1)) of None \<Rightarrow> None
           | Some (hi, c2) \<Rightarrow>
               classLoop r
                 (matched \<or> (case r of None \<Rightarrow> False
                    | Some x \<Rightarrow> (of_char lo :: nat) \<le> of_char x \<and> (of_char x :: nat) \<le> of_char hi))
                 True c2)))"
  by pat_completeness auto
termination
  by (relation "measure (\<lambda>(r, m, n, c). length c)")
     (auto dest!: getEsc_shorter split: if_splits)

declare classLoop.simps [simp del]

lemma classLoop_shorter: "classLoop r m n chunk = Some (b, rest) \<Longrightarrow> length rest < length chunk"
proof (induction r m n chunk rule: classLoop.induct)
  case (1 r matched nrange chunk)
  show ?case
  proof (cases "chunk \<noteq> [] \<and> hd chunk = CHR '']'' \<and> nrange")
    case True
    with "1.prems" have "rest = tl chunk" by (subst (asm) classLoop.simps) simp
    with True show ?thesis by (cases chunk) auto
  next
    case False
    with "1.prems" obtain lo c1 hi c2 where e: "getEsc chunk = Some (lo, c1)"
      and e2: "(if hd c1 = CHR ''-'' then getEsc (tl c1) else Some (lo, c1)) = Some (hi, c2)"
      and rec: "classLoop r (matched \<or> (case r of None \<Rightarrow> False
                    | Some x \<Rightarrow> (of_char lo :: nat) \<le> of_char x \<and> (of_char x :: nat) \<le> of_char hi))
                 True c2 = Some (b, rest)"
      by (subst (asm) classLoop.simps) (auto split: option.splits prod.splits if_splits)
    have "length rest < length c2"
      using "1.IH" [OF False e] e2 rec by simp
    moreover have "length c2 \<le> length c1"
      using e2 by (auto dest!: getEsc_shorter split: if_splits)
    moreover have "length c1 < length chunk" using e by (rule getEsc_shorter)
    ultimately show ?thesis by simp
  qed
qed

text \<open>
  \<open>matchChunk failed chunk s\<close>: \<open>Some (rest, ok)\<close>, or \<open>None\<close> for a bad pattern.  After a failure
  the chunk is still parsed but the text is no longer read, as in the library.
\<close>

function matchChunk :: "bool \<Rightarrow> string \<Rightarrow> string \<Rightarrow> (string \<times> bool) option" where
  "matchChunk failed [] s = Some (if failed then ([], False) else (s, True))"
| "matchChunk failed (c # cs) s =
    (let failed = (failed \<or> s = []) in
     if c = CHR ''['' then
       (let r = (if failed then None else Some (hd s));
            s' = (if failed then s else tl s);
            negated = (cs \<noteq> [] \<and> hd cs = CHR ''^'');
            body = (if negated then tl cs else cs)
        in (case classLoop r False False body of None \<Rightarrow> None
            | Some (m, rest) \<Rightarrow> matchChunk (failed \<or> m = negated) rest s'))
     else if c = CHR ''?'' then
       (if failed then matchChunk failed cs s
        else matchChunk (hd s = CHR ''/'') cs (tl s))
     else if c = CHR 0x5C \<and> cs = [] then None
     else (let lit = (if c = CHR 0x5C then hd cs else c);
               rest = (if c = CHR 0x5C then tl cs else cs)
           in (if failed then matchChunk failed rest s
               else matchChunk (lit \<noteq> hd s) rest (tl s))))"
  by pat_completeness auto
termination
proof (relation "measure (\<lambda>(f, c, s). length c)", goal_cases)
  case 1
  then show ?case by simp
next
  case (2 failed c cs s x xa xb xc xd x2 xe y)
  then have "length y < length xd" by (auto dest: classLoop_shorter)
  moreover have "length xd \<le> length cs" using 2 by (auto split: if_splits)
  ultimately show ?case by simp
qed (auto split: if_splits)

declare matchChunk.simps(2) [simp del]

lemma dropStars_length: "length (snd (dropStars p)) \<le> length p"
  by (induction p rule: dropStars.induct) auto

lemma dropStars_star: "p \<noteq> [] \<Longrightarrow> fst (dropStars p) \<Longrightarrow> length (snd (dropStars p)) < length p"
  using dropStars_length by (cases p) (auto simp: le_imp_less_Suc split: if_splits)

lemma dropStars_nostar: "\<not> fst (dropStars p) \<Longrightarrow> dropStars p = (False, p)"
  by (cases p) (auto split: if_splits)

lemma scanLen_pos: "p \<noteq> [] \<Longrightarrow> hd p \<noteq> CHR ''*'' \<Longrightarrow> 0 < scanLen False p"
  by (induction False p rule: scanLen.induct) auto

lemma scanChunk_shorter:
  assumes "p \<noteq> []" and "scanChunk p = (star, chunk, rest)"
  shows "length rest < length p"
proof (cases "fst (dropStars p)")
  case True
  then have "length (snd (dropStars p)) < length p" using assms(1) by (rule dropStars_star [rotated])
  with assms(2) show ?thesis by (auto simp: scanChunk_def Let_def split: prod.splits)
next
  case False
  then have ds: "dropStars p = (False, p)" by (rule dropStars_nostar)
  with assms(1) have "hd p \<noteq> CHR ''*''" by (cases p) auto
  with assms(1) have "0 < scanLen False p" by (rule scanLen_pos)
  with ds assms show ?thesis by (auto simp: scanChunk_def Let_def)
qed

text \<open>The syntax check of what is left of the pattern, before a plain mismatch is reported.\<close>

function restValid :: "string \<Rightarrow> bool" where
  "restValid p = (if p = [] then True else
     (case scanChunk p of (star, chunk, rest) \<Rightarrow>
        matchChunk False chunk [] \<noteq> None \<and> restValid rest))"
  by pat_completeness auto
termination
  by (relation "measure length") (auto dest: scanChunk_shorter [OF _ sym])

declare restValid.simps [simp del]

text \<open>Trying the chunk after skipping one more byte of the text, never a slash.\<close>

fun skipMatch :: "string \<Rightarrow> bool \<Rightarrow> string \<Rightarrow> string option option" where
  "skipMatch chunk final [] = Some None"
| "skipMatch chunk final (x # xs) =
     (if x = CHR ''/'' then Some None
      else (case matchChunk False chunk xs of
          None \<Rightarrow> None
        | Some (t, True) \<Rightarrow> if final \<and> t \<noteq> [] then skipMatch chunk final xs else Some (Some t)
        | Some (_, False) \<Rightarrow> skipMatch chunk final xs))"

function Match :: "string \<Rightarrow> string \<Rightarrow> bool option" where
  "Match pattern name =
    (if pattern = [] then Some (name = [])
     else (case scanChunk pattern of (star, chunk, rest) \<Rightarrow>
       if star \<and> chunk = [] then Some (CHR ''/'' \<notin> set name)
       else (case matchChunk False chunk name of
           None \<Rightarrow> None
         | Some (t, ok) \<Rightarrow>
            (if ok \<and> (t = [] \<or> rest \<noteq> []) then Match rest t
             else (case (if star then skipMatch chunk (rest = []) name else Some None) of
                 None \<Rightarrow> None
               | Some (Some t') \<Rightarrow> Match rest t'
               | Some None \<Rightarrow> if restValid rest then Some False else None)))))"
  by pat_completeness auto
termination
  by (relation "measure (\<lambda>(p, n). length p)") (auto dest: scanChunk_shorter [OF _ sym])

declare Match.simps [simp del]

text \<open>\<open>ok, _ := path.Match(pattern, name)\<close>.\<close>

definition globOK :: "string \<Rightarrow> string \<Rightarrow> bool" where
  "globOK pattern name \<longleftrightarrow> Match pattern name = Some True"

subsection \<open>Patterns without metacharacters, and the star\<close>

definition literal :: "string \<Rightarrow> bool" where
  "literal p \<longleftrightarrow> set p \<inter> {CHR ''*'', CHR ''?'', CHR ''['', CHR 0x5C} = {}"

lemma literal_Nil [simp]: "literal []"
  by (simp add: literal_def)

lemma literal_Cons [simp]:
  "literal (x # p) \<longleftrightarrow> x \<noteq> CHR ''*'' \<and> x \<noteq> CHR ''?'' \<and> x \<noteq> CHR ''['' \<and> x \<noteq> CHR 0x5C \<and> literal p"
  by (auto simp: literal_def)

lemma scanLen_literal: "literal p \<Longrightarrow> scanLen False p = length p"
  by (induction False p rule: scanLen.induct) auto

lemma scanChunk_literal: "literal p \<Longrightarrow> scanChunk p = (False, p, [])"
  by (cases p) (simp_all add: scanChunk_def scanLen_literal)

lemma matchChunk_literal_failed: "literal p \<Longrightarrow> matchChunk True p s = Some ([], False)"
  by (induction p arbitrary: s) (auto simp: matchChunk.simps(2))

lemma matchChunk_literal:
  "literal p \<Longrightarrow> matchChunk False p s =
     (if HasPrefix s p then Some (drop (length p) s, True) else Some ([], False))"
proof (induction p arbitrary: s)
  case Nil
  then show ?case by simp
next
  case (Cons c p)
  show ?case
  proof (cases s)
    case Nil
    with Cons.prems show ?thesis
      by (simp add: matchChunk.simps(2) matchChunk_literal_failed HasPrefix_def)
  next
    case (Cons a t)
    with Cons.prems Cons.IH [of t] show ?thesis
      by (cases "c = a") (auto simp: matchChunk.simps(2) matchChunk_literal_failed HasPrefix_def)
  qed
qed

lemma Match_Nil [simp]: "Match [] n = Some (n = [])"
  by (simp add: Match.simps)

lemma Match_literal: "literal p \<Longrightarrow> Match p n = Some (p = n)"
proof (cases "p = []")
  case True
  then show ?thesis by auto
next
  case False
  assume lit: "literal p"
  have "Match p n = (if HasPrefix n p \<and> drop (length p) n = [] then Some True else Some False)"
    using False lit
    by (subst Match.simps)
       (auto simp: scanChunk_literal matchChunk_literal restValid.simps split: if_splits)
  also have "HasPrefix n p \<and> drop (length p) n = [] \<longleftrightarrow> p = n"
    by (auto simp: HasPrefix_def)
  finally show ?thesis by simp
qed

lemma globOK_literal [go_simps]: "literal p \<Longrightarrow> globOK p n \<longleftrightarrow> p = n"
  by (simp add: globOK_def Match_literal)

lemma globOK_star [go_simps]: "globOK ''*'' n \<longleftrightarrow> CHR ''/'' \<notin> set n"
  by (simp add: globOK_def Match.simps [of "''*''"] scanChunk_def)

end
