(* ===== verification/Approval_Rules.thy ===== *)
theory Approval_Rules
  imports Approval_Types Go_Glob
begin

text \<open>
  The rule engine of \<^verbatim>\<open>internal/approval/manager.go\<close>: attribute matching, the scope of an
  auto-approve rule, trust rules (deny, ignore, approve), trusted signers, and the Chrome probe
  filter.  All of it is pure; the state-changing part of the manager is in
  \<open>Approval_Manager\<close>.

  The lemmas say what the rules promise: a permissive rule never authorises a batch with an item
  outside its scope, a restrictive rule fires on any batch that holds an item in scope, and
  matching does not depend on what a process can choose for itself (its comm and the display name).
\<close>

subsection \<open>Attributes\<close>

definition attributesEqual :: "(string, string) gomap \<Rightarrow> (string, string) gomap \<Rightarrow> bool" where
  "attributesEqual a b \<longleftrightarrow>
     length a = length b \<and> list_all (\<lambda>(k, v). str_get b k = v) a"

definition attributesMatch :: "(string, string) gomap \<Rightarrow> (string, string) gomap \<Rightarrow> bool" where
  "attributesMatch ruleAttrs reqAttrs \<longleftrightarrow>
     list_all (\<lambda>(k, v). globOK v (str_get reqAttrs k)) ruleAttrs"

subsection \<open>Auto-approve rules\<close>

definition autoApproveCoversItem :: "AutoApproveRule \<Rightarrow> ItemInfo \<Rightarrow> bool" where
  "autoApproveCoversItem rule it \<longleftrightarrow>
     \<not> (ar_Collection rule \<noteq> [] \<and> ar_Collection rule \<noteq> ExtractCollection (ii_Path it)) \<and>
     attributesMatch (ar_Attributes rule) (ii_Attributes it)"

definition autoApproveCoversAll :: "AutoApproveRule \<Rightarrow> ItemInfo list \<Rightarrow> bool" where
  "autoApproveCoversAll rule items =
     (if items = [] then ar_Collection rule = [] \<and> length (ar_Attributes rule) = 0
      else list_all (autoApproveCoversItem rule) items)"

text \<open>The executable of the chain entry whose PID is the sender's: the first that has one.\<close>

fun invokerExe_loop :: "uint32 \<Rightarrow> ProcessInfo list \<Rightarrow> string" where
  "invokerExe_loop pid [] = []"
| "invokerExe_loop pid (p # ps) =
     (if pi_PID p = pid \<and> pi_Exe p \<noteq> [] then pi_Exe p else invokerExe_loop pid ps)"

definition invokerExePath :: "SenderInfo \<Rightarrow> string" where
  "invokerExePath s = invokerExe_loop (si_PID s) (si_ProcessChain s)"

text \<open>The test the loop of \<open>checkAutoApproveRules\<close> makes of one rule that has not expired.\<close>

definition autoRuleMatches :: "SenderInfo \<Rightarrow> ItemInfo list \<Rightarrow> RequestType \<Rightarrow> AutoApproveRule \<Rightarrow> bool" where
  "autoRuleMatches senderInfo items reqType rule =
     (let callerExe = invokerExePath senderInfo in
      if callerExe = [] \<or> ar_InvokerExe rule \<noteq> callerExe then False
      else if ar_RequestType rule \<noteq> reqType then False
      else autoApproveCoversAll rule items)"

text \<open>
  The loop: expired rules are dropped, the first match is remembered.  The result is the match and
  the rules that stay.
\<close>

fun autoRules_loop :: "nanos \<Rightarrow> SenderInfo \<Rightarrow> ItemInfo list \<Rightarrow> RequestType \<Rightarrow> AutoApproveRule option
    \<Rightarrow> AutoApproveRule list \<Rightarrow> AutoApproveRule option \<times> AutoApproveRule list" where
  "autoRules_loop now s items t match [] = (match, [])"
| "autoRules_loop now s items t match (rule # rules) =
     (if ar_ExpiresAt rule < now then autoRules_loop now s items t match rules
      else (let match' = (case match of Some r \<Rightarrow> Some r
                 | None \<Rightarrow> if autoRuleMatches s items t rule then Some rule else None);
                (res, active) = autoRules_loop now s items t match' rules
            in (res, rule # active)))"

subsection \<open>Trust rules\<close>

definition matchSecretItem :: "SecretMatcher \<Rightarrow> ItemInfo \<Rightarrow> bool" where
  "matchSecretItem sm item =
     (if sm_Collection sm \<noteq> [] \<and> \<not> globOK (sm_Collection sm) (ExtractCollection (ii_Path item)) then False
      else if sm_Label sm \<noteq> [] \<and> \<not> globOK (sm_Label sm) (ii_Label item) then False
      else if sm_Attributes sm \<noteq> [] \<and> \<not> attributesMatch (sm_Attributes sm) (ii_Attributes item) then False
      else True)"

definition matchSecret :: "SecretMatcher \<Rightarrow> ItemInfo list \<Rightarrow> bool \<Rightarrow> bool" where
  "matchSecret sm items restrictive =
     (if sm_Collection sm = [] \<and> sm_Label sm = [] \<and> sm_Attributes sm = [] then True
      else if restrictive then list_ex (matchSecretItem sm) items
      else if items = [] then False
      else list_all (matchSecretItem sm) items)"

definition matchProcess :: "ProcessMatcher \<Rightarrow> SenderInfo \<Rightarrow> bool" where
  "matchProcess pm s =
     (if pm_Exe pm \<noteq> [] \<and> \<not> list_ex (\<lambda>p. globOK (pm_Exe pm) (pi_Exe p)) (si_ProcessChain s) then False
      else if pm_Name pm \<noteq> [] \<and> \<not> list_ex (\<lambda>p. globOK (pm_Name pm) (pi_Name p)) (si_ProcessChain s) then False
      else if pm_Args pm \<noteq> [] \<and>
        \<not> list_ex (\<lambda>p. list_ex (\<lambda>arg. globOK (pm_Args pm) arg) (pi_Args p)) (si_ProcessChain s) then False
      else if pm_CWD pm \<noteq> [] \<and> \<not> list_ex (\<lambda>p. globOK (pm_CWD pm) (pi_CWD p)) (si_ProcessChain s) then False
      else if pm_Unit pm \<noteq> [] \<and> \<not> globOK (pm_Unit pm) (si_SystemdUnit s) then False
      else True)"

definition restrictiveAction :: "string \<Rightarrow> bool" where
  "restrictiveAction action \<longleftrightarrow> action = ''deny'' \<or> action = ''ignore''"

definition matchTrustRule :: "TrustRule \<Rightarrow> SenderInfo \<Rightarrow> ItemInfo list \<Rightarrow> RequestType
    \<Rightarrow> (string, string) gomap \<Rightarrow> bool" where
  "matchTrustRule rule s items reqType searchAttrs =
     (if tr_RequestTypes rule \<noteq> [] \<and> \<not> List.member (tr_RequestTypes rule) reqType then False
      else if (case tr_Process rule of None \<Rightarrow> False | Some pm \<Rightarrow> \<not> matchProcess pm s) then False
      else if (case tr_Secret rule of None \<Rightarrow> False
          | Some sm \<Rightarrow> \<not> matchSecret sm items (restrictiveAction (tr_Action rule))) then False
      else if tr_SearchAttributes rule \<noteq> [] \<and> \<not> attributesMatch (tr_SearchAttributes rule) searchAttrs then False
      else True)"

fun trustRules_loop :: "TrustRule list \<Rightarrow> SenderInfo \<Rightarrow> ItemInfo list \<Rightarrow> RequestType
    \<Rightarrow> (string, string) gomap \<Rightarrow> TrustRule option" where
  "trustRules_loop [] s items reqType searchAttrs = None"
| "trustRules_loop (rule # rules) s items reqType searchAttrs =
     (if \<not> matchTrustRule rule s items reqType searchAttrs
      then trustRules_loop rules s items reqType searchAttrs
      else Some rule)"

definition CheckTrustRules :: "Manager \<Rightarrow> SenderInfo \<Rightarrow> ItemInfo list \<Rightarrow> RequestType
    \<Rightarrow> (string, string) gomap \<Rightarrow> TrustRule option" where
  "CheckTrustRules m s items reqType searchAttrs =
     trustRules_loop (mg_trustRules m) s items reqType searchAttrs"

definition ListTrustRules :: "Manager \<Rightarrow> TrustRule list" where
  "ListTrustRules m = mg_trustRules m"

subsection \<open>Trusted signers and the Chrome probe\<close>

definition allFilesMatch :: "string list \<Rightarrow> string \<Rightarrow> bool" where
  "allFilesMatch files prefix \<longleftrightarrow> list_all (\<lambda>f. HasPrefix f prefix) files"

definition signerMatches :: "ProcessInfo \<Rightarrow> string \<Rightarrow> string list \<Rightarrow> TrustedSigner \<Rightarrow> bool" where
  "signerMatches proc repoName changedFiles ts =
     (if pi_Exe proc \<noteq> ts_ExePath ts then False
      else if ts_RepoPath ts \<noteq> [] \<and> repoName \<noteq> ts_RepoPath ts then False
      else if ts_FilePrefix ts \<noteq> [] \<and> \<not> allFilesMatch changedFiles (ts_FilePrefix ts) then False
      else True)"

definition CheckTrustedSigner :: "Manager \<Rightarrow> SenderInfo \<Rightarrow> string \<Rightarrow> string list \<Rightarrow> bool" where
  "CheckTrustedSigner m s repoName changedFiles =
     (if length (mg_trustedSigners m) = 0 then False
      else if \<not> si_PeerTrusted s then False
      else list_ex (\<lambda>proc. if pi_Exe proc = [] then False
             else list_ex (signerMatches proc repoName changedFiles) (mg_trustedSigners m))
             (si_ProcessChain s))"

definition ListTrustedSigners :: "Manager \<Rightarrow> TrustedSigner list" where
  "ListTrustedSigners m = mg_trustedSigners m"

abbreviation chromeDummySchema :: string where
  "chromeDummySchema \<equiv> ''_chrome_dummy_schema_for_unlocking''"

definition ShouldIgnore :: "Manager \<Rightarrow> ItemInfo list \<Rightarrow> RequestType \<Rightarrow> bool" where
  "ShouldIgnore m items reqType =
     (if \<not> mg_ignoreChromeDummy m \<or> reqType \<noteq> RequestTypeWrite then False
      else list_ex (\<lambda>item. str_get (ii_Attributes item) ''xdg:schema'' = chromeDummySchema) items)"

subsection \<open>What the loops compute\<close>

lemma attributesMatch_set:
  "attributesMatch ra qa \<longleftrightarrow> (\<forall>(k, v) \<in> set ra. globOK v (str_get qa k))"
  by (auto simp: attributesMatch_def list_all_iff)

text \<open>The result does not depend on the order in which Go walks the two maps.\<close>

lemma attributesMatch_order:
  "set ra = set ra' \<Longrightarrow> map_of qa = map_of qa' \<Longrightarrow> attributesMatch ra qa = attributesMatch ra' qa'"
  by (simp add: attributesMatch_set str_get_def)

lemma attributesMatch_refl:
  "gm_wf a \<Longrightarrow> \<forall>(k, v) \<in> set a. literal v \<Longrightarrow> attributesMatch a a"
  by (auto simp: attributesMatch_set globOK_literal str_get_def)

lemma attributesEqual_refl: "gm_wf a \<Longrightarrow> attributesEqual a a"
  by (auto simp: attributesEqual_def list_all_iff str_get_def)

abbreviation liveRules :: "nanos \<Rightarrow> AutoApproveRule list \<Rightarrow> AutoApproveRule list" where
  "liveRules now rules \<equiv> filter (\<lambda>r. \<not> ar_ExpiresAt r < now) rules"

lemma autoRules_loop_eq:
  "autoRules_loop now s items t match rules =
     ((case match of Some r \<Rightarrow> Some r | None \<Rightarrow> List.find (autoRuleMatches s items t) (liveRules now rules)),
      liveRules now rules)"
  by (induction rules arbitrary: match) (auto simp: Let_def split: option.splits)

lemma trustRules_loop_find:
  "trustRules_loop rules s items t sa = List.find (\<lambda>r. matchTrustRule r s items t sa) rules"
  by (induction rules) auto

lemma CheckTrustRules_find:
  "CheckTrustRules m s items t sa = List.find (\<lambda>r. matchTrustRule r s items t sa) (mg_trustRules m)"
  by (simp add: CheckTrustRules_def trustRules_loop_find)

lemma autoRuleMatches_iff:
  "autoRuleMatches s items t rule \<longleftrightarrow>
     invokerExePath s \<noteq> [] \<and> ar_InvokerExe rule = invokerExePath s \<and> ar_RequestType rule = t \<and>
     autoApproveCoversAll rule items"
  by (auto simp: autoRuleMatches_def Let_def)

lemma invokerExe_loop_mem:
  "invokerExe_loop pid ps = e \<Longrightarrow> e \<noteq> [] \<Longrightarrow> \<exists>p \<in> set ps. pi_PID p = pid \<and> pi_Exe p = e"
  by (induction ps) (auto split: if_splits)

lemma invokerExePath_mem:
  "invokerExePath s \<noteq> [] \<Longrightarrow>
     \<exists>p \<in> set (si_ProcessChain s). pi_PID p = si_PID s \<and> pi_Exe p = invokerExePath s"
  using invokerExe_loop_mem [OF refl] by (simp add: invokerExePath_def)

subsection \<open>Batches\<close>

lemma coversAll_sub:
  assumes "autoApproveCoversAll rule items" and "set items' \<subseteq> set items" and "items' \<noteq> []"
  shows "autoApproveCoversAll rule items'"
  using assms by (auto simp: autoApproveCoversAll_def list_all_iff split: if_splits)

lemma autoRuleMatches_sub:
  "autoRuleMatches s items t rule \<Longrightarrow> set items' \<subseteq> set items \<Longrightarrow> items' \<noteq> [] \<Longrightarrow>
     autoRuleMatches s items' t rule"
  by (auto simp: autoRuleMatches_iff intro: coversAll_sub)

lemma matchSecret_permissive_sub:
  "matchSecret sm items False \<Longrightarrow> set items' \<subseteq> set items \<Longrightarrow> items' \<noteq> [] \<Longrightarrow> matchSecret sm items' False"
  by (auto simp: matchSecret_def list_all_iff split: if_splits)

lemma matchSecret_restrictive_super:
  "matchSecret sm items True \<Longrightarrow> set items \<subseteq> set items' \<Longrightarrow> matchSecret sm items' True"
  by (auto simp: matchSecret_def list_ex_iff split: if_splits)

lemma matchTrustRule_permissive_sub:
  assumes "matchTrustRule rule s items t sa" and "\<not> restrictiveAction (tr_Action rule)"
    and "set items' \<subseteq> set items" and "items' \<noteq> []"
  shows "matchTrustRule rule s items' t sa"
  using assms
  by (auto simp: matchTrustRule_def split: if_splits option.splits
           dest: matchSecret_permissive_sub [where items' = items'])

lemma matchTrustRule_restrictive_super:
  assumes "matchTrustRule rule s items t sa" and "restrictiveAction (tr_Action rule)"
    and "set items \<subseteq> set items'"
  shows "matchTrustRule rule s items' t sa"
  using assms
  by (auto simp: matchTrustRule_def split: if_splits option.splits
           dest: matchSecret_restrictive_super [where items' = items'])

text \<open>
  Over a whole rule list: if the first rule that matches a batch is permissive, then so is the first
  rule that matches any part of it, because a restrictive rule that matched the part would have
  matched the batch before.
\<close>

lemma first_permissive_sub:
  assumes "List.find (\<lambda>r. matchTrustRule r s items t sa) rules = Some r"
    and "\<not> restrictiveAction (tr_Action r)"
    and "set items' \<subseteq> set items" and "items' \<noteq> []"
  shows "\<exists>r'. List.find (\<lambda>r. matchTrustRule r s items' t sa) rules = Some r' \<and>
              \<not> restrictiveAction (tr_Action r')"
  using assms(1)
proof (induction rules)
  case Nil
  then show ?case by simp
next
  case (Cons a rules)
  show ?case
  proof (cases "matchTrustRule a s items t sa")
    case True
    with Cons.prems have "a = r" by simp
    moreover from True this have "matchTrustRule a s items' t sa"
      using assms(2-4) matchTrustRule_permissive_sub by blast
    ultimately show ?thesis using assms(2) by auto
  next
    case False
    show ?thesis
    proof (cases "matchTrustRule a s items' t sa")
      case True
      with False assms(3) have "\<not> restrictiveAction (tr_Action a)"
        using matchTrustRule_restrictive_super by blast
      with True show ?thesis by simp
    next
      case False
      with \<open>\<not> matchTrustRule a s items t sa\<close> Cons show ?thesis by simp
    qed
  qed
qed

lemma first_auto_sub:
  assumes "List.find (autoRuleMatches s items t) rules \<noteq> None"
    and "set items' \<subseteq> set items" and "items' \<noteq> []"
  shows "List.find (autoRuleMatches s items' t) rules \<noteq> None"
proof -
  from assms(1) obtain r where "r \<in> set rules" and "autoRuleMatches s items t r"
    by (auto simp: find_None_iff)
  with assms(2,3) have "autoRuleMatches s items' t r"
    by (auto intro: autoRuleMatches_sub)
  with \<open>r \<in> set rules\<close> show ?thesis
    unfolding find_None_iff by blast
qed

subsection \<open>What a process can choose for itself does not matter\<close>

text \<open>
  A process can set its own comm (\<open>prctl(PR_SET_NAME)\<close>), which the code shows as \<open>Name\<close> and
  \<open>InvokerName\<close>.  \<open>forgetNames\<close> erases both; two senders with the same image differ in nothing else.
\<close>

definition forgetNames :: "SenderInfo \<Rightarrow> SenderInfo" where
  "forgetNames s = s\<lparr>si_InvokerName := [], si_ProcessChain := map (\<lambda>p. p\<lparr>pi_Name := []\<rparr>) (si_ProcessChain s)\<rparr>"

lemma invokerExe_loop_forget:
  "invokerExe_loop pid (map (\<lambda>p. p\<lparr>pi_Name := []\<rparr>) ps) = invokerExe_loop pid ps"
  by (induction ps) auto

lemma invokerExePath_forget: "invokerExePath (forgetNames s) = invokerExePath s"
  by (simp add: invokerExePath_def forgetNames_def invokerExe_loop_forget)

lemma autoRuleMatches_forget: "autoRuleMatches (forgetNames s) items t = autoRuleMatches s items t"
  by (simp add: fun_eq_iff autoRuleMatches_def invokerExePath_forget)

lemma matchProcess_forget:
  "pm_Name pm = [] \<Longrightarrow> matchProcess pm (forgetNames s) = matchProcess pm s"
  by (simp add: matchProcess_def forgetNames_def list_ex_iff)

lemma matchTrustRule_forget:
  assumes "\<forall>pm. tr_Process rule = Some pm \<longrightarrow> pm_Name pm = []"
  shows "matchTrustRule rule (forgetNames s) items t sa = matchTrustRule rule s items t sa"
proof (cases "tr_Process rule")
  case None
  then show ?thesis by (simp add: matchTrustRule_def)
next
  case (Some pm)
  with assms have "matchProcess pm (forgetNames s) = matchProcess pm s"
    by (simp add: matchProcess_forget)
  with Some show ?thesis by (simp add: matchTrustRule_def)
qed

lemma signerMatches_forget:
  "signerMatches (p\<lparr>pi_Name := n\<rparr>) repo files = signerMatches p repo files"
  by (simp add: fun_eq_iff signerMatches_def)

lemma CheckTrustedSigner_forget:
  "CheckTrustedSigner m (forgetNames s) repo files = CheckTrustedSigner m s repo files"
  by (simp add: CheckTrustedSigner_def forgetNames_def list_ex_iff signerMatches_forget)

lemma CheckTrustRules_forget:
  assumes "\<forall>rule \<in> set (mg_trustRules m). \<forall>pm. tr_Process rule = Some pm \<longrightarrow> pm_Name pm = []"
  shows "CheckTrustRules m (forgetNames s) items t sa = CheckTrustRules m s items t sa"
  unfolding CheckTrustRules_find
  by (rule find_cong_pred) (use assms in \<open>auto simp: matchTrustRule_forget\<close>)

end
