(* ===== verification/Approval_Manager.thy ===== *)
theory Approval_Manager
  imports Approval_Rules
begin

text \<open>
  The operations of the approval manager (\<^verbatim>\<open>internal/approval/manager.go\<close> and \<open>gpgsign.go\<close>),
  each a function on the manager's state.  The code's \<open>time.Now()\<close> is the argument \<open>now\<close> (one
  reading per operation) and the value of \<open>uuid.New().String()\<close> the argument \<open>uid\<close>.  Log output
  is left out; it changes no state.

  \<open>RequireApproval\<close> blocks.  It is split where the code gives up the processor: \<open>_begin\<close> runs up
  to the \<open>select\<close> and either returns or leaves a pending request; \<open>_select\<close> is the branch the
  \<open>select\<close> takes; \<open>_cleanup\<close> is the deferred removal.  \<open>RequireApproval\<close> composes them around
  whatever the other goroutines do in between.
\<close>

subsection \<open>Observers, events, history\<close>

definition Subscribe :: "nat \<Rightarrow> Manager \<Rightarrow> Manager" where
  "Subscribe ob m = m\<lparr>mg_observers :=
     (if List.member (mg_observers m) ob then mg_observers m else mg_observers m @ [ob])\<rparr>"

definition Unsubscribe :: "nat \<Rightarrow> Manager \<Rightarrow> Manager" where
  "Unsubscribe ob m = m\<lparr>mg_observers := removeAll ob (mg_observers m)\<rparr>"

fun resolutionOf :: "EventType \<Rightarrow> Resolution option" where
  "resolutionOf EventRequestApproved = Some ResolutionApproved"
| "resolutionOf EventRequestDenied = Some ResolutionDenied"
| "resolutionOf EventRequestExpired = Some ResolutionExpired"
| "resolutionOf EventRequestCancelled = Some ResolutionCancelled"
| "resolutionOf EventRequestAutoApproved = Some ResolutionAutoApproved"
| "resolutionOf EventRequestIgnored = Some ResolutionIgnored"
| "resolutionOf _ = None"

text \<open>Prepend, newest first, and trim: \<open>m.history[:m.historyMax]\<close> panics on a negative bound.\<close>

definition AddHistoryEntry :: "HistoryEntry \<Rightarrow> Manager \<Rightarrow> Manager" where
  "AddHistoryEntry entry m =
     (let h = entry # mg_history m in
      if int (length h) > mg_historyMax m then
        (case goslice h 0 (mg_historyMax m) of
           None \<Rightarrow> m\<lparr>mg_history := h, mg_panic := True\<rparr>
         | Some h' \<Rightarrow> m\<lparr>mg_history := h'\<rparr>)
      else m\<lparr>mg_history := h\<rparr>)"

definition addHistory :: "nanos \<Rightarrow> Event \<Rightarrow> Manager \<Rightarrow> Manager" where
  "addHistory now event m =
     (case (resolutionOf (ev_Type event), ev_Request event) of
        (Some res, Some req) \<Rightarrow>
          AddHistoryEntry \<lparr>he_Request = req, he_Resolution = res, he_ResolvedAt = now\<rparr> m
      | _ \<Rightarrow> m)"

definition notify :: "nanos \<Rightarrow> Event \<Rightarrow> Manager \<Rightarrow> Manager" where
  "notify now event m =
     (let m1 = m\<lparr>mg_delivered := mg_delivered m @ map (\<lambda>ob. (ob, event)) (mg_observers m)\<rparr> in
      if ev_Type event \<noteq> EventRequestCreated \<and> ev_Type event \<noteq> EventAutoApproveRuleAdded \<and>
         ev_Type event \<noteq> EventAutoApproveRuleRemoved
      then addHistory now event m1 else m1)"

definition History :: "Manager \<Rightarrow> HistoryEntry list" where
  "History m = mg_history m"

definition GetHistoryEntry :: "string \<Rightarrow> Manager \<Rightarrow> HistoryEntry option" where
  "GetHistoryEntry requestID m = List.find (\<lambda>e. rq_ID (he_Request e) = requestID) (mg_history m)"

subsection \<open>The approval cache\<close>

definition approvalCacheKey :: "string \<Rightarrow> string \<Rightarrow> string" where
  "approvalCacheKey sender itemPath = sender @ [CHR 0x00] @ itemPath"

fun cache_loop :: "string \<Rightarrow> nanos \<Rightarrow> ItemInfo list \<Rightarrow> (string, nanos) gomap
    \<Rightarrow> bool \<times> (string, nanos) gomap" where
  "cache_loop sender cutoff [] cache = (True, cache)"
| "cache_loop sender cutoff (item # items) cache =
     (let key = approvalCacheKey sender (ii_Path item) in
      case map_of cache key of
        None \<Rightarrow> (False, cache)
      | Some ts \<Rightarrow> if ts < cutoff then (False, gm_del key cache)
                   else cache_loop sender cutoff items cache)"

definition checkApprovalCache :: "nanos \<Rightarrow> string \<Rightarrow> ItemInfo list \<Rightarrow> Manager \<Rightarrow> bool \<times> Manager" where
  "checkApprovalCache now sender items m =
     (if mg_approvalWindow m \<le> 0 then (False, m)
      else (case cache_loop sender (now - mg_approvalWindow m) items (mg_cache m) of
              (ok, c) \<Rightarrow> (ok, m\<lparr>mg_cache := c\<rparr>)))"

definition cacheApproval :: "nanos \<Rightarrow> Request \<Rightarrow> Manager \<Rightarrow> Manager" where
  "cacheApproval now req m =
     (if mg_approvalWindow m \<le> 0 then m
      else m\<lparr>mg_cache := fold (\<lambda>item c.
               gm_put (approvalCacheKey (si_Sender (rq_SenderInfo req)) (ii_Path item)) now c)
               (rq_Items req) (mg_cache m)\<rparr>)"

definition CacheItemForSender :: "nanos \<Rightarrow> string \<Rightarrow> string \<Rightarrow> Manager \<Rightarrow> Manager" where
  "CacheItemForSender now sender itemPath m =
     (if mg_approvalWindow m \<le> 0 \<or> mg_disabled m then m
      else m\<lparr>mg_cache := gm_put (approvalCacheKey sender itemPath) now (mg_cache m)\<rparr>)"

subsection \<open>Auto-approve rules\<close>

abbreviation twoMinutes :: nanos where
  "twoMinutes \<equiv> 120000000000"

definition AutoApproveDuration :: "Manager \<Rightarrow> nanos" where
  "AutoApproveDuration m =
     (let d = mg_autoApproveDuration m in if d \<le> 0 then twoMinutes else d)"

definition ruleOfRequest :: "nanos \<Rightarrow> string \<Rightarrow> Request \<Rightarrow> Manager \<Rightarrow> AutoApproveRule" where
  "ruleOfRequest now uid req m =
     (let duration = (if mg_autoApproveDuration m \<le> 0 then twoMinutes else mg_autoApproveDuration m);
          rule = \<lparr>ar_ID = uid, ar_InvokerName = si_InvokerName (rq_SenderInfo req),
                  ar_InvokerExe = invokerExePath (rq_SenderInfo req), ar_RequestType = rq_Type req,
                  ar_Collection = [], ar_Attributes = [], ar_ExpiresAt = now + duration\<rparr>;
          rule = (case rq_Items req of [] \<Rightarrow> rule
                  | item # _ \<Rightarrow> rule\<lparr>ar_Collection := ExtractCollection (ii_Path item),
                                    ar_Attributes := ii_Attributes item\<rparr>)
      in if rq_Type req = RequestTypeSearch \<and> rq_SearchAttributes req \<noteq> []
         then rule\<lparr>ar_Attributes := rq_SearchAttributes req\<rparr> else rule)"

definition sameScope :: "AutoApproveRule \<Rightarrow> AutoApproveRule \<Rightarrow> bool" where
  "sameScope existing rule \<longleftrightarrow>
     ar_InvokerExe existing = ar_InvokerExe rule \<and> ar_RequestType existing = ar_RequestType rule \<and>
     ar_Collection existing = ar_Collection rule \<and>
     attributesEqual (ar_Attributes existing) (ar_Attributes rule)"

text \<open>The dedup loop: the first rule of the same scope gets the new expiry.\<close>

fun refresh_loop :: "AutoApproveRule \<Rightarrow> AutoApproveRule list
    \<Rightarrow> (AutoApproveRule \<times> AutoApproveRule list) option" where
  "refresh_loop rule [] = None"
| "refresh_loop rule (e # es) =
     (if sameScope e rule
      then (let e' = e\<lparr>ar_ExpiresAt := ar_ExpiresAt rule\<rparr> in Some (e', e' # es))
      else map_option (\<lambda>(x, xs). (x, e # xs)) (refresh_loop rule es))"

definition AddAutoApproveRule :: "nanos \<Rightarrow> string \<Rightarrow> Request \<Rightarrow> Manager \<Rightarrow> string \<times> Manager" where
  "AddAutoApproveRule now uid req m =
     (let rule = ruleOfRequest now uid req m in
      case refresh_loop rule (mg_autoApproveRules m) of
        Some (existing, rules) \<Rightarrow>
          (ar_ID existing,
           notify now (ruleEvent EventAutoApproveRuleAdded existing) (m\<lparr>mg_autoApproveRules := rules\<rparr>))
      | None \<Rightarrow>
          (ar_ID rule,
           notify now (ruleEvent EventAutoApproveRuleAdded rule)
             (m\<lparr>mg_autoApproveRules := mg_autoApproveRules m @ [rule]\<rparr>)))"

definition checkAutoApproveRules :: "nanos \<Rightarrow> SenderInfo \<Rightarrow> ItemInfo list \<Rightarrow> RequestType \<Rightarrow> Manager
    \<Rightarrow> AutoApproveRule option \<times> Manager" where
  "checkAutoApproveRules now s items reqType m =
     (case autoRules_loop now s items reqType None (mg_autoApproveRules m) of
        (match, active) \<Rightarrow> (match, m\<lparr>mg_autoApproveRules := active\<rparr>))"

definition CheckAutoApproveRules :: "nanos \<Rightarrow> SenderInfo \<Rightarrow> ItemInfo list \<Rightarrow> RequestType \<Rightarrow> Manager
    \<Rightarrow> AutoApproveRule option \<times> Manager" where
  "CheckAutoApproveRules now s items reqType m = checkAutoApproveRules now s items reqType m"

definition ListAutoApproveRules :: "nanos \<Rightarrow> Manager \<Rightarrow> AutoApproveRule list" where
  "ListAutoApproveRules now m = filter (\<lambda>r. now < ar_ExpiresAt r) (mg_autoApproveRules m)"

fun remove_rule :: "string \<Rightarrow> AutoApproveRule list \<Rightarrow> (AutoApproveRule \<times> AutoApproveRule list) option" where
  "remove_rule i [] = None"
| "remove_rule i (r # rs) =
     (if ar_ID r = i then Some (r, rs) else map_option (\<lambda>(x, xs). (x, r # xs)) (remove_rule i rs))"

definition RemoveAutoApproveRule :: "nanos \<Rightarrow> string \<Rightarrow> Manager \<Rightarrow> go_error option \<times> Manager" where
  "RemoveAutoApproveRule now i m =
     (case remove_rule i (mg_autoApproveRules m) of
        None \<Rightarrow> (Some ErrNotFound, m)
      | Some (removed, rules) \<Rightarrow>
          (None, notify now (ruleEvent EventAutoApproveRuleRemoved removed)
                   (m\<lparr>mg_autoApproveRules := rules\<rparr>)))"

subsection \<open>Requests that need no decision\<close>

definition newRequest :: "string \<Rightarrow> nanos \<Rightarrow> nanos \<Rightarrow> string \<Rightarrow> ItemInfo list \<Rightarrow> string \<Rightarrow> RequestType
    \<Rightarrow> (string, string) gomap \<Rightarrow> SenderInfo \<Rightarrow> Request" where
  "newRequest uid created expires client items session reqType searchAttrs senderInfo =
     \<lparr>rq_ID = uid, rq_Client = client, rq_Items = items, rq_Session = session,
      rq_CreatedAt = created, rq_ExpiresAt = expires, rq_Type = reqType,
      rq_SearchAttributes = searchAttrs, rq_SenderInfo = senderInfo, rq_GPGSignInfo = None,
      rq_Signature = [], rq_GPGStatus = [], rq_GPGExitCode = 0\<rparr>"

definition RecordPassthrough :: "nanos \<Rightarrow> string \<Rightarrow> string \<Rightarrow> ItemInfo list \<Rightarrow> string \<Rightarrow> RequestType
    \<Rightarrow> (string, string) gomap \<Rightarrow> SenderInfo \<Rightarrow> Manager \<Rightarrow> Manager" where
  "RecordPassthrough now uid client items session reqType searchAttrs senderInfo m =
     notify now (reqEvent EventRequestAutoApproved
       (newRequest uid now now client items session reqType searchAttrs senderInfo)) m"

definition RecordIgnored :: "nanos \<Rightarrow> string \<Rightarrow> string \<Rightarrow> ItemInfo list \<Rightarrow> string \<Rightarrow> SenderInfo
    \<Rightarrow> Manager \<Rightarrow> Manager" where
  "RecordIgnored now uid client items session senderInfo m =
     notify now (reqEvent EventRequestIgnored
       (newRequest uid now now client items session RequestTypeWrite [] senderInfo)) m"

definition RecordDenied :: "nanos \<Rightarrow> string \<Rightarrow> string \<Rightarrow> ItemInfo list \<Rightarrow> string \<Rightarrow> RequestType
    \<Rightarrow> (string, string) gomap \<Rightarrow> SenderInfo \<Rightarrow> Manager \<Rightarrow> Manager" where
  "RecordDenied now uid client items session reqType searchAttrs senderInfo m =
     notify now (reqEvent EventRequestDenied
       (newRequest uid now now client items session reqType searchAttrs senderInfo)) m"

subsection \<open>RequireApproval\<close>

type_synonym approval_result = "bool \<times> go_error option"

text \<open>Up to the \<open>select\<close>: \<open>Some\<close> result, or \<open>None\<close> with the request \<open>uid\<close> pending.\<close>

definition RequireApproval_begin :: "nanos \<Rightarrow> string \<Rightarrow> string \<Rightarrow> ItemInfo list \<Rightarrow> string \<Rightarrow> RequestType
    \<Rightarrow> (string, string) gomap \<Rightarrow> SenderInfo \<Rightarrow> Manager \<Rightarrow> approval_result option \<times> Manager" where
  "RequireApproval_begin now uid client items session reqType searchAttrs senderInfo m =
     (if mg_disabled m then (Some (True, None), m)
      else
       (let (hit, m) =
          (if reqType \<noteq> RequestTypeDelete \<and> reqType \<noteq> RequestTypeWrite \<and>
              mg_approvalWindow m > 0 \<and> length items > 0
           then checkApprovalCache now (si_Sender senderInfo) items m else (False, m))
        in if hit then (Some (True, None), m)
        else (let (rule, m) = checkAutoApproveRules now senderInfo items reqType m in
         case rule of
           Some r \<Rightarrow>
             (Some (True, None),
              notify now (reqEvent EventRequestAutoApproved
                (newRequest uid now now client items session reqType searchAttrs senderInfo)) m)
         | None \<Rightarrow>
            (case CheckTrustRules m senderInfo items reqType searchAttrs of
               Some r \<Rightarrow>
                 (let action = (if tr_Action r = [] then ''approve'' else tr_Action r);
                      req = newRequest uid now now client items session reqType searchAttrs senderInfo
                  in if action = ''ignore'' then
                       (Some (True, Some ErrIgnored), notify now (reqEvent EventRequestIgnored req) m)
                     else if action = ''deny'' then
                       (Some (True, Some ErrDeniedByRule), notify now (reqEvent EventRequestDenied req) m)
                     else (Some (True, None), notify now (reqEvent EventRequestAutoApproved req) m))
             | None \<Rightarrow>
                 (let req = newRequest uid now (now + mg_timeout m) client items session reqType
                              searchAttrs senderInfo
                  in (None, notify now (reqEvent EventRequestCreated req)
                              (m\<lparr>mg_pending := gm_put uid req (mg_pending m)\<rparr>)))))))"

datatype select_case = SelDone | SelTimer | SelCtx

text \<open>
  The branch taken.  The \<open>done\<close> branch is ready only once the channel is closed, and then reads
  \<open>result\<close>; \<open>None\<close> means that the branch is not ready and the goroutine keeps waiting.
\<close>

definition RequireApproval_select :: "select_case \<Rightarrow> nanos \<Rightarrow> Request \<Rightarrow> Manager
    \<Rightarrow> approval_result option \<times> Manager" where
  "RequireApproval_select sel now req m =
     (case sel of
        SelDone \<Rightarrow> (case map_of (mg_done m) (rq_ID req) of
            None \<Rightarrow> (None, m)
          | Some res \<Rightarrow> (Some (False, if res then None else Some ErrDenied), m))
      | SelTimer \<Rightarrow> (Some (False, Some ErrTimeout), notify now (reqEvent EventRequestExpired req) m)
      | SelCtx \<Rightarrow> (Some (False, Some ErrCanceled), notify now (reqEvent EventRequestCancelled req) m))"

definition RequireApproval_cleanup :: "Request \<Rightarrow> Manager \<Rightarrow> Manager" where
  "RequireApproval_cleanup req m = m\<lparr>mg_pending := gm_del (rq_ID req) (mg_pending m)\<rparr>"

text \<open>
  The whole call.  \<open>others\<close> is what the rest of the program does to the manager while the call
  blocks and \<open>sel\<close> the branch its \<open>select\<close> takes after that, at time \<open>later\<close>; the result \<open>None\<close>
  means that it is still blocked.
\<close>

record wait_env =
  we_others :: "Manager \<Rightarrow> Manager"
  we_sel :: select_case
  we_later :: nanos

definition RequireApproval :: "wait_env \<Rightarrow> nanos \<Rightarrow> string \<Rightarrow> string \<Rightarrow> ItemInfo list \<Rightarrow> string \<Rightarrow> RequestType
    \<Rightarrow> (string, string) gomap \<Rightarrow> SenderInfo \<Rightarrow> Manager \<Rightarrow> approval_result option \<times> Manager" where
  "RequireApproval env now uid client items session reqType searchAttrs senderInfo m =
     (case RequireApproval_begin now uid client items session reqType searchAttrs senderInfo m of
        (Some r, m1) \<Rightarrow> (Some r, m1)
      | (None, m1) \<Rightarrow>
          (let req = newRequest uid now (now + mg_timeout m1) client items session reqType searchAttrs senderInfo in
           case RequireApproval_select (we_sel env) (we_later env) req (we_others env m1) of
             (Some r, m2) \<Rightarrow> (Some r, RequireApproval_cleanup req m2)
           | (None, m2) \<Rightarrow> (None, m2)))"

subsection \<open>Listing and resolving\<close>

definition ListPending :: "nanos \<Rightarrow> Manager \<Rightarrow> Request list" where
  "ListPending now m = filter (\<lambda>r. now < rq_ExpiresAt r) (map snd (mg_pending m))"

definition PendingCount :: "Manager \<Rightarrow> nat" where
  "PendingCount m = length (mg_pending m)"

definition Timeout :: "Manager \<Rightarrow> nanos" where
  "Timeout m = mg_timeout m"

definition GetPending :: "string \<Rightarrow> Manager \<Rightarrow> Request option" where
  "GetPending i m = map_of (mg_pending m) i"

text \<open>\<open>req.result = res; close(req.done)\<close>: closing a closed channel panics.\<close>

definition closeDone :: "string \<Rightarrow> bool \<Rightarrow> Manager \<Rightarrow> Manager" where
  "closeDone i res m =
     (if map_of (mg_done m) i = None then m\<lparr>mg_done := gm_put i res (mg_done m)\<rparr>
      else m\<lparr>mg_panic := True\<rparr>)"

text \<open>
  The section under the lock that the six resolving operations share: look the request up, write
  its fields, remove it, close its channel.
\<close>

definition takePending :: "string \<Rightarrow> bool \<Rightarrow> Manager \<Rightarrow> (Request \<times> Manager) option" where
  "takePending i res m =
     (case map_of (mg_pending m) i of
        None \<Rightarrow> None
      | Some req \<Rightarrow> Some (req, closeDone i res (m\<lparr>mg_pending := gm_del i (mg_pending m)\<rparr>)))"

text \<open>
  What a goroutine has left to do once it has released the lock, one section at a time: hand an event
  to the observers (under \<open>observersMu\<close>, one observer after the other, then record it in the
  history), cache an approval (under \<open>cacheMu\<close>), add an auto-approve rule (under
  \<open>autoApproveMu\<close>).  \<open>carryOut\<close> is what such a task amounts to when nobody comes in between; how the
  sections of several goroutines interleave is the subject of theory Approval_Machine.
\<close>

datatype task = Notify Event | Deliver nat Event | Record Event | CacheIt Request | AddRule string Request

fun carryOut :: "nanos \<Rightarrow> task \<Rightarrow> Manager \<Rightarrow> Manager" where
  "carryOut now (Notify e) m = notify now e m"
| "carryOut now (Deliver ob e) m = m\<lparr>mg_delivered := mg_delivered m @ [(ob, e)]\<rparr>"
| "carryOut now (Record e) m = addHistory now e m"
| "carryOut now (CacheIt req) m = cacheApproval now req m"
| "carryOut now (AddRule uid req) m = snd (AddAutoApproveRule now uid req m)"

text \<open>
  The six resolving operations: what they do under the lock, with what is left to do after it
  (\<open>None\<close> is the early return with \<open>ErrNotFound\<close>), and the whole call.
\<close>

definition resolving :: "nanos \<Rightarrow> (task list \<times> Manager) option \<Rightarrow> Manager \<Rightarrow> go_error option \<times> Manager" where
  "resolving now section m =
     (case section of
        None \<Rightarrow> (Some ErrNotFound, m)
      | Some (tasks, m1) \<Rightarrow> (None, fold (carryOut now) tasks m1))"

definition Approve_section :: "string \<Rightarrow> Manager \<Rightarrow> (task list \<times> Manager) option" where
  "Approve_section i m =
     (case takePending i True m of
        None \<Rightarrow> None
      | Some (req, m1) \<Rightarrow> Some ([Notify (reqEvent EventRequestApproved req), CacheIt req], m1))"

definition Approve :: "nanos \<Rightarrow> string \<Rightarrow> Manager \<Rightarrow> go_error option \<times> Manager" where
  "Approve now i m = resolving now (Approve_section i m) m"

definition ApproveAndAutoApprove_section :: "string \<Rightarrow> string \<Rightarrow> Manager \<Rightarrow> (task list \<times> Manager) option" where
  "ApproveAndAutoApprove_section uid i m =
     (case takePending i True m of
        None \<Rightarrow> None
      | Some (req, m1) \<Rightarrow>
          Some ([Notify (reqEvent EventRequestApproved req), CacheIt req, AddRule uid req], m1))"

definition ApproveAndAutoApprove :: "nanos \<Rightarrow> string \<Rightarrow> string \<Rightarrow> Manager \<Rightarrow> go_error option \<times> Manager" where
  "ApproveAndAutoApprove now uid i m = resolving now (ApproveAndAutoApprove_section uid i m) m"

definition Deny_section :: "string \<Rightarrow> Manager \<Rightarrow> (task list \<times> Manager) option" where
  "Deny_section i m =
     (case takePending i False m of
        None \<Rightarrow> None
      | Some (req, m1) \<Rightarrow> Some ([Notify (reqEvent EventRequestDenied req)], m1))"

definition Deny :: "nanos \<Rightarrow> string \<Rightarrow> Manager \<Rightarrow> go_error option \<times> Manager" where
  "Deny now i m = resolving now (Deny_section i m) m"

definition Cancel_section :: "string \<Rightarrow> Manager \<Rightarrow> (task list \<times> Manager) option" where
  "Cancel_section i m =
     (case takePending i False m of
        None \<Rightarrow> None
      | Some (req, m1) \<Rightarrow> Some ([Notify (reqEvent EventRequestCancelled req)], m1))"

definition Cancel :: "nanos \<Rightarrow> string \<Rightarrow> Manager \<Rightarrow> go_error option \<times> Manager" where
  "Cancel now i m = resolving now (Cancel_section i m) m"

definition ApproveWithSignature_section :: "string \<Rightarrow> bytes \<Rightarrow> bytes \<Rightarrow> Manager \<Rightarrow> (task list \<times> Manager) option" where
  "ApproveWithSignature_section i sig status m =
     (case takePending i True m of
        None \<Rightarrow> None
      | Some (req, m1) \<Rightarrow>
          (let req = req\<lparr>rq_Signature := sig, rq_GPGStatus := status\<rparr>
           in Some ([Notify (reqEvent EventRequestApproved req), CacheIt req], m1)))"

definition ApproveWithSignature :: "nanos \<Rightarrow> string \<Rightarrow> bytes \<Rightarrow> bytes \<Rightarrow> Manager \<Rightarrow> go_error option \<times> Manager" where
  "ApproveWithSignature now i sig status m = resolving now (ApproveWithSignature_section i sig status m) m"

definition ApproveGPGFailed_section :: "string \<Rightarrow> bytes \<Rightarrow> int \<Rightarrow> Manager \<Rightarrow> (task list \<times> Manager) option" where
  "ApproveGPGFailed_section i status exitCode m =
     (case takePending i True m of
        None \<Rightarrow> None
      | Some (req, m1) \<Rightarrow>
          (let req = req\<lparr>rq_GPGStatus := status, rq_GPGExitCode := exitCode\<rparr>
           in Some ([Notify (reqEvent EventRequestApproved req)], m1)))"

definition ApproveGPGFailed :: "nanos \<Rightarrow> string \<Rightarrow> bytes \<Rightarrow> int \<Rightarrow> Manager \<Rightarrow> go_error option \<times> Manager" where
  "ApproveGPGFailed now i status exitCode m = resolving now (ApproveGPGFailed_section i status exitCode m) m"

lemmas section_defs = Approve_section_def ApproveAndAutoApprove_section_def Deny_section_def Cancel_section_def
  ApproveWithSignature_section_def ApproveGPGFailed_section_def

text \<open>The whole calls, written out.\<close>

lemma Approve_eq:
  "Approve now i m =
     (case takePending i True m of
        None \<Rightarrow> (Some ErrNotFound, m)
      | Some (req, m1) \<Rightarrow>
          (None, cacheApproval now req (notify now (reqEvent EventRequestApproved req) m1)))"
  by (simp add: Approve_def Approve_section_def resolving_def split: option.split)

lemma ApproveAndAutoApprove_eq:
  "ApproveAndAutoApprove now uid i m =
     (case takePending i True m of
        None \<Rightarrow> (Some ErrNotFound, m)
      | Some (req, m1) \<Rightarrow>
          (None, snd (AddAutoApproveRule now uid req
                   (cacheApproval now req (notify now (reqEvent EventRequestApproved req) m1)))))"
  by (simp add: ApproveAndAutoApprove_def ApproveAndAutoApprove_section_def resolving_def split: option.split)

lemma Deny_eq:
  "Deny now i m =
     (case takePending i False m of
        None \<Rightarrow> (Some ErrNotFound, m)
      | Some (req, m1) \<Rightarrow> (None, notify now (reqEvent EventRequestDenied req) m1))"
  by (simp add: Deny_def Deny_section_def resolving_def split: option.split)

lemma Cancel_eq:
  "Cancel now i m =
     (case takePending i False m of
        None \<Rightarrow> (Some ErrNotFound, m)
      | Some (req, m1) \<Rightarrow> (None, notify now (reqEvent EventRequestCancelled req) m1))"
  by (simp add: Cancel_def Cancel_section_def resolving_def split: option.split)

lemma ApproveWithSignature_eq:
  "ApproveWithSignature now i sig status m =
     (case takePending i True m of
        None \<Rightarrow> (Some ErrNotFound, m)
      | Some (req, m1) \<Rightarrow>
          (let req = req\<lparr>rq_Signature := sig, rq_GPGStatus := status\<rparr>
           in (None, cacheApproval now req (notify now (reqEvent EventRequestApproved req) m1))))"
  by (simp add: ApproveWithSignature_def ApproveWithSignature_section_def resolving_def Let_def split: option.split)

lemma ApproveGPGFailed_eq:
  "ApproveGPGFailed now i status exitCode m =
     (case takePending i True m of
        None \<Rightarrow> (Some ErrNotFound, m)
      | Some (req, m1) \<Rightarrow>
          (let req = req\<lparr>rq_GPGStatus := status, rq_GPGExitCode := exitCode\<rparr>
           in (None, notify now (reqEvent EventRequestApproved req) m1)))"
  by (simp add: ApproveGPGFailed_def ApproveGPGFailed_section_def resolving_def Let_def split: option.split)

lemmas resolver_eqs = Approve_eq ApproveAndAutoApprove_eq Deny_eq Cancel_eq ApproveWithSignature_eq ApproveGPGFailed_eq

subsection \<open>Commit signing requests\<close>

definition gpgRequest :: "string \<Rightarrow> nanos \<Rightarrow> nanos \<Rightarrow> string \<Rightarrow> GPGSignInfo \<Rightarrow> SenderInfo \<Rightarrow> Request" where
  "gpgRequest uid created expires client info senderInfo =
     (newRequest uid created expires client [] [] RequestTypeGPGSign [] senderInfo)\<lparr>rq_GPGSignInfo := Some info\<rparr>"

definition RecordAutoApprovedGPGSign :: "nanos \<Rightarrow> string \<Rightarrow> string \<Rightarrow> GPGSignInfo option \<Rightarrow> SenderInfo
    \<Rightarrow> bytes \<Rightarrow> bytes \<Rightarrow> Manager \<Rightarrow> (go_error + string) \<times> Manager" where
  "RecordAutoApprovedGPGSign now uid client info senderInfo sig status m =
     (case info of
        None \<Rightarrow> (Inl (ErrText ''gpg sign info is required''), m)
      | Some gi \<Rightarrow>
          (let req = (gpgRequest uid now now client gi senderInfo)\<lparr>rq_Signature := sig, rq_GPGStatus := status\<rparr>
           in (Inr uid, notify now (reqEvent EventRequestAutoApproved req) (closeDone uid False m))))"

definition CreateGPGSignRequest :: "nanos \<Rightarrow> string \<Rightarrow> string \<Rightarrow> GPGSignInfo option \<Rightarrow> SenderInfo \<Rightarrow> Manager
    \<Rightarrow> (go_error + string) \<times> Manager" where
  "CreateGPGSignRequest now uid client info senderInfo m =
     (case info of
        None \<Rightarrow> (Inl (ErrText ''gpg sign info is required''), m)
      | Some gi \<Rightarrow>
          (let req = gpgRequest uid now (now + mg_timeout m) client gi senderInfo
           in (Inr uid, notify now (reqEvent EventRequestCreated req)
                          (m\<lparr>mg_pending := gm_put uid req (mg_pending m)\<rparr>))))"

text \<open>The timer branch of the goroutine \<open>CreateGPGSignRequest\<close> starts: remove, then report.\<close>

definition gpgTimeout_remove :: "Request \<Rightarrow> Manager \<Rightarrow> Manager" where
  "gpgTimeout_remove req m = m\<lparr>mg_pending := gm_del (rq_ID req) (mg_pending m)\<rparr>"

definition gpgTimeout_notify :: "nanos \<Rightarrow> Request \<Rightarrow> Manager \<Rightarrow> Manager" where
  "gpgTimeout_notify now req m = notify now (reqEvent EventRequestExpired req) m"

end
