(* ===== verification/Sample_Data.thy ===== *)
theory Sample_Data
  imports Approval_Manager
begin

text \<open>
  Concrete values at which the theorems with hypotheses are instantiated: a manager with a trust
  rule for one collection, a caller with a resolved executable, two items, a pending request.
\<close>

definition exTool :: ProcessInfo where
  "exTool = \<lparr>pi_Name = ''gh'', pi_PID = 42, pi_Exe = ''/usr/bin/gh'', pi_Args = [''gh'', ''auth''],
     pi_CWD = ''/home/u''\<rparr>"

definition exSender :: SenderInfo where
  "exSender = \<lparr>si_Sender = '':1.7'', si_PID = 42, si_UID = 1000, si_UserName = ''u'',
     si_InvokerName = ''gh'', si_SystemdUnit = ''app.scope'', si_ProcessChain = [exTool],
     si_PeerTrusted = False\<rparr>"

definition exItem :: ItemInfo where
  "exItem = \<lparr>ii_Path = ''/org/freedesktop/secrets/collection/login/1'', ii_Label = ''token'',
     ii_Attributes = [(''service'', ''gh'')]\<rparr>"

definition exItem2 :: ItemInfo where
  "exItem2 = \<lparr>ii_Path = ''/org/freedesktop/secrets/collection/work/9'', ii_Label = ''vpn'',
     ii_Attributes = [(''service'', ''vpn'')]\<rparr>"

definition exTrust :: TrustRule where
  "exTrust = \<lparr>tr_Name = ''gh reads login'', tr_Action = ''approve'', tr_RequestTypes = [''get_secret''],
     tr_Process = Some \<lparr>pm_Exe = ''/usr/bin/gh'', pm_Name = [], pm_Args = [], pm_CWD = [], pm_Unit = []\<rparr>,
     tr_Secret = Some \<lparr>sm_Collection = ''login'', sm_Label = [], sm_Attributes = []\<rparr>,
     tr_SearchAttributes = []\<rparr>"

definition exConfig :: ManagerConfig where
  "exConfig = \<lparr>mc_Timeout = 1000, mc_HistoryMax = 3, mc_ApprovalWindow = 50,
     mc_AutoApproveDuration = 200, mc_TrustedSigners = [], mc_IgnoreChromeDummy = True,
     mc_TrustRules = []\<rparr>"

definition exManager :: Manager where
  "exManager = NewManager exConfig"

definition exTrusting :: Manager where
  "exTrusting = NewManager (exConfig\<lparr>mc_TrustRules := [exTrust]\<rparr>)"

definition exRequest :: Request where
  "exRequest = newRequest ''r1'' 100 1100 ''local'' [exItem] ''/s/1'' RequestTypeGetSecret [] exSender"

definition exPending :: Manager where
  "exPending = snd (RequireApproval_begin 100 ''r1'' ''local'' [exItem] ''/s/1'' RequestTypeGetSecret [] exSender exManager)"

lemmas ex_defs = exTool_def exSender_def exItem_def exItem2_def exTrust_def exConfig_def exManager_def
  exTrusting_def exRequest_def exPending_def

end
