(* ===== verification/Approval_Facts.thy ===== *)
theory Approval_Facts
  imports Sample_Data
begin

text \<open>
  What the operations of the approval manager promise, taken one call at a time: which fields an
  operation leaves alone, a declarative policy that \<open>RequireApproval\<close> implements up to the point
  where it asks the user, the approval cache, auto-approve rules, and the six resolving calls.
  How these calls interleave is the subject of \<open>Approval_Machine\<close>.
\<close>

subsection \<open>Frames\<close>

lemma AddHistoryEntry_frame [simp, step_frames]:
  "mg_pending (AddHistoryEntry e m) = mg_pending m"
   "mg_done (AddHistoryEntry e m) = mg_done m"
   "mg_timeout (AddHistoryEntry e m) = mg_timeout m"
   "mg_disabled (AddHistoryEntry e m) = mg_disabled m"
   "mg_observers (AddHistoryEntry e m) = mg_observers m"
   "mg_historyMax (AddHistoryEntry e m) = mg_historyMax m"
   "mg_approvalWindow (AddHistoryEntry e m) = mg_approvalWindow m"
   "mg_cache (AddHistoryEntry e m) = mg_cache m"
   "mg_autoApproveRules (AddHistoryEntry e m) = mg_autoApproveRules m"
   "mg_autoApproveDuration (AddHistoryEntry e m) = mg_autoApproveDuration m"
   "mg_trustedSigners (AddHistoryEntry e m) = mg_trustedSigners m"
   "mg_ignoreChromeDummy (AddHistoryEntry e m) = mg_ignoreChromeDummy m"
   "mg_trustRules (AddHistoryEntry e m) = mg_trustRules m"
   "mg_delivered (AddHistoryEntry e m) = mg_delivered m"
  by (simp_all add: AddHistoryEntry_def Let_def split: option.splits)

lemma addHistory_frame [simp, step_frames]:
  "mg_pending (addHistory now e m) = mg_pending m"
  "mg_done (addHistory now e m) = mg_done m"
  "mg_timeout (addHistory now e m) = mg_timeout m"
  "mg_disabled (addHistory now e m) = mg_disabled m"
  "mg_observers (addHistory now e m) = mg_observers m"
  "mg_historyMax (addHistory now e m) = mg_historyMax m"
  "mg_approvalWindow (addHistory now e m) = mg_approvalWindow m"
  "mg_cache (addHistory now e m) = mg_cache m"
  "mg_autoApproveRules (addHistory now e m) = mg_autoApproveRules m"
  "mg_autoApproveDuration (addHistory now e m) = mg_autoApproveDuration m"
  "mg_trustedSigners (addHistory now e m) = mg_trustedSigners m"
  "mg_ignoreChromeDummy (addHistory now e m) = mg_ignoreChromeDummy m"
  "mg_trustRules (addHistory now e m) = mg_trustRules m"
  "mg_delivered (addHistory now e m) = mg_delivered m"
  by (simp_all add: addHistory_def split: option.splits)

lemma notify_frame [simp, step_frames]:
  "mg_pending (notify now e m) = mg_pending m"
  "mg_done (notify now e m) = mg_done m"
  "mg_timeout (notify now e m) = mg_timeout m"
  "mg_disabled (notify now e m) = mg_disabled m"
  "mg_observers (notify now e m) = mg_observers m"
  "mg_historyMax (notify now e m) = mg_historyMax m"
  "mg_approvalWindow (notify now e m) = mg_approvalWindow m"
  "mg_cache (notify now e m) = mg_cache m"
  "mg_autoApproveRules (notify now e m) = mg_autoApproveRules m"
  "mg_autoApproveDuration (notify now e m) = mg_autoApproveDuration m"
  "mg_trustedSigners (notify now e m) = mg_trustedSigners m"
  "mg_ignoreChromeDummy (notify now e m) = mg_ignoreChromeDummy m"
  "mg_trustRules (notify now e m) = mg_trustRules m"
  by (simp_all add: notify_def Let_def)

lemma cacheApproval_frame [simp, step_frames]:
  "mg_pending (cacheApproval now req m) = mg_pending m"
  "mg_done (cacheApproval now req m) = mg_done m"
  "mg_disabled (cacheApproval now req m) = mg_disabled m"
  "mg_history (cacheApproval now req m) = mg_history m"
  "mg_historyMax (cacheApproval now req m) = mg_historyMax m"
  "mg_delivered (cacheApproval now req m) = mg_delivered m"
  "mg_approvalWindow (cacheApproval now req m) = mg_approvalWindow m"
  "mg_autoApproveRules (cacheApproval now req m) = mg_autoApproveRules m"
  "mg_autoApproveDuration (cacheApproval now req m) = mg_autoApproveDuration m"
  "mg_trustRules (cacheApproval now req m) = mg_trustRules m"
  "mg_panic (cacheApproval now req m) = mg_panic m"
  by (simp_all add: cacheApproval_def)

lemma closeDone_frame [simp, step_frames]:
  "mg_pending (closeDone i res m) = mg_pending m"
  "mg_disabled (closeDone i res m) = mg_disabled m"
  "mg_history (closeDone i res m) = mg_history m"
  "mg_historyMax (closeDone i res m) = mg_historyMax m"
  "mg_approvalWindow (closeDone i res m) = mg_approvalWindow m"
  "mg_cache (closeDone i res m) = mg_cache m"
  "mg_autoApproveRules (closeDone i res m) = mg_autoApproveRules m"
  "mg_autoApproveDuration (closeDone i res m) = mg_autoApproveDuration m"
  "mg_trustRules (closeDone i res m) = mg_trustRules m"
  "mg_observers (closeDone i res m) = mg_observers m"
  "mg_delivered (closeDone i res m) = mg_delivered m"
  by (simp_all add: closeDone_def)

lemma AddAutoApproveRule_frame [simp, step_frames]:
  "mg_pending (snd (AddAutoApproveRule now uid req m)) = mg_pending m"
  "mg_done (snd (AddAutoApproveRule now uid req m)) = mg_done m"
  "mg_disabled (snd (AddAutoApproveRule now uid req m)) = mg_disabled m"
  "mg_historyMax (snd (AddAutoApproveRule now uid req m)) = mg_historyMax m"
  "mg_approvalWindow (snd (AddAutoApproveRule now uid req m)) = mg_approvalWindow m"
  "mg_cache (snd (AddAutoApproveRule now uid req m)) = mg_cache m"
  "mg_trustRules (snd (AddAutoApproveRule now uid req m)) = mg_trustRules m"
  by (simp_all add: AddAutoApproveRule_def Let_def split: option.splits prod.splits)

lemma notify_rule_history [simp]:
  "ev_Type e = EventRequestCreated \<or> ev_Type e = EventAutoApproveRuleAdded \<or>
   ev_Type e = EventAutoApproveRuleRemoved \<Longrightarrow>
     mg_history (notify now e m) = mg_history m \<and> mg_panic (notify now e m) = mg_panic m"
  by (auto simp: notify_def Let_def)

subsection \<open>History\<close>

lemma AddHistoryEntry_take:
  "0 \<le> mg_historyMax m \<Longrightarrow>
     AddHistoryEntry e m = m\<lparr>mg_history := take (nat (mg_historyMax m)) (e # mg_history m)\<rparr>"
  by (auto simp: AddHistoryEntry_def Let_def goslice_def)

lemma notify_terminal:
  assumes "0 \<le> mg_historyMax m" and "resolutionOf t = Some res"
  shows "mg_history (notify now (reqEvent t req) m) =
           take (nat (mg_historyMax m))
             (\<lparr>he_Request = req, he_Resolution = res, he_ResolvedAt = now\<rparr> # mg_history m)"
    and "mg_panic (notify now (reqEvent t req) m) = mg_panic m"
  using assms by (cases t; simp add: notify_def addHistory_def AddHistoryEntry_take)+

lemma notify_panic [simp]: "0 \<le> mg_historyMax m \<Longrightarrow> mg_panic (notify now e m) = mg_panic m"
  by (auto simp: notify_def Let_def addHistory_def AddHistoryEntry_take split: option.splits)

lemma notify_history_length:
  "0 \<le> mg_historyMax m \<Longrightarrow> int (length (mg_history m)) \<le> mg_historyMax m \<Longrightarrow>
     int (length (mg_history (notify now e m))) \<le> mg_historyMax m"
  by (auto simp: notify_def Let_def addHistory_def AddHistoryEntry_take split: option.splits)

subsection \<open>The approval cache\<close>

text \<open>An item is fresh for a sender when its entry is at most one window old.\<close>

definition cachedFresh :: "(string, nanos) gomap \<Rightarrow> nanos \<Rightarrow> nanos \<Rightarrow> string \<Rightarrow> ItemInfo \<Rightarrow> bool" where
  "cachedFresh cache now window sender item \<longleftrightarrow>
     (case map_of cache (approvalCacheKey sender (ii_Path item)) of
        None \<Rightarrow> False | Some ts \<Rightarrow> now - window \<le> ts)"

lemma cache_loop_fst:
  "fst (cache_loop sender cutoff items cache) \<longleftrightarrow>
     list_all (cachedFresh cache (cutoff + w) w sender) items"
  by (induction sender cutoff items cache rule: cache_loop.induct)
     (auto simp: cachedFresh_def Let_def split: option.splits)

lemma cache_loop_get:
  "map_of (snd (cache_loop sender cutoff items cache)) k = Some ts \<Longrightarrow> map_of cache k = Some ts"
  by (induction sender cutoff items cache rule: cache_loop.induct)
     (auto simp: Let_def split: option.splits if_splits)

lemma checkApprovalCache_fst:
  "fst (checkApprovalCache now sender items m) \<longleftrightarrow>
     mg_approvalWindow m > 0 \<and> list_all (cachedFresh (mg_cache m) now (mg_approvalWindow m) sender) items"
  using cache_loop_fst [of sender "now - mg_approvalWindow m" items "mg_cache m" "mg_approvalWindow m"]
  by (auto simp: checkApprovalCache_def split: prod.splits)

lemma checkApprovalCache_snd:
  "\<exists>c. snd (checkApprovalCache now sender items m) = m\<lparr>mg_cache := c\<rparr>"
proof (cases "mg_approvalWindow m \<le> 0")
  case True
  then have "snd (checkApprovalCache now sender items m) = m\<lparr>mg_cache := mg_cache m\<rparr>"
    by (simp add: checkApprovalCache_def)
  then show ?thesis ..
qed (auto simp: checkApprovalCache_def split: prod.splits)

lemma fold_put_get:
  "map_of (fold (\<lambda>x c. gm_put (f x) v c) xs c) k = (if k \<in> f ` set xs then Some v else map_of c k)"
  by (induction xs arbitrary: c) auto

lemma cacheApproval_get:
  assumes "mg_approvalWindow m > 0"
  shows "map_of (mg_cache (cacheApproval now req m)) k =
     (if k \<in> (\<lambda>it. approvalCacheKey (si_Sender (rq_SenderInfo req)) (ii_Path it)) ` set (rq_Items req)
      then Some now else map_of (mg_cache m) k)"
  using assms by (simp add: cacheApproval_def fold_put_get)

text \<open>The separator cannot occur in a D-Bus sender name, so the key determines both parts.\<close>

lemma approvalCacheKey_inject:
  assumes "CHR 0x00 \<notin> set s" and "CHR 0x00 \<notin> set s'"
  shows "approvalCacheKey s p = approvalCacheKey s' p' \<longleftrightarrow> s = s' \<and> p = p'"
  using assms by (auto simp: approvalCacheKey_def append_eq_append_conv2 Cons_eq_append_conv append_eq_Cons_conv)

subsection \<open>RequireApproval up to the point where it asks\<close>

definition cacheable :: "Manager \<Rightarrow> RequestType \<Rightarrow> ItemInfo list \<Rightarrow> bool" where
  "cacheable m t items \<longleftrightarrow> t \<noteq> RequestTypeDelete \<and> t \<noteq> RequestTypeWrite \<and>
     mg_approvalWindow m > 0 \<and> items \<noteq> []"

definition trustOutcome :: "TrustRule \<Rightarrow> approval_result" where
  "trustOutcome r = (True, if tr_Action r = ''ignore'' then Some ErrIgnored
                           else if tr_Action r = ''deny'' then Some ErrDeniedByRule else None)"

text \<open>
  The policy, without loops, state updates or events: who gets through without a question
  (\<open>Some (True, None)\<close>), who is turned away by a rule, and who is put before the user (\<open>None\<close>).
\<close>

definition approvalPolicy :: "nanos \<Rightarrow> ItemInfo list \<Rightarrow> RequestType \<Rightarrow> (string, string) gomap \<Rightarrow> SenderInfo
    \<Rightarrow> Manager \<Rightarrow> approval_result option" where
  "approvalPolicy now items t sa s m =
     (if mg_disabled m then Some (True, None)
      else if cacheable m t items \<and>
              (\<forall>it \<in> set items. cachedFresh (mg_cache m) now (mg_approvalWindow m) (si_Sender s) it)
      then Some (True, None)
      else if \<exists>r \<in> set (mg_autoApproveRules m). now \<le> ar_ExpiresAt r \<and> autoRuleMatches s items t r
      then Some (True, None)
      else map_option trustOutcome (List.find (\<lambda>r. matchTrustRule r s items t sa) (mg_trustRules m)))"

lemma checkAutoApproveRules_eq:
  "checkAutoApproveRules now s items t m =
     (List.find (autoRuleMatches s items t) (liveRules now (mg_autoApproveRules m)),
      m\<lparr>mg_autoApproveRules := liveRules now (mg_autoApproveRules m)\<rparr>)"
  by (simp add: checkAutoApproveRules_def autoRules_loop_eq)

lemma find_liveRules:
  "List.find P (liveRules now rs) = None \<longleftrightarrow> \<not> (\<exists>r \<in> set rs. now \<le> ar_ExpiresAt r \<and> P r)"
  by (auto simp: find_None_iff)

lemma cache_phase:
  "\<exists>c. (if t \<noteq> RequestTypeDelete \<and> t \<noteq> RequestTypeWrite \<and> mg_approvalWindow m > 0 \<and> length items > 0
        then checkApprovalCache now (si_Sender s) items m else (False, m)) =
     (cacheable m t items \<and>
        (\<forall>it \<in> set items. cachedFresh (mg_cache m) now (mg_approvalWindow m) (si_Sender s) it),
      m\<lparr>mg_cache := c\<rparr>)" (is "\<exists>c. ?e = (?h, _)")
proof (cases "cacheable m t items")
  case True
  obtain c where "snd (checkApprovalCache now (si_Sender s) items m) = m\<lparr>mg_cache := c\<rparr>"
    using checkApprovalCache_snd by blast
  moreover have "fst (checkApprovalCache now (si_Sender s) items m) = ?h"
    using True unfolding checkApprovalCache_fst by (simp add: cacheable_def list_all_iff)
  ultimately have "checkApprovalCache now (si_Sender s) items m = (?h, m\<lparr>mg_cache := c\<rparr>)"
    by (simp add: prod_eq_iff)
  with True show ?thesis by (auto simp: cacheable_def)
next
  case False
  then have "?e = (False, m\<lparr>mg_cache := mg_cache m\<rparr>)" by (auto simp: cacheable_def)
  with False show ?thesis by (intro exI [of _ "mg_cache m"]) simp
qed

lemma RequireApproval_begin_policy:
  "fst (RequireApproval_begin now uid client items session t sa s m) = approvalPolicy now items t sa s m"
proof -
  define h where "h = (cacheable m t items \<and>
    (\<forall>it \<in> set items. cachedFresh (mg_cache m) now (mg_approvalWindow m) (si_Sender s) it))"
  obtain c where c: "(if t \<noteq> RequestTypeDelete \<and> t \<noteq> RequestTypeWrite \<and> mg_approvalWindow m > 0 \<and> length items > 0
        then checkApprovalCache now (si_Sender s) items m else (False, m)) = (h, m\<lparr>mg_cache := c\<rparr>)"
    using cache_phase unfolding h_def by blast
  show ?thesis
    unfolding RequireApproval_begin_def approvalPolicy_def h_def [symmetric] c
    using find_liveRules [of "autoRuleMatches s items t" now "mg_autoApproveRules m"]
    by (cases h; cases "mg_disabled m";
        cases "List.find (autoRuleMatches s items t) (liveRules now (mg_autoApproveRules m))";
        cases "List.find (\<lambda>r. matchTrustRule r s items t sa) (mg_trustRules m)")
       (simp_all add: Let_def checkAutoApproveRules_eq CheckTrustRules_find trustOutcome_def)
qed

subsection \<open>Properties of the silent decision\<close>

text \<open>
  C6: \<open>RequireApproval\<close>, with its loops, cache clean-up, rule pruning and early returns, decides
  exactly as the declarative policy says for every request, up to the point where it asks the user.
\<close>

theorem RequireApproval_refines_policy:
  "fst (RequireApproval_begin now uid client items session t sa s m) = approvalPolicy now items t sa s m"
  by (rule RequireApproval_begin_policy)

lemma approvalPolicy_approved_iff:
  "approvalPolicy now items t sa s m = Some (True, None) \<longleftrightarrow>
     mg_disabled m \<or>
     (cacheable m t items \<and>
        (\<forall>it \<in> set items. cachedFresh (mg_cache m) now (mg_approvalWindow m) (si_Sender s) it)) \<or>
     List.find (autoRuleMatches s items t) (liveRules now (mg_autoApproveRules m)) \<noteq> None \<or>
     (\<exists>r. List.find (\<lambda>r. matchTrustRule r s items t sa) (mg_trustRules m) = Some r \<and>
          \<not> restrictiveAction (tr_Action r))"
  unfolding approvalPolicy_def find_liveRules
  by (auto simp: trustOutcome_def restrictiveAction_def split: if_splits)

text \<open>
  C3: No smuggling in a batch.  When a batch of items is approved without a question, every
  non-empty part of it (in particular every single item) would be approved without a question too:
  the cache, the auto-approve rules and the trust rules all have to cover each item, and a
  restrictive rule for one item stops the batch.
\<close>

theorem batch_approval_covers_each_item:
  assumes "fst (RequireApproval_begin now uid client items session t sa s m) = Some (True, None)"
    and "set items' \<subseteq> set items" and "items' \<noteq> []"
  shows "fst (RequireApproval_begin now uid' client' items' session' t sa s m) = Some (True, None)"
proof -
  have ne: "items \<noteq> []" using assms(2,3) by auto
  then have cc: "cacheable m t items' = cacheable m t items"
    using assms(3) by (simp add: cacheable_def)
  from assms(1) show ?thesis
    unfolding RequireApproval_begin_policy approvalPolicy_approved_iff cc
    using first_auto_sub [OF _ assms(2,3), of s t "liveRules now (mg_autoApproveRules m)"]
      first_permissive_sub [OF _ _ assms(2,3), of s t sa "mg_trustRules m"] assms(2)
    by blast
qed

theorem batch_approval_covers_each_item_witness:
  "fst (RequireApproval_begin 1 ''a'' ''c'' [exItem, exItem] ''s'' RequestTypeGetSecret [] exSender exTrusting) = Some (True, None) \<and>
   fst (RequireApproval_begin 1 ''b'' ''c'' [exItem] ''s'' RequestTypeGetSecret [] exSender exTrusting) = Some (True, None)"
proof -
  have 1: "fst (RequireApproval_begin 1 ''a'' ''c'' [exItem, exItem] ''s'' RequestTypeGetSecret [] exSender exTrusting) = Some (True, None)"
    by code_simp
  show ?thesis
    using 1 batch_approval_covers_each_item [OF 1, of "[exItem]"] by simp
qed

subsection \<open>Delete and write requests\<close>

lemma approvalPolicy_cache_irrelevant:
  "t = RequestTypeDelete \<or> t = RequestTypeWrite \<Longrightarrow>
     approvalPolicy now items t sa s (m\<lparr>mg_cache := c\<rparr>) = approvalPolicy now items t sa s m"
  by (auto simp: approvalPolicy_def cacheable_def)

text \<open>
  C19: A delete or a write is never let through on a cached approval: the outcome is the same
  whatever the cache holds.
\<close>

theorem delete_write_never_cached:
  assumes "t = RequestTypeDelete \<or> t = RequestTypeWrite"
  shows "fst (RequireApproval_begin now uid client items session t sa s (m\<lparr>mg_cache := c\<rparr>)) =
         fst (RequireApproval_begin now uid client items session t sa s m)"
  using assms by (simp only: RequireApproval_begin_policy approvalPolicy_cache_irrelevant)

theorem delete_write_never_cached_witness:
  "fst (RequireApproval_begin 101 ''r2'' ''c'' [exItem] ''s'' RequestTypeDelete [] exSender
     (exManager\<lparr>mg_cache := [(approvalCacheKey '':1.7'' (ii_Path exItem), 100)]\<rparr>)) = None \<and>
   fst (RequireApproval_begin 101 ''r2'' ''c'' [exItem] ''s'' RequestTypeGetSecret [] exSender
     (exManager\<lparr>mg_cache := [(approvalCacheKey '':1.7'' (ii_Path exItem), 100)]\<rparr>)) = Some (True, None)"
proof
  have "fst (RequireApproval_begin 101 ''r2'' ''c'' [exItem] ''s'' RequestTypeDelete [] exSender exManager) = None"
    by code_simp
  then show "fst (RequireApproval_begin 101 ''r2'' ''c'' [exItem] ''s'' RequestTypeDelete [] exSender
     (exManager\<lparr>mg_cache := [(approvalCacheKey '':1.7'' (ii_Path exItem), 100)]\<rparr>)) = None"
    using delete_write_never_cached [of RequestTypeDelete] by simp
qed code_simp

subsection \<open>Approving, and asking again\<close>

lemma takePending_Some:
  "takePending i res m = Some (req, m1) \<longleftrightarrow>
     GetPending i m = Some req \<and> m1 = closeDone i res (m\<lparr>mg_pending := gm_del i (mg_pending m)\<rparr>)"
  by (auto simp: takePending_def GetPending_def split: option.splits)

lemma takePending_None: "takePending i res m = None \<longleftrightarrow> GetPending i m = None"
  by (auto simp: takePending_def GetPending_def split: option.splits)

lemma approve_caches:
  assumes "GetPending i m = Some req" and "mg_approvalWindow m > 0" and "it \<in> set (rq_Items req)"
  shows "map_of (mg_cache (snd (Approve now i m)))
           (approvalCacheKey (si_Sender (rq_SenderInfo req)) (ii_Path it)) = Some now"
proof -
  from assms(1) obtain m1 where "takePending i True m = Some (req, m1)" and
    m1: "m1 = closeDone i True (m\<lparr>mg_pending := gm_del i (mg_pending m)\<rparr>)"
    using takePending_Some by blast
  with assms show ?thesis by (auto simp: Approve_eq cacheApproval_get)
qed

lemma Approve_config [simp]:
  "mg_disabled (snd (Approve now i m)) = mg_disabled m"
  "mg_approvalWindow (snd (Approve now i m)) = mg_approvalWindow m"
  by (auto simp: Approve_eq takePending_def split: option.splits)

lemma approved_items_hit:
  assumes "GetPending i m = Some req" and "mg_approvalWindow m > 0"
    and "now \<le> later" and "later \<le> now + mg_approvalWindow m"
    and "si_Sender s = si_Sender (rq_SenderInfo req)"
    and "items \<noteq> []" and "ii_Path ` set items \<subseteq> ii_Path ` set (rq_Items req)"
    and "t \<noteq> RequestTypeDelete" and "t \<noteq> RequestTypeWrite"
  shows "fst (RequireApproval_begin later uid client items session t sa s (snd (Approve now i m))) = Some (True, None)"
proof -
  let ?m = "snd (Approve now i m)"
  have "cachedFresh (mg_cache ?m) later (mg_approvalWindow m) (si_Sender s) it" if "it \<in> set items" for it
  proof -
    from that assms(7) obtain it' where "it' \<in> set (rq_Items req)" and "ii_Path it = ii_Path it'" by blast
    then have "map_of (mg_cache ?m) (approvalCacheKey (si_Sender s) (ii_Path it)) = Some now"
      using approve_caches [OF assms(1,2)] assms(5) by simp
    then show ?thesis using assms(4) by (simp add: cachedFresh_def)
  qed
  then show ?thesis
    unfolding RequireApproval_begin_policy approvalPolicy_approved_iff
    using assms(2,6,8,9) by (simp add: cacheable_def)
qed

text \<open>
  After the user approves a request, the same D-Bus sender may read the same items again without
  a question until the approval window has passed.
\<close>

theorem approved_items_readable_in_window:
  assumes "GetPending i m = Some req" and "mg_approvalWindow m > 0"
    and "now \<le> later" and "later \<le> now + mg_approvalWindow m"
    and "si_Sender s = si_Sender (rq_SenderInfo req)"
    and "items \<noteq> []" and "ii_Path ` set items \<subseteq> ii_Path ` set (rq_Items req)"
    and "t \<noteq> RequestTypeDelete" and "t \<noteq> RequestTypeWrite"
  shows "fst (RequireApproval_begin later uid client items session t sa s (snd (Approve now i m))) = Some (True, None)"
  using assms by (rule approved_items_hit)

theorem approved_items_readable_in_window_witness:
  "GetPending ''r1'' exPending = Some exRequest \<and>
   fst (RequireApproval_begin 150 ''r2'' ''c'' [exItem] ''s'' RequestTypeGetSecret [] exSender
     (snd (Approve 110 ''r1'' exPending))) = Some (True, None)"
proof -
  have 1: "GetPending ''r1'' exPending = Some exRequest" "mg_approvalWindow exPending = 50" by code_simp+
  have 2: "rq_Items exRequest = [exItem]" "rq_SenderInfo exRequest = exSender"
    by (simp_all add: exRequest_def newRequest_def)
  show ?thesis
    using 1 2 approved_items_readable_in_window [OF 1(1), of 110 150 exSender "[exItem]" RequestTypeGetSecret]
    by simp
qed

text \<open>
  C20: An approval is worth nothing to anybody else: what another D-Bus sender finds in the cache is
  not changed by it (sender names hold no NUL byte, so the cache keys of two senders never meet).
\<close>

theorem approval_does_not_leak_to_other_senders:
  assumes "GetPending i m = Some req"
    and "CHR 0x00 \<notin> set s" and "CHR 0x00 \<notin> set (si_Sender (rq_SenderInfo req))"
    and "s \<noteq> si_Sender (rq_SenderInfo req)"
  shows "fst (checkApprovalCache later s items (snd (Approve now i m))) = fst (checkApprovalCache later s items m)"
proof -
  have "map_of (mg_cache (snd (Approve now i m))) (approvalCacheKey s p) = map_of (mg_cache m) (approvalCacheKey s p)" for p
  proof (cases "mg_approvalWindow m > 0")
    case True
    from assms(1) True show ?thesis
      using approvalCacheKey_inject [OF assms(2,3)] assms(4)
      by (auto simp: Approve_eq takePending_def GetPending_def cacheApproval_get split: option.splits)
  next
    case False
    then show ?thesis by (auto simp: Approve_eq takePending_def cacheApproval_def split: option.splits)
  qed
  then have "cachedFresh (mg_cache (snd (Approve now i m))) later w s = cachedFresh (mg_cache m) later w s" for w
    by (simp add: cachedFresh_def fun_eq_iff)
  then show ?thesis by (simp add: checkApprovalCache_fst)
qed

theorem approval_does_not_leak_to_other_senders_witness:
  "GetPending ''r1'' exPending = Some exRequest \<and>
   fst (checkApprovalCache 150 '':1.8'' [exItem] (snd (Approve 110 ''r1'' exPending))) = False"
proof -
  have 1: "GetPending ''r1'' exPending = Some exRequest" by code_simp
  have "CHR 0x00 \<notin> set '':1.8''" "CHR 0x00 \<notin> set (si_Sender (rq_SenderInfo exRequest))"
    "'':1.8'' \<noteq> si_Sender (rq_SenderInfo exRequest)" by code_simp+
  moreover have "fst (checkApprovalCache 150 '':1.8'' [exItem] exPending) = False" by code_simp
  ultimately show ?thesis
    using 1 approval_does_not_leak_to_other_senders [OF 1, of "'':1.8''" 150 "[exItem]" 110] by simp
qed

end
