(* ===== verification/Approval_AutoRules.thy ===== *)
theory Approval_AutoRules
  imports Approval_Facts
begin

text \<open>
  Auto-approve rules (\<^verbatim>\<open>AddAutoApproveRule\<close>, \<open>checkAutoApproveRules\<close>, \<open>RemoveAutoApproveRule\<close> of
  \<^verbatim>\<open>internal/approval/manager.go\<close>): the invariant of the rule list, what a rule made from a request
  lets through and for how long, when two rules count as the same one, and that none of the rule
  kinds listens to names a process gives itself.
\<close>

subsection \<open>The rule list\<close>

text \<open>Rule IDs are pairwise different, so \<open>RemoveAutoApproveRule\<close> removes the rule it is asked to.\<close>

definition rules_ok :: "Manager \<Rightarrow> bool" where
  "rules_ok m \<longleftrightarrow> distinct (map ar_ID (mg_autoApproveRules m))"

lemma refresh_loop_Some:
  "refresh_loop rule es = Some (e, es') \<Longrightarrow>
     \<exists>xs e0 ys. es = xs @ e0 # ys \<and> sameScope e0 rule \<and> e = e0\<lparr>ar_ExpiresAt := ar_ExpiresAt rule\<rparr> \<and>
       es' = xs @ e # ys \<and> (\<forall>x \<in> set xs. \<not> sameScope x rule)"
proof (induction es arbitrary: es')
  case Nil
  then show ?case by simp
next
  case (Cons a es)
  show ?case
  proof (cases "sameScope a rule")
    case True
    with Cons.prems show ?thesis by (intro exI [of _ "[]"]) (auto simp: Let_def)
  next
    case False
    with Cons.prems obtain zs where "refresh_loop rule es = Some (e, zs)" and "es' = a # zs" by auto
    with Cons.IH [of zs] False show ?thesis
      by (metis append_Cons set_ConsD)
  qed
qed

lemma refresh_loop_None: "refresh_loop rule es = None \<longleftrightarrow> (\<forall>e \<in> set es. \<not> sameScope e rule)"
  by (induction es) (auto simp: Let_def)

lemma remove_rule_Some:
  "remove_rule i rs = Some (r, rs') \<Longrightarrow>
     ar_ID r = i \<and> (\<exists>xs ys. rs = xs @ r # ys \<and> rs' = xs @ ys \<and> (\<forall>x \<in> set xs. ar_ID x \<noteq> i))"
proof (induction rs arbitrary: rs')
  case Nil
  then show ?case by simp
next
  case (Cons a rs)
  show ?case
  proof (cases "ar_ID a = i")
    case True
    with Cons.prems show ?thesis by auto (metis append_Nil empty_iff list.set(1))
  next
    case False
    with Cons.prems obtain zs where "remove_rule i rs = Some (r, zs)" and "rs' = a # zs" by auto
    with Cons.IH [of zs] False show ?thesis by (metis append_Cons set_ConsD)
  qed
qed

lemma remove_rule_None: "remove_rule i rs = None \<longleftrightarrow> i \<notin> ar_ID ` set rs"
  by (induction rs) auto

lemma ruleOfRequest_ID [simp]: "ar_ID (ruleOfRequest now uid req m) = uid"
  by (simp add: ruleOfRequest_def Let_def split: list.splits)

lemma ruleOfRequest_exe [simp]:
  "ar_InvokerExe (ruleOfRequest now uid req m) = invokerExePath (rq_SenderInfo req)"
  "ar_RequestType (ruleOfRequest now uid req m) = rq_Type req"
  "ar_ExpiresAt (ruleOfRequest now uid req m) = now + AutoApproveDuration m"
  by (simp_all add: ruleOfRequest_def AutoApproveDuration_def Let_def split: list.splits)

lemma AutoApproveDuration_pos: "0 < AutoApproveDuration m"
  by (simp add: AutoApproveDuration_def Let_def)

lemma AddAutoApproveRule_rules:
  "\<exists>xs r ys. mg_autoApproveRules (snd (AddAutoApproveRule now uid req m)) = xs @ r # ys \<and>
     ar_ID r = fst (AddAutoApproveRule now uid req m) \<and>
     ar_ExpiresAt r = now + AutoApproveDuration m \<and>
     (r = ruleOfRequest now uid req m \<and> mg_autoApproveRules m = xs \<and> ys = [] \<or>
      sameScope r (ruleOfRequest now uid req m) \<and>
      (\<exists>e. mg_autoApproveRules m = xs @ e # ys \<and> r = e\<lparr>ar_ExpiresAt := now + AutoApproveDuration m\<rparr>))"
proof (cases "refresh_loop (ruleOfRequest now uid req m) (mg_autoApproveRules m)")
  case None
  then show ?thesis
    by (intro exI [of _ "mg_autoApproveRules m"] exI [of _ "ruleOfRequest now uid req m"] exI [of _ "[]"])
       (simp add: AddAutoApproveRule_def Let_def)
next
  case (Some p)
  obtain e es' where p: "p = (e, es')" by (cases p)
  from refresh_loop_Some [OF Some [unfolded p]] obtain xs e0 ys where
    "mg_autoApproveRules m = xs @ e0 # ys" "sameScope e0 (ruleOfRequest now uid req m)"
    "e = e0\<lparr>ar_ExpiresAt := now + AutoApproveDuration m\<rparr>" "es' = xs @ e # ys" by auto
  with Some p show ?thesis
    by (intro exI [of _ xs] exI [of _ e] exI [of _ ys])
       (auto simp: AddAutoApproveRule_def Let_def sameScope_def)
qed

text \<open>
  Adding, checking and removing auto-approve rules keeps the rule IDs pairwise different (with
  a fresh UUID for a new rule), and adding a rule grows the list by at most one.
\<close>

theorem auto_rules_invariant:
  assumes "rules_ok m" and "uid \<notin> ar_ID ` set (mg_autoApproveRules m)"
  shows "rules_ok (snd (AddAutoApproveRule now uid req m)) \<and>
         rules_ok (snd (checkAutoApproveRules now s items t m)) \<and>
         rules_ok (snd (RemoveAutoApproveRule now i m)) \<and>
         length (mg_autoApproveRules (snd (AddAutoApproveRule now uid req m)))
           \<le> Suc (length (mg_autoApproveRules m))"
proof (intro conjI)
  show "rules_ok (snd (AddAutoApproveRule now uid req m))"
    using AddAutoApproveRule_rules [of now uid req m] assms
    by (auto simp: rules_ok_def)
  show "rules_ok (snd (checkAutoApproveRules now s items t m))"
    using assms(1) by (simp add: rules_ok_def checkAutoApproveRules_eq distinct_map_filter)
  show "rules_ok (snd (RemoveAutoApproveRule now i m))"
    using assms(1) by (auto simp: rules_ok_def RemoveAutoApproveRule_def split: option.splits dest!: remove_rule_Some)
  show "length (mg_autoApproveRules (snd (AddAutoApproveRule now uid req m)))
           \<le> Suc (length (mg_autoApproveRules m))"
    using AddAutoApproveRule_rules [of now uid req m] by auto
qed

theorem auto_rules_invariant_witness:
  "rules_ok (snd (AddAutoApproveRule 5 ''u'' exRequest exManager)) \<and>
   length (mg_autoApproveRules (snd (AddAutoApproveRule 5 ''u'' exRequest exManager))) = 1"
proof -
  have "rules_ok exManager" "''u'' \<notin> ar_ID ` set (mg_autoApproveRules exManager)" by code_simp+
  from auto_rules_invariant [OF this] have "rules_ok (snd (AddAutoApproveRule 5 ''u'' exRequest exManager))"
    by blast
  moreover have "length (mg_autoApproveRules (snd (AddAutoApproveRule 5 ''u'' exRequest exManager))) = 1"
    by code_simp
  ultimately show ?thesis ..
qed

text \<open>
  Removing a rule by its ID takes out that rule and no other, so that it no longer authorises
  anything; an unknown ID is an error and changes nothing.
\<close>

theorem RemoveAutoApproveRule_exact:
  assumes "rules_ok m"
  shows "(if \<exists>r \<in> set (mg_autoApproveRules m). ar_ID r = i
          then fst (RemoveAutoApproveRule now i m) = None \<and>
               mg_autoApproveRules (snd (RemoveAutoApproveRule now i m)) =
                 filter (\<lambda>r. ar_ID r \<noteq> i) (mg_autoApproveRules m)
          else RemoveAutoApproveRule now i m = (Some ErrNotFound, m))"
proof (cases "remove_rule i (mg_autoApproveRules m)")
  case None
  moreover from None have "\<not> (\<exists>r \<in> set (mg_autoApproveRules m). ar_ID r = i)"
    by (auto simp: remove_rule_None)
  ultimately show ?thesis by (simp add: RemoveAutoApproveRule_def)
next
  case (Some p)
  obtain r rs where "p = (r, rs)" by (cases p)
  with remove_rule_Some Some obtain xs ys where
    *: "ar_ID r = i" "mg_autoApproveRules m = xs @ r # ys" "rs = xs @ ys" by metis
  with assms have "\<forall>x \<in> set (xs @ ys). ar_ID x \<noteq> i"
    by (auto simp: rules_ok_def) (metis image_eqI)+
  then have "filter (\<lambda>r. ar_ID r \<noteq> i) (xs @ ys) = xs @ ys" by (rule filter_True [OF ballI, OF bspec])
  with * Some \<open>p = (r, rs)\<close> show ?thesis by (auto simp: RemoveAutoApproveRule_def)
qed

theorem RemoveAutoApproveRule_exact_witness:
  "fst (RemoveAutoApproveRule 7 ''u'' (snd (AddAutoApproveRule 5 ''u'' exRequest exManager))) = None \<and>
   mg_autoApproveRules (snd (RemoveAutoApproveRule 7 ''u'' (snd (AddAutoApproveRule 5 ''u'' exRequest exManager)))) = []"
proof -
  let ?m = "snd (AddAutoApproveRule 5 ''u'' exRequest exManager)"
  have 1: "rules_ok ?m" by code_simp
  have 2: "\<exists>r \<in> set (mg_autoApproveRules ?m). ar_ID r = ''u''" by code_simp
  have 3: "filter (\<lambda>r. ar_ID r \<noteq> ''u'') (mg_autoApproveRules ?m) = []" by code_simp
  from RemoveAutoApproveRule_exact [OF 1, of "''u''" 7] 2 3 show ?thesis by simp
qed

subsection \<open>What a rule lets through\<close>

lemma autoRuleMatches_sameScope:
  assumes "sameScope r r'" and "map_of (ar_Attributes r) = map_of (ar_Attributes r')"
    and "gm_wf (ar_Attributes r)" and "gm_wf (ar_Attributes r')"
  shows "autoRuleMatches s items t r = autoRuleMatches s items t r'"
proof -
  have "set (ar_Attributes r) = set (ar_Attributes r')"
    using assms(2-4) by (metis (no_types, lifting) map_of_inject_set)
  then have "attributesMatch (ar_Attributes r) = attributesMatch (ar_Attributes r')"
    by (simp add: fun_eq_iff attributesMatch_set)
  moreover have "length (ar_Attributes r) = length (ar_Attributes r')"
    using assms(1) by (simp add: sameScope_def attributesEqual_def)
  ultimately show ?thesis
    using assms(1)
    by (simp add: autoRuleMatches_iff autoApproveCoversAll_def autoApproveCoversItem_def [abs_def] sameScope_def)
qed

text \<open>Comparing two attribute maps value by value is comparing the maps, when no value is empty.\<close>

lemma attributesEqual_iff:
  assumes "gm_wf a" and "gm_wf b" and "[] \<notin> snd ` set a"
  shows "attributesEqual a b \<longleftrightarrow> map_of a = map_of b"
proof
  assume eq: "attributesEqual a b"
  have "set a \<subseteq> set b"
  proof
    fix x assume "x \<in> set a"
    then obtain k v where x: "x = (k, v)" "(k, v) \<in> set a" by (metis surj_pair)
    with assms(3) have "v \<noteq> []" by force
    moreover from eq x have "str_get b k = v" by (auto simp: attributesEqual_def list_all_iff)
    ultimately have "map_of b k = Some v" by (simp add: str_get_def split: option.splits)
    with x show "x \<in> set b" by (auto dest: map_of_SomeD)
  qed
  moreover have "card (set a) = card (set b)"
    using eq assms(1,2) by (metis attributesEqual_def distinct_card distinct_map)
  ultimately have "set a = set b" by (simp add: card_subset_eq)
  then show "map_of a = map_of b" using assms(1,2) by (simp add: map_of_inject_set)
next
  assume eq: "map_of a = map_of b"
  then have "set a = set b" using assms(1,2) by (simp add: map_of_inject_set)
  then have "length a = length b" using assms(1,2) by (metis distinct_card distinct_map)
  with eq show "attributesEqual a b"
    using assms(1) by (auto simp: attributesEqual_def list_all_iff str_get_def simp flip: eq)
qed

text \<open>
  Two attribute maps in which no attribute has the empty value are found equal exactly when
  they have the same keys with the same values.
\<close>

theorem attributesEqual_correct:
  assumes "gm_wf a" and "gm_wf b" and "[] \<notin> snd ` set a"
  shows "attributesEqual a b \<longleftrightarrow> map_of a = map_of b"
  using assms by (rule attributesEqual_iff)

theorem attributesEqual_correct_witness:
  "attributesEqual [(''a'', ''1''), (''b'', ''2'')] [(''b'', ''2''), (''a'', ''1'')]"
  using attributesEqual_correct [of "[(''a'', ''1''), (''b'', ''2'')]" "[(''b'', ''2''), (''a'', ''1'')]"]
  by (simp add: fun_eq_iff)

text \<open>
  Contrary to its comment, \<open>attributesEqual\<close> takes two maps with different keys for equal when
  the first holds an empty value (a missing key reads as the empty string), and it is not symmetric.
\<close>

theorem attributesEqual_empty_value:
  "attributesEqual [(''a'', [])] [(''b'', ''x'')] \<and> \<not> attributesEqual [(''b'', ''x'')] [(''a'', [])]"
  by code_simp

lemma added_rule_matches:
  assumes "\<forall>r \<in> set (mg_autoApproveRules m). gm_wf (ar_Attributes r) \<and> [] \<notin> snd ` set (ar_Attributes r)"
    and "gm_wf (ar_Attributes (ruleOfRequest now uid req m))"
    and "autoRuleMatches s items t (ruleOfRequest now uid req m)" (is "autoRuleMatches s items t ?nr")
  shows "\<exists>r \<in> set (mg_autoApproveRules (snd (AddAutoApproveRule now uid req m))).
           ar_ExpiresAt r = now + AutoApproveDuration m \<and> autoRuleMatches s items t r"
proof -
  from AddAutoApproveRule_rules [of now uid req m] obtain xs r ys where
    r: "mg_autoApproveRules (snd (AddAutoApproveRule now uid req m)) = xs @ r # ys"
      "ar_ExpiresAt r = now + AutoApproveDuration m" and
    c: "r = ?nr \<or> sameScope r ?nr \<and> (\<exists>e. mg_autoApproveRules m = xs @ e # ys \<and> ar_Attributes r = ar_Attributes e)"
    by force
  have "autoRuleMatches s items t r"
  proof (cases "r = ?nr")
    case False
    with c obtain e where e: "sameScope r ?nr" "e \<in> set (mg_autoApproveRules m)"
      "ar_Attributes r = ar_Attributes e" by (metis in_set_conv_decomp)
    with assms(1) have wf: "gm_wf (ar_Attributes r)" "[] \<notin> snd ` set (ar_Attributes r)" by auto
    from e(1) have "attributesEqual (ar_Attributes r) (ar_Attributes ?nr)" by (simp add: sameScope_def)
    then have "map_of (ar_Attributes r) = map_of (ar_Attributes ?nr)"
      using attributesEqual_iff [OF wf(1) assms(2) wf(2)] by simp
    then show ?thesis
      using autoRuleMatches_sameScope [OF e(1) _ wf(1) assms(2)] assms(3) by simp
  qed (use assms(3) in simp)
  with r show ?thesis by auto
qed

text \<open>
  Retry after "approve and auto-approve".  Let the user approve a one-item request in this way.
  Until the rule's duration has passed, any request of the same type from the same executable for
  items of that collection with these attributes is approved without a question.  The
  attribute values are taken as patterns, hence the hypothesis that they hold no glob character; the
  exact attribute map must not hold empty values.
\<close>

theorem auto_approve_covers_retry:
  assumes "GetPending i m = Some req" and "rq_Items req = [item]" and "rq_Type req \<noteq> RequestTypeSearch"
    and "gm_wf (ii_Attributes item)"
    and "\<forall>(k, v) \<in> set (ii_Attributes item). literal v \<and> v \<noteq> []"
    and "\<forall>r \<in> set (mg_autoApproveRules m). gm_wf (ar_Attributes r) \<and> [] \<notin> snd ` set (ar_Attributes r)"
    and "invokerExePath (rq_SenderInfo req) \<noteq> []"
    and "invokerExePath s = invokerExePath (rq_SenderInfo req)"
    and "later \<le> now + AutoApproveDuration m"
    and "items \<noteq> []"
    and "\<forall>it \<in> set items. ExtractCollection (ii_Path it) = ExtractCollection (ii_Path item) \<and>
           ii_Attributes it = ii_Attributes item"
  shows "fst (RequireApproval_begin later uid2 client items session (rq_Type req) sa s
                (snd (ApproveAndAutoApprove now uid i m))) = Some (True, None)"
proof -
  define m1 where "m1 = cacheApproval now req (notify now (reqEvent EventRequestApproved req)
    (closeDone i True (m\<lparr>mg_pending := gm_del i (mg_pending m)\<rparr>)))"
  define m' where "m' = snd (AddAutoApproveRule now uid req m1)"
  have m': "snd (ApproveAndAutoApprove now uid i m) = m'"
    using assms(1) by (simp add: ApproveAndAutoApprove_eq takePending_def GetPending_def m'_def m1_def)
  have m1: "mg_autoApproveRules m1 = mg_autoApproveRules m" "AutoApproveDuration m1 = AutoApproveDuration m"
    by (simp_all add: m1_def AutoApproveDuration_def Let_def)
  define nr where "nr = ruleOfRequest now uid req m1"
  have nr: "ar_Attributes nr = ii_Attributes item" "ar_Collection nr = ExtractCollection (ii_Path item)"
    using assms(2,3) by (simp_all add: nr_def ruleOfRequest_def Let_def)
  have "autoRuleMatches s items (rq_Type req) nr"
    using assms(4,5,7,8,10,11) attributesMatch_refl [of "ii_Attributes item"]
    by (auto simp: autoRuleMatches_iff autoApproveCoversAll_def autoApproveCoversItem_def list_all_iff nr)
       (auto simp: nr_def)
  then have "\<exists>r \<in> set (mg_autoApproveRules m'). ar_ExpiresAt r = now + AutoApproveDuration m1 \<and>
      autoRuleMatches s items (rq_Type req) r"
    unfolding m'_def using assms(4,6) m1 nr by (intro added_rule_matches) (auto simp: nr_def)
  then have "\<exists>r \<in> set (mg_autoApproveRules m'). later \<le> ar_ExpiresAt r \<and> autoRuleMatches s items (rq_Type req) r"
    using assms(9) m1 by (metis (no_types, lifting))
  then show ?thesis
    unfolding RequireApproval_begin_policy m' by (simp add: approvalPolicy_def)
qed

theorem auto_approve_covers_retry_witness:
  "fst (RequireApproval_begin 309 ''r3'' ''c'' [exItem] ''s'' RequestTypeGetSecret [] (exSender\<lparr>si_Sender := '':1.99''\<rparr>)
     (snd (ApproveAndAutoApprove 110 ''u1'' ''r1'' exPending))) = Some (True, None)"
proof -
  have 1: "GetPending ''r1'' exPending = Some exRequest" "mg_autoApproveRules exPending = []"
    "AutoApproveDuration exPending = 200" by code_simp+
  have 2: "rq_Items exRequest = [exItem]" "rq_Type exRequest = RequestTypeGetSecret"
    "invokerExePath (rq_SenderInfo exRequest) = ''/usr/bin/gh''"
    "invokerExePath (exSender\<lparr>si_Sender := '':1.99''\<rparr>) = ''/usr/bin/gh''"
    "ii_Attributes exItem = [(''service'', ''gh'')]" "literal ''gh''" by code_simp+
  show ?thesis
    using auto_approve_covers_retry [OF 1(1) 2(1), of "exSender\<lparr>si_Sender := '':1.99''\<rparr>" 309 110 "[exItem]"] 1 2
    by simp
qed

text \<open>
  The value of an attribute goes into an auto-approve rule unquoted and is later read as a glob
  pattern: approving one request whose attribute has the value \<open>*\<close> approves later requests with any
  other value of it, though the user saw and approved only the literal one.
\<close>

theorem auto_approve_value_widens:
  "let item = exItem\<lparr>ii_Attributes := [(''service'', ''*'')]\<rparr>;
       m = snd (RequireApproval_begin 100 ''r1'' ''c'' [item] ''s'' RequestTypeGetSecret [] exSender exManager);
       m' = snd (ApproveAndAutoApprove 110 ''u1'' ''r1'' m);
       other = exItem\<lparr>ii_Path := ''/org/freedesktop/secrets/collection/login/2'',
                      ii_Attributes := [(''service'', ''bank'')]\<rparr>
   in fst (RequireApproval_begin 120 ''r2'' ''c'' [other] ''s'' RequestTypeGetSecret [] exSender m') = Some (True, None)"
  by code_simp

subsection \<open>Names a process gives itself\<close>

lemma checkAutoApproveRules_forget:
  "checkAutoApproveRules now (forgetNames s) items t m = checkAutoApproveRules now s items t m"
  by (simp add: checkAutoApproveRules_eq autoRuleMatches_forget)

lemma approvalPolicy_forget:
  assumes "\<forall>rule \<in> set (mg_trustRules m). \<forall>pm. tr_Process rule = Some pm \<longrightarrow> pm_Name pm = []"
  shows "approvalPolicy now items t sa (forgetNames s) m = approvalPolicy now items t sa s m"
proof -
  have 1: "si_Sender (forgetNames s) = si_Sender s" by (simp add: forgetNames_def)
  have 2: "List.find (\<lambda>r. matchTrustRule r (forgetNames s) items t sa) (mg_trustRules m) =
      List.find (\<lambda>r. matchTrustRule r s items t sa) (mg_trustRules m)"
    using CheckTrustRules_forget [OF assms] by (simp add: CheckTrustRules_find)
  show ?thesis unfolding approvalPolicy_def autoRuleMatches_forget 1 2 ..
qed

text \<open>
  C18: A process cannot gain or lose anything by renaming itself.  Unless a trust rule asks for a
  process name, two requests that differ only in the comm names of the process chain and in the
  invoker name shown to the user have the same outcome.
\<close>

theorem renaming_does_not_help:
  assumes "\<forall>rule \<in> set (mg_trustRules m). \<forall>pm. tr_Process rule = Some pm \<longrightarrow> pm_Name pm = []"
    and "forgetNames s = forgetNames s'"
  shows "fst (RequireApproval_begin now uid client items session t sa s m) =
         fst (RequireApproval_begin now uid' client' items session' t sa s' m)"
  using approvalPolicy_forget [OF assms(1), of now items t sa s]
    approvalPolicy_forget [OF assms(1), of now items t sa s'] assms(2)
  by (simp add: RequireApproval_begin_policy)

theorem renaming_does_not_help_witness:
  "fst (RequireApproval_begin 1 ''a'' ''c'' [exItem] ''s'' RequestTypeGetSecret []
     (exSender\<lparr>si_ProcessChain := [exTool\<lparr>pi_Name := ''sshd''\<rparr>], si_InvokerName := ''sshd''\<rparr>) exTrusting) = Some (True, None)"
proof -
  have 1: "\<forall>rule \<in> set (mg_trustRules exTrusting). \<forall>pm. tr_Process rule = Some pm \<longrightarrow> pm_Name pm = []"
    by (simp add: ex_defs NewManager_def)
  have 2: "forgetNames (exSender\<lparr>si_ProcessChain := [exTool\<lparr>pi_Name := ''sshd''\<rparr>], si_InvokerName := ''sshd''\<rparr>) =
      forgetNames exSender" by (simp add: forgetNames_def exSender_def)
  have "fst (RequireApproval_begin 1 ''a'' ''c'' [exItem] ''s'' RequestTypeGetSecret [] exSender exTrusting) = Some (True, None)"
    by code_simp
  with renaming_does_not_help [OF 1 2] show ?thesis by metis
qed

lemma signerMatches_iff:
  "signerMatches p repo files ts \<longleftrightarrow> pi_Exe p = ts_ExePath ts \<and>
     (ts_RepoPath ts = [] \<or> ts_RepoPath ts = repo) \<and>
     (ts_FilePrefix ts = [] \<or> (\<forall>f \<in> set files. \<exists>rest. f = ts_FilePrefix ts @ rest))"
  unfolding signerMatches_def allFilesMatch_def list_all_iff HasPrefix_iff by auto



end
