(* ===== verification/Approval_Sections.thy ===== *)
theory Approval_Sections
  imports Approval_AutoRules
begin

text \<open>
  The operations of the approval manager cut where another goroutine may come in: between two of their
  sections under a lock (\<^verbatim>\<open>mu\<close>, \<^verbatim>\<open>cacheMu\<close>, \<^verbatim>\<open>autoApproveMu\<close>, \<^verbatim>\<open>observersMu\<close>,
  \<^verbatim>\<open>historyMu\<close>).  Each group of sections comes with the lemma that running them one after the other
  is the operation of theory Approval_Manager.
\<close>

subsection \<open>One task\<close>

text \<open>
  \<open>notify\<close> hands the event to one observer after the other and then records it; \<open>AddAutoApproveRule\<close>
  changes the rules under the lock and notifies after it.  \<open>task_run\<close> is the first section of a task
  and what is left of it.
\<close>

definition notify_tasks :: "nat list \<Rightarrow> Event \<Rightarrow> task list" where
  "notify_tasks observers e =
     map (\<lambda>ob. Deliver ob e) observers @
     (if ev_Type e \<noteq> EventRequestCreated \<and> ev_Type e \<noteq> EventAutoApproveRuleAdded \<and>
         ev_Type e \<noteq> EventAutoApproveRuleRemoved
      then [Record e] else [])"

definition AddAutoApproveRule_section :: "nanos \<Rightarrow> string \<Rightarrow> Request \<Rightarrow> Manager \<Rightarrow> AutoApproveRule \<times> Manager" where
  "AddAutoApproveRule_section now uid req m =
     (let rule = ruleOfRequest now uid req m in
      case refresh_loop rule (mg_autoApproveRules m) of
        Some (existing, rules) \<Rightarrow> (existing, m\<lparr>mg_autoApproveRules := rules\<rparr>)
      | None \<Rightarrow> (rule, m\<lparr>mg_autoApproveRules := mg_autoApproveRules m @ [rule]\<rparr>))"

fun task_run :: "nanos \<Rightarrow> task \<Rightarrow> Manager \<Rightarrow> task list \<times> Manager" where
  "task_run now (Notify e) m = (notify_tasks (mg_observers m) e, m)"
| "task_run now (Deliver ob e) m = ([], carryOut now (Deliver ob e) m)"
| "task_run now (Record e) m = ([], carryOut now (Record e) m)"
| "task_run now (CacheIt req) m = ([], carryOut now (CacheIt req) m)"
| "task_run now (AddRule uid req) m =
     (case AddAutoApproveRule_section now uid req m of
        (rule, m1) \<Rightarrow> ([Notify (ruleEvent EventAutoApproveRuleAdded rule)], m1))"

lemma AddAutoApproveRule_sections:
  "AddAutoApproveRule now uid req m =
     (case AddAutoApproveRule_section now uid req m of
        (rule, m1) \<Rightarrow> (ar_ID rule, notify now (ruleEvent EventAutoApproveRuleAdded rule) m1))"
  by (auto simp: AddAutoApproveRule_def AddAutoApproveRule_section_def Let_def split: option.split)

lemma deliver_all:
  "fold (carryOut now) (map (\<lambda>ob. Deliver ob e) obs) m = m\<lparr>mg_delivered := mg_delivered m @ map (\<lambda>ob. (ob, e)) obs\<rparr>"
  by (induction obs arbitrary: m) simp_all

lemma carryOut_notify_tasks: "fold (carryOut now) (notify_tasks (mg_observers m) e) m = notify now e m"
  by (simp add: notify_tasks_def notify_def deliver_all Let_def)

lemma task_sections:
  "case task_run now t m of (ts, m1) \<Rightarrow> fold (carryOut now) ts m1 = carryOut now t m"
  by (cases t) (auto simp: carryOut_notify_tasks AddAutoApproveRule_sections split: prod.split)

subsection \<open>The resolving calls\<close>

datatype resolver = RApprove | RApproveAuto string | RDeny | RCancel
  | RSignature bytes bytes | RGPGFailed bytes int

text \<open>The verdict each gives.\<close>

fun verdict :: "resolver \<Rightarrow> bool" where
  "verdict RDeny = False"
| "verdict RCancel = False"
| "verdict _ = True"

fun resolve_section :: "resolver \<Rightarrow> string \<Rightarrow> Manager \<Rightarrow> (task list \<times> Manager) option" where
  "resolve_section RApprove i m = Approve_section i m"
| "resolve_section (RApproveAuto uid) i m = ApproveAndAutoApprove_section uid i m"
| "resolve_section RDeny i m = Deny_section i m"
| "resolve_section RCancel i m = Cancel_section i m"
| "resolve_section (RSignature sig st) i m = ApproveWithSignature_section i sig st m"
| "resolve_section (RGPGFailed st ec) i m = ApproveGPGFailed_section i st ec m"

fun resolve :: "resolver \<Rightarrow> nanos \<Rightarrow> string \<Rightarrow> Manager \<Rightarrow> go_error option \<times> Manager" where
  "resolve RApprove now i m = Approve now i m"
| "resolve (RApproveAuto uid) now i m = ApproveAndAutoApprove now uid i m"
| "resolve RDeny now i m = Deny now i m"
| "resolve RCancel now i m = Cancel now i m"
| "resolve (RSignature sig st) now i m = ApproveWithSignature now i sig st m"
| "resolve (RGPGFailed st ec) now i m = ApproveGPGFailed now i st ec m"

lemma resolve_sections: "resolve op now i m = resolving now (resolve_section op i m) m"
  by (cases op) (simp_all add: Approve_def ApproveAndAutoApprove_def Deny_def Cancel_def ApproveWithSignature_def
    ApproveGPGFailed_def)

text \<open>The request as the call leaves it (a signing request with its signature), and the event it sends.\<close>

fun settled_request :: "resolver \<Rightarrow> Request \<Rightarrow> Request" where
  "settled_request (RSignature sig st) req = req\<lparr>rq_Signature := sig, rq_GPGStatus := st\<rparr>"
| "settled_request (RGPGFailed st ec) req = req\<lparr>rq_GPGStatus := st, rq_GPGExitCode := ec\<rparr>"
| "settled_request _ req = req"

fun settling_event :: "resolver \<Rightarrow> EventType" where
  "settling_event RDeny = EventRequestDenied"
| "settling_event RCancel = EventRequestCancelled"
| "settling_event _ = EventRequestApproved"

lemma settled_request_ID [simp]: "rq_ID (settled_request op req) = rq_ID req"
  by (cases op) simp_all

lemma resolve_section_Some:
  assumes "resolve_section op i m = Some (tasks, m1)"
  shows "\<exists>req rest. takePending i (verdict op) m = Some (req, m1) \<and>
           tasks = Notify (reqEvent (settling_event op) (settled_request op req)) # rest \<and>
           set rest \<subseteq> range CacheIt \<union> {AddRule uid req' | uid req'. True}"
  using assms by (cases op) (auto simp: section_defs Let_def split: option.splits)

lemma resolve_section_None: "resolve_section op i m = None \<longleftrightarrow> GetPending i m = None"
  by (cases op) (simp_all add: section_defs Let_def takePending_def GetPending_def split: option.split)

subsection \<open>\<open>RequireApproval\<close> up to its \<open>select\<close>\<close>

record call =
  cl_client :: string
  cl_items :: "ItemInfo list"
  cl_session :: string
  cl_type :: RequestType
  cl_attrs :: "(string, string) gomap"
  cl_sender :: SenderInfo

text \<open>The cache; the auto-approve rules and the configured rules; the new pending request.\<close>

definition call_cache :: "nanos \<Rightarrow> call \<Rightarrow> Manager \<Rightarrow> bool \<times> Manager" where
  "call_cache now c m =
     (if mg_disabled m then (True, m)
      else if cl_type c \<noteq> RequestTypeDelete \<and> cl_type c \<noteq> RequestTypeWrite \<and>
              mg_approvalWindow m > 0 \<and> length (cl_items c) > 0
      then checkApprovalCache now (si_Sender (cl_sender c)) (cl_items c) m
      else (False, m))"

definition call_request :: "nanos \<Rightarrow> nanos \<Rightarrow> string \<Rightarrow> call \<Rightarrow> Request" where
  "call_request now expires uid c =
     newRequest uid now expires (cl_client c) (cl_items c) (cl_session c) (cl_type c) (cl_attrs c) (cl_sender c)"

definition call_rules :: "nanos \<Rightarrow> string \<Rightarrow> call \<Rightarrow> Manager \<Rightarrow> (approval_result \<times> Event) option \<times> Manager" where
  "call_rules now uid c m =
     (let (rule, m) = checkAutoApproveRules now (cl_sender c) (cl_items c) (cl_type c) m;
          req = call_request now now uid c
      in case rule of
           Some r \<Rightarrow> (Some ((True, None), reqEvent EventRequestAutoApproved req), m)
         | None \<Rightarrow>
            (case CheckTrustRules m (cl_sender c) (cl_items c) (cl_type c) (cl_attrs c) of
               Some r \<Rightarrow>
                 (let action = (if tr_Action r = [] then ''approve'' else tr_Action r)
                  in if action = ''ignore'' then (Some ((True, Some ErrIgnored), reqEvent EventRequestIgnored req), m)
                     else if action = ''deny'' then (Some ((True, Some ErrDeniedByRule), reqEvent EventRequestDenied req), m)
                     else (Some ((True, None), reqEvent EventRequestAutoApproved req), m))
             | None \<Rightarrow> (None, m)))"

definition insertPending :: "Request \<Rightarrow> Manager \<Rightarrow> Manager" where
  "insertPending req m = m\<lparr>mg_pending := gm_put (rq_ID req) req (mg_pending m)\<rparr>"

lemma checkApprovalCache_disabled [simp]: "mg_disabled (snd (checkApprovalCache now s items m)) = mg_disabled m"
  by (simp add: checkApprovalCache_def split: prod.split)

lemma RequireApproval_sections:
  assumes "c = \<lparr>cl_client = client, cl_items = items, cl_session = session, cl_type = t, cl_attrs = sa, cl_sender = s\<rparr>"
  shows "RequireApproval_begin now uid client items session t sa s m =
     (case call_cache now c m of
        (True, m1) \<Rightarrow> (Some (True, None), m1)
      | (False, m1) \<Rightarrow>
          (case call_rules now uid c m1 of
             (Some (r, e), m2) \<Rightarrow> (Some r, carryOut now (Notify e) m2)
           | (None, m2) \<Rightarrow>
               (let req = call_request now (now + mg_timeout m2) uid c
                in (None, carryOut now (Notify (reqEvent EventRequestCreated req)) (insertPending req m2)))))"
proof (cases "mg_disabled m")
  case True
  then show ?thesis by (simp add: RequireApproval_begin_def call_cache_def)
next
  case False
  obtain hit m1 where h: "call_cache now c m = (hit, m1)" by (cases "call_cache now c m")
  then have begin_eq: "(if t \<noteq> RequestTypeDelete \<and> t \<noteq> RequestTypeWrite \<and> mg_approvalWindow m > 0 \<and> length items > 0
        then checkApprovalCache now (si_Sender s) items m else (False, m)) = (hit, m1)"
    using False by (auto simp: call_cache_def assms split: if_splits)
  show ?thesis
    unfolding RequireApproval_begin_def begin_eq
    using False h
    by (auto simp: call_rules_def Let_def assms call_request_def insertPending_def newRequest_def
      split: bool.split option.split prod.split)
qed

subsection \<open>Commit signing requests and requests that are only recorded\<close>

lemma CreateGPGSignRequest_sections:
  "CreateGPGSignRequest now uid client (Some gi) s m =
     (let req = gpgRequest uid now (now + mg_timeout m) client gi s
      in (Inr uid, carryOut now (Notify (reqEvent EventRequestCreated req)) (insertPending req m)))"
  by (simp add: CreateGPGSignRequest_def Let_def insertPending_def gpgRequest_def newRequest_def)

definition autoSigned :: "nanos \<Rightarrow> string \<Rightarrow> string \<Rightarrow> GPGSignInfo \<Rightarrow> SenderInfo \<Rightarrow> bytes \<Rightarrow> bytes \<Rightarrow> Request" where
  "autoSigned now uid client gi s sig st =
     (gpgRequest uid now now client gi s)\<lparr>rq_Signature := sig, rq_GPGStatus := st\<rparr>"

lemma RecordAutoApprovedGPGSign_sections:
  "RecordAutoApprovedGPGSign now uid client (Some gi) s sig st m =
     (Inr uid, carryOut now (Notify (reqEvent EventRequestAutoApproved (autoSigned now uid client gi s sig st))) (closeDone uid False m))"
  by (simp add: RecordAutoApprovedGPGSign_def autoSigned_def Let_def)

inductive recorded_event :: "string \<Rightarrow> Event \<Rightarrow> bool" for uid where
  rec_pass: "recorded_event uid (reqEvent EventRequestAutoApproved (newRequest uid now now client items session t sa s))"
| rec_ignored: "recorded_event uid (reqEvent EventRequestIgnored (newRequest uid now now client items session RequestTypeWrite [] s))"
| rec_denied: "recorded_event uid (reqEvent EventRequestDenied (newRequest uid now now client items session t sa s))"

lemma Record_sections:
  "\<exists>e. recorded_event uid e \<and> RecordPassthrough now uid client items session t sa s m = carryOut now (Notify e) m"
  "\<exists>e. recorded_event uid e \<and> RecordIgnored now uid client items session s m = carryOut now (Notify e) m"
  "\<exists>e. recorded_event uid e \<and> RecordDenied now uid client items session t sa s m = carryOut now (Notify e) m"
  by (auto simp: RecordPassthrough_def RecordIgnored_def RecordDenied_def intro: recorded_event.intros)

subsection \<open>Operations beside the requests\<close>

definition RemoveAutoApproveRule_section :: "string \<Rightarrow> Manager \<Rightarrow> (task list \<times> Manager) option" where
  "RemoveAutoApproveRule_section i m =
     (case remove_rule i (mg_autoApproveRules m) of
        None \<Rightarrow> None
      | Some (removed, rules) \<Rightarrow>
          Some ([Notify (ruleEvent EventAutoApproveRuleRemoved removed)], m\<lparr>mg_autoApproveRules := rules\<rparr>))"

lemma RemoveAutoApproveRule_sections:
  "RemoveAutoApproveRule now i m = resolving now (RemoveAutoApproveRule_section i m) m"
  by (simp add: RemoveAutoApproveRule_def RemoveAutoApproveRule_section_def resolving_def split: option.split)

text \<open>The first section of each, with what is left to do.\<close>

inductive side_section :: "Manager \<Rightarrow> task list \<Rightarrow> Manager \<Rightarrow> bool" where
  side_rule: "side_section m [AddRule uid req] m"
| side_remove: "RemoveAutoApproveRule_section i m = Some (tasks, m') \<Longrightarrow> side_section m tasks m'"
| side_check: "side_section m [] (snd (checkAutoApproveRules now s items t m))"
| side_cache: "side_section m [] (CacheItemForSender now sender p m)"

end
