(* ===== verification/Approval_Machine.thy ===== *)
theory Approval_Machine
  imports Approval_Sections
begin

text \<open>
  The approval manager under concurrency.  The goroutines that block in \<open>RequireApproval\<close>, the
  goroutines that \<open>CreateGPGSignRequest\<close> starts, and the callers of the resolving operations (web
  UI, CLI, desktop notification) run interleaved; a step of the machine is one section of one of them
  (theory Approval_Sections).  In particular the notification of a change is not part of the change:
  what a goroutine has left to do after a section waits in \<open>am_tasks\<close> and is carried out, one
  section at a time, in an order that is fixed within a goroutine only.
\<close>

subsection \<open>The machine\<close>

text \<open>
  Beside the manager: the calls of \<open>RequireApproval\<close> that have passed the cache, or the cache and the
  rules (\<open>am_calls\<close>); those answered by a rule, with the answer they will return (\<open>am_answered\<close>);
  those whose request is pending, at or before their \<open>select\<close> (\<open>am_waiting\<close>); those past their
  \<open>select\<close>, with their result, which have yet to run the deferred removal (\<open>am_leaving\<close>); the
  commit-signing goroutines at or before their \<open>select\<close> (\<open>am_watching\<close>); the tasks of each
  goroutine; the results returned so far; the request IDs handed out.  \<open>am_resolved\<close> records every
  resolving call that found its request, with the verdict it gave.
\<close>

datatype stage = Uncached (sg_call: call) | Unmatched (sg_call: call)

datatype leaving = Leaving (lv_req: Request) (lv_result: approval_result)

datatype goroutine = Caller string | Resolver string | Other

record AM =
  am_mgr :: Manager
  am_calls :: "(string, stage) gomap"
  am_answered :: "(string, approval_result) gomap"
  am_waiting :: "(string, Request) gomap"
  am_leaving :: "(string, leaving) gomap"
  am_watching :: "(string, Request) gomap"
  am_tasks :: "(goroutine \<times> task list) list"
  am_returned :: "(string \<times> approval_result) list"
  am_used :: "string list"
  am_resolved :: "(string \<times> bool) list"

definition todo :: "goroutine \<Rightarrow> task list \<Rightarrow> (goroutine \<times> task list) list" where
  "todo g tasks = (if tasks = [] then [] else [(g, tasks)])"

text \<open>The goroutine of request \<open>i\<close> has not got to its \<open>select\<close> (or its return) yet.\<close>

definition busy :: "string \<Rightarrow> AM \<Rightarrow> bool" where
  "busy i a \<longleftrightarrow> Caller i \<in> fst ` set (am_tasks a)"

text \<open>Somebody holds \<open>observersMu\<close> for reading, so nobody can subscribe.\<close>

fun in_notify :: "task \<Rightarrow> bool" where
  "in_notify (Deliver ob e) = True"
| "in_notify (Record e) = True"
| "in_notify _ = False"

definition notifying :: "AM \<Rightarrow> bool" where
  "notifying a \<longleftrightarrow> (\<exists>(g, ts) \<in> set (am_tasks a). \<exists>t \<in> set ts. in_notify t)"

inductive am_step :: "AM \<Rightarrow> AM \<Rightarrow> bool" where
  call_hit:
  "uid \<notin> set (am_used a) \<Longrightarrow> call_cache now c (am_mgr a) = (True, m') \<Longrightarrow>
   am_step a (a\<lparr>am_mgr := m', am_used := uid # am_used a, am_returned := (uid, (True, None)) # am_returned a\<rparr>)"
| call_miss:
  "uid \<notin> set (am_used a) \<Longrightarrow> call_cache now c (am_mgr a) = (False, m') \<Longrightarrow>
   am_step a (a\<lparr>am_mgr := m', am_used := uid # am_used a, am_calls := gm_put uid (Uncached c) (am_calls a)\<rparr>)"
| call_rule:
  "map_of (am_calls a) i = Some (Uncached c) \<Longrightarrow> call_rules now i c (am_mgr a) = (Some (r, e), m') \<Longrightarrow>
   am_step a (a\<lparr>am_mgr := m', am_calls := gm_del i (am_calls a), am_answered := gm_put i r (am_answered a),
                am_tasks := (Caller i, [Notify e]) # am_tasks a\<rparr>)"
| call_return:
  "map_of (am_answered a) i = Some r \<Longrightarrow> \<not> busy i a \<Longrightarrow>
   am_step a (a\<lparr>am_answered := gm_del i (am_answered a), am_returned := (i, r) # am_returned a\<rparr>)"
| call_no_rule:
  "map_of (am_calls a) i = Some (Uncached c) \<Longrightarrow> call_rules now i c (am_mgr a) = (None, m') \<Longrightarrow>
   am_step a (a\<lparr>am_mgr := m', am_calls := gm_put i (Unmatched c) (am_calls a)\<rparr>)"
| call_wait:
  "map_of (am_calls a) i = Some (Unmatched c) \<Longrightarrow>
   req = call_request now (now + mg_timeout (am_mgr a)) i c \<Longrightarrow>
   am_step a (a\<lparr>am_mgr := insertPending req (am_mgr a), am_calls := gm_del i (am_calls a),
                am_waiting := gm_put i req (am_waiting a),
                am_tasks := (Caller i, [Notify (reqEvent EventRequestCreated req)]) # am_tasks a\<rparr>)"
| resolve_ok:
  "resolve_section op i (am_mgr a) = Some (tasks, m') \<Longrightarrow>
   am_step a (a\<lparr>am_mgr := m', am_tasks := todo (Resolver i) tasks @ am_tasks a,
                am_resolved := (i, verdict op) # am_resolved a\<rparr>)"
| wake:
  "map_of (am_waiting a) i = Some req \<Longrightarrow> \<not> busy i a \<Longrightarrow>
   RequireApproval_select SelDone now req (am_mgr a) = (Some r, m') \<Longrightarrow>
   am_step a (a\<lparr>am_mgr := m', am_waiting := gm_del i (am_waiting a),
                am_leaving := gm_put i (Leaving req r) (am_leaving a)\<rparr>)"
| timer:
  "map_of (am_waiting a) i = Some req \<Longrightarrow> \<not> busy i a \<Longrightarrow> rq_ExpiresAt req \<le> now \<Longrightarrow>
   am_step a (a\<lparr>am_waiting := gm_del i (am_waiting a),
                am_leaving := gm_put i (Leaving req (False, Some ErrTimeout)) (am_leaving a),
                am_tasks := (Caller i, [Notify (reqEvent EventRequestExpired req)]) # am_tasks a\<rparr>)"
| ctx_done:
  "map_of (am_waiting a) i = Some req \<Longrightarrow> \<not> busy i a \<Longrightarrow>
   am_step a (a\<lparr>am_waiting := gm_del i (am_waiting a),
                am_leaving := gm_put i (Leaving req (False, Some ErrCanceled)) (am_leaving a),
                am_tasks := (Caller i, [Notify (reqEvent EventRequestCancelled req)]) # am_tasks a\<rparr>)"
| leave:
  "map_of (am_leaving a) i = Some (Leaving req r) \<Longrightarrow> \<not> busy i a \<Longrightarrow>
   am_step a (a\<lparr>am_mgr := RequireApproval_cleanup req (am_mgr a), am_leaving := gm_del i (am_leaving a),
                am_returned := (i, r) # am_returned a\<rparr>)"
| gpg_create:
  "uid \<notin> set (am_used a) \<Longrightarrow> req = gpgRequest uid now (now + mg_timeout (am_mgr a)) client gi s \<Longrightarrow>
   am_step a (a\<lparr>am_mgr := insertPending req (am_mgr a), am_used := uid # am_used a,
                am_watching := gm_put uid req (am_watching a),
                am_tasks := (Caller uid, [Notify (reqEvent EventRequestCreated req)]) # am_tasks a\<rparr>)"
| gpg_auto:
  "uid \<notin> set (am_used a) \<Longrightarrow>
   am_step a (a\<lparr>am_mgr := closeDone uid False (am_mgr a), am_used := uid # am_used a,
                am_tasks := (Caller uid, [Notify (reqEvent EventRequestAutoApproved (autoSigned now uid client gi s sig st))])
                  # am_tasks a\<rparr>)"
| gpg_resolved:
  "map_of (am_watching a) i = Some req \<Longrightarrow> \<not> busy i a \<Longrightarrow> map_of (mg_done (am_mgr a)) i \<noteq> None \<Longrightarrow>
   am_step a (a\<lparr>am_watching := gm_del i (am_watching a)\<rparr>)"
| gpg_timer:
  "map_of (am_watching a) i = Some req \<Longrightarrow> \<not> busy i a \<Longrightarrow> rq_ExpiresAt req \<le> now \<Longrightarrow>
   am_step a (a\<lparr>am_mgr := gpgTimeout_remove req (am_mgr a), am_watching := gm_del i (am_watching a),
                am_tasks := (Caller i, [Notify (reqEvent EventRequestExpired req)]) # am_tasks a\<rparr>)"
| recorded_only:
  "uid \<notin> set (am_used a) \<Longrightarrow> recorded_event uid e \<Longrightarrow>
   am_step a (a\<lparr>am_used := uid # am_used a, am_tasks := (Caller uid, [Notify e]) # am_tasks a\<rparr>)"
| side:
  "side_section (am_mgr a) tasks m' \<Longrightarrow>
   am_step a (a\<lparr>am_mgr := m', am_tasks := todo Other tasks @ am_tasks a\<rparr>)"
| subscribe:
  "\<not> notifying a \<Longrightarrow> m' = Subscribe ob (am_mgr a) \<or> m' = Unsubscribe ob (am_mgr a) \<Longrightarrow>
   am_step a (a\<lparr>am_mgr := m'\<rparr>)"
| run:
  "am_tasks a = xs @ (g, t # ts) # ys \<Longrightarrow> task_run now t (am_mgr a) = (first, m') \<Longrightarrow>
   am_step a (a\<lparr>am_mgr := m', am_tasks := xs @ todo g (first @ ts) @ ys\<rparr>)"

text \<open>A run starts with a new manager for a configuration; \<open>am_init\<close>: one with a sensible history limit.\<close>

definition am_start :: "ManagerConfig \<Rightarrow> AM" where
  "am_start cfg = \<lparr>am_mgr = NewManager cfg, am_calls = [], am_answered = [], am_waiting = [], am_leaving = [],
     am_watching = [], am_tasks = [], am_returned = [], am_used = [], am_resolved = []\<rparr>"

definition am_init :: "AM \<Rightarrow> bool" where
  "am_init a \<longleftrightarrow> (\<exists>cfg. 0 \<le> mc_HistoryMax cfg \<and> a = am_start cfg)"

subsection \<open>What each operation does to the parts of the state the invariant reads\<close>

definition mgr_ok :: "Manager \<Rightarrow> bool" where
  "mgr_ok m \<longleftrightarrow> \<not> mg_panic m \<and> 0 \<le> mg_historyMax m \<and> int (length (mg_history m)) \<le> mg_historyMax m"

lemma mgr_ok_notify [intro]: "mgr_ok m \<Longrightarrow> mgr_ok (notify now e m)"
  by (simp add: mgr_ok_def notify_history_length)

lemma mgr_ok_addHistory [intro]: "mgr_ok m \<Longrightarrow> mgr_ok (addHistory now e m)"
  by (auto simp: mgr_ok_def addHistory_def AddHistoryEntry_take split: option.splits)

lemma mgr_ok_update [simp]:
  "mgr_ok (m\<lparr>mg_pending := p\<rparr>) = mgr_ok m" "mgr_ok (m\<lparr>mg_cache := c\<rparr>) = mgr_ok m"
  "mgr_ok (m\<lparr>mg_autoApproveRules := rs\<rparr>) = mgr_ok m" "mgr_ok (m\<lparr>mg_observers := os\<rparr>) = mgr_ok m"
  "mgr_ok (m\<lparr>mg_delivered := ds\<rparr>) = mgr_ok m" "mgr_ok (cacheApproval now req m) = mgr_ok m"
  "mgr_ok (insertPending req m) = mgr_ok m"
  by (simp_all add: mgr_ok_def insertPending_def)

lemma mgr_ok_closeDone: "map_of (mg_done m) i = None \<Longrightarrow> mgr_ok (closeDone i res m) = mgr_ok m"
  by (simp add: mgr_ok_def closeDone_def)

text \<open>Same pending requests, same channels, and the manager stays in order.\<close>

definition quiet :: "Manager \<Rightarrow> Manager \<Rightarrow> bool" where
  "quiet m m' \<longleftrightarrow> mg_pending m' = mg_pending m \<and> mg_done m' = mg_done m \<and> (mgr_ok m \<longrightarrow> mgr_ok m')"

lemma quiet_refl [simp]: "quiet m m"
  by (simp add: quiet_def)

lemma quiet_trans: "quiet m m' \<Longrightarrow> quiet m' m'' \<Longrightarrow> quiet m m''"
  by (auto simp: quiet_def)

lemma quiet_update [simp]:
  "quiet m (m'\<lparr>mg_cache := c\<rparr>) = quiet m m'" "quiet m (m'\<lparr>mg_autoApproveRules := rs\<rparr>) = quiet m m'"
  "quiet m (m'\<lparr>mg_observers := os\<rparr>) = quiet m m'" "quiet m (cacheApproval now req m') = quiet m m'"
  by (simp_all add: quiet_def)

lemma task_run_quiet: "task_run now t m = (first, m') \<Longrightarrow> quiet m m'"
  by (cases t) (auto simp: quiet_def AddAutoApproveRule_section_def Let_def split: option.splits)

lemma side_section_quiet: "side_section m tasks m' \<Longrightarrow> quiet m m'"
  by (induction rule: side_section.induct)
     (auto simp: RemoveAutoApproveRule_section_def checkAutoApproveRules_eq CacheItemForSender_def split: option.splits)

lemma subscribe_quiet: "m' = Subscribe ob m \<or> m' = Unsubscribe ob m \<Longrightarrow> quiet m m'"
  by (auto simp: Subscribe_def Unsubscribe_def)

lemma call_cache_quiet: "call_cache now c m = (hit, m') \<Longrightarrow> quiet m m'"
  by (auto simp: call_cache_def checkApprovalCache_def split: if_splits prod.splits)

lemma call_rules_quiet: "call_rules now uid c m = (d, m') \<Longrightarrow> quiet m m'"
  by (auto simp: call_rules_def Let_def checkAutoApproveRules_eq split: if_splits option.splits)

lemma call_rules_answer: "call_rules now uid c m = (Some (r, e), m') \<Longrightarrow> fst r"
  by (auto simp: call_rules_def Let_def checkAutoApproveRules_eq split: if_splits option.splits)

lemma takePending_effect:
  assumes "takePending i v m = Some (req, m1)" and "map_of (mg_done m) i = None"
  shows "map_of (mg_pending m) i = Some req \<and> mg_pending m1 = gm_del i (mg_pending m) \<and>
         mg_done m1 = gm_put i v (mg_done m) \<and> (mgr_ok m \<longrightarrow> mgr_ok m1)"
  using assms by (auto simp: takePending_def closeDone_def mgr_ok_def split: option.splits)

lemma resolve_section_effect:
  assumes "resolve_section op i m = Some (tasks, m')" and "map_of (mg_done m) i = None"
  shows "map_of (mg_pending m) i \<noteq> None \<and> mg_pending m' = gm_del i (mg_pending m) \<and>
         mg_done m' = gm_put i (verdict op) (mg_done m) \<and> (mgr_ok m \<longrightarrow> mgr_ok m')"
proof -
  obtain req where "takePending i (verdict op) m = Some (req, m')" using resolve_section_Some [OF assms(1)] by blast
  from takePending_effect [OF this assms(2)] show ?thesis by blast
qed

lemma resolve_section_pending:
  assumes "resolve_section op i m = Some (tasks, m')"
  shows "map_of (mg_pending m) i \<noteq> None"
  using resolve_section_Some [OF assms] by (auto simp: takePending_def split: option.splits)

subsection \<open>The invariant\<close>

text \<open>
  Over the maps alone: pending requests \<open>P\<close>, closed channels \<open>D\<close>, waiting \<open>W\<close>, leaving \<open>L\<close> and
  watching \<open>G\<close> goroutines, calls \<open>C\<close> that have no request yet, used IDs, resolved requests and
  returned results.  A pending request is somebody's, has an open channel and its own ID; whoever waits
  is pending or has been woken; a channel was closed by exactly one resolving call, whose verdict the
  waiter reads.
\<close>

definition owned :: "(string \<rightharpoonup> Request) \<Rightarrow> (string \<rightharpoonup> bool) \<Rightarrow> string set \<Rightarrow> bool" where
  "owned P D owners \<longleftrightarrow> (\<forall>i req. P i = Some req \<longrightarrow> rq_ID req = i \<and> D i = None \<and> i \<in> owners)"

definition wakeable :: "(string \<rightharpoonup> Request) \<Rightarrow> (string \<rightharpoonup> bool) \<Rightarrow> (string \<rightharpoonup> Request) \<Rightarrow> bool" where
  "wakeable P D W \<longleftrightarrow> (\<forall>i req. W i = Some req \<longrightarrow> rq_ID req = i \<and> (P i = Some req \<or> D i \<noteq> None))"

text \<open>A result is backed by a resolving call.\<close>

definition backed :: "(string \<times> bool) list \<Rightarrow> string \<Rightarrow> approval_result \<Rightarrow> bool" where
  "backed res i r \<longleftrightarrow> (r = (False, None) \<longrightarrow> (i, True) \<in> set res) \<and> (r = (False, Some ErrDenied) \<longrightarrow> (i, False) \<in> set res)"

definition verdicts :: "(string \<rightharpoonup> bool) \<Rightarrow> string set \<Rightarrow> (string \<times> bool) list
    \<Rightarrow> (string \<times> approval_result) list \<Rightarrow> bool" where
  "verdicts D waiting res ret \<longleftrightarrow>
     distinct (map fst res) \<and> (\<forall>(i, v) \<in> set res. D i = Some v) \<and>
     (\<forall>i \<in> waiting. \<forall>v. D i = Some v \<longrightarrow> (i, v) \<in> set res) \<and>
     (\<forall>(i, r) \<in> set ret. backed res i r)"

definition leaving_ok :: "(string \<rightharpoonup> leaving) \<Rightarrow> (string \<times> bool) list \<Rightarrow> bool" where
  "leaving_ok L res \<longleftrightarrow> (\<forall>i x. L i = Some x \<longrightarrow> rq_ID (lv_req x) = i \<and> backed res i (lv_result x))"

definition answered_ok :: "(string \<rightharpoonup> approval_result) \<Rightarrow> bool" where
  "answered_ok N \<longleftrightarrow> (\<forall>i r. N i = Some r \<longrightarrow> fst r)"

definition apart :: "'a set \<Rightarrow> 'a set \<Rightarrow> 'a set \<Rightarrow> 'a set \<Rightarrow> 'a set \<Rightarrow> 'a set \<Rightarrow> bool" where
  "apart C W L G D U \<longleftrightarrow> C \<inter> (W \<union> L \<union> G \<union> D) = {} \<and> W \<inter> L = {} \<and> W \<inter> G = {} \<and> L \<inter> G = {} \<and>
     C \<union> W \<union> L \<union> G \<union> D \<subseteq> U"

definition am_inv :: "AM \<Rightarrow> bool" where
  "am_inv a \<longleftrightarrow> mgr_ok (am_mgr a) \<and>
     (let P = map_of (mg_pending (am_mgr a)); D = map_of (mg_done (am_mgr a)); C = map_of (am_calls a);
          W = map_of (am_waiting a); L = map_of (am_leaving a); G = map_of (am_watching a)
      in owned P D (dom W \<union> dom L \<union> dom G) \<and> wakeable P D W \<and> wakeable P D G \<and>
         leaving_ok L (am_resolved a) \<and> answered_ok (map_of (am_answered a)) \<and>
         apart (dom C) (dom W) (dom L) (dom G) (dom D) (set (am_used a)) \<and>
         verdicts D (dom W) (am_resolved a) (am_returned a))"

lemmas am_inv_parts = am_inv_def Let_def owned_def wakeable_def verdicts_def leaving_ok_def answered_ok_def
  apart_def backed_def

lemma am_init_inv: "am_init a \<Longrightarrow> am_inv a"
  by (auto simp: am_init_def am_start_def am_inv_parts mgr_ok_def NewManager_def)

lemma am_inv_tasks [simp]: "am_inv (a\<lparr>am_tasks := ts\<rparr>) = am_inv a"
  by (simp add: am_inv_def)

lemma am_inv_tasks' [simp]: "am_inv (a\<lparr>am_mgr := m, am_tasks := ts\<rparr>) = am_inv (a\<lparr>am_mgr := m\<rparr>)"
  by (simp add: am_inv_def)

lemma am_inv_quiet: "am_inv a \<Longrightarrow> quiet (am_mgr a) m' \<Longrightarrow> am_inv (a\<lparr>am_mgr := m'\<rparr>)"
  by (simp add: am_inv_def quiet_def)

lemma am_inv_apart:
  "am_inv a \<Longrightarrow> apart (dom (map_of (am_calls a))) (dom (map_of (am_waiting a))) (dom (map_of (am_leaving a)))
      (dom (map_of (am_watching a))) (dom (map_of (mg_done (am_mgr a)))) (set (am_used a))"
  by (simp add: am_inv_def Let_def)

lemma disjoint_dom:
  assumes "dom f \<inter> dom g = {}"
  shows "f i = Some x \<Longrightarrow> g i = None" "g i = Some y \<Longrightarrow> f i = None"
  using assms by (auto simp: disjoint_iff)

lemma inv_closed_at:
  "am_inv a \<Longrightarrow> map_of (mg_done (am_mgr a)) i = Some v \<Longrightarrow> map_of (mg_pending (am_mgr a)) i = None"
  by (cases "map_of (mg_pending (am_mgr a)) i") (auto simp: am_inv_def Let_def owned_def)

lemma am_invD:
  assumes "am_inv a"
  shows "mgr_ok (am_mgr a)"
    and "owned (map_of (mg_pending (am_mgr a))) (map_of (mg_done (am_mgr a)))
           (dom (map_of (am_waiting a)) \<union> dom (map_of (am_leaving a)) \<union> dom (map_of (am_watching a)))"
    and "wakeable (map_of (mg_pending (am_mgr a))) (map_of (mg_done (am_mgr a))) (map_of (am_waiting a))"
    and "wakeable (map_of (mg_pending (am_mgr a))) (map_of (mg_done (am_mgr a))) (map_of (am_watching a))"
    and "leaving_ok (map_of (am_leaving a)) (am_resolved a)"
    and "answered_ok (map_of (am_answered a))"
    and "verdicts (map_of (mg_done (am_mgr a))) (dom (map_of (am_waiting a))) (am_resolved a) (am_returned a)"
  using assms by (simp_all add: am_inv_def Let_def)

text \<open>How the parts of the invariant follow a change of the maps.\<close>

lemma owned_changes:
  assumes "owned P D S"
  shows "rq_ID req = i \<Longrightarrow> D i = None \<Longrightarrow> owned (P(i \<mapsto> req)) D (insert i S)"
    and "S \<subseteq> insert i S' \<Longrightarrow> owned (P(i := None)) D S'"
    and "owned (P(i := None)) (D(i \<mapsto> v)) S"
    and "P i = None \<Longrightarrow> owned P (D(i \<mapsto> v)) S"
    and "P i = None \<or> i \<in> S' \<Longrightarrow> S \<subseteq> insert i S' \<Longrightarrow> owned P D S'"
proof -
  show "P i = None \<or> i \<in> S' \<Longrightarrow> S \<subseteq> insert i S' \<Longrightarrow> owned P D S'"
    using assms unfolding owned_def by (metis insertE option.distinct(1) subsetD)
qed (use assms in \<open>auto simp: owned_def\<close>)

lemma wakeable_changes:
  assumes "wakeable P D W"
  shows "rq_ID req = i \<Longrightarrow> wakeable (P(i \<mapsto> req)) D (W(i \<mapsto> req))"
    and "W i = None \<Longrightarrow> wakeable (P(i \<mapsto> req)) D W"
    and "wakeable P D (W(i := None))"
    and "wakeable (P(i := None)) (D(i \<mapsto> v)) W"
    and "wakeable P (D(i \<mapsto> v)) W"
    and "wakeable (P(i := None)) D (W(i := None))"
    and "W i = None \<Longrightarrow> wakeable (P(i := None)) D W"
  using assms unfolding wakeable_def by auto

lemma leaving_changes:
  assumes "leaving_ok L res"
  shows "rq_ID req = i \<Longrightarrow> backed res i r \<Longrightarrow> leaving_ok (L(i \<mapsto> Leaving req r)) res"
    and "leaving_ok (L(i := None)) res"
    and "leaving_ok L (x # res)"
  using assms unfolding leaving_ok_def backed_def by auto

lemma apart_changes:
  assumes "apart C W L G D U"
  shows "i \<notin> U \<Longrightarrow> apart (insert i C) W L G D (insert i U)"
    and "apart C W L G D (insert i U)"
    and "apart (C - {i}) W L G D U"
    and "i \<in> C \<Longrightarrow> apart (C - {i}) (insert i W) L G D U"
    and "i \<notin> U \<Longrightarrow> apart C W L (insert i G) D (insert i U)"
    and "i \<in> W \<Longrightarrow> apart C (W - {i}) (insert i L) G D U"
    and "apart C W (L - {i}) G D U"
    and "apart C W L (G - {i}) D U"
    and "i \<notin> U \<Longrightarrow> apart C W L G (insert i D) (insert i U)"
    and "i \<in> W \<union> L \<union> G \<Longrightarrow> apart C W L G (insert i D) U"
  using assms unfolding apart_def by blast+

lemma verdicts_changes:
  assumes "verdicts D W res ret"
  shows "backed res i r \<Longrightarrow> verdicts D W res ((i, r) # ret)"
    and "verdicts D (W - X) res ret"
    and "D i = None \<Longrightarrow> verdicts D (insert i W) res ret"
    and "D i = None \<Longrightarrow> verdicts (D(i \<mapsto> v)) W ((i, v) # res) ret"
    and "D i = None \<Longrightarrow> i \<notin> W \<Longrightarrow> verdicts (D(i \<mapsto> v)) W res ret"
proof -
  note v = assms [unfolded verdicts_def]
  show "backed res i r \<Longrightarrow> verdicts D W res ((i, r) # ret)" using v by (simp add: verdicts_def)
  show "verdicts D (W - X) res ret" using v by (simp add: verdicts_def)
  show "D i = None \<Longrightarrow> verdicts D (insert i W) res ret" using v by (simp add: verdicts_def)
  assume D: "D i = None"
  then have r: "i \<notin> fst ` set res" using v by force
  then have k: "\<forall>(j, w) \<in> set res. j \<noteq> i" by force
  show "verdicts (D(i \<mapsto> v)) W ((i, v) # res) ret"
    using v r k unfolding verdicts_def backed_def by auto
  assume "i \<notin> W"
  then show "verdicts (D(i \<mapsto> v)) W res ret"
    using v k unfolding verdicts_def by auto
qed

text \<open>An ID that no goroutine with a request uses: a new one, or one of a call without a request.\<close>

definition free :: "AM \<Rightarrow> string \<Rightarrow> bool" where
  "free a i \<longleftrightarrow> map_of (am_waiting a) i = None \<and> map_of (am_leaving a) i = None \<and> map_of (am_watching a) i = None \<and>
     map_of (mg_done (am_mgr a)) i = None \<and> map_of (mg_pending (am_mgr a)) i = None"

lemma apart_fresh:
  "apart C W L G D U \<Longrightarrow> u \<notin> U \<or> u \<in> C \<Longrightarrow> u \<notin> W \<and> u \<notin> L \<and> u \<notin> G \<and> u \<notin> D"
  unfolding apart_def by blast

lemma inv_free:
  assumes "am_inv a" and "i \<notin> set (am_used a) \<or> map_of (am_calls a) i \<noteq> None"
  shows "free a i"
proof -
  have f: "map_of (am_waiting a) i = None" "map_of (am_leaving a) i = None"
    "map_of (am_watching a) i = None" "map_of (mg_done (am_mgr a)) i = None"
    using apart_fresh [OF am_inv_apart [OF assms(1)], of i] assms(2) by (simp_all add: domIff)
  from assms(1) have "owned (map_of (mg_pending (am_mgr a))) (map_of (mg_done (am_mgr a)))
      (dom (map_of (am_waiting a)) \<union> dom (map_of (am_leaving a)) \<union> dom (map_of (am_watching a)))"
    by (simp add: am_inv_def Let_def)
  with f have "map_of (mg_pending (am_mgr a)) i = None"
    unfolding owned_def by (metis UnE domIff option.exhaust)
  with f show ?thesis by (simp add: free_def)
qed

lemma inv_call_used: "am_inv a \<Longrightarrow> map_of (am_calls a) i = Some x \<Longrightarrow> i \<in> set (am_used a)"
  using am_inv_apart [of a] by (auto simp: apart_def)

lemma inv_waiting_at:
  assumes "am_inv a" and "map_of (am_waiting a) i = Some req"
  shows "rq_ID req = i" "map_of (am_leaving a) i = None" "map_of (am_watching a) i = None" "i \<in> set (am_used a)"
    "map_of (am_calls a) i = None"
  using assms am_inv_apart [OF assms(1)]
  by (auto simp: am_inv_def Let_def wakeable_def apart_def dest: disjoint_dom simp: disjoint_iff)

lemma inv_leaving_at:
  assumes "am_inv a" and "map_of (am_leaving a) i = Some (Leaving req r)"
  shows "rq_ID req = i" "map_of (am_waiting a) i = None" "map_of (am_watching a) i = None"
    "backed (am_resolved a) i r"
proof -
  from assms(1) have "leaving_ok (map_of (am_leaving a)) (am_resolved a)" by (simp add: am_inv_def Let_def)
  with assms(2) show "rq_ID req = i" "backed (am_resolved a) i r"
    by (force simp: leaving_ok_def)+
  from am_inv_apart [OF assms(1)] assms(2) show "map_of (am_waiting a) i = None" "map_of (am_watching a) i = None"
    by (auto simp: apart_def dest: disjoint_dom)
qed

lemma inv_watching_at:
  assumes "am_inv a" and "map_of (am_watching a) i = Some req"
  shows "rq_ID req = i" "map_of (am_waiting a) i = None" "map_of (am_leaving a) i = None" "i \<in> set (am_used a)"
  using assms am_inv_apart [OF assms(1)]
  by (auto simp: am_inv_def Let_def wakeable_def apart_def dest: disjoint_dom)

subsection \<open>Every step keeps it\<close>

lemma inv_calls:
  assumes "am_inv a"
  shows "uid \<notin> set (am_used a) \<Longrightarrow> am_inv (a\<lparr>am_used := uid # am_used a, am_calls := gm_put uid (Uncached c) (am_calls a)\<rparr>)"
    and "uid \<notin> set (am_used a) \<Longrightarrow> am_inv (a\<lparr>am_used := uid # am_used a, am_returned := (uid, (True, e)) # am_returned a\<rparr>)"
    and "am_inv (a\<lparr>am_used := uid # am_used a\<rparr>)"
    and "map_of (am_calls a) i = Some x \<Longrightarrow> am_inv (a\<lparr>am_calls := gm_put i y (am_calls a)\<rparr>)"
    and "fst r \<Longrightarrow> am_inv (a\<lparr>am_calls := gm_del i (am_calls a), am_answered := gm_put i r (am_answered a)\<rparr>)"
    and "map_of (am_answered a) i = Some r \<Longrightarrow>
          am_inv (a\<lparr>am_answered := gm_del i (am_answered a), am_returned := (i, r) # am_returned a\<rparr>)"
proof -
  note I = am_invD [OF assms] and A = apart_changes [OF am_inv_apart [OF assms]] and V = verdicts_changes [OF am_invD(7) [OF assms]]
  show "uid \<notin> set (am_used a) \<Longrightarrow> am_inv (a\<lparr>am_used := uid # am_used a, am_calls := gm_put uid (Uncached c) (am_calls a)\<rparr>)"
    using I A(1) [of uid] by (simp add: am_inv_def)
  show "uid \<notin> set (am_used a) \<Longrightarrow> am_inv (a\<lparr>am_used := uid # am_used a, am_returned := (uid, (True, e)) # am_returned a\<rparr>)"
    using I A(2) [of uid] V(1) [of uid "(True, e)"] by (simp add: am_inv_def backed_def)
  show "am_inv (a\<lparr>am_used := uid # am_used a\<rparr>)" using I A(2) [of uid] by (simp add: am_inv_def)
  show "map_of (am_calls a) i = Some x \<Longrightarrow> am_inv (a\<lparr>am_calls := gm_put i y (am_calls a)\<rparr>)"
    using I am_inv_apart [OF assms] by (simp add: am_inv_def insert_absorb domI)
  show "fst r \<Longrightarrow> am_inv (a\<lparr>am_calls := gm_del i (am_calls a), am_answered := gm_put i r (am_answered a)\<rparr>)"
    using I A(3) [of i] by (auto simp: am_inv_def answered_ok_def)
  assume "map_of (am_answered a) i = Some r"
  then have "backed (am_resolved a) i r" using I(6) by (auto simp: answered_ok_def backed_def)
  then show "am_inv (a\<lparr>am_answered := gm_del i (am_answered a), am_returned := (i, r) # am_returned a\<rparr>)"
    using I V(1) [of i r] am_inv_apart [OF assms] by (auto simp: am_inv_def answered_ok_def)
qed

lemma inv_insert:
  assumes "am_inv a" and "rq_ID req = i" and "free a i"
  shows "i \<notin> set (am_used a) \<Longrightarrow>
           am_inv (a\<lparr>am_mgr := insertPending req (am_mgr a), am_used := i # am_used a, am_watching := gm_put i req (am_watching a)\<rparr>)"
    and "map_of (am_calls a) i = Some x \<Longrightarrow>
           am_inv (a\<lparr>am_mgr := insertPending req (am_mgr a), am_calls := gm_del i (am_calls a), am_waiting := gm_put i req (am_waiting a)\<rparr>)"
proof -
  note f = assms(3) [unfolded free_def] and I = am_invD [OF assms(1)] and A = apart_changes [OF am_inv_apart [OF assms(1)]]
  note O = owned_changes(1) [OF I(2) assms(2)] and
    W = wakeable_changes(1,2) [OF I(3)] wakeable_changes(1,2) [OF I(4)] and V = verdicts_changes(3) [OF I(7)]
  show "i \<notin> set (am_used a) \<Longrightarrow>
      am_inv (a\<lparr>am_mgr := insertPending req (am_mgr a), am_used := i # am_used a, am_watching := gm_put i req (am_watching a)\<rparr>)"
    using I f assms(2) A(5) [of i] O W(2) [of i req] W(3) [OF assms(2)] by (simp add: am_inv_def insertPending_def)
  assume "map_of (am_calls a) i = Some x"
  then show "am_inv (a\<lparr>am_mgr := insertPending req (am_mgr a), am_calls := gm_del i (am_calls a), am_waiting := gm_put i req (am_waiting a)\<rparr>)"
    using I f assms(2) A(4) [of i] O W(1) [OF assms(2)] W(4) [of i req] V [of i]
    by (simp add: am_inv_def insertPending_def domI)
qed

lemma inv_resolved:
  assumes "am_inv a" and "resolve_section op i (am_mgr a) = Some (tasks, m')"
  shows "am_inv (a\<lparr>am_mgr := m', am_resolved := (i, verdict op) # am_resolved a\<rparr>)"
proof -
  note I = am_invD [OF assms(1)]
  from resolve_section_pending [OF assms(2)] have D: "map_of (mg_done (am_mgr a)) i = None" and
    O: "i \<in> dom (map_of (am_waiting a)) \<union> dom (map_of (am_leaving a)) \<union> dom (map_of (am_watching a))"
    using I(2) by (auto simp: owned_def)
  from resolve_section_effect [OF assms(2) D] have
    m': "mg_pending m' = gm_del i (mg_pending (am_mgr a))"
      "mg_done m' = gm_put i (verdict op) (mg_done (am_mgr a))" "mgr_ok (am_mgr a) \<Longrightarrow> mgr_ok m'" by auto
  show ?thesis
    using I m' owned_changes(3) [OF I(2)] wakeable_changes(4) [OF I(3)] wakeable_changes(4) [OF I(4)]
      leaving_changes(3) [OF I(5)] apart_changes(10) [OF am_inv_apart [OF assms(1)] O] verdicts_changes(4) [OF I(7) D]
    by (simp add: am_inv_def)
qed

lemma inv_leaving:
  assumes "am_inv a" and "map_of (am_waiting a) i = Some req" and "backed (am_resolved a) i r"
  shows "am_inv (a\<lparr>am_waiting := gm_del i (am_waiting a), am_leaving := gm_put i (Leaving req r) (am_leaving a)\<rparr>)"
proof -
  note I = am_invD [OF assms(1)] and at = inv_waiting_at [OF assms(1,2)]
  have "owned (map_of (mg_pending (am_mgr a))) (map_of (mg_done (am_mgr a)))
      (dom ((map_of (am_waiting a))(i := None)) \<union> dom ((map_of (am_leaving a))(i \<mapsto> Leaving req r)) \<union> dom (map_of (am_watching a)))"
    by (rule owned_changes(5) [OF I(2), of i]) auto
  then show ?thesis
    using I at(1) assms(3) wakeable_changes(3) [OF I(3)] leaving_changes(1) [OF I(5) at(1) assms(3)]
      apart_changes(6) [OF am_inv_apart [OF assms(1)], of i] assms(2) verdicts_changes(2) [OF I(7), of "{i}"]
    by (simp add: am_inv_def domI)
qed

lemma inv_wake:
  assumes "am_inv a" and "map_of (am_waiting a) i = Some req"
    and "RequireApproval_select SelDone now req (am_mgr a) = (Some r, m')"
  shows "m' = am_mgr a \<and> am_inv (a\<lparr>am_waiting := gm_del i (am_waiting a), am_leaving := gm_put i (Leaving req r) (am_leaving a)\<rparr>)"
proof -
  have i: "rq_ID req = i" using inv_waiting_at [OF assms(1,2)] by simp
  with assms(3) obtain v where v: "map_of (mg_done (am_mgr a)) i = Some v" "m' = am_mgr a"
    "r = (False, if v then None else Some ErrDenied)"
    by (auto simp: RequireApproval_select_def split: option.splits)
  have "(i, v) \<in> set (am_resolved a)"
    using am_invD(7) [OF assms(1)] assms(2) v(1) by (auto simp: verdicts_def)
  then have "backed (am_resolved a) i r" using v(3) by (cases v) (auto simp: backed_def)
  from inv_leaving [OF assms(1,2) this] v(2) show ?thesis by blast
qed

lemma inv_leave:
  assumes "am_inv a" and "map_of (am_leaving a) i = Some (Leaving req r)"
  shows "am_inv (a\<lparr>am_mgr := RequireApproval_cleanup req (am_mgr a), am_leaving := gm_del i (am_leaving a),
                   am_returned := (i, r) # am_returned a\<rparr>)"
proof -
  note I = am_invD [OF assms(1)] and at = inv_leaving_at [OF assms]
  have "owned ((map_of (mg_pending (am_mgr a)))(i := None)) (map_of (mg_done (am_mgr a)))
      (dom (map_of (am_waiting a)) \<union> dom ((map_of (am_leaving a))(i := None)) \<union> dom (map_of (am_watching a)))"
    by (rule owned_changes(2) [OF I(2)]) auto
  then show ?thesis
    using I at wakeable_changes(7) [OF I(3) at(2)] wakeable_changes(7) [OF I(4) at(3)] leaving_changes(2) [OF I(5), of i]
      apart_changes(7) [OF am_inv_apart [OF assms(1)], of i] verdicts_changes(1) [OF I(7) at(4)]
    by (simp add: am_inv_def RequireApproval_cleanup_def)
qed

lemma inv_gpg:
  assumes "am_inv a" and "map_of (am_watching a) i = Some req"
  shows "am_inv (a\<lparr>am_mgr := gpgTimeout_remove req (am_mgr a), am_watching := gm_del i (am_watching a)\<rparr>)"
    and "map_of (mg_done (am_mgr a)) i \<noteq> None \<Longrightarrow> am_inv (a\<lparr>am_watching := gm_del i (am_watching a)\<rparr>)"
proof -
  note I = am_invD [OF assms(1)] and at = inv_watching_at [OF assms] and
    A = apart_changes(8) [OF am_inv_apart [OF assms(1)], of i]
  have "owned ((map_of (mg_pending (am_mgr a)))(i := None)) (map_of (mg_done (am_mgr a)))
      (dom (map_of (am_waiting a)) \<union> dom (map_of (am_leaving a)) \<union> dom ((map_of (am_watching a))(i := None)))"
    by (rule owned_changes(2) [OF I(2)]) auto
  then show "am_inv (a\<lparr>am_mgr := gpgTimeout_remove req (am_mgr a), am_watching := gm_del i (am_watching a)\<rparr>)"
    using I at wakeable_changes(7) [OF I(3) at(2)] wakeable_changes(6) [OF I(4), of i] A
    by (simp add: am_inv_def gpgTimeout_remove_def)
  assume "map_of (mg_done (am_mgr a)) i \<noteq> None"
  then have "map_of (mg_pending (am_mgr a)) i = None" using assms(1) inv_closed_at by blast
  then have "owned (map_of (mg_pending (am_mgr a))) (map_of (mg_done (am_mgr a)))
      (dom (map_of (am_waiting a)) \<union> dom (map_of (am_leaving a)) \<union> dom ((map_of (am_watching a))(i := None)))"
    by (intro owned_changes(5) [OF I(2), of i]) auto
  then show "am_inv (a\<lparr>am_watching := gm_del i (am_watching a)\<rparr>)"
    using I wakeable_changes(3) [OF I(4), of i] A by (simp add: am_inv_def)
qed

lemma inv_gpg_auto:
  assumes "am_inv a" and "uid \<notin> set (am_used a)"
  shows "am_inv (a\<lparr>am_mgr := closeDone uid False (am_mgr a), am_used := uid # am_used a\<rparr>)"
proof -
  note I = am_invD [OF assms(1)] and f = inv_free [OF assms(1) disjI1 [OF assms(2)], unfolded free_def]
  have m: "mg_pending (closeDone uid False (am_mgr a)) = mg_pending (am_mgr a)"
    "mg_done (closeDone uid False (am_mgr a)) = gm_put uid False (mg_done (am_mgr a))"
    "mgr_ok (closeDone uid False (am_mgr a)) = mgr_ok (am_mgr a)"
    using f by (simp_all add: closeDone_def mgr_ok_def)
  show ?thesis
    using I f m owned_changes(4) [OF I(2), of uid] wakeable_changes(5) [OF I(3), of uid] wakeable_changes(5) [OF I(4), of uid]
      apart_changes(9) [OF am_inv_apart [OF assms(1)] assms(2)] verdicts_changes(5) [OF I(7), of uid]
    by (simp add: am_inv_def domIff)
qed

lemma am_inv_later [simp]:
  "am_inv (a\<lparr>am_mgr := m, am_used := u, am_returned := r\<rparr>) = am_inv (a\<lparr>am_used := u, am_returned := r, am_mgr := m\<rparr>)"
  "am_inv (a\<lparr>am_mgr := m, am_used := u, am_calls := c\<rparr>) = am_inv (a\<lparr>am_used := u, am_calls := c, am_mgr := m\<rparr>)"
  "am_inv (a\<lparr>am_mgr := m, am_calls := c, am_answered := n\<rparr>) = am_inv (a\<lparr>am_calls := c, am_answered := n, am_mgr := m\<rparr>)"
  "am_inv (a\<lparr>am_mgr := m, am_calls := c\<rparr>) = am_inv (a\<lparr>am_calls := c, am_mgr := m\<rparr>)"
  by (simp_all add: am_inv_def)

lemma am_step_inv: "am_step a b \<Longrightarrow> am_inv a \<Longrightarrow> am_inv b"
proof (induction rule: am_step.induct)
  case (call_hit uid a now c m')
  from am_inv_quiet [OF inv_calls(2) [OF call_hit(3,1), of None]] call_cache_quiet [OF call_hit(2)]
  show ?case by simp
next
  case (call_miss uid a now c m')
  from am_inv_quiet [OF inv_calls(1) [OF call_miss(3,1), of c]] call_cache_quiet [OF call_miss(2)]
  show ?case by simp
next
  case (call_rule a i c now r e m')
  from am_inv_quiet [OF inv_calls(5) [OF call_rule(3) call_rules_answer [OF call_rule(2)], of i]] call_rules_quiet [OF call_rule(2)]
  show ?case by (simp add: am_inv_def)
next
  case (call_return a i r)
  then show ?case by (intro inv_calls(6))
next
  case (call_no_rule a i c now m')
  from am_inv_quiet [OF inv_calls(4) [OF call_no_rule(3,1), of "Unmatched c"]] call_rules_quiet [OF call_no_rule(2)]
  show ?case by simp
next
  case (call_wait a i c req now)
  have "rq_ID req = i" using call_wait(2) by (simp add: call_request_def newRequest_def)
  from inv_insert(2) [OF call_wait(3) this inv_free [OF call_wait(3)] call_wait(1)] call_wait(1)
  show ?case by (simp add: am_inv_def)
next
  case (resolve_ok op i a tasks m')
  from inv_resolved [OF resolve_ok(2,1)] show ?case by (simp add: am_inv_def)
next
  case (wake a i req now r m')
  from inv_wake [OF wake(4,1,3)] show ?case by (simp add: am_inv_def)
next
  case (timer a i req now)
  from inv_leaving [OF timer(4,1), of "(False, Some ErrTimeout)"] show ?case by (simp add: backed_def am_inv_def)
next
  case (ctx_done a i req)
  from inv_leaving [OF ctx_done(3,1), of "(False, Some ErrCanceled)"] show ?case by (simp add: backed_def am_inv_def)
next
  case (leave a i req r)
  then show ?case by (intro inv_leave)
next
  case (gpg_create uid a req now client gi s)
  have "rq_ID req = uid" using gpg_create(2) by (simp add: gpgRequest_def newRequest_def)
  from inv_insert(1) [OF gpg_create(3) this inv_free [OF gpg_create(3)] gpg_create(1)] gpg_create(1)
  show ?case by (simp add: am_inv_def)
next
  case (gpg_auto uid a now client gi s sig st)
  from inv_gpg_auto [OF gpg_auto(2,1)] show ?case by (simp add: am_inv_def)
next
  case (gpg_resolved a i req)
  then show ?case by (intro inv_gpg(2))
next
  case (gpg_timer a i req now)
  from inv_gpg(1) [OF gpg_timer(4,1)] show ?case by (simp add: am_inv_def)
next
  case (recorded_only uid a e)
  from inv_calls(3) [OF recorded_only(3), of uid] show ?case by (simp add: am_inv_def)
next
  case (side a tasks m')
  from am_inv_quiet [OF side(2) side_section_quiet [OF side(1)]] show ?case by simp
next
  case (subscribe a m' ob)
  then show ?case by (auto intro: am_inv_quiet subscribe_quiet)
next
  case (run a xs g t ts ys now first m')
  from am_inv_quiet [OF run(3) task_run_quiet [OF run(2)]] show ?case by simp
qed

interpretation am: invariant_system am_init am_step am_inv
  by unfold_locales (auto intro: am_init_inv am_step_inv)

subsection \<open>The operations as a whole\<close>

lemma mgr_ok_AddAutoApproveRule [intro]: "mgr_ok m \<Longrightarrow> mgr_ok (snd (AddAutoApproveRule now uid req m))"
  by (auto simp: AddAutoApproveRule_def Let_def split: option.splits prod.splits)

lemma quiet_notify [intro]: "quiet m m' \<Longrightarrow> quiet m (notify now e m')"
  by (auto simp: quiet_def)

text \<open>The operations that neither create nor resolve a request.\<close>

inductive side_step :: "Manager \<Rightarrow> Manager \<Rightarrow> bool" where
  rule_added: "side_step m (snd (AddAutoApproveRule now uid req m))"
| rule_removed: "side_step m (snd (RemoveAutoApproveRule now i m))"
| rules_checked: "side_step m (snd (checkAutoApproveRules now s items t m))"
| item_cached: "side_step m (CacheItemForSender now sender p m)"
| subscribed_one: "side_step m (Subscribe ob m)"
| unsubscribed_one: "side_step m (Unsubscribe ob m)"

text \<open>Requests that are only recorded, under a new ID.\<close>

inductive record_step :: "string \<Rightarrow> Manager \<Rightarrow> Manager \<Rightarrow> bool" for uid where
  passed_on: "record_step uid m (RecordPassthrough now uid client items session t sa s m)"
| ignored: "record_step uid m (RecordIgnored now uid client items session s m)"
| denied_only: "record_step uid m (RecordDenied now uid client items session t sa s m)"

lemma side_step_quiet: "side_step m m' \<Longrightarrow> quiet m m'"
proof (induction rule: side_step.induct)
  case (rule_added m now uid req)
  then show ?case by (auto simp: quiet_def AddAutoApproveRule_def Let_def split: option.splits prod.splits)
qed (auto simp: RemoveAutoApproveRule_def checkAutoApproveRules_eq CacheItemForSender_def
       Subscribe_def Unsubscribe_def split: option.splits)

lemma record_step_quiet: "record_step uid m m' \<Longrightarrow> quiet m m'"
  by (induction rule: record_step.induct) (auto simp: RecordPassthrough_def RecordIgnored_def RecordDenied_def)

lemma begin_Some:
  assumes "RequireApproval_begin now uid client items session t sa s m = (Some r, m')"
  shows "fst r \<and> quiet m m'"
proof -
  obtain h c where c: "(if t \<noteq> RequestTypeDelete \<and> t \<noteq> RequestTypeWrite \<and> mg_approvalWindow m > 0 \<and> length items > 0
        then checkApprovalCache now (si_Sender s) items m else (False, m)) = (h, m\<lparr>mg_cache := c\<rparr>)"
    using cache_phase by blast
  from assms show ?thesis
    unfolding RequireApproval_begin_def c
    by (auto simp: Let_def checkAutoApproveRules_eq split: if_splits option.splits)
qed

lemma begin_None:
  assumes "RequireApproval_begin now uid client items session t sa s m = (None, m')"
  shows "mg_pending m' = gm_put uid (newRequest uid now (now + mg_timeout m) client items session t sa s) (mg_pending m)
         \<and> mg_done m' = mg_done m \<and> (mgr_ok m \<longrightarrow> mgr_ok m')"
proof -
  obtain h c where c: "(if t \<noteq> RequestTypeDelete \<and> t \<noteq> RequestTypeWrite \<and> mg_approvalWindow m > 0 \<and> length items > 0
        then checkApprovalCache now (si_Sender s) items m else (False, m)) = (h, m\<lparr>mg_cache := c\<rparr>)"
    using cache_phase by blast
  from assms show ?thesis
    unfolding RequireApproval_begin_def c
    by (auto simp: Let_def checkAutoApproveRules_eq split: if_splits option.splits)
qed

lemma resolve_None:
  assumes "resolve op now i m = (None, m')" and "map_of (mg_done m) i = None"
  shows "map_of (mg_pending m) i \<noteq> None \<and> mg_pending m' = gm_del i (mg_pending m) \<and>
         mg_done m' = gm_put i (verdict op) (mg_done m) \<and> (mgr_ok m \<longrightarrow> mgr_ok m')"
  using assms
  by (cases op)
     (auto simp: Approve_eq ApproveAndAutoApprove_eq Deny_eq Cancel_eq ApproveWithSignature_eq
       ApproveGPGFailed_eq Let_def mgr_ok_AddAutoApproveRule mgr_ok_notify
       dest!: takePending_effect split: option.splits)

lemma resolve_Some: "resolve op now i m = (Some e, m') \<Longrightarrow> e = ErrNotFound \<and> m' = m \<and> GetPending i m = None"
  by (cases op)
     (auto simp: Approve_eq ApproveAndAutoApprove_eq Deny_eq Cancel_eq ApproveWithSignature_eq
       ApproveGPGFailed_eq Let_def takePending_None split: option.splits)

text \<open>The resolution a resolving call leaves in the history.\<close>

fun recorded :: "resolver \<Rightarrow> Resolution" where
  "recorded RDeny = ResolutionDenied"
| "recorded RCancel = ResolutionCancelled"
| "recorded _ = ResolutionApproved"

lemma AddAutoApproveRule_history [simp]:
  "mg_history (snd (AddAutoApproveRule now uid req m)) = mg_history m"
  by (simp add: AddAutoApproveRule_def Let_def split: option.splits prod.splits)

lemma hd_notify_history:
  assumes "0 < mg_historyMax m" and "resolutionOf t = Some res"
  shows "hd (mg_history (notify now (reqEvent t req) m)) =
           \<lparr>he_Request = req, he_Resolution = res, he_ResolvedAt = now\<rparr>"
proof -
  obtain n where "nat (mg_historyMax m) = Suc n" using assms(1) by (metis Suc_pred zero_less_nat_eq)
  then show ?thesis using notify_terminal(1) [of m t res] assms by simp
qed

lemma resolve_history:
  assumes "0 < mg_historyMax m" and "GetPending i m = Some req"
  shows "fst (resolve op now i m) = None \<and>
         (let e = hd (History (snd (resolve op now i m))) in
          rq_ID (he_Request e) = rq_ID req \<and> he_Resolution e = recorded op \<and> he_ResolvedAt e = now)"
  using assms
  by (cases op)
     (simp_all add: Approve_eq ApproveAndAutoApprove_eq Deny_eq Cancel_eq ApproveWithSignature_eq
       ApproveGPGFailed_eq Let_def takePending_def GetPending_def History_def hd_notify_history)

subsection \<open>Tasks come to an end\<close>

text \<open>
  A goroutine can always carry out the first of its tasks to the end; doing so for all tasks leaves the
  requests alone.
\<close>

definition drained :: "AM \<Rightarrow> AM \<Rightarrow> bool" where
  "drained a b \<longleftrightarrow> am_step\<^sup>*\<^sup>* a b \<and> (\<exists>m' ts'. b = a\<lparr>am_mgr := m', am_tasks := ts'\<rparr> \<and> quiet (am_mgr a) m')"

lemma drained_steps: "drained a b \<Longrightarrow> am_step\<^sup>*\<^sup>* a b"
  by (simp add: drained_def)

lemma drained_refl: "drained a a"
  unfolding drained_def by (intro conjI exI [of _ "am_mgr a"] exI [of _ "am_tasks a"]) simp_all

lemma drained_trans: "drained a b \<Longrightarrow> drained b c \<Longrightarrow> drained a c"
  unfolding drained_def by (force intro: quiet_trans rtranclp_trans)

lemma run_first:
  assumes "am_tasks a = (g, t # ts) # rest"
  shows "\<exists>b. drained a b \<and> am_tasks b = todo g (fst (task_run now t (am_mgr a)) @ ts) @ rest"
proof -
  obtain first m' where r: "task_run now t (am_mgr a) = (first, m')" by (cases "task_run now t (am_mgr a)")
  have "am_tasks a = [] @ (g, t # ts) # rest" using assms by simp
  from r_into_rtranclp [of am_step, OF run [OF this r]] task_run_quiet [OF r] r show ?thesis
    unfolding drained_def by (intro exI [of _ "a\<lparr>am_mgr := m', am_tasks := todo g (first @ ts) @ rest\<rparr>"]) auto
qed

lemma run_leaves:
  assumes "\<forall>t \<in> set ts. in_notify t" and "am_tasks a = todo g (ts @ us) @ rest"
  shows "\<exists>b. drained a b \<and> am_tasks b = todo g us @ rest"
  using assms
proof (induction ts arbitrary: a)
  case Nil
  then show ?case using drained_refl by auto
next
  case (Cons t ts)
  then have "am_tasks a = (g, t # ts @ us) # rest" by (simp add: todo_def)
  from run_first [OF this, of undefined] obtain b where
    b: "drained a b" "am_tasks b = todo g (fst (task_run undefined t (am_mgr a)) @ ts @ us) @ rest"
    by blast
  have "fst (task_run undefined t (am_mgr a)) = []" using Cons.prems(1) by (cases t) auto
  with b(2) Cons.IH [of b] Cons.prems(1) obtain c where "drained b c" "am_tasks c = todo g us @ rest" by auto
  with b(1) show ?case by (blast intro: drained_trans)
qed

lemma notify_tasks_in_notify: "\<forall>t \<in> set (notify_tasks obs e). in_notify t"
  by (auto simp: notify_tasks_def)

lemma run_notify:
  assumes "am_tasks a = (g, Notify e # us) # rest"
  shows "\<exists>b. drained a b \<and> am_tasks b = todo g us @ rest"
proof -
  from run_first [OF assms, of undefined] obtain c where
    c: "drained a c" "am_tasks c = todo g (notify_tasks (mg_observers (am_mgr a)) e @ us) @ rest"
    by auto
  from run_leaves [OF notify_tasks_in_notify c(2)] c(1) show ?thesis by (blast intro: drained_trans)
qed

lemma run_task:
  assumes "am_tasks a = (g, t # us) # rest"
  shows "\<exists>b. drained a b \<and> am_tasks b = todo g us @ rest"
proof -
  from run_first [OF assms, of undefined] obtain b where
    b: "drained a b" "am_tasks b = todo g (fst (task_run undefined t (am_mgr a)) @ us) @ rest"
    by blast
  show ?thesis
  proof (cases t)
    case (Notify e)
    then show ?thesis using run_notify assms by simp
  next
    case (AddRule uid req)
    then obtain e where "fst (task_run undefined t (am_mgr a)) = [Notify e]"
      by (cases "AddAutoApproveRule_section undefined uid req (am_mgr a)") auto
    then have "am_tasks b = (g, Notify e # us) # rest" using b(2) by (simp add: todo_def)
    from run_notify [OF this] b(1) show ?thesis by (blast intro: drained_trans)
  qed (use b in auto)
qed

lemma run_goroutine:
  assumes "am_tasks a = todo g ts @ rest"
  shows "\<exists>b. drained a b \<and> am_tasks b = rest"
  using assms
proof (induction ts arbitrary: a)
  case Nil
  then show ?case using drained_refl by (auto simp: todo_def)
next
  case (Cons t ts)
  then have "am_tasks a = (g, t # ts) # rest" by (simp add: todo_def)
  from run_task [OF this] obtain b where b: "drained a b" "am_tasks b = todo g ts @ rest" by blast
  from Cons.IH [OF b(2)] b(1) show ?case by (blast intro: drained_trans)
qed

definition tasks_ok :: "AM \<Rightarrow> bool" where
  "tasks_ok a \<longleftrightarrow> [] \<notin> snd ` set (am_tasks a)"

lemma tasks_ok_todo: "[] \<notin> snd ` set (todo g ts)"
  by (simp add: todo_def)

lemma tasks_ok_step: "am_step a b \<Longrightarrow> tasks_ok a \<Longrightarrow> tasks_ok b"
  by (induction rule: am_step.induct) (simp_all add: tasks_ok_def tasks_ok_todo image_Un)

lemma tasks_ok_init: "am_init a \<Longrightarrow> tasks_ok a"
  by (auto simp: am_init_def am_start_def tasks_ok_def)

interpretation tasks: invariant_system am_init am_step tasks_ok
  by unfold_locales (fact tasks_ok_init, fact tasks_ok_step)

lemma drain:
  assumes "tasks_ok a"
  shows "\<exists>b. drained a b \<and> am_tasks b = []"
  using assms
proof (induction "length (am_tasks a)" arbitrary: a)
  case 0
  then show ?case using drained_refl by auto
next
  case (Suc n)
  then obtain g ts rest where a: "am_tasks a = (g, ts) # rest" by (cases "am_tasks a") auto
  with Suc.prems have "ts \<noteq> []" by (auto simp: tasks_ok_def)
  with a have "am_tasks a = todo g ts @ rest" by (simp add: todo_def)
  from run_goroutine [OF this] obtain b where b: "drained a b" "am_tasks b = rest" by blast
  then have "tasks_ok b" "n = length (am_tasks b)" using Suc.prems Suc.hyps(2) a by (auto simp: tasks_ok_def)
  from Suc.hyps(1) [OF this(2,1)] b(1) show ?case by (blast intro: drained_trans)
qed

subsection \<open>A run, for the instances below\<close>

text \<open>
  One request is made at time 100; nobody is subscribed.  It is approved at time 110 and the caller
  wakes up, or its timer fires first.
\<close>

definition exAsk :: call where
  "exAsk = \<lparr>cl_client = ''local'', cl_items = [exItem], cl_session = ''/s/1'', cl_type = RequestTypeGetSecret,
     cl_attrs = [], cl_sender = exSender\<rparr>"

definition exStart :: AM where
  "exStart = am_start exConfig"

definition exWaiting :: AM where
  "exWaiting = exStart\<lparr>am_mgr := exPending, am_used := [''r1''], am_waiting := [(''r1'', exRequest)]\<rparr>"

definition exApproved :: AM where
  "exApproved = exWaiting\<lparr>am_mgr := snd (the (Approve_section ''r1'' exPending)),
     am_tasks := [(Resolver ''r1'', fst (the (Approve_section ''r1'' exPending)))], am_resolved := [(''r1'', True)]\<rparr>"

definition exReturned :: AM where
  "exReturned = exApproved\<lparr>am_mgr := RequireApproval_cleanup exRequest (am_mgr exApproved), am_waiting := [],
     am_returned := [(''r1'', (False, None))]\<rparr>"

definition exTimedOut :: AM where
  "exTimedOut = exWaiting\<lparr>am_mgr := notify 1100 (reqEvent EventRequestExpired exRequest) exPending, am_waiting := [],
     am_leaving := [(''r1'', Leaving exRequest (False, Some ErrTimeout))]\<rparr>"

lemma run_head:
  assumes "am_tasks a = (g, t # ts) # rest" and "task_run now t (am_mgr a) = (first, m')"
  shows "am_step a (a\<lparr>am_mgr := m', am_tasks := todo g (first @ ts) @ rest\<rparr>)"
  using run [of a "[]" g t ts rest now first m'] assms by simp

text \<open>Without observers an event is only recorded.\<close>

lemma run_notify_silent:
  assumes "am_tasks a = (g, Notify e # ts) # rest" and "mg_observers (am_mgr a) = []"
  shows "am_step\<^sup>*\<^sup>* a (a\<lparr>am_mgr := notify now e (am_mgr a), am_tasks := todo g ts @ rest\<rparr>)"
proof -
  have 1: "am_step a (a\<lparr>am_tasks := todo g (notify_tasks [] e @ ts) @ rest\<rparr>)"
    using run_head [OF assms(1), of undefined "notify_tasks [] e" "am_mgr a"] assms(2) by simp
  show ?thesis
  proof (cases "notify_tasks [] e = []")
    case True
    with 1 assms(2) show ?thesis by (auto simp: notify_tasks_def notify_def Let_def split: if_splits)
  next
    case False
    then have n: "notify_tasks [] e = [Record e]" "notify now e (am_mgr a) = addHistory now e (am_mgr a)"
      using assms(2) by (auto simp: notify_tasks_def notify_def Let_def split: if_splits)
    let ?b = "a\<lparr>am_tasks := todo g (notify_tasks [] e @ ts) @ rest\<rparr>"
    have "am_tasks ?b = (g, Record e # ts) # rest" using n(1) by (simp add: todo_def)
    from run_head [OF this, of now "[]" "notify now e (am_mgr a)"] n(2)
    have "am_step ?b (?b\<lparr>am_mgr := notify now e (am_mgr a), am_tasks := todo g ts @ rest\<rparr>)" by simp
    with 1 show ?thesis by (simp add: converse_rtranclp_into_rtranclp)
  qed
qed

lemma exPending_facts:
  "GetPending ''r1'' exPending = Some exRequest"
  "rq_ID exRequest = ''r1''" "rq_ExpiresAt exRequest = 1100"
  by code_simp+

lemma am_init_exStart: "am_init exStart"
  by (auto simp: am_init_def exStart_def exConfig_def intro!: exI [of _ exConfig])

lemma steps_exWaiting: "am_step\<^sup>*\<^sup>* exStart exWaiting"
proof -
  have m: "am_mgr exStart = exManager" by (simp add: exStart_def am_start_def exManager_def)
  let ?a1 = "exStart\<lparr>am_used := [''r1''], am_calls := [(''r1'', Uncached exAsk)]\<rparr>"
  have "call_cache 100 exAsk exManager = (False, exManager)" by code_simp
  then have 1: "am_step exStart ?a1"
    using call_miss [of "''r1''" exStart 100 exAsk exManager] m by (simp add: exStart_def am_start_def exManager_def)
  let ?a2 = "exStart\<lparr>am_used := [''r1''], am_calls := [(''r1'', Unmatched exAsk)]\<rparr>"
  have "call_rules 100 ''r1'' exAsk exManager = (None, exManager)" by code_simp
  then have 2: "am_step ?a1 ?a2"
    using call_no_rule [of ?a1 "''r1''" exAsk 100 exManager] m by (simp add: exStart_def am_start_def exManager_def)
  let ?a3 = "exStart\<lparr>am_mgr := insertPending exRequest exManager, am_used := [''r1''], am_waiting := [(''r1'', exRequest)],
    am_tasks := [(Caller ''r1'', [Notify (reqEvent EventRequestCreated exRequest)])]\<rparr>"
  have r: "exRequest = call_request 100 (100 + mg_timeout exManager) ''r1'' exAsk" by code_simp
  then have 3: "am_step ?a2 ?a3"
    using call_wait [of ?a2 "''r1''" exAsk exRequest 100] m by (simp add: exStart_def am_start_def exManager_def)
  have p: "notify 100 (reqEvent EventRequestCreated exRequest) (insertPending exRequest exManager) = exPending" by code_simp
  have o: "mg_observers (insertPending exRequest exManager) = []" by code_simp
  have "am_step\<^sup>*\<^sup>* ?a3 exWaiting"
    using run_notify_silent [of ?a3 "Caller ''r1''" "reqEvent EventRequestCreated exRequest" "[]" "[]" 100] o p
    by (simp add: exWaiting_def exStart_def am_start_def todo_def)
  with 1 2 3 show ?thesis by (meson converse_rtranclp_into_rtranclp)
qed

lemma reach_exWaiting: "reach am_init am_step exWaiting"
  using reach_init [of am_init, OF am_init_exStart] steps_exWaiting by (rule reach_steps)

lemma reach_exReturned: "reach am_init am_step exReturned"
proof -
  have w: "am_mgr exWaiting = exPending" "am_tasks exWaiting = []" "am_resolved exWaiting = []"
    by (simp_all add: exWaiting_def exStart_def am_start_def)
  have ok: "Approve_section ''r1'' exPending \<noteq> None" by code_simp
  then have "am_step exWaiting exApproved"
    using resolve_ok [of RApprove "''r1''" exWaiting "fst (the (Approve_section ''r1'' exPending))" "snd (the (Approve_section ''r1'' exPending))"] w
    by (auto simp: exApproved_def todo_def section_defs split: option.splits)
  moreover
  have a: "map_of (am_waiting exApproved) ''r1'' = Some exRequest" "\<not> busy ''r1'' exApproved"
    by (simp_all add: exApproved_def exWaiting_def busy_def)
  have "map_of (mg_done (am_mgr exApproved)) ''r1'' = Some True" by code_simp
  then have "RequireApproval_select SelDone 111 exRequest (am_mgr exApproved) = (Some (False, None), am_mgr exApproved)"
    using exPending_facts by (simp add: RequireApproval_select_def)
  from wake [OF a this] have "am_step exApproved (exApproved\<lparr>am_waiting := [], am_leaving := [(''r1'', Leaving exRequest (False, None))]\<rparr>)"
    by (simp add: exApproved_def exWaiting_def exStart_def am_start_def)
  moreover have "am_step (exApproved\<lparr>am_waiting := [], am_leaving := [(''r1'', Leaving exRequest (False, None))]\<rparr>) exReturned"
    using leave [of "exApproved\<lparr>am_waiting := [], am_leaving := [(''r1'', Leaving exRequest (False, None))]\<rparr>" "''r1''" exRequest "(False, None)"]
    by (simp add: exReturned_def exApproved_def exWaiting_def exStart_def am_start_def busy_def)
  ultimately show ?thesis using reach_exWaiting by (meson reach_step)
qed

lemma reach_exTimedOut: "reach am_init am_step exTimedOut"
proof -
  let ?b = "exWaiting\<lparr>am_waiting := [], am_leaving := [(''r1'', Leaving exRequest (False, Some ErrTimeout))],
    am_tasks := [(Caller ''r1'', [Notify (reqEvent EventRequestExpired exRequest)])]\<rparr>"
  have 1: "am_step exWaiting ?b"
    using timer [of exWaiting "''r1''" exRequest 1100] exPending_facts
    by (simp add: exWaiting_def exStart_def am_start_def busy_def)
  have o: "mg_observers exPending = []" by code_simp
  have "am_step\<^sup>*\<^sup>* ?b exTimedOut"
    using run_notify_silent [of ?b "Caller ''r1''" "reqEvent EventRequestExpired exRequest" "[]" "[]" 1100] o
    by (simp add: exTimedOut_def exWaiting_def todo_def exStart_def am_start_def)
  with 1 show ?thesis using reach_exWaiting by (meson reach_step reach_steps)
qed

subsection \<open>Properties\<close>

text \<open>
  What the six resolving calls do.  With an unknown ID they return "request not found" and change
  nothing.  With a pending one they take exactly that request out of the pending set, close its
  channel with their verdict and put it at the head of the history with their resolution.
\<close>

theorem resolving_call_effect:
  assumes "0 < mg_historyMax m" and "map_of (mg_done m) i = None"
  shows "case GetPending i m of
           None \<Rightarrow> resolve op now i m = (Some ErrNotFound, m)
         | Some req \<Rightarrow>
             (let m' = snd (resolve op now i m); e = hd (History m') in
              fst (resolve op now i m) = None \<and>
              GetPending i m' = None \<and> (\<forall>j. j \<noteq> i \<longrightarrow> GetPending j m' = GetPending j m) \<and>
              map_of (mg_done m') i = Some (verdict op) \<and>
              rq_ID (he_Request e) = rq_ID req \<and> he_Resolution e = recorded op)"
proof (cases "GetPending i m")
  case None
  then have "fst (resolve op now i m) \<noteq> None"
    by (cases op) (simp_all add: Approve_eq ApproveAndAutoApprove_eq Deny_eq Cancel_eq
      ApproveWithSignature_eq ApproveGPGFailed_eq takePending_def GetPending_def)
  with None show ?thesis
    using resolve_Some [of op now i m] by (cases "resolve op now i m") auto
next
  case (Some req)
  from resolve_history [OF assms(1) Some, of op now] show ?thesis
    using resolve_None [of op now i m, OF _ assms(2)] Some
    by (cases "resolve op now i m") (auto simp: Let_def GetPending_def)
qed

theorem resolving_call_effect_witness:
  "GetPending ''r1'' exPending = Some exRequest \<and> fst (Deny 110 ''r1'' exPending) = None \<and>
   GetPending ''r1'' (snd (Deny 110 ''r1'' exPending)) = None \<and>
   fst (Deny 110 ''r9'' exPending) = Some ErrNotFound"
proof -
  have 1: "0 < mg_historyMax exPending" "map_of (mg_done exPending) ''r1'' = None"
    "map_of (mg_done exPending) ''r9'' = None" "GetPending ''r9'' exPending = None" by code_simp+
  show ?thesis
    using resolving_call_effect [OF 1(1,2), of RDeny 110] resolving_call_effect [OF 1(1,3), of RDeny 110]
      exPending_facts(1) 1(4) by (simp add: Let_def)
qed

text \<open>A negative history limit lets the first recorded event slice out of range.\<close>

lemma negative_limit_panics:
  assumes "mc_HistoryMax cfg < 0"
  shows "\<exists>a. reach (\<lambda>s. s = am_start cfg) am_step a \<and> mg_panic (am_mgr a)"
proof -
  let ?e = "reqEvent EventRequestAutoApproved (newRequest [] 0 0 [] [] [] RequestTypeGetSecret [] exSender)"
  let ?a = "(am_start cfg)\<lparr>am_used := [[]], am_tasks := [(Caller [], [Notify ?e])]\<rparr>"
  let ?b = "(am_start cfg)\<lparr>am_mgr := notify 0 ?e (NewManager cfg), am_used := [[]], am_tasks := []\<rparr>"
  have "am_step (am_start cfg) ?a"
    using recorded_only [OF _ rec_pass, of "[]" "am_start cfg"] by (simp add: am_start_def)
  moreover have "am_step\<^sup>*\<^sup>* ?a ?b"
    using run_notify_silent [of ?a "Caller []" ?e "[]" "[]" 0] by (simp add: am_start_def NewManager_def todo_def)
  moreover have "reach (\<lambda>s. s = am_start cfg) am_step (am_start cfg)" by (rule reach_init) simp
  ultimately have "reach (\<lambda>s. s = am_start cfg) am_step ?b" using reach_step reach_steps by fast
  moreover have "mg_panic (am_mgr ?b)"
    using assms by (simp add: notify_def addHistory_def AddHistoryEntry_def NewManager_def goslice_def Let_def)
  ultimately show ?thesis by blast
qed

lemma am_init_start: "0 \<le> mc_HistoryMax cfg \<Longrightarrow> am_init (am_start cfg)"
  by (auto simp: am_init_def)

lemma reach_am_init: "0 \<le> mc_HistoryMax cfg \<Longrightarrow> reach (\<lambda>s. s = am_start cfg) am_step a \<Longrightarrow> reach am_init am_step a"
  by (rotate_tac, induction rule: reach.induct) (auto intro: reach_init reach_step am_init_start)



text \<open>
  C4: A blocked \<open>RequireApproval\<close> returns success only if an approving call was made for that very
  request, and "denied by user" only if a denying or cancelling call was; a request is resolved at
  most once, so the two exclude each other.
\<close>

theorem blocked_call_returns_the_decision:
  assumes "reach am_init am_step a"
  shows "((i, (False, None)) \<in> set (am_returned a) \<longrightarrow>
            (i, True) \<in> set (am_resolved a) \<and> (i, False) \<notin> set (am_resolved a)) \<and>
         ((i, (False, Some ErrDenied)) \<in> set (am_returned a) \<longrightarrow>
            (i, False) \<in> set (am_resolved a) \<and> (i, True) \<notin> set (am_resolved a)) \<and>
         distinct (map fst (am_resolved a))"
proof -
  have V: "verdicts (map_of (mg_done (am_mgr a))) (dom (map_of (am_waiting a))) (am_resolved a) (am_returned a)"
    using am.reach_inv [OF assms] by (simp add: am_inv_def Let_def)
  then have "\<not> ((i, True) \<in> set (am_resolved a) \<and> (i, False) \<in> set (am_resolved a))"
    using eq_key_imp_eq_value [of "am_resolved a" i True False] by (auto simp: verdicts_def)
  moreover have "\<forall>r. (i, r) \<in> set (am_returned a) \<longrightarrow> backed (am_resolved a) i r" "distinct (map fst (am_resolved a))"
    using V by (auto simp: verdicts_def)
  ultimately show ?thesis unfolding backed_def by blast
qed

theorem blocked_call_returns_the_decision_witness:
  "(''r1'', (False, None)) \<in> set (am_returned exReturned) \<and> (''r1'', True) \<in> set (am_resolved exReturned)"
proof -
  have "(''r1'', (False, None)) \<in> set (am_returned exReturned)" by (simp add: exReturned_def)
  with blocked_call_returns_the_decision [OF reach_exReturned] show ?thesis by blast
qed

lemma steps_join: "r\<^sup>*\<^sup>* a b \<Longrightarrow> r b c \<Longrightarrow> r\<^sup>*\<^sup>* c d \<Longrightarrow> r d e \<Longrightarrow> r\<^sup>*\<^sup>* a e"
  by (meson converse_rtranclp_into_rtranclp rtranclp.rtrancl_into_rtrancl rtranclp_trans)

text \<open>
  C24: Every pending request belongs to a goroutine that will remove it, and a blocked call can always
  come to an end on its own (by its timer): from every reachable state with a blocked call there is a
  continuation in which the call has returned and its request is no longer pending.
\<close>

theorem blocked_call_can_return:
  assumes "reach am_init am_step a" and "map_of (am_waiting a) i = Some req"
  shows "\<exists>b. am_step\<^sup>*\<^sup>* a b \<and> i \<in> fst ` set (am_returned b) \<and> GetPending i (am_mgr b) = None"
proof -
  have i: "rq_ID req = i" using inv_waiting_at [OF am.reach_inv [OF assms(1)] assms(2)] by simp
  obtain b where b: "drained a b" "am_tasks b = []" using drain [OF tasks.reach_inv [OF assms(1)]] by blast
  then have bw: "map_of (am_waiting b) i = Some req" "\<not> busy i b" using assms(2) by (auto simp: drained_def busy_def)
  let ?c = "b\<lparr>am_waiting := gm_del i (am_waiting b), am_leaving := gm_put i (Leaving req (False, Some ErrTimeout)) (am_leaving b),
                am_tasks := (Caller i, [Notify (reqEvent EventRequestExpired req)]) # am_tasks b\<rparr>"
  have c: "am_step b ?c" by (rule timer [OF bw order_refl])
  have "tasks_ok ?c" using b(2) by (simp add: tasks_ok_def)
  from drain [OF this] obtain d where d: "drained ?c d" "am_tasks d = []" by blast
  then have l: "map_of (am_leaving d) i = Some (Leaving req (False, Some ErrTimeout))" "\<not> busy i d"
    by (auto simp: drained_def busy_def)
  let ?e = "d\<lparr>am_mgr := RequireApproval_cleanup req (am_mgr d), am_leaving := gm_del i (am_leaving d),
                am_returned := (i, (False, Some ErrTimeout)) # am_returned d\<rparr>"
  have "am_step\<^sup>*\<^sup>* a ?e"
    by (rule steps_join [of am_step a b ?c d]) (rule drained_steps [OF b(1)] c drained_steps [OF d(1)] leave [OF l])+
  moreover have "i \<in> fst ` set (am_returned ?e)" "GetPending i (am_mgr ?e) = None"
    using i by (simp_all add: RequireApproval_cleanup_def GetPending_def)
  ultimately show ?thesis by blast
qed

theorem blocked_call_can_return_witness:
  "\<exists>b. am_step\<^sup>*\<^sup>* exWaiting b \<and> ''r1'' \<in> fst ` set (am_returned b) \<and> GetPending ''r1'' (am_mgr b) = None"
  by (rule blocked_call_can_return [OF reach_exWaiting, of _ exRequest]) (simp add: exWaiting_def)

text \<open>
  Because \<open>RequireApproval\<close> reports an expiry before it removes the request, there is a reachable
  state in which the caller has already been given up as timed out and the user's approval still
  succeeds: \<open>Approve\<close> returns no error and the history ends up with the request both approved and
  expired.
\<close>

theorem expired_request_still_approvable:
  "reach am_init am_step exTimedOut \<and>
   map_of (am_leaving exTimedOut) ''r1'' = Some (Leaving exRequest (False, Some ErrTimeout)) \<and>
   fst (Approve 1101 ''r1'' (am_mgr exTimedOut)) = None \<and>
   map (\<lambda>e. (rq_ID (he_Request e), he_Resolution e)) (History (snd (Approve 1101 ''r1'' (am_mgr exTimedOut)))) =
     [(''r1'', ResolutionApproved), (''r1'', ResolutionExpired)]"
proof (intro conjI)
  show "reach am_init am_step exTimedOut" by (rule reach_exTimedOut)
  show "map_of (am_leaving exTimedOut) ''r1'' = Some (Leaving exRequest (False, Some ErrTimeout))"
    by (simp add: exTimedOut_def)
qed code_simp+

end
