(* ===== verification/Api_Types.thy ===== *)
theory Api_Types
  imports Approval_Machine
begin

text \<open>
  The wire types of the REST API (\<^verbatim>\<open>internal/api/types.go\<close>), the response writers and the conversions
  of \<^verbatim>\<open>internal/api/handlers.go\<close>.

  A request is its method, path, cookies and \<open>Authorization\<close> header; its JSON body is an argument
  of the handler that decodes one, \<open>None\<close> when decoding fails.  A response is its status code, the
  value that is encoded as the JSON body, and the session cookie it sets.  A handler that panics
  returns \<open>None\<close>: the HTTP server drops the connection and goes on.
\<close>

record http_request =
  hr_Method :: string
  hr_Path :: string
  hr_Cookies :: "(string \<times> string) list"
  hr_Authorization :: string

record ApiItemInfo =
  ai_Path :: string
  ai_Label :: string
  ai_Attributes :: "(string, string) gomap"

record ApiProcessInfo =
  ap_Name :: string
  ap_PID :: uint32
  ap_Exe :: string
  ap_Args :: "string list"
  ap_CWD :: string

record ApiSenderInfo =
  as_Sender :: string
  as_PID :: uint32
  as_UID :: uint32
  as_UserName :: string
  as_InvokerName :: string
  as_SystemdUnit :: string
  as_ProcessChain :: "ApiProcessInfo list"

record PendingRequest =
  pq_ID :: string
  pq_Client :: string
  pq_Items :: "ApiItemInfo list"
  pq_Session :: string
  pq_CreatedAt :: nanos
  pq_ExpiresAt :: nanos
  pq_Type :: string
  pq_SearchAttributes :: "(string, string) gomap"
  pq_SenderInfo :: ApiSenderInfo
  pq_GPGSignInfo :: "GPGSignInfo option"

record ApiHistoryEntry =
  ah_Request :: PendingRequest
  ah_Resolution :: string
  ah_ResolvedAt :: nanos

record StatusResponse =
  st_Running :: bool
  st_Clients :: "(string \<times> string) list"
  st_PendingCount :: nat
  st_Client :: string
  st_RemoteSocket :: string

datatype resp_value =
    ErrorResponse string
  | ActionResponse string
  | StatusValue StatusResponse
  | PendingListResponse "PendingRequest list"
  | RulesValue "AutoApproveRule list"
  | HistoryResponse "ApiHistoryEntry list"
  | GPGSignResponse string

record response =
  rp_code :: int
  rp_value :: resp_value
  rp_cookie :: "string option"

abbreviation (input) StatusOK :: int where "StatusOK \<equiv> 200"
abbreviation (input) StatusBadRequest :: int where "StatusBadRequest \<equiv> 400"
abbreviation (input) StatusUnauthorized :: int where "StatusUnauthorized \<equiv> 401"
abbreviation (input) StatusNotFound :: int where "StatusNotFound \<equiv> 404"
abbreviation (input) StatusMethodNotAllowed :: int where "StatusMethodNotAllowed \<equiv> 405"
abbreviation (input) StatusInternalServerError :: int where "StatusInternalServerError \<equiv> 500"

definition writeJSON :: "resp_value \<Rightarrow> response" where
  "writeJSON v = \<lparr>rp_code = StatusOK, rp_value = v, rp_cookie = None\<rparr>"

definition writeError :: "string \<Rightarrow> int \<Rightarrow> response" where
  "writeError message code = \<lparr>rp_code = code, rp_value = ErrorResponse message, rp_cookie = None\<rparr>"

definition methodNotAllowed :: response where
  "methodNotAllowed = writeError ''method not allowed'' StatusMethodNotAllowed"

lemma write_simps [simp]:
  "rp_code (writeJSON v) = StatusOK" "rp_value (writeJSON v) = v" "rp_cookie (writeJSON v) = None"
  "rp_code (writeError msg c) = c" "rp_value (writeError msg c) = ErrorResponse msg" "rp_cookie (writeError msg c) = None"
  "rp_code methodNotAllowed = StatusMethodNotAllowed" "rp_cookie methodNotAllowed = None"
  by (simp_all add: writeJSON_def writeError_def methodNotAllowed_def)

subsection \<open>Conversions\<close>

definition convertItem :: "ItemInfo \<Rightarrow> ApiItemInfo" where
  "convertItem item = \<lparr>ai_Path = ii_Path item, ai_Label = ii_Label item, ai_Attributes = ii_Attributes item\<rparr>"

definition convertProcess :: "ProcessInfo \<Rightarrow> ApiProcessInfo" where
  "convertProcess p = \<lparr>ap_Name = pi_Name p, ap_PID = pi_PID p, ap_Exe = pi_Exe p, ap_Args = pi_Args p, ap_CWD = pi_CWD p\<rparr>"

definition convertSenderInfo :: "SenderInfo \<Rightarrow> ApiSenderInfo" where
  "convertSenderInfo s = \<lparr>as_Sender = si_Sender s, as_PID = si_PID s, as_UID = si_UID s, as_UserName = si_UserName s,
     as_InvokerName = si_InvokerName s, as_SystemdUnit = si_SystemdUnit s,
     as_ProcessChain = (if length (si_ProcessChain s) > 0 then map convertProcess (si_ProcessChain s) else [])\<rparr>"

definition convertRequest :: "Request \<Rightarrow> PendingRequest" where
  "convertRequest req = \<lparr>pq_ID = rq_ID req, pq_Client = rq_Client req, pq_Items = map convertItem (rq_Items req),
     pq_Session = rq_Session req, pq_CreatedAt = rq_CreatedAt req, pq_ExpiresAt = rq_ExpiresAt req,
     pq_Type = rq_Type req, pq_SearchAttributes = rq_SearchAttributes req,
     pq_SenderInfo = convertSenderInfo (rq_SenderInfo req), pq_GPGSignInfo = rq_GPGSignInfo req\<rparr>"

definition convertHistoryEntry :: "HistoryEntry \<Rightarrow> ApiHistoryEntry" where
  "convertHistoryEntry entry = \<lparr>ah_Request = convertRequest (he_Request entry),
     ah_Resolution = he_Resolution entry, ah_ResolvedAt = he_ResolvedAt entry\<rparr>"

text \<open>Back from the wire (\<open>HandleTestInjectHistory\<close>): the systemd unit and the signing data are not copied.\<close>

definition itemOfApi :: "ApiItemInfo \<Rightarrow> ItemInfo" where
  "itemOfApi item = \<lparr>ii_Path = ai_Path item, ii_Label = ai_Label item, ii_Attributes = ai_Attributes item\<rparr>"

definition processOfApi :: "ApiProcessInfo \<Rightarrow> ProcessInfo" where
  "processOfApi p = \<lparr>pi_Name = ap_Name p, pi_PID = ap_PID p, pi_Exe = ap_Exe p, pi_Args = ap_Args p, pi_CWD = ap_CWD p\<rparr>"

definition senderOfApi :: "ApiSenderInfo \<Rightarrow> SenderInfo" where
  "senderOfApi s = \<lparr>si_Sender = as_Sender s, si_PID = as_PID s, si_UID = as_UID s, si_UserName = as_UserName s,
     si_InvokerName = as_InvokerName s, si_SystemdUnit = [],
     si_ProcessChain = (if length (as_ProcessChain s) > 0 then map processOfApi (as_ProcessChain s) else []),
     si_PeerTrusted = False\<rparr>"

definition historyOfApi :: "ApiHistoryEntry \<Rightarrow> HistoryEntry" where
  "historyOfApi entry =
     (let r = ah_Request entry in
      \<lparr>he_Request = newRequest (pq_ID r) (pq_CreatedAt r) (pq_ExpiresAt r) (pq_Client r) (map itemOfApi (pq_Items r))
         (pq_Session r) (pq_Type r) (pq_SearchAttributes r) (senderOfApi (pq_SenderInfo r)),
       he_Resolution = ah_Resolution entry, he_ResolvedAt = ah_ResolvedAt entry\<rparr>)"

subsection \<open>Request IDs in paths\<close>

text \<open>
  The two tests may overlap: for a path in which prefix and suffix share the slash the slice bounds
  are out of order and the code panics (\<open>None\<close>).
\<close>

definition extractRequestID :: "string \<Rightarrow> string \<Rightarrow> string \<Rightarrow> string option" where
  "extractRequestID path prefix suffix =
     (if \<not> HasPrefix path prefix \<or> \<not> HasSuffix path suffix then Some []
      else (case goslice path (int (length prefix)) (int (length path) - int (length suffix)) of
              None \<Rightarrow> None
            | Some i \<Rightarrow> if i = [] \<or> ContainsByte i (CHR ''/'') then Some [] else Some i))"

lemma extractRequestID_built:
  assumes "i \<noteq> []" and "CHR ''/'' \<notin> set i"
  shows "extractRequestID (prefix @ i @ suffix) prefix suffix = Some i"
proof -
  have "HasSuffix (prefix @ i @ suffix) suffix"
    using HasSuffix_append[of "prefix @ i" suffix] by simp
  then show ?thesis
    using assms goslice_append3[of prefix i suffix] by (simp add: extractRequestID_def ContainsByte_def)
qed

lemma extractRequestID_Some:
  assumes "extractRequestID path prefix suffix = Some i" and "i \<noteq> []"
  shows "path = prefix @ i @ suffix \<and> CHR ''/'' \<notin> set i"
proof -
  from assms obtain j where *: "HasPrefix path prefix" "HasSuffix path suffix" "j = i"
    "goslice path (int (length prefix)) (int (length path) - int (length suffix)) = Some j" "CHR ''/'' \<notin> set i"
    by (auto simp: extractRequestID_def ContainsByte_def split: if_splits option.splits)
  obtain t where t: "path = prefix @ t" using *(1) by (auto simp: HasPrefix_iff)
  obtain u where u: "path = u @ suffix" using *(2) by (auto simp: HasSuffix_iff)
  from *(4) have le: "length prefix \<le> length path - length suffix" "length suffix \<le> length path"
    and i: "i = take (length path - length suffix - length prefix) (drop (length prefix) path)"
    using *(3) by (auto simp: goslice_Some nat_diff_distrib)
  have "prefix @ i = take (length path - length suffix) path"
    using t le i by (simp add: take_append)
  also have "\<dots> = u" using u by simp
  finally show ?thesis using u *(5) by simp
qed

end
