(* ===== verification/DBus_Conn.thy ===== *)
theory DBus_Conn
  imports Approval_Types
begin

text \<open>
  What the proxy sees of a D-Bus connection: values, method calls and replies.  The peer (the
  upstream Secret Service, the bus daemon) is not part of the program.  It is a parameter
  \<open>upstream\<close>, which may answer as it likes and may let its answer depend on every call made
  before; the calls made are kept in a log, so that a theorem can say what was asked of it.
\<close>

datatype dvalue =
    DStr string
  | DPath ObjectPath
  | DBytes bytes
  | DBool bool
  | DUInt32 uint32
  | DPaths "ObjectPath list"
  | DAttrs "(string, string) gomap"
  | DProps "(string \<times> dvalue) list"
  | DSecret Secret
  | DSecrets "(ObjectPath, Secret) gomap"
  | DOther string

record upcall =
  uc_dest :: string
  uc_path :: ObjectPath
  uc_method :: string
  uc_args :: "dvalue list"

type_synonym reply = "go_error + dvalue list"
type_synonym upstream = "upcall list \<Rightarrow> upcall \<Rightarrow> reply"

definition mkcall :: "string \<Rightarrow> ObjectPath \<Rightarrow> string \<Rightarrow> dvalue list \<Rightarrow> upcall" where
  "mkcall dest path method args = \<lparr>uc_dest = dest, uc_path = path, uc_method = method, uc_args = args\<rparr>"

text \<open>\<open>call.Store\<close> into variables of other types than the reply has is an error.\<close>

definition storeError :: go_error where
  "storeError = ErrText ''dbus.Store: type mismatch''"

definition store1 :: "(dvalue \<Rightarrow> 'a option) \<Rightarrow> reply \<Rightarrow> go_error + 'a" where
  "store1 f r = (case r of Inl e \<Rightarrow> Inl e
     | Inr [x] \<Rightarrow> (case f x of Some a \<Rightarrow> Inr a | None \<Rightarrow> Inl storeError)
     | Inr _ \<Rightarrow> Inl storeError)"

definition store2 :: "(dvalue \<Rightarrow> 'a option) \<Rightarrow> (dvalue \<Rightarrow> 'b option) \<Rightarrow> reply \<Rightarrow> go_error + ('a \<times> 'b)" where
  "store2 f g r = (case r of Inl e \<Rightarrow> Inl e
     | Inr [x, y] \<Rightarrow> (case (f x, g y) of (Some a, Some b) \<Rightarrow> Inr (a, b) | _ \<Rightarrow> Inl storeError)
     | Inr _ \<Rightarrow> Inl storeError)"

fun asStr :: "dvalue \<Rightarrow> string option" where "asStr (DStr s) = Some s" | "asStr _ = None"
fun asPath :: "dvalue \<Rightarrow> ObjectPath option" where "asPath (DPath p) = Some p" | "asPath _ = None"
fun asBytes :: "dvalue \<Rightarrow> bytes option" where "asBytes (DBytes b) = Some b" | "asBytes _ = None"
fun asBool :: "dvalue \<Rightarrow> bool option" where "asBool (DBool b) = Some b" | "asBool _ = None"
fun asUInt32 :: "dvalue \<Rightarrow> uint32 option" where "asUInt32 (DUInt32 n) = Some n" | "asUInt32 _ = None"
fun asPaths :: "dvalue \<Rightarrow> ObjectPath list option" where "asPaths (DPaths ps) = Some ps" | "asPaths _ = None"
fun asAttrs :: "dvalue \<Rightarrow> (string, string) gomap option" where "asAttrs (DAttrs a) = Some a" | "asAttrs _ = None"
fun asProps :: "dvalue \<Rightarrow> (string \<times> dvalue) list option" where "asProps (DProps p) = Some p" | "asProps _ = None"
fun asSecret :: "dvalue \<Rightarrow> Secret option" where "asSecret (DSecret s) = Some s" | "asSecret _ = None"
fun asSecrets :: "dvalue \<Rightarrow> (ObjectPath, Secret) gomap option" where "asSecrets (DSecrets s) = Some s" | "asSecrets _ = None"

text \<open>An incoming method call: the header fields the handlers read, and the body.\<close>

record message =
  ms_sender :: string
  ms_path :: ObjectPath
  ms_iface :: "string option"
  ms_member :: "string option"
  ms_body :: "dvalue list"

definition senderOf :: "message \<Rightarrow> string" where
  "senderOf msg = ms_sender msg"

definition pathOf :: "message \<Rightarrow> ObjectPath" where
  "pathOf msg = ms_path msg"

definition memberOf :: "message \<Rightarrow> string" where
  "memberOf msg = (case ms_member msg of Some s \<Rightarrow> s | None \<Rightarrow> [])"

definition interfaceOf :: "message \<Rightarrow> string" where
  "interfaceOf msg = (case ms_iface msg of Some s \<Rightarrow> s | None \<Rightarrow> [])"

end
