(* ===== verification/DHCrypto.thy ===== *)
theory DHCrypto
  imports DBus_Types
begin

text \<open>
  \<^verbatim>\<open>internal/dhcrypto/dhcrypto.go\<close>: the session algorithm
  \<^verbatim>\<open>dh-ietf1024-sha256-aes128-cbc-pkcs7\<close>.  Big integers are natural numbers, byte slices are
  lists of characters (8 bits each).  Diffie-Hellman, padding and the CBC chaining are modelled;
  three things are parameters: the AES block function and its inverse (\<open>blockcipher\<close>), HKDF-SHA256,
  which comes from a package outside the repository, and the bytes the random source yields.
\<close>

subsection \<open>Numbers and bytes\<close>

text \<open>\<open>big.Int.Bytes\<close>: big-endian, without leading zeros; and \<open>SetBytes\<close>.\<close>

fun bigBytes :: "nat \<Rightarrow> bytes" where
  "bigBytes n = (if n = 0 then [] else bigBytes (n div 256) @ [char_of (n mod 256)])"

declare bigBytes.simps [simp del]

definition SetBytes :: "bytes \<Rightarrow> nat" where
  "SetBytes b = fold (\<lambda>c n. 256 * n + of_char c) b 0"

definition leftPad :: "bytes \<Rightarrow> nat \<Rightarrow> bytes" where
  "leftPad b n = (if length b \<ge> n then b else replicate (n - length b) (char_of (0::nat)) @ b)"

subsection \<open>Key agreement\<close>

abbreviation (input) modulusLen :: nat where "modulusLen \<equiv> 128"
abbreviation (input) aesKeyLen :: nat where "aesKeyLen \<equiv> 16"

definition dhPrime :: nat where
  "dhPrime = 0xFFFFFFFFFFFFFFFFC90FDAA22168C234C4C6628B80DC1CD129024E088A67CC74020BBEA63B139B22514A08798E3404DDEF9519B3CD3A431B302B0A6DF25F14374FE1356D6D51C245E485B576625E7EC6F44C42E9A637ED6B0BFF5CB6F406B7EDEE386BFB5A899FA5AE9F24117C4B1FE649286651ECE65381FFFFFFFFFFFFFFFF"

abbreviation (input) dhGenerator :: nat where "dhGenerator \<equiv> 2"

record KeyPair =
  kp_priv :: nat
  kp_Public :: bytes

record DHSession =
  ds_key :: bytes

definition newKeyPair :: "nat \<Rightarrow> KeyPair" where
  "newKeyPair priv = \<lparr>kp_priv = priv, kp_Public = leftPad (bigBytes (dhGenerator ^ priv mod dhPrime)) modulusLen\<rparr>"

text \<open>\<open>n\<close> is what \<open>rand.Int\<close> returns (below \<open>dhPrime - 2\<close>), or the error it fails with.\<close>

definition GenerateKeyPair :: "go_error + nat \<Rightarrow> go_error + KeyPair" where
  "GenerateKeyPair n =
     (case n of Inl err \<Rightarrow> Inl (ErrText (''generate DH private key: '' @ error_text err))
      | Inr n \<Rightarrow> Inr (newKeyPair (n + 2)))"

definition Derive :: "(bytes \<Rightarrow> bytes) \<Rightarrow> KeyPair \<Rightarrow> bytes \<Rightarrow> go_error + DHSession" where
  "Derive hkdf kp peerPublic =
     (let peer = SetBytes peerPublic in
      if peer < 2 \<or> peer \<ge> dhPrime - 1 then Inl (ErrText ''dhcrypto: peer public key out of range'')
      else (let shared = peer ^ kp_priv kp mod dhPrime;
                ikm = leftPad (bigBytes shared) modulusLen
            in Inr \<lparr>ds_key = hkdf ikm\<rparr>))"

subsection \<open>Padding\<close>

definition pkcs7Pad :: "bytes \<Rightarrow> nat \<Rightarrow> bytes" where
  "pkcs7Pad data blockSize =
     (let pad = blockSize - length data mod blockSize in data @ replicate pad (char_of pad))"

definition pkcs7Unpad :: "bytes \<Rightarrow> nat \<Rightarrow> go_error + bytes" where
  "pkcs7Unpad data blockSize =
     (if length data = 0 \<or> length data mod blockSize \<noteq> 0
      then Inl (ErrText ''dhcrypto: invalid padded data length'')
      else (let pad = of_char (last data) in
            if pad = 0 \<or> pad > blockSize then Inl (ErrText ''dhcrypto: invalid PKCS#7 padding'')
            else if list_ex (\<lambda>b. of_char b \<noteq> pad) (drop (length data - pad) data)
            then Inl (ErrText ''dhcrypto: invalid PKCS#7 padding'')
            else Inr (take (length data - pad) data)))"

subsection \<open>Encryption\<close>

record blockcipher =
  bc_enc :: "bytes \<Rightarrow> bytes \<Rightarrow> bytes"
  bc_dec :: "bytes \<Rightarrow> bytes \<Rightarrow> bytes"

abbreviation (input) BlockSize :: nat where "BlockSize \<equiv> 16"

fun byte_xor :: "char \<Rightarrow> char \<Rightarrow> char" where
  "byte_xor (Char a0 a1 a2 a3 a4 a5 a6 a7) (Char b0 b1 b2 b3 b4 b5 b6 b7) =
     Char (a0 \<noteq> b0) (a1 \<noteq> b1) (a2 \<noteq> b2) (a3 \<noteq> b3) (a4 \<noteq> b4) (a5 \<noteq> b5) (a6 \<noteq> b6) (a7 \<noteq> b7)"

definition xorBytes :: "bytes \<Rightarrow> bytes \<Rightarrow> bytes" where
  "xorBytes a b = map2 byte_xor a b"

text \<open>\<open>aes.NewCipher\<close> takes keys of 16, 24 or 32 bytes.\<close>

definition NewCipher :: "bytes \<Rightarrow> go_error option" where
  "NewCipher key = (if length key \<in> {16, 24, 32} then None else Some (ErrText ''crypto/aes: invalid key size''))"

function cbcEncrypt :: "(bytes \<Rightarrow> bytes) \<Rightarrow> bytes \<Rightarrow> bytes \<Rightarrow> bytes" where
  "cbcEncrypt E prev data =
     (if data = [] then []
      else (let c = E (xorBytes prev (take BlockSize data)) in c @ cbcEncrypt E c (drop BlockSize data)))"
  by pat_completeness auto
termination by (relation "measure (\<lambda>(E, prev, data). length data)") auto

function cbcDecrypt :: "(bytes \<Rightarrow> bytes) \<Rightarrow> bytes \<Rightarrow> bytes \<Rightarrow> bytes" where
  "cbcDecrypt D prev data =
     (if data = [] then []
      else (let c = take BlockSize data in xorBytes prev (D c) @ cbcDecrypt D c (drop BlockSize data)))"
  by pat_completeness auto
termination by (relation "measure (\<lambda>(D, prev, data). length data)") auto

declare cbcEncrypt.simps [simp del] cbcDecrypt.simps [simp del]

text \<open>\<open>rnd\<close> is what reading one block from the random source yields.\<close>

definition Encrypt :: "blockcipher \<Rightarrow> go_error + bytes \<Rightarrow> DHSession \<Rightarrow> bytes \<Rightarrow> go_error + (bytes \<times> bytes)" where
  "Encrypt bc rnd s plaintext =
     (case NewCipher (ds_key s) of Some err \<Rightarrow> Inl err
      | None \<Rightarrow>
         (case rnd of
            Inl err \<Rightarrow> Inl (ErrText (''dhcrypto: generate IV: '' @ error_text err))
          | Inr iv \<Rightarrow> Inr (cbcEncrypt (bc_enc bc (ds_key s)) iv (pkcs7Pad plaintext BlockSize), iv)))"

definition Decrypt :: "blockcipher \<Rightarrow> DHSession \<Rightarrow> bytes \<Rightarrow> bytes \<Rightarrow> go_error + bytes" where
  "Decrypt bc s iv ciphertext =
     (case NewCipher (ds_key s) of Some err \<Rightarrow> Inl err
      | None \<Rightarrow>
         if length iv \<noteq> BlockSize then Inl (ErrText (''dhcrypto: invalid IV length '' @ dec (length iv)))
         else if length ciphertext = 0 \<or> length ciphertext mod BlockSize \<noteq> 0
         then Inl (ErrText (''dhcrypto: invalid ciphertext length '' @ dec (length ciphertext)))
         else pkcs7Unpad (cbcDecrypt (bc_dec bc (ds_key s)) iv ciphertext) BlockSize)"

subsection \<open>Facts about bytes\<close>

lemma of_char_lt: "of_char c < (256::nat)"
  by simp

lemma SetBytes_append: "SetBytes (a @ [c]) = 256 * SetBytes a + of_char c"
  by (simp add: SetBytes_def)

lemma SetBytes_bigBytes [simp]: "SetBytes (bigBytes n) = n"
proof (induction n rule: bigBytes.induct)
  case (1 n)
  show ?case
  proof (cases "n = 0")
    case True
    then show ?thesis by (simp add: bigBytes.simps SetBytes_def)
  next
    case False
    then have "bigBytes n = bigBytes (n div 256) @ [char_of (n mod 256)]"
      by (subst bigBytes.simps) simp
    then show ?thesis using 1 [OF False] by (simp add: SetBytes_append)
  qed
qed

lemma shift_zero: "((*) 256 ^^ k) (0::nat) = 0"
  by (induction k) auto

lemma SetBytes_leftPad [simp]: "SetBytes (leftPad b n) = SetBytes b"
  by (simp add: leftPad_def SetBytes_def shift_zero)

lemma length_bigBytes: "n < 256 ^ k \<Longrightarrow> length (bigBytes n) \<le> k"
proof (induction k arbitrary: n)
  case 0
  then show ?case by (simp add: bigBytes.simps)
next
  case (Suc k)
  show ?case
  proof (cases "n = 0")
    case False
    have "n div 256 < 256 ^ k" using Suc.prems by (simp add: less_mult_imp_div_less mult.commute)
    with Suc.IH have "length (bigBytes (n div 256)) \<le> k" .
    with False show ?thesis by (subst bigBytes.simps) simp
  qed (simp add: bigBytes.simps)
qed

lemma length_leftPad: "length b \<le> n \<Longrightarrow> length (leftPad b n) = n"
  by (simp add: leftPad_def)

lemma dhPrime_bound: "dhPrime < 256 ^ modulusLen" "2 < dhPrime"
  by (simp_all add: dhPrime_def)

lemma length_public: "length (kp_Public (newKeyPair a)) = modulusLen"
proof -
  have "2 ^ a mod dhPrime < dhPrime" using dhPrime_bound(2) by simp
  then have "2 ^ a mod dhPrime < 256 ^ modulusLen" using dhPrime_bound(1) by linarith
  then show ?thesis by (simp add: newKeyPair_def length_leftPad length_bigBytes)
qed

subsection \<open>Key agreement\<close>

lemma SetBytes_public: "SetBytes (kp_Public (newKeyPair a)) = 2 ^ a mod dhPrime"
  by (simp add: newKeyPair_def)

lemma dh_shared: "(2 ^ a mod dhPrime) ^ b mod dhPrime = (2 ^ b mod dhPrime) ^ a mod dhPrime"
  by (simp add: power_mod mult.commute flip: power_mult)

definition validPublic :: "bytes \<Rightarrow> bool" where
  "validPublic pub \<longleftrightarrow> 2 \<le> SetBytes pub \<and> SetBytes pub \<le> dhPrime - 2"

lemma Derive_iff:
  "(\<exists>s. Derive hkdf kp pub = Inr s) \<longleftrightarrow> validPublic pub"
  using dhPrime_bound(2) by (auto simp: Derive_def validPublic_def Let_def)

text \<open>
  C34: Both ends of a session derive the same AES key from each other's public key, whenever both
  public keys pass the range check.
\<close>

theorem dh_both_ends_agree:
  assumes "validPublic (kp_Public (newKeyPair a))" and "validPublic (kp_Public (newKeyPair b))"
  shows "\<exists>s. Derive hkdf (newKeyPair a) (kp_Public (newKeyPair b)) = Inr s \<and>
             Derive hkdf (newKeyPair b) (kp_Public (newKeyPair a)) = Inr s"
proof -
  have priv: "kp_priv (newKeyPair x) = x" for x by (simp add: newKeyPair_def)
  show ?thesis
    using assms dhPrime_bound(2)
    by (auto simp: Derive_def validPublic_def Let_def SetBytes_public priv dh_shared [of a b])
qed

theorem dh_both_ends_agree_witness:
  "\<exists>s. Derive id (newKeyPair 2) (kp_Public (newKeyPair 3)) = Inr s \<and>
       Derive id (newKeyPair 3) (kp_Public (newKeyPair 2)) = Inr s"
  by (rule dh_both_ends_agree) (simp_all add: validPublic_def SetBytes_public dhPrime_def)


subsection \<open>Padding\<close>

lemma char_of_inj: "n < 256 \<Longrightarrow> of_char (char_of n) = (n::nat)"
  by simp

lemma pad_range: "0 < n \<Longrightarrow> 0 < n - m mod n \<and> n - m mod n \<le> (n::nat)"
  by (simp add: Suc_leI)

lemma length_pkcs7Pad:
  assumes "0 < n"
  shows "length (pkcs7Pad d n) = (length d div n + 1) * n"
proof -
  have "length d mod n < n" using assms by simp
  then have "length d + (n - length d mod n) = (length d - length d mod n) + n" by simp
  also have "\<dots> = (length d div n) * n + n" by (simp add: minus_mod_eq_div_mult)
  finally show ?thesis by (simp add: pkcs7Pad_def Let_def)
qed

lemma pkcs7Unpad_Pad:
  assumes "0 < n" and "n < 256"
  shows "pkcs7Unpad (pkcs7Pad d n) n = Inr d"
proof -
  define p where "p = n - length d mod n"
  have p: "0 < p" "p \<le> n" "p < 256" using pad_range [OF assms(1), of "length d"] assms(2) by (auto simp: p_def)
  have e: "pkcs7Pad d n = d @ replicate p (char_of p)" by (simp add: pkcs7Pad_def p_def Let_def)
  have l: "length (pkcs7Pad d n) mod n = 0" by (simp add: length_pkcs7Pad [OF assms(1)])
  have "last (pkcs7Pad d n) = char_of p" using p(1) by (simp add: e)
  then show ?thesis
    using p l by (simp add: pkcs7Unpad_def Let_def e list_ex_iff)
qed

lemma pkcs7Pad_Unpad:
  assumes "0 < n" and "pkcs7Unpad data n = Inr d"
  shows "pkcs7Pad d n = data"
proof -
  define p where "p = (of_char (last data) :: nat)"
  from assms(2) have h: "data \<noteq> []" "length data mod n = 0" "0 < p" "p \<le> n"
    "\<forall>b \<in> set (drop (length data - p) data). of_char b = p" "d = take (length data - p) data"
    by (auto simp: pkcs7Unpad_def Let_def p_def list_ex_iff split: if_splits)
  obtain q where q: "length data = q * n" using h(2) by (metis dvd_div_mult_self mod_0_imp_dvd)
  with h(1) have "0 < q" by (cases q) auto
  then obtain q' where q': "q = Suc q'" by (cases q) auto
  then have ld: "length d = q' * n + (n - p)" using h(4,6) q by simp
  have pad: "n - length d mod n = p"
  proof (cases "p = n")
    case True
    then show ?thesis using ld by simp
  next
    case False
    then have "(n - p) mod n = n - p" using h(3,4) by simp
    moreover have "length d mod n = (n - p) mod n" unfolding ld by (rule mod_mult_self3)
    ultimately show ?thesis using h(4) by simp
  qed
  have "drop (length data - p) data = replicate p (char_of p)"
  proof (rule replicate_eqI)
    show "length (drop (length data - p) data) = p" using h(4) q q' by simp
    fix b assume "b \<in> set (drop (length data - p) data)"
    then have "of_char b = p" using h(5) by blast
    then show "b = char_of p" by (metis char_of_char)
  qed
  then show ?thesis
    using h(6) pad by (simp add: pkcs7Pad_def Let_def) (metis append_take_drop_id)
qed

text \<open>
  Unpadding accepts exactly the padded form of a message and gives that message back: it is the
  inverse of padding in both directions, for every block size up to 255.
\<close>

theorem pkcs7_roundtrip:
  assumes "0 < n" and "n < 256"
  shows "pkcs7Unpad data n = Inr d \<longleftrightarrow> data = pkcs7Pad d n"
  using pkcs7Unpad_Pad [OF assms] pkcs7Pad_Unpad [OF assms(1)] by metis

theorem pkcs7_roundtrip_witness:
  "pkcs7Unpad (pkcs7Pad ''hello'' 16) 16 = Inr ''hello'' \<and> length (pkcs7Pad ''hello'' 16) = 16"
  using pkcs7_roundtrip [of 16 "pkcs7Pad ''hello'' 16" "''hello''"] by (simp add: length_pkcs7Pad)

subsection \<open>Encryption\<close>

lemma byte_xor_cancel: "byte_xor a (byte_xor a b) = b"
  by (cases a; cases b) (auto simp: neq_iff)

lemma length_xorBytes [simp]: "length (xorBytes a b) = min (length a) (length b)"
  by (simp add: xorBytes_def)

lemma xorBytes_cancel: "length b \<le> length a \<Longrightarrow> xorBytes a (xorBytes a b) = b"
  unfolding xorBytes_def
  by (rule nth_equalityI) (auto simp: byte_xor_cancel)

text \<open>What the code relies on in a block cipher: on blocks, decryption undoes encryption.\<close>

definition block_inverse :: "(bytes \<Rightarrow> bytes) \<Rightarrow> (bytes \<Rightarrow> bytes) \<Rightarrow> bool" where
  "block_inverse E D \<longleftrightarrow> (\<forall>b. length b = BlockSize \<longrightarrow> length (E b) = BlockSize \<and> D (E b) = b)"

lemma cbc_inverse:
  assumes "block_inverse E D" and "length prev = BlockSize" and "length data mod BlockSize = 0"
  shows "cbcDecrypt D prev (cbcEncrypt E prev data) = data \<and> length (cbcEncrypt E prev data) = length data"
  using assms
proof (induction E prev data rule: cbcEncrypt.induct)
  case (1 E prev data)
  show ?case
  proof (cases "data = []")
    case True
    then show ?thesis by (simp add: cbcEncrypt.simps cbcDecrypt.simps)
  next
    case False
    define b where "b = take BlockSize data"
    define c where "c = E (xorBytes prev b)"
    have len: "BlockSize \<le> length data" using False "1.prems"(3) by (metis dvd_imp_le length_greater_0_conv mod_0_imp_dvd)
    then have lb: "length b = BlockSize" by (simp add: b_def)
    have c: "length c = BlockSize" "D c = xorBytes prev b"
      using "1.prems"(1) "1.prems"(2) lb by (simp_all add: block_inverse_def c_def)
    have "length (drop BlockSize data) mod BlockSize = 0"
      using "1.prems"(3) len by (simp add: le_mod_geq)
    from "1.IH" [OF False refl, folded b_def c_def, OF "1.prems"(1) c(1) this]
    have IH: "cbcDecrypt D c (cbcEncrypt E c (drop BlockSize data)) = drop BlockSize data"
      "length (cbcEncrypt E c (drop BlockSize data)) = length (drop BlockSize data)" by simp_all
    have enc: "cbcEncrypt E prev data = c @ cbcEncrypt E c (drop BlockSize data)"
      using False by (subst cbcEncrypt.simps) (simp add: Let_def b_def c_def)
    have "cbcDecrypt D prev (c @ cbcEncrypt E c (drop BlockSize data)) =
        xorBytes prev (D c) @ cbcDecrypt D c (cbcEncrypt E c (drop BlockSize data))"
      using c(1) by (subst cbcDecrypt.simps) (auto simp: Let_def)
    with IH c lb "1.prems"(2) have "cbcDecrypt D prev (cbcEncrypt E prev data) = b @ drop BlockSize data"
      by (simp add: enc xorBytes_cancel)
    then show ?thesis using IH(2) c(1) len by (simp add: enc b_def)
  qed
qed

lemma Decrypt_Encrypt:
  assumes "block_inverse (bc_enc bc (ds_key s)) (bc_dec bc (ds_key s))"
    and "length (ds_key s) = aesKeyLen" and "length iv = BlockSize"
  shows "\<exists>ct. Encrypt bc (Inr iv) s pt = Inr (ct, iv) \<and> Decrypt bc s iv ct = Inr pt \<and>
              length ct = (length pt div BlockSize + 1) * BlockSize"
proof -
  let ?ct = "cbcEncrypt (bc_enc bc (ds_key s)) iv (pkcs7Pad pt BlockSize)"
  have lp: "length (pkcs7Pad pt BlockSize) = (length pt div BlockSize + 1) * BlockSize"
    by (rule length_pkcs7Pad) simp
  then have "length (pkcs7Pad pt BlockSize) mod BlockSize = 0" by simp
  from cbc_inverse [OF assms(1,3) this] have
    *: "cbcDecrypt (bc_dec bc (ds_key s)) iv ?ct = pkcs7Pad pt BlockSize"
      "length ?ct = length (pkcs7Pad pt BlockSize)" by auto
  have "Decrypt bc s iv ?ct = Inr pt"
    using assms(2,3) * lp pkcs7Unpad_Pad [of BlockSize pt] by (simp add: Decrypt_def NewCipher_def)
  moreover have "Encrypt bc (Inr iv) s pt = Inr (?ct, iv)"
    using assms(2) by (simp add: Encrypt_def NewCipher_def)
  ultimately show ?thesis using * lp by auto
qed

text \<open>
  What \<open>Encrypt\<close> produces under a 16-byte key, \<open>Decrypt\<close> turns back into the plaintext, for every
  plaintext and every IV; the ciphertext is whole blocks, between 1 and 16 bytes longer than the
  plaintext.
\<close>

theorem encrypt_decrypt_roundtrip:
  assumes "block_inverse (bc_enc bc (ds_key s)) (bc_dec bc (ds_key s))"
    and "length (ds_key s) = aesKeyLen" and "length iv = BlockSize"
  shows "\<exists>ct. Encrypt bc (Inr iv) s pt = Inr (ct, iv) \<and> Decrypt bc s iv ct = Inr pt \<and>
              length ct = (length pt div BlockSize + 1) * BlockSize"
  using assms by (rule Decrypt_Encrypt)

text \<open>A concrete invertible block function, for the instances: exclusive-or with the key.\<close>

definition xorCipher :: blockcipher where
  "xorCipher = \<lparr>bc_enc = xorBytes, bc_dec = xorBytes\<rparr>"

lemma xorCipher_inverse:
  "length k = BlockSize \<Longrightarrow> block_inverse (bc_enc xorCipher k) (bc_dec xorCipher k)"
  by (simp add: block_inverse_def xorCipher_def xorBytes_cancel)

theorem encrypt_decrypt_roundtrip_witness:
  "\<exists>ct. Encrypt xorCipher (Inr ''0123456789abcdef'') \<lparr>ds_key = ''secretkey1234567''\<rparr> ''hunter2'' = Inr (ct, ''0123456789abcdef'') \<and>
        Decrypt xorCipher \<lparr>ds_key = ''secretkey1234567''\<rparr> ''0123456789abcdef'' ct = Inr ''hunter2'' \<and> length ct = 16"
  using encrypt_decrypt_roundtrip [of xorCipher "\<lparr>ds_key = ''secretkey1234567''\<rparr>" "''0123456789abcdef''" "''hunter2''"]
  by (simp add: xorCipher_inverse)

end
