(* ===== verification/Proxy_Session.thy ===== *)
theory Proxy_Session
  imports DBus_Conn DHCrypto
begin

text \<open>
  \<^verbatim>\<open>internal/proxy/session.go\<close>: the session table.  The proxy ends the client's session encryption
  itself and always talks plain to the upstream service.
\<close>

record sessionEntry =
  se_local :: ObjectPath
  se_cipher :: "DHSession option"

record SessionManager =
  ss_sessions :: "(ObjectPath, sessionEntry) gomap"
  ss_counter :: "64 word"

definition NewSessionManager :: SessionManager where
  "NewSessionManager = \<lparr>ss_sessions = [], ss_counter = 0\<rparr>"

text \<open>The cryptography the table is run with: block cipher, HKDF, random exponent and random IV.\<close>

record crypto =
  cr_cipher :: blockcipher
  cr_hkdf :: "bytes \<Rightarrow> bytes"
  cr_exponent :: "go_error + nat"
  cr_iv :: "go_error + bytes"

definition sessionPath :: "64 word \<Rightarrow> ObjectPath" where
  "sessionPath i = ''/org/freedesktop/secrets/session/'' @ dec (unat i)"

text \<open>The client's side of \<open>CreateSession\<close>: the output for the client and the cipher, or an error.\<close>

definition negotiate :: "crypto \<Rightarrow> string \<Rightarrow> dvalue \<Rightarrow> go_error + (dvalue \<times> DHSession option)" where
  "negotiate cr algorithm input =
     (if algorithm = AlgorithmPlain then Inr (DStr [], None)
      else if algorithm = AlgorithmDH then
        (case asBytes input of
           None \<Rightarrow> Inl (ErrDBus (NewDBusError ErrInvalidSignature
             ''dh-ietf1024-sha256-aes128-cbc-pkcs7 OpenSession requires a byte-array public key''))
         | Some clientPub \<Rightarrow>
            (case GenerateKeyPair (cr_exponent cr) of
               Inl err \<Rightarrow> Inl err
             | Inr kp \<Rightarrow>
                (case Derive (cr_hkdf cr) kp clientPub of
                   Inl err \<Rightarrow> Inl (ErrDBus (NewDBusError ErrNotSupported (error_text err)))
                 | Inr session \<Rightarrow> Inr (DBytes (kp_Public kp), Some session))))
      else Inl (ErrDBus (ErrUnsupportedAlgorithm algorithm)))"

definition openUpstream :: upcall where
  "openUpstream = mkcall BusName ServicePath (ServiceInterface @ ''.OpenSession'') [DStr AlgorithmPlain, DStr []]"

definition CreateSession :: "crypto \<Rightarrow> upstream \<Rightarrow> string \<Rightarrow> dvalue \<Rightarrow> SessionManager \<Rightarrow> upcall list
    \<Rightarrow> (go_error + (dvalue \<times> ObjectPath)) \<times> SessionManager \<times> upcall list" where
  "CreateSession cr up algorithm input m lg =
     (case negotiate cr algorithm input of
        Inl err \<Rightarrow> (Inl err, m, lg)
      | Inr (clientOutput, cipher) \<Rightarrow>
         (case store2 Some asPath (up lg openUpstream) of
            Inl err \<Rightarrow> (Inl err, m, lg @ [openUpstream])
          | Inr (_, localPath) \<Rightarrow>
             (let i = ss_counter m + 1; remotePath = sessionPath i in
              (Inr (clientOutput, remotePath),
               m\<lparr>ss_counter := i,
                 ss_sessions := gm_put remotePath \<lparr>se_local = localPath, se_cipher = cipher\<rparr> (ss_sessions m)\<rparr>,
               lg @ [openUpstream]))))"

definition GetLocalSession :: "ObjectPath \<Rightarrow> SessionManager \<Rightarrow> ObjectPath \<times> bool" where
  "GetLocalSession remotePath m =
     (case map_of (ss_sessions m) remotePath of Some entry \<Rightarrow> (se_local entry, True) | None \<Rightarrow> ([], False))"

definition ForClient :: "crypto \<Rightarrow> ObjectPath \<Rightarrow> Secret \<Rightarrow> SessionManager \<Rightarrow> go_error + Secret" where
  "ForClient cr remotePath secret m =
     (let cipher = (case map_of (ss_sessions m) remotePath of Some e \<Rightarrow> se_cipher e | None \<Rightarrow> None);
          secret = secret\<lparr>sec_Session := remotePath\<rparr>
      in case cipher of
           None \<Rightarrow> Inr secret
         | Some c \<Rightarrow>
            (case Encrypt (cr_cipher cr) (cr_iv cr) c (sec_Value secret) of
               Inl err \<Rightarrow> Inl err
             | Inr (ciphertext, iv) \<Rightarrow> Inr (secret\<lparr>sec_Value := ciphertext, sec_Parameters := iv\<rparr>)))"

definition ForUpstream :: "crypto \<Rightarrow> Secret \<Rightarrow> SessionManager \<Rightarrow> Secret \<times> bool \<times> go_error option" where
  "ForUpstream cr secret m =
     (case map_of (ss_sessions m) (sec_Session secret) of
        None \<Rightarrow> (zeroSecret, False, None)
      | Some entry \<Rightarrow>
         (let out = \<lparr>sec_Session = se_local entry, sec_Parameters = sec_Parameters secret,
                     sec_Value = sec_Value secret, sec_ContentType = sec_ContentType secret\<rparr>
          in case se_cipher entry of
               None \<Rightarrow> (out, True, None)
             | Some c \<Rightarrow>
                (case Decrypt (cr_cipher cr) c (sec_Parameters secret) (sec_Value secret) of
                   Inl derr \<Rightarrow> (zeroSecret, True, Some derr)
                 | Inr plaintext \<Rightarrow> (out\<lparr>sec_Value := plaintext, sec_Parameters := []\<rparr>, True, None))))"

definition closeCall :: "ObjectPath \<Rightarrow> upcall" where
  "closeCall p = mkcall BusName p (SessionInterface @ ''.Close'') []"

definition CloseSession :: "upstream \<Rightarrow> ObjectPath \<Rightarrow> SessionManager \<Rightarrow> upcall list
    \<Rightarrow> go_error option \<times> SessionManager \<times> upcall list" where
  "CloseSession up remotePath m lg =
     (case map_of (ss_sessions m) remotePath of
        None \<Rightarrow> (Some (ErrDBus (ErrSessionNotFound remotePath)), m, lg)
      | Some entry \<Rightarrow>
         ((case up lg (closeCall (se_local entry)) of Inl err \<Rightarrow> Some err | Inr _ \<Rightarrow> None),
          m\<lparr>ss_sessions := gm_del remotePath (ss_sessions m)\<rparr>,
          lg @ [closeCall (se_local entry)]))"

definition CloseAll :: "SessionManager \<Rightarrow> upcall list \<Rightarrow> SessionManager \<times> upcall list" where
  "CloseAll m lg =
     (m\<lparr>ss_sessions := []\<rparr>, lg @ map (\<lambda>(_, entry). closeCall (se_local entry)) (ss_sessions m))"

subsection \<open>The session table\<close>

text \<open>Every path in use was given out by the counter.\<close>

definition sessions_ok :: "SessionManager \<Rightarrow> bool" where
  "sessions_ok m \<longleftrightarrow> gm_wf (ss_sessions m) \<and>
     (\<forall>p \<in> fst ` set (ss_sessions m). \<exists>i. 0 < i \<and> i \<le> ss_counter m \<and> p = sessionPath i)"

lemma sessionPath_inject [simp]: "sessionPath i = sessionPath j \<longleftrightarrow> i = j"
  by (simp add: sessionPath_def word_unat_eq_iff)

lemma sessions_ok_new: "sessions_ok NewSessionManager"
  by (simp add: sessions_ok_def NewSessionManager_def)

lemma counter_step:
  fixes m i :: "64 word"
  assumes "unat m + 1 < 2 ^ 64"
  shows "0 < m + 1" and "i \<le> m \<Longrightarrow> i \<le> m + 1" and "\<not> m + 1 \<le> m"
proof -
  have s: "unat (m + 1) = unat m + 1"
    using assms unat_add_lem [of m 1] by simp
  show "0 < m + 1" "i \<le> m \<Longrightarrow> i \<le> m + 1" "\<not> m + 1 \<le> m"
    using s by (simp_all add: word_less_nat_alt word_le_nat_alt)
qed

lemma CreateSession_Inr:
  assumes "CreateSession cr up alg input m lg = (Inr (out, p), m', lg')"
  shows "\<exists>l c. p = sessionPath (ss_counter m + 1) \<and> ss_counter m' = ss_counter m + 1 \<and>
           ss_sessions m' = gm_put p \<lparr>se_local = l, se_cipher = c\<rparr> (ss_sessions m) \<and>
           negotiate cr alg input = Inr (out, c)"
  using assms by (auto simp: CreateSession_def Let_def split: sum.splits) blast

lemma CreateSession_Inl:
  assumes "CreateSession cr up alg input m lg = (Inl e, m', lg')"
  shows "m' = m"
  using assms by (auto simp: CreateSession_def Let_def split: sum.splits)

lemma sessions_ok_fresh:
  "sessions_ok m \<Longrightarrow> unat (ss_counter m) + 1 < 2 ^ 64 \<Longrightarrow>
     map_of (ss_sessions m) (sessionPath (ss_counter m + 1)) = None"
  unfolding sessions_ok_def map_of_eq_None_iff using counter_step(3) [of "ss_counter m"] by (metis sessionPath_inject)

lemma CreateSession_ok:
  assumes "sessions_ok m" and "unat (ss_counter m) + 1 < 2 ^ 64"
    and "CreateSession cr up alg input m lg = (r, m', lg')"
  shows "sessions_ok m'"
proof (cases r)
  case (Inl e)
  then show ?thesis using CreateSession_Inl assms by metis
next
  case (Inr x)
  obtain out p where x: "x = (out, p)" by (cases x)
  obtain l c where *: "p = sessionPath (ss_counter m + 1)" "ss_counter m' = ss_counter m + 1"
    "ss_sessions m' = gm_put p \<lparr>se_local = l, se_cipher = c\<rparr> (ss_sessions m)"
    using CreateSession_Inr [OF assms(3) [unfolded Inr x]] by blast
  have "\<exists>i. 0 < i \<and> i \<le> ss_counter m + 1 \<and> q = sessionPath i" if q: "q \<in> fst ` set (ss_sessions m')" for q
  proof (cases "q = p")
    case True
    then show ?thesis using * counter_step(1) [OF assms(2)] by blast
  next
    case False
    then have "q \<in> fst ` set (ss_sessions m)" using q * by (simp add: dom_update)
    then obtain i where "0 < i" "i \<le> ss_counter m" "q = sessionPath i"
      using assms(1) by (auto simp: sessions_ok_def)
    then show ?thesis using counter_step(2) [OF assms(2)] by blast
  qed
  moreover have "gm_wf (ss_sessions m')" using assms(1) * by (simp add: sessions_ok_def)
  ultimately show ?thesis using * by (simp add: sessions_ok_def)
qed

text \<open>
  A new session never takes the place of another: with fewer than \<open>2^64 - 1\<close> sessions opened so
  far, its path is unused, all other sessions are still there afterwards, and the table stays in
  order.
\<close>

theorem new_session_is_fresh:
  assumes "sessions_ok m" and "unat (ss_counter m) + 1 < 2 ^ 64"
    and "CreateSession cr up alg input m lg = (Inr (out, p), m', lg')"
  shows "map_of (ss_sessions m) p = None \<and> map_of (ss_sessions m') p \<noteq> None \<and>
         (\<forall>q. q \<noteq> p \<longrightarrow> map_of (ss_sessions m') q = map_of (ss_sessions m) q) \<and> sessions_ok m'"
  using CreateSession_Inr [OF assms(3)] sessions_ok_fresh [OF assms(1,2)] CreateSession_ok [OF assms] by auto

definition exUpstream :: upstream where
  "exUpstream lg c = (if uc_method c = ServiceInterface @ ''.OpenSession'' then Inr [DStr [], DPath ''/up/s1''] else Inr [])"

definition exCrypto :: crypto where
  "exCrypto = \<lparr>cr_cipher = xorCipher, cr_hkdf = take 16, cr_exponent = Inr 0, cr_iv = Inr ''0123456789abcdef''\<rparr>"

theorem new_session_is_fresh_witness:
  "\<exists>m' lg'. CreateSession exCrypto exUpstream AlgorithmPlain (DStr []) NewSessionManager [] =
      (Inr (DStr [], sessionPath 1), m', lg') \<and> sessions_ok m'"
proof -
  obtain m' lg' where *: "CreateSession exCrypto exUpstream AlgorithmPlain (DStr []) NewSessionManager [] =
      (Inr (DStr [], sessionPath 1), m', lg')"
    by (simp add: CreateSession_def negotiate_def exUpstream_def openUpstream_def mkcall_def store2_def
        NewSessionManager_def Let_def)
  with new_session_is_fresh [OF sessions_ok_new _ *] show ?thesis
    by (simp add: NewSessionManager_def)
qed

lemma ForUpstream_ForClient:
  assumes "map_of (ss_sessions m) remote = Some entry"
    and "\<forall>k. se_cipher entry = Some k \<longrightarrow> length (ds_key k) = aesKeyLen \<and>
           block_inverse (bc_enc (cr_cipher cr) (ds_key k)) (bc_dec (cr_cipher cr) (ds_key k))"
    and "cr_iv cr = Inr iv" and "length iv = BlockSize"
  shows "\<exists>enc. ForClient cr remote secret m = Inr enc \<and> sec_Session enc = remote \<and>
     ForUpstream cr enc m =
       (secret\<lparr>sec_Session := se_local entry,
               sec_Parameters := (if se_cipher entry = None then sec_Parameters secret else [])\<rparr>, True, None)"
proof (cases "se_cipher entry")
  case None
  then show ?thesis using assms(1) by (simp add: ForClient_def ForUpstream_def)
next
  case (Some k)
  with assms(2) obtain ct where "Encrypt (cr_cipher cr) (Inr iv) k (sec_Value secret) = Inr (ct, iv)"
    "Decrypt (cr_cipher cr) k iv ct = Inr (sec_Value secret)"
    using Decrypt_Encrypt [of "cr_cipher cr" k iv "sec_Value secret"] assms(4) by blast
  with Some assms(1,3) show ?thesis by (simp add: ForClient_def ForUpstream_def)
qed

text \<open>
  C32: Transcoding loses nothing.  A secret the proxy encrypts for a client on a session, when sent
  back on that session, reaches the upstream service with the value and content type it had,
  unencrypted, under the upstream's own session; on a plain session only the session path is
  rewritten.
\<close>

theorem transcode_roundtrip:
  assumes "map_of (ss_sessions m) remote = Some entry"
    and "\<forall>k. se_cipher entry = Some k \<longrightarrow> length (ds_key k) = aesKeyLen \<and>
           block_inverse (bc_enc (cr_cipher cr) (ds_key k)) (bc_dec (cr_cipher cr) (ds_key k))"
    and "cr_iv cr = Inr iv" and "length iv = BlockSize"
  shows "\<exists>enc. ForClient cr remote secret m = Inr enc \<and> sec_Session enc = remote \<and>
     ForUpstream cr enc m =
       (secret\<lparr>sec_Session := se_local entry,
               sec_Parameters := (if se_cipher entry = None then sec_Parameters secret else [])\<rparr>, True, None)"
  using assms by (rule ForUpstream_ForClient)

theorem transcode_roundtrip_witness:
  "\<exists>enc. ForClient exCrypto ''/r'' (zeroSecret\<lparr>sec_Value := ''hunter2''\<rparr>)
       \<lparr>ss_sessions = [(''/r'', \<lparr>se_local = ''/l'', se_cipher = Some \<lparr>ds_key = ''secretkey1234567''\<rparr>\<rparr>)], ss_counter = 1\<rparr> = Inr enc \<and>
     fst (ForUpstream exCrypto enc
       \<lparr>ss_sessions = [(''/r'', \<lparr>se_local = ''/l'', se_cipher = Some \<lparr>ds_key = ''secretkey1234567''\<rparr>\<rparr>)], ss_counter = 1\<rparr>) =
       zeroSecret\<lparr>sec_Session := ''/l'', sec_Value := ''hunter2''\<rparr>"
proof -
  let ?e = "\<lparr>se_local = ''/l'', se_cipher = Some \<lparr>ds_key = ''secretkey1234567''\<rparr>\<rparr>"
  let ?m = "\<lparr>ss_sessions = [(''/r'', ?e)], ss_counter = 1\<rparr>"
  have "block_inverse (bc_enc (cr_cipher exCrypto) ''secretkey1234567'') (bc_dec (cr_cipher exCrypto) ''secretkey1234567'')"
    by (simp add: exCrypto_def xorCipher_inverse)
  with transcode_roundtrip [of ?m "''/r''" ?e exCrypto "''0123456789abcdef''" "zeroSecret\<lparr>sec_Value := ''hunter2''\<rparr>"]
  show ?thesis by (fastforce simp: exCrypto_def zeroSecret_def)
qed

text \<open>
  Whatever algorithm the client asks for, the only thing sent upstream is the request for a plain
  session, and nothing at all is sent when the negotiation with the client fails (unknown algorithm,
  public key missing or out of range).
\<close>

theorem upstream_leg_is_plain:
  "snd (snd (CreateSession cr up alg input m lg)) =
     (case negotiate cr alg input of
        Inl _ \<Rightarrow> lg
      | Inr _ \<Rightarrow> lg @ [\<lparr>uc_dest = BusName, uc_path = ServicePath, uc_method = ServiceInterface @ ''.OpenSession'',
                          uc_args = [DStr AlgorithmPlain, DStr []]\<rparr>])"
  by (auto simp: CreateSession_def openUpstream_def mkcall_def Let_def split: sum.splits prod.splits)

end
