(* ===== verification/Proxy_Tracker.thy ===== *)
theory Proxy_Tracker
  imports DBus_Conn
begin

text \<open>
  \<^verbatim>\<open>internal/proxy/tracker.go\<close>: the table of in-flight requests of each D-Bus client, through which
  the requests of a client that goes away are cancelled.  A context is known by the ID the tracker
  gave its request; \<open>tk_cancelled\<close> is the list of contexts cancelled so far.  The map of a closed
  tracker is \<open>nil\<close> (\<open>None\<close>): reading it is fine, writing to it panics.
\<close>

type_synonym requestID = "64 word"

record clientTracker =
  tk_clients :: "(string, (requestID, unit) gomap) gomap option"
  tk_nextID :: requestID
  tk_cancelled :: "requestID list"
  tk_done :: bool
  tk_panic :: bool

definition newClientTracker :: clientTracker where
  "newClientTracker = \<lparr>tk_clients = Some [], tk_nextID = 0, tk_cancelled = [], tk_done = False, tk_panic = False\<rparr>"

definition clientsOf :: "clientTracker \<Rightarrow> (string, (requestID, unit) gomap) gomap" where
  "clientsOf t = (case tk_clients t of Some c \<Rightarrow> c | None \<Rightarrow> [])"

text \<open>\<open>t.clients[sender]\<close>; a missing sender reads as the empty set of requests.\<close>

definition requestsOf :: "string \<Rightarrow> clientTracker \<Rightarrow> (requestID, unit) gomap" where
  "requestsOf sender t = (case map_of (clientsOf t) sender of Some reqs \<Rightarrow> reqs | None \<Rightarrow> [])"

definition clientDisconnected :: "string \<Rightarrow> clientTracker \<Rightarrow> clientTracker" where
  "clientDisconnected sender t =
     t\<lparr>tk_cancelled := map fst (requestsOf sender t) @ tk_cancelled t,
       tk_clients := map_option (gm_del sender) (tk_clients t)\<rparr>"

text \<open>The signal loop, one signal at a time.\<close>

definition processSignal :: "string \<Rightarrow> dvalue list \<Rightarrow> clientTracker \<Rightarrow> clientTracker" where
  "processSignal name body t =
     (if tk_done t then t
      else if name \<noteq> ''org.freedesktop.DBus.NameOwnerChanged'' then t
      else (case body of
              [a, b, c] \<Rightarrow>
                (case (asStr a, asStr b, asStr c) of
                   (Some nm, Some oldOwner, Some newOwner) \<Rightarrow>
                     if nm \<noteq> [] \<and> hd nm = CHR '':'' \<and> oldOwner \<noteq> [] \<and> newOwner = []
                     then clientDisconnected oldOwner t else t
                 | _ \<Rightarrow> t)
            | _ \<Rightarrow> t))"

definition register :: "string \<Rightarrow> clientTracker \<Rightarrow> requestID \<times> clientTracker" where
  "register sender t =
     (let i = tk_nextID t; t = t\<lparr>tk_nextID := i + 1\<rparr> in
      case tk_clients t of
        None \<Rightarrow> (i, t\<lparr>tk_panic := True\<rparr>)
      | Some clients \<Rightarrow> (i, t\<lparr>tk_clients := Some (gm_put sender (gm_put i () (requestsOf sender t)) clients)\<rparr>))"

definition release :: "string \<Rightarrow> requestID \<Rightarrow> clientTracker \<Rightarrow> clientTracker" where
  "release sender i t =
     (case map_of (clientsOf t) sender of
        None \<Rightarrow> t
      | Some reqs \<Rightarrow>
         (if map_of reqs i = None then t
          else (let reqs' = gm_del i reqs;
                    t = t\<lparr>tk_cancelled := i # tk_cancelled t\<rparr>
                in if length reqs' = 0
                   then t\<lparr>tk_clients := map_option (gm_del sender) (tk_clients t)\<rparr>
                   else t\<lparr>tk_clients := map_option (gm_put sender reqs') (tk_clients t)\<rparr>)))"

text \<open>\<open>connected\<close>: whether the bus daemon still knows the sender (\<open>GetNameOwner\<close> gives no error).\<close>

definition contextForSender :: "bool \<Rightarrow> string \<Rightarrow> clientTracker \<Rightarrow> requestID \<times> clientTracker" where
  "contextForSender connected sender t =
     (let (i, t) = register sender t in
      if tk_panic t then (i, t)
      else if connected then (i, t) else (i, release sender i t))"

definition closeTracker :: "clientTracker \<Rightarrow> clientTracker" where
  "closeTracker t =
     t\<lparr>tk_done := True,
       tk_cancelled := concat (map (\<lambda>(_, reqs). map fst reqs) (clientsOf t)) @ tk_cancelled t,
       tk_clients := None\<rparr>"

subsection \<open>In flight\<close>

definition inFlight :: "string \<Rightarrow> clientTracker \<Rightarrow> requestID set" where
  "inFlight sender t = fst ` set (requestsOf sender t)"

text \<open>
  The tables are maps without empty entries, and every ID in flight was given out before, to one
  sender only.
\<close>

definition tracker_ok :: "clientTracker \<Rightarrow> bool" where
  "tracker_ok t \<longleftrightarrow> gm_wf (clientsOf t) \<and>
     (\<forall>s reqs. map_of (clientsOf t) s = Some reqs \<longrightarrow> reqs \<noteq> [] \<and> gm_wf reqs) \<and>
     (\<forall>s. \<forall>i \<in> inFlight s t. i < tk_nextID t) \<and>
     (\<forall>s s' i. i \<in> inFlight s t \<longrightarrow> i \<in> inFlight s' t \<longrightarrow> s = s')"

declare map_of_eq_Some_iff [simp del]

lemma inFlight_disconnected:
  "inFlight s (clientDisconnected sender t) = (if s = sender then {} else inFlight s t)"
  by (auto simp: inFlight_def requestsOf_def clientDisconnected_def clientsOf_def split: option.splits)

lemma inFlight_register:
  assumes "tk_clients t \<noteq> None"
  shows "inFlight s (snd (register sender t)) =
           (if s = sender then insert (tk_nextID t) (inFlight s t) else inFlight s t)"
  using assms
  by (auto simp: inFlight_def requestsOf_def register_def clientsOf_def Let_def dom_update split: option.splits)

lemma inFlightD:
  assumes "i \<in> inFlight sender t"
  obtains c reqs where "tk_clients t = Some c" and "map_of c sender = Some reqs" and "i \<in> fst ` set reqs"
proof (cases "tk_clients t")
  case None
  with assms show ?thesis by (simp add: inFlight_def requestsOf_def clientsOf_def)
next
  case (Some c)
  with assms that show ?thesis
    by (cases "map_of c sender") (auto simp: inFlight_def requestsOf_def clientsOf_def)
qed

lemma release_effect:
  assumes "i \<in> inFlight sender t"
  shows "tk_cancelled (release sender i t) = i # tk_cancelled t"
    and "inFlight s (release sender i t) = (if s = sender then inFlight s t - {i} else inFlight s t)"
    and "tk_nextID (release sender i t) = tk_nextID t"
    and "clientsOf (release sender i t) =
           (if gm_del i (requestsOf sender t) = [] then gm_del sender (clientsOf t)
            else gm_put sender (gm_del i (requestsOf sender t)) (clientsOf t))"
proof -
  from assms obtain c reqs where c: "tk_clients t = Some c" "map_of c sender = Some reqs" "i \<in> fst ` set reqs"
    by (rule inFlightD)
  then have ne: "map_of reqs i \<noteq> None" by (simp add: map_of_eq_None_iff)
  show "tk_cancelled (release sender i t) = i # tk_cancelled t" "tk_nextID (release sender i t) = tk_nextID t"
    using c ne by (simp_all add: release_def clientsOf_def Let_def)
  show cl: "clientsOf (release sender i t) =
           (if gm_del i (requestsOf sender t) = [] then gm_del sender (clientsOf t)
            else gm_put sender (gm_del i (requestsOf sender t)) (clientsOf t))"
    using c ne by (simp add: release_def clientsOf_def requestsOf_def Let_def)
  show "inFlight s (release sender i t) = (if s = sender then inFlight s t - {i} else inFlight s t)"
  proof -
    have q: "requestsOf sender t = reqs" "clientsOf t = c" using c by (simp_all add: requestsOf_def clientsOf_def)
    have "fst ` set (requestsOf s (release sender i t)) =
        (if s = sender then fst ` set (gm_del i reqs) else fst ` set (requestsOf s t))"
      by (cases "gm_del i reqs = []") (simp_all add: requestsOf_def [of s] cl q)
    then show ?thesis by (simp add: inFlight_def gm_del_dom q)
  qed
qed

lemma release_ok:
  assumes "tracker_ok t" and "i \<in> inFlight sender t"
  shows "tracker_ok (release sender i t)"
proof -
  note e = release_effect [OF assms(2)]
  from assms(2) obtain c reqs where "tk_clients t = Some c" "map_of c sender = Some reqs"
    by (rule inFlightD)
  then have "gm_wf (requestsOf sender t)"
    using assms(1) by (auto simp: tracker_ok_def requestsOf_def clientsOf_def)
  then show ?thesis
    using assms(1) unfolding tracker_ok_def e by auto
qed

lemma clientDisconnected_ok: "tracker_ok t \<Longrightarrow> tracker_ok (clientDisconnected sender t)"
proof -
  assume ok: "tracker_ok t"
  have "clientsOf (clientDisconnected sender t) = gm_del sender (clientsOf t)"
    by (simp add: clientDisconnected_def clientsOf_def split: option.splits)
  moreover have "tk_nextID (clientDisconnected sender t) = tk_nextID t"
    by (simp add: clientDisconnected_def)
  ultimately show ?thesis
    using ok unfolding tracker_ok_def inFlight_disconnected by auto
qed

lemma next_id: "unat (i :: 64 word) + 1 < 2 ^ 64 \<Longrightarrow> i < i + 1"
  using unat_add_lem [of i 1] by (simp add: word_less_nat_alt)

lemma register_ok:
  assumes "tracker_ok t" and "tk_clients t \<noteq> None" and "unat (tk_nextID t) + 1 < 2 ^ 64"
  shows "tracker_ok (snd (register sender t))"
proof -
  obtain c where c: "tk_clients t = Some c" using assms(2) by auto
  have n: "tk_nextID (snd (register sender t)) = tk_nextID t + 1"
    using c by (simp add: register_def Let_def)
  have cl: "clientsOf (snd (register sender t)) = gm_put sender (gm_put (tk_nextID t) () (requestsOf sender t)) c"
    using c by (simp add: register_def Let_def clientsOf_def requestsOf_def)
  have wf: "gm_wf (requestsOf sender t)"
    using assms(1) by (auto simp: tracker_ok_def requestsOf_def split: option.splits)
  have lt: "i < tk_nextID t + 1" if "i < tk_nextID t" for i
    using that next_id [OF assms(3)] by (rule less_trans)
  have fresh: "tk_nextID t \<notin> inFlight s t" for s
    using assms(1) by (auto simp: tracker_ok_def)
  show ?thesis
    unfolding tracker_ok_def inFlight_register [OF assms(2)] n cl
    using assms(1) wf c lt fresh next_id [OF assms(3)] update_nonempty
    by (auto simp: tracker_ok_def clientsOf_def)
qed

subsection \<open>Properties\<close>

text \<open>
  Overlapping requests of one client never cancel one another: finishing a request cancels and
  forgets that request alone; all other requests of this and of every other sender stay in flight,
  and the table stays in order.
\<close>

theorem release_cancels_only_its_request:
  assumes "tracker_ok t" and "i \<in> inFlight sender t"
  shows "tk_cancelled (release sender i t) = i # tk_cancelled t \<and>
         inFlight sender (release sender i t) = inFlight sender t - {i} \<and>
         (\<forall>s. s \<noteq> sender \<longrightarrow> inFlight s (release sender i t) = inFlight s t) \<and>
         tracker_ok (release sender i t)"
  using release_effect [OF assms(2)] release_ok [OF assms] by simp

definition exTracker :: clientTracker where
  "exTracker = snd (register '':1.7'' (snd (register '':1.7'' newClientTracker)))"

lemma exTracker_ok: "tracker_ok exTracker" "inFlight '':1.7'' exTracker = {0, 1}"
proof -
  have 0: "tracker_ok newClientTracker"
    by (simp add: tracker_ok_def newClientTracker_def clientsOf_def inFlight_def requestsOf_def)
  have 1: "tracker_ok (snd (register '':1.7'' newClientTracker))"
    by (rule register_ok [OF 0]) (simp_all add: newClientTracker_def)
  show "tracker_ok exTracker"
    unfolding exTracker_def by (rule register_ok [OF 1]) (simp_all add: newClientTracker_def register_def)
  show "inFlight '':1.7'' exTracker = {0, 1}"
    by (simp add: exTracker_def inFlight_def requestsOf_def clientsOf_def register_def newClientTracker_def insert_commute)
qed

theorem release_cancels_only_its_request_witness:
  "inFlight '':1.7'' (release '':1.7'' 0 exTracker) = {1}"
  using release_cancels_only_its_request [OF exTracker_ok(1), of 0 "'':1.7''"] exTracker_ok(2) by auto

text \<open>
  When a client disconnects, exactly its in-flight requests are cancelled; nobody else's are
  touched, and none of its requests remains.
\<close>

theorem disconnect_cancels_exactly_its_requests:
  "set (tk_cancelled (clientDisconnected sender t)) = inFlight sender t \<union> set (tk_cancelled t) \<and>
   inFlight s (clientDisconnected sender t) = (if s = sender then {} else inFlight s t)"
  unfolding inFlight_disconnected by (simp add: clientDisconnected_def inFlight_def)

text \<open>
  A request gets an ID nobody has; if the client is already gone when the request is registered,
  its context is cancelled at once and the request is not left in the table, which closes the race
  with the disconnect signal.
\<close>

theorem contextForSender_registers_or_cancels:
  assumes "tracker_ok t" and "tk_clients t \<noteq> None" and "\<not> tk_panic t" and "unat (tk_nextID t) + 1 < 2 ^ 64"
    and "contextForSender connected sender t = (i, t')"
  shows "(\<forall>s. i \<notin> inFlight s t) \<and> tracker_ok t' \<and>
         (if connected then inFlight sender t' = insert i (inFlight sender t) \<and> tk_cancelled t' = tk_cancelled t
          else inFlight sender t' = inFlight sender t \<and> tk_cancelled t' = i # tk_cancelled t)"
proof -
  let ?r = "snd (register sender t)"
  have r: "fst (register sender t) = tk_nextID t" "\<not> tk_panic ?r" "tk_cancelled ?r = tk_cancelled t"
    using assms(2,3) by (auto simp: register_def Let_def)
  have fresh: "tk_nextID t \<notin> inFlight s t" for s
    using assms(1) by (auto simp: tracker_ok_def)
  have ok: "tracker_ok ?r" by (rule register_ok [OF assms(1,2,4)])
  have mem: "tk_nextID t \<in> inFlight sender ?r" using inFlight_register [OF assms(2)] by simp
  have t': "i = tk_nextID t" "t' = (if connected then ?r else release sender (tk_nextID t) ?r)"
    using assms(5) r by (auto simp: contextForSender_def split: prod.splits if_splits)
  show ?thesis
    using t' r fresh ok release_effect(1,2) [OF mem] release_ok [OF ok mem] inFlight_register [OF assms(2)]
    by (cases connected) auto
qed

theorem contextForSender_registers_or_cancels_witness:
  "\<exists>t'. contextForSender False '':1.9'' exTracker = (2, t') \<and> inFlight '':1.9'' t' = {} \<and> tk_cancelled t' = [2]"
proof -
  obtain t' where t': "contextForSender False '':1.9'' exTracker = (2, t')"
    by (simp add: contextForSender_def exTracker_def register_def newClientTracker_def Let_def)
  have 1: "tk_clients exTracker \<noteq> None" "\<not> tk_panic exTracker" "unat (tk_nextID exTracker) + 1 < 2 ^ 64"
    "tk_cancelled exTracker = []" "inFlight '':1.9'' exTracker = {}"
    by (simp_all add: exTracker_def register_def newClientTracker_def Let_def inFlight_def requestsOf_def clientsOf_def)
  from contextForSender_registers_or_cancels [OF exTracker_ok(1) 1(1-3) t'] 1(4,5) t' show ?thesis by simp
qed

text \<open>
  A request that arrives after the tracker was closed makes the program panic: \<open>close\<close> leaves a
  \<open>nil\<close> map behind, and \<open>contextForSender\<close> writes into it.
\<close>

theorem request_after_close_panics:
  "tk_panic (snd (contextForSender connected sender (closeTracker t)))"
  by (simp add: contextForSender_def closeTracker_def register_def Let_def)

end
