(* ===== verification/Proxy_Base.thy ===== *)
theory Proxy_Base
  imports Approval_Facts Proxy_Session Proxy_Tracker
begin

text \<open>
  What the D-Bus handlers of \<^verbatim>\<open>internal/proxy\<close> share: the state they work on, the path predicates
  (\<open>isItemPath\<close>, \<open>isCollectionPath\<close>, \<open>isPromptPath\<close>), upstream calls and property reads, the item
  descriptions shown to the user, and the approval of a request.

  A handler is a function from the environment, the message and the state to a result and the new
  state.  The result is \<open>None\<close> while the call is blocked for the user's decision, otherwise the
  error or the value sent back to the client.  Log output is left out, and so is
  \<open>WithSlowNotify\<close>, which is shown in \<open>Proxy_Slow\<close> not to touch the result of the call it wraps.
\<close>

record ProxyState =
  ps_mgr :: Manager
  ps_sessions :: SessionManager
  ps_tracker :: clientTracker
  ps_log :: "upcall list"

text \<open>
  The environment of one call: the upstream service, the cryptography, the sender's description
  (\<open>SenderInfoResolver.Resolve\<close>), whether the bus still knows the sender, clock and UUID, what the
  other goroutines do to the manager and to the session table while the call is blocked.
\<close>

record proxy_env =
  pe_up :: upstream
  pe_crypto :: crypto
  pe_clientName :: string
  pe_resolve :: "string \<Rightarrow> SenderInfo"
  pe_connected :: "string \<Rightarrow> bool"
  pe_now :: nanos
  pe_uid :: string
  pe_wait :: wait_env
  pe_meanwhile :: "SessionManager \<Rightarrow> SessionManager"

subsection \<open>Object paths\<close>

definition isItemPath :: "ObjectPath \<Rightarrow> bool" where
  "isItemPath p =
     (if \<not> HasPrefix p collectionPrefix then False
      else ContainsByte (drop (length collectionPrefix) p) (CHR ''/''))"

fun isCollectionPath_loop :: "string list \<Rightarrow> ObjectPath \<Rightarrow> bool" where
  "isCollectionPath_loop [] p = False"
| "isCollectionPath_loop (prefix # ps) p =
     (if HasPrefix p prefix
      then (let remainder = drop (length prefix) p in
            remainder \<noteq> [] \<and> \<not> ContainsByte remainder (CHR ''/''))
      else isCollectionPath_loop ps p)"

definition isCollectionPath :: "ObjectPath \<Rightarrow> bool" where
  "isCollectionPath p = isCollectionPath_loop [collectionPrefix, aliasesPrefix] p"

definition promptPrefix :: string where
  "promptPrefix = ''/org/freedesktop/secrets/prompt/''"

definition isPromptPath :: "ObjectPath \<Rightarrow> bool" where
  "isPromptPath p \<longleftrightarrow> HasPrefix p promptPrefix \<and> length p > length promptPrefix"

subsection \<open>Upstream calls\<close>

definition callUp :: "proxy_env \<Rightarrow> ObjectPath \<Rightarrow> string \<Rightarrow> dvalue list \<Rightarrow> ProxyState \<Rightarrow> reply \<times> ProxyState" where
  "callUp env path method args st =
     (let c = mkcall BusName path method args in
      (pe_up env (ps_log st) c, st\<lparr>ps_log := ps_log st @ [c]\<rparr>))"

abbreviation (input) PropertiesGet :: string where "PropertiesGet \<equiv> ''org.freedesktop.DBus.Properties.Get''"
abbreviation (input) PropertiesGetAll :: string where "PropertiesGetAll \<equiv> ''org.freedesktop.DBus.Properties.GetAll''"
abbreviation (input) PropertiesSet :: string where "PropertiesSet \<equiv> ''org.freedesktop.DBus.Properties.Set''"

text \<open>\<open>obj.GetProperty(p)\<close>, the property named in interface.member notation.\<close>

definition upstreamGetProperty :: "proxy_env \<Rightarrow> ObjectPath \<Rightarrow> string \<Rightarrow> ProxyState \<Rightarrow> (go_error + dvalue) \<times> ProxyState" where
  "upstreamGetProperty env path prop st =
     (let (r, st) = callUp env path PropertiesGet [DStr prop] st in (store1 Some r, st))"

definition getItemInfo :: "proxy_env \<Rightarrow> ObjectPath \<Rightarrow> ProxyState \<Rightarrow> ItemInfo \<times> ProxyState" where
  "getItemInfo env path st =
     (let (l, st) = upstreamGetProperty env path (ItemInterface @ ''.Label'') st;
          (a, st) = upstreamGetProperty env path (ItemInterface @ ''.Attributes'') st
      in (\<lparr>ii_Path = path,
           ii_Label = (case l of Inr v \<Rightarrow> (case asStr v of Some s \<Rightarrow> s | None \<Rightarrow> []) | Inl _ \<Rightarrow> []),
           ii_Attributes = (case a of Inr v \<Rightarrow> (case asAttrs v of Some x \<Rightarrow> x | None \<Rightarrow> []) | Inl _ \<Rightarrow> [])\<rparr>, st))"

fun getItemInfos :: "proxy_env \<Rightarrow> ObjectPath list \<Rightarrow> ProxyState \<Rightarrow> ItemInfo list \<times> ProxyState" where
  "getItemInfos env [] st = ([], st)"
| "getItemInfos env (p # ps) st =
     (let (x, st) = getItemInfo env p st; (xs, st) = getItemInfos env ps st in (x # xs, st))"

definition getCollectionInfo :: "proxy_env \<Rightarrow> ObjectPath \<Rightarrow> ProxyState \<Rightarrow> ItemInfo \<times> ProxyState" where
  "getCollectionInfo env path st =
     (let (l, st) = upstreamGetProperty env path (CollectionInterface @ ''.Label'') st
      in (\<lparr>ii_Path = path,
           ii_Label = (case l of Inr v \<Rightarrow> (case asStr v of Some s \<Rightarrow> s | None \<Rightarrow> []) | Inl _ \<Rightarrow> []),
           ii_Attributes = []\<rparr>, st))"

text \<open>\<open>getUnlockInfo\<close>: one entry per object, each with the label of the collection.\<close>

fun getUnlockInfo :: "proxy_env \<Rightarrow> ObjectPath list \<Rightarrow> ProxyState \<Rightarrow> ItemInfo list \<times> ProxyState" where
  "getUnlockInfo env [] st = ([], st)"
| "getUnlockInfo env (p # ps) st =
     (let (x, st) = getCollectionInfo env p st; (xs, st) = getUnlockInfo env ps st in (x # xs, st))"

subsection \<open>Asking for approval\<close>

definition enter :: "proxy_env \<Rightarrow> string \<Rightarrow> ProxyState \<Rightarrow> requestID \<times> ProxyState" where
  "enter env sender st =
     (let (i, t) = contextForSender (pe_connected env sender) sender (ps_tracker st)
      in (i, st\<lparr>ps_tracker := t\<rparr>))"

definition leave :: "string \<Rightarrow> requestID \<Rightarrow> ProxyState \<Rightarrow> ProxyState" where
  "leave sender i st = st\<lparr>ps_tracker := release sender i (ps_tracker st)\<rparr>"

definition ask :: "proxy_env \<Rightarrow> ItemInfo list \<Rightarrow> string \<Rightarrow> RequestType \<Rightarrow> SenderInfo \<Rightarrow> ProxyState
    \<Rightarrow> approval_result option \<times> ProxyState" where
  "ask env items session reqType senderInfo st =
     (let (r, m) = RequireApproval (pe_wait env) (pe_now env) (pe_uid env) (pe_clientName env) items session
                     reqType [] senderInfo (ps_mgr st)
      in (r, st\<lparr>ps_mgr := m, ps_sessions := pe_meanwhile env (ps_sessions st)\<rparr>))"

subsection \<open>Facts\<close>

lemma callUp_simps [simp]:
  "ps_mgr (snd (callUp env p mt args st)) = ps_mgr st"
  "ps_sessions (snd (callUp env p mt args st)) = ps_sessions st"
  "ps_tracker (snd (callUp env p mt args st)) = ps_tracker st"
  "ps_log (snd (callUp env p mt args st)) = ps_log st @ [mkcall BusName p mt args]"
  by (simp_all add: callUp_def Let_def)

text \<open>\<open>reads st st'\<close>: between the two states only property reads were sent upstream.\<close>

definition reads :: "ProxyState \<Rightarrow> ProxyState \<Rightarrow> bool" where
  "reads st st' \<longleftrightarrow> ps_mgr st' = ps_mgr st \<and> ps_sessions st' = ps_sessions st \<and> ps_tracker st' = ps_tracker st \<and>
     (\<exists>cs. ps_log st' = ps_log st @ cs \<and> (\<forall>c \<in> set cs. uc_method c = PropertiesGet))"

lemma reads_refl [simp]: "reads st st"
  by (simp add: reads_def)

lemma reads_trans [trans]: "reads a b \<Longrightarrow> reads b c \<Longrightarrow> reads a c"
  by (fastforce simp: reads_def)

lemma reads_prop: "upstreamGetProperty env p pr st = (r, st') \<Longrightarrow> reads st st'"
  by (auto simp: upstreamGetProperty_def callUp_def mkcall_def reads_def Let_def)

lemma reads_getItemInfo: "getItemInfo env p st = (x, st') \<Longrightarrow> reads st st' \<and> ii_Path x = p"
  by (auto simp: getItemInfo_def Let_def split: prod.splits dest!: reads_prop intro: reads_trans)

lemma reads_getItemInfos: "getItemInfos env ps st = (xs, st') \<Longrightarrow> reads st st' \<and> map ii_Path xs = ps"
  by (induction env ps st arbitrary: xs st' rule: getItemInfos.induct)
     (auto simp: Let_def split: prod.splits dest!: reads_getItemInfo intro: reads_trans)

lemma reads_getCollectionInfo: "getCollectionInfo env p st = (x, st') \<Longrightarrow> reads st st' \<and> ii_Path x = p"
  by (auto simp: getCollectionInfo_def Let_def split: prod.splits dest!: reads_prop)

lemma reads_getUnlockInfo: "getUnlockInfo env ps st = (xs, st') \<Longrightarrow> reads st st' \<and> map ii_Path xs = ps"
  by (induction env ps st arbitrary: xs st' rule: getUnlockInfo.induct)
     (auto simp: Let_def split: prod.splits dest!: reads_getCollectionInfo intro: reads_trans)

lemma enter_log [simp]: "ps_log (snd (enter env s st)) = ps_log st" "ps_mgr (snd (enter env s st)) = ps_mgr st"
  by (simp_all add: enter_def split: prod.splits)

lemma leave_log [simp]: "ps_log (leave s i st) = ps_log st" "ps_mgr (leave s i st) = ps_mgr st"
  by (simp_all add: leave_def)

lemma ask_log [simp]: "ps_log (snd (ask env items session t si st)) = ps_log st"
  by (simp add: ask_def split: prod.splits)

lemma ask_fst: "fst (ask env items session t si st) =
    fst (RequireApproval (pe_wait env) (pe_now env) (pe_uid env) (pe_clientName env) items session t [] si (ps_mgr st))"
  by (simp add: ask_def split: prod.splits)

subsection \<open>Object paths\<close>

lemma isItemPath_iff:
  "isItemPath p \<longleftrightarrow> (\<exists>coll item. p = collectionPrefix @ coll @ CHR ''/'' # item \<and> CHR ''/'' \<notin> set coll)"
proof
  assume "isItemPath p"
  then obtain r where r: "p = collectionPrefix @ r" "CHR ''/'' \<in> set r"
    by (auto simp: isItemPath_def HasPrefix_iff ContainsByte_def split: if_splits)
  from split_list_first [OF r(2)] r(1) show "\<exists>coll item. p = collectionPrefix @ coll @ CHR ''/'' # item \<and> CHR ''/'' \<notin> set coll"
    by blast
qed (auto simp: isItemPath_def HasPrefix_iff ContainsByte_def)

lemma isCollectionPath_iff:
  "isCollectionPath p \<longleftrightarrow> (\<exists>name. (p = collectionPrefix @ name \<or> p = aliasesPrefix @ name) \<and> name \<noteq> [] \<and> CHR ''/'' \<notin> set name)"
  by (auto simp: isCollectionPath_def HasPrefix_iff ContainsByte_def Let_def)

text \<open>
  The path predicates fit together: no path is both an item and a collection; the collection a
  rule sees for an item path is the path segment after the collection prefix, and for a collection
  path (also an alias) it is the collection itself.
\<close>

theorem path_kinds_consistent:
  "\<not> (isItemPath p \<and> isCollectionPath p) \<and>
   (isItemPath p = (\<exists>coll item. p = collectionPrefix @ coll @ CHR ''/'' # item \<and> ExtractCollection p = coll)) \<and>
   (isCollectionPath p = (ExtractCollection p \<noteq> [] \<and>
      (p = collectionPrefix @ ExtractCollection p \<or> p = aliasesPrefix @ ExtractCollection p)))"
proof (intro conjI)
  show "\<not> (isItemPath p \<and> isCollectionPath p)"
    unfolding isItemPath_iff isCollectionPath_iff by auto
next
  show "isItemPath p = (\<exists>coll item. p = collectionPrefix @ coll @ CHR ''/'' # item \<and> ExtractCollection p = coll)"
    unfolding isItemPath_iff
    by (metis Cut_found ExtractCollection_collection ExtractCollection_no_slash fst_conv)
next
  show "isCollectionPath p = (ExtractCollection p \<noteq> [] \<and>
      (p = collectionPrefix @ ExtractCollection p \<or> p = aliasesPrefix @ ExtractCollection p))"
    unfolding isCollectionPath_iff using ExtractCollection_no_slash by (auto simp: Cut_not_found)
qed

end
