(* ===== verification/Proxy_Slow.thy ===== *)
theory Proxy_Slow
  imports Proxy_Base
begin

text \<open>
  \<^verbatim>\<open>internal/proxy/slow_upstream.go\<close>: the wrapper around a blocking upstream call that tells the user
  when the call takes long.  The wrapped call is its result together with the time it takes; the
  notifier is a log of what it is told.
\<close>

record UpstreamCallContext =
  cc_RequestType :: RequestType
  cc_Items :: "ItemInfo list"
  cc_SenderInfo :: SenderInfo
  cc_ResolveSender :: "SenderInfo option"

datatype slow_event = NotifySlowUpstream UpstreamCallContext | Dismiss

text \<open>
  \<open>ResolveSender\<close> is called at most once, when the notification is shown; its value is
  the option in the context.  \<open>raced\<close> is the choice the \<open>select\<close> makes when the result and the timer
  are ready at the same time.
\<close>

definition WithSlowNotify :: "nanos \<Rightarrow> bool \<Rightarrow> UpstreamCallContext \<Rightarrow> nanos \<Rightarrow> bool \<Rightarrow> 'a \<Rightarrow> 'a \<times> slow_event list" where
  "WithSlowNotify threshold notifier ctx duration raced result =
     (if \<not> notifier \<or> threshold \<le> 0 then (result, [])
      else if duration < threshold \<or> duration = threshold \<and> raced then (result, [])
      else (let ctx = (if si_PID (cc_SenderInfo ctx) = 0 \<and> length (si_ProcessChain (cc_SenderInfo ctx)) = 0
                       then (case cc_ResolveSender ctx of Some s \<Rightarrow> ctx\<lparr>cc_SenderInfo := s\<rparr> | None \<Rightarrow> ctx) else ctx)
            in (result, [NotifySlowUpstream ctx, Dismiss])))"

text \<open>
  The slow-call wrapper is transparent: it always returns what the wrapped call returns.  It
  notifies only when the call outlasts a positive threshold, at most once, and every notification is
  taken down again; the sender it shows is the given one if there is one.
\<close>

theorem WithSlowNotify_transparent:
  "fst (WithSlowNotify threshold notifier ctx duration raced result) = result \<and>
   (let evs = snd (WithSlowNotify threshold notifier ctx duration raced result) in
    evs = [] \<or> (\<exists>ctx'. evs = [NotifySlowUpstream ctx', Dismiss] \<and> 0 < threshold \<and> threshold \<le> duration \<and>
                   cc_Items ctx' = cc_Items ctx \<and> cc_RequestType ctx' = cc_RequestType ctx \<and>
                   (si_PID (cc_SenderInfo ctx) = 0 \<or> cc_SenderInfo ctx' = cc_SenderInfo ctx)))"
  by (auto simp: WithSlowNotify_def Let_def split: option.splits)

end
