(* ===== verification/Git_Payload.thy ===== *)
theory Git_Payload
  imports DBus_Types
begin

text \<open>
  \<^verbatim>\<open>internal/gpgsign/commit.go\<close> and the pure parts of \<open>gpg.go\<close>: what the user is shown of the
  bytes git asks to sign, and how the arguments git gives to \<open>gpg.program\<close> are read.

  A specification of the three payloads git signs (\<open>git_object\<close> and its printed form) stands
  beside the parser; the round trip is \<open>parse_shows_what_git_signs\<close>.
\<close>

abbreviation LF :: char where "LF \<equiv> CHR 0x0A"
abbreviation CR :: char where "CR \<equiv> CHR 0x0D"

subsection \<open>Reading lines\<close>

text \<open>
  \<open>bufio.Scanner\<close> with \<open>ScanLines\<close>: the text between line feeds, one trailing carriage return
  dropped, an empty last line not reported.  The scan stops for good at a line that does not fit
  the buffer with its line feed; the code sets the size to \<open>1<<20\<close>.
\<close>

definition raw_lines :: "string \<Rightarrow> string list" where
  "raw_lines data = (let ws = Split data LF in if List.last ws = [] then butlast ws else ws)"

definition dropCR :: "string \<Rightarrow> string" where
  "dropCR line = (if line \<noteq> [] \<and> List.last line = CR then butlast line else line)"

abbreviation (input) scanMax :: int where "scanMax \<equiv> 1048576"

definition fits :: "string \<Rightarrow> bool" where
  "fits line \<longleftrightarrow> int (length line) < scanMax"

definition scan_lines :: "string \<Rightarrow> string list" where
  "scan_lines data = map dropCR (takeWhile fits (raw_lines data))"

subsection \<open>The parser\<close>

type_synonym PayloadKind = string
abbreviation KindCommit :: PayloadKind where "KindCommit \<equiv> ''commit''"
abbreviation KindTag :: PayloadKind where "KindTag \<equiv> ''tag''"
abbreviation KindPush :: PayloadKind where "KindPush \<equiv> ''push''"
abbreviation KindUnknown :: PayloadKind where "KindUnknown \<equiv> ''unknown''"

record SignedPayload =
  sp_Kind :: PayloadKind
  sp_Signer :: string
  sp_Committer :: string
  sp_Message :: string
  sp_ParentHash :: string
  sp_TagName :: string
  sp_Target :: string
  sp_Pushee :: string

text \<open>The scanning loop: header lines up to the first empty line, then body lines.\<close>

fun payload_loop :: "bool \<Rightarrow> string list \<Rightarrow> string list \<times> string list" where
  "payload_loop inBody [] = ([], [])"
| "payload_loop inBody (line # ls) =
     (if inBody then (case payload_loop True ls of (hs, bs) \<Rightarrow> (hs, line # bs))
      else if line = [] then payload_loop True ls
      else (case payload_loop False ls of (hs, bs) \<Rightarrow> (line # hs, bs)))"

definition payloadKind :: "string \<Rightarrow> PayloadKind" where
  "payloadKind h =
     (if HasPrefix h ''tree '' then KindCommit
      else if HasPrefix h ''object '' then KindTag
      else if HasPrefix h ''certificate version '' then KindPush
      else KindUnknown)"

definition payloadHeader :: "string \<Rightarrow> SignedPayload \<Rightarrow> SignedPayload" where
  "payloadHeader h p =
     (if HasPrefix h ''author '' then p\<lparr>sp_Signer := TrimPrefix h ''author ''\<rparr>
      else if HasPrefix h ''tagger '' then p\<lparr>sp_Signer := TrimPrefix h ''tagger ''\<rparr>
      else if HasPrefix h ''pusher '' then p\<lparr>sp_Signer := TrimPrefix h ''pusher ''\<rparr>
      else if HasPrefix h ''committer '' then p\<lparr>sp_Committer := TrimPrefix h ''committer ''\<rparr>
      else if HasPrefix h ''parent '' \<and> sp_ParentHash p = [] then p\<lparr>sp_ParentHash := TrimPrefix h ''parent ''\<rparr>
      else if HasPrefix h ''tag '' then p\<lparr>sp_TagName := TrimPrefix h ''tag ''\<rparr>
      else if HasPrefix h ''object '' \<and> sp_Target p = [] then p\<lparr>sp_Target := TrimPrefix h ''object ''\<rparr>
      else if HasPrefix h ''pushee '' then p\<lparr>sp_Pushee := TrimPrefix h ''pushee ''\<rparr>
      else p)"

definition ParseSignedPayload :: "string \<Rightarrow> SignedPayload" where
  "ParseSignedPayload data =
     (case payload_loop False (scan_lines data) of (headers, bodyLines) \<Rightarrow>
       (let p = \<lparr>sp_Kind = KindUnknown, sp_Signer = [], sp_Committer = [],
                 sp_Message = TrimRightByte (Join bodyLines [LF]) LF,
                 sp_ParentHash = [], sp_TagName = [], sp_Target = [], sp_Pushee = []\<rparr>
        in case headers of
             [] \<Rightarrow> p
           | h # _ \<Rightarrow> fold payloadHeader headers (p\<lparr>sp_Kind := payloadKind h\<rparr>)))"

definition ParseCommitObject :: "string \<Rightarrow> string \<times> string \<times> string \<times> string" where
  "ParseCommitObject data =
     (let p = ParseSignedPayload data in (sp_Signer p, sp_Committer p, sp_Message p, sp_ParentHash p))"

subsection \<open>The arguments of gpg.program\<close>

fun isSignRequest :: "string list \<Rightarrow> bool" where
  "isSignRequest [] = False"
| "isSignRequest (a # as) =
     (if List.member [''--sign'', ''--detach-sign'', ''--clearsign'', ''--clear-sign''] a then True
      else if length a \<ge> 2 \<and> a ! 0 = CHR ''-'' \<and> a ! 1 \<noteq> CHR ''-'' \<and>
              (CHR ''s'' \<in> set (tl a) \<or> CHR ''b'' \<in> set (tl a)) then True
      else isSignRequest as)"

fun extractKeyID :: "string list \<Rightarrow> string" where
  "extractKeyID [] = []"
| "extractKeyID (arg # rest) =
     (if arg = ''-u'' then (case rest of [] \<Rightarrow> [] | k # _ \<Rightarrow> k)
      else if HasPrefix arg ''-'' \<and> \<not> HasPrefix arg ''--'' \<and> HasSuffix arg ''u''
        then (case rest of [] \<Rightarrow> [] | k # _ \<Rightarrow> k)
      else extractKeyID rest)"

text \<open>
  \<open>FindRealGPG\<close>: the file system is a parameter, \<open>stat path\<close> the identity (device and inode, what
  \<open>os.SameFile\<close> compares) of the file or an error; \<open>candidates\<close> are the entries of \<open>PATH\<close>, each
  joined with \<open>gpg\<close>.
\<close>

fun findGPG_loop :: "(string \<Rightarrow> go_error + 'i) \<Rightarrow> 'i \<Rightarrow> string list \<Rightarrow> go_error + string" where
  "findGPG_loop stat self [] = Inl (ErrText ''gpg not found in PATH'')"
| "findGPG_loop stat self (candidate # cs) =
     (case stat candidate of
        Inl _ \<Rightarrow> findGPG_loop stat self cs
      | Inr info \<Rightarrow> if info = self then findGPG_loop stat self cs else Inr candidate)"

definition FindRealGPG :: "go_error + string \<Rightarrow> (string \<Rightarrow> go_error + 'i) \<Rightarrow> string list \<Rightarrow> go_error + string" where
  "FindRealGPG executable stat candidates =
     (case executable of
        Inl err \<Rightarrow> Inl err
      | Inr self \<Rightarrow> (case stat self of
          Inl err \<Rightarrow> Inl err
        | Inr selfInfo \<Rightarrow> findGPG_loop stat selfInfo candidates))"

subsection \<open>What git signs\<close>

text \<open>
  The payloads: a commit, an annotated tag, a push certificate.  A header field holds no line feed;
  further commit headers (\<open>encoding\<close>, \<open>gpgsig\<close>, \<open>mergetag\<close> and their continuation lines) are
  \<open>extra\<close>.  The body is a list of lines.
\<close>

datatype git_object =
    GCommit (g_tree: string) (g_parents: "string list") (g_author: string) (g_committer: string)
      (g_extra: "string list") (g_body: "string list")
  | GTag (g_target: string) (g_type: string) (g_tag: string) (g_tagger: string) (g_body: "string list")
  | GPush (g_version: string) (g_pusher: string) (g_pushee: string) (g_nonce: string)
      (g_options: "string list") (g_body: "string list")

fun git_headers :: "git_object \<Rightarrow> string list" where
  "git_headers (GCommit tree ps a c ex _) =
     [''tree '' @ tree] @ map (\<lambda>p. ''parent '' @ p) ps @ [''author '' @ a, ''committer '' @ c] @ ex"
| "git_headers (GTag obj ty tag tagger _) =
     [''object '' @ obj, ''type '' @ ty, ''tag '' @ tag, ''tagger '' @ tagger]"
| "git_headers (GPush v pusher pushee nonce opts _) =
     [''certificate version '' @ v, ''pusher '' @ pusher, ''pushee '' @ pushee, ''nonce '' @ nonce] @
     map (\<lambda>q. ''push-option '' @ q) opts"

definition unlines :: "string list \<Rightarrow> string" where
  "unlines ls = concat (map (\<lambda>l. l @ [LF]) ls)"

definition git_bytes :: "git_object \<Rightarrow> string" where
  "git_bytes obj = unlines (git_headers obj @ [[]] @ g_body obj)"

definition line_ok :: "string \<Rightarrow> bool" where
  "line_ok l \<longleftrightarrow> LF \<notin> set l \<and> fits l \<and> (l \<noteq> [] \<longrightarrow> List.last l \<noteq> CR)"

definition known_headers :: "string list" where
  "known_headers = [''author '', ''tagger '', ''pusher '', ''committer '', ''parent '', ''tag '', ''object '', ''pushee '']"

definition extra_ok :: "string \<Rightarrow> bool" where
  "extra_ok l \<longleftrightarrow> l \<noteq> [] \<and> list_all (\<lambda>k. \<not> HasPrefix l k) known_headers"

fun git_ok :: "git_object \<Rightarrow> bool" where
  "git_ok (GCommit tree ps a c ex body) \<longleftrightarrow>
     list_all line_ok (git_headers (GCommit tree ps a c ex body) @ body) \<and> list_all extra_ok ex \<and> [] \<notin> set ps"
| "git_ok (GTag obj ty tag tagger body) \<longleftrightarrow>
     list_all line_ok (git_headers (GTag obj ty tag tagger body) @ body) \<and> obj \<noteq> []"
| "git_ok (GPush v pusher pushee nonce opts body) \<longleftrightarrow>
     list_all line_ok (git_headers (GPush v pusher pushee nonce opts body) @ body)"

text \<open>What the prompt should show of it.\<close>

definition shownBody :: "string list \<Rightarrow> string" where
  "shownBody body = TrimRightByte (Join body [LF]) LF"

fun git_display :: "git_object \<Rightarrow> SignedPayload" where
  "git_display (GCommit tree ps a c ex body) =
     \<lparr>sp_Kind = KindCommit, sp_Signer = a, sp_Committer = c, sp_Message = shownBody body,
      sp_ParentHash = (case ps of [] \<Rightarrow> [] | p # _ \<Rightarrow> p), sp_TagName = [], sp_Target = [], sp_Pushee = []\<rparr>"
| "git_display (GTag obj ty tag tagger body) =
     \<lparr>sp_Kind = KindTag, sp_Signer = tagger, sp_Committer = [], sp_Message = shownBody body,
      sp_ParentHash = [], sp_TagName = tag, sp_Target = obj, sp_Pushee = []\<rparr>"
| "git_display (GPush v pusher pushee nonce opts body) =
     \<lparr>sp_Kind = KindPush, sp_Signer = pusher, sp_Committer = [], sp_Message = shownBody body,
      sp_ParentHash = [], sp_TagName = [], sp_Target = [], sp_Pushee = pushee\<rparr>"

subsection \<open>Lines are read back\<close>

lemma Split_unlines:
  "\<forall>l \<in> set ls. LF \<notin> set l \<Longrightarrow> Split (unlines ls @ r) LF = ls @ Split r LF"
  by (induction ls) (auto simp: unlines_def Split_append)

lemma raw_lines_unlines:
  assumes "\<forall>l \<in> set ls. LF \<notin> set l"
  shows "raw_lines (unlines ls) = ls"
proof -
  have "Split (unlines ls) LF = ls @ [[]]" using Split_unlines[OF assms, of "[]"] by simp
  then show ?thesis by (simp add: raw_lines_def)
qed

lemma dropCR_ok: "line_ok l \<Longrightarrow> dropCR l = l"
  by (auto simp: dropCR_def line_ok_def)

lemma scan_unlines:
  assumes "list_all line_ok ls"
  shows "scan_lines (unlines ls) = ls"
proof -
  have "raw_lines (unlines ls) = ls"
    using assms by (intro raw_lines_unlines) (auto simp: list_all_iff line_ok_def)
  moreover have "takeWhile fits ls = ls"
    using assms by (auto simp: takeWhile_eq_all_conv list_all_iff line_ok_def)
  moreover have "map dropCR ls = ls"
    using assms by (auto simp: list_all_iff dropCR_ok intro: map_idI)
  ultimately show ?thesis unfolding scan_lines_def by (simp only:)
qed

lemma payload_loop_body: "payload_loop True bs = ([], bs)"
  by (induction bs) auto

lemma payload_loop_split:
  "[] \<notin> set hs \<Longrightarrow> payload_loop False (hs @ [] # bs) = (hs, bs)"
  by (induction hs) (auto simp: payload_loop_body)

lemma git_headers_ne: "git_ok obj \<Longrightarrow> [] \<notin> set (git_headers obj)"
  by (cases obj) (auto simp: list_all_iff extra_ok_def)

lemma git_ok_lines: "git_ok obj \<Longrightarrow> list_all line_ok (git_headers obj @ [[]] @ g_body obj)"
  by (cases obj) (auto simp: line_ok_def fits_def)

lemma payload_of_git:
  assumes "git_ok obj"
  shows "payload_loop False (scan_lines (git_bytes obj)) = (git_headers obj, g_body obj)"
  using payload_loop_split[OF git_headers_ne[OF assms], of "g_body obj"]
  by (simp add: git_bytes_def scan_unlines[OF git_ok_lines[OF assms], simplified])

lemma ParseSignedPayload_git:
  assumes "git_ok obj"
  shows "ParseSignedPayload (git_bytes obj) =
    fold payloadHeader (git_headers obj)
      \<lparr>sp_Kind = payloadKind (hd (git_headers obj)), sp_Signer = [], sp_Committer = [],
       sp_Message = shownBody (g_body obj), sp_ParentHash = [], sp_TagName = [], sp_Target = [], sp_Pushee = []\<rparr>"
proof -
  have "git_headers obj \<noteq> []" by (cases obj) auto
  then show ?thesis
    by (cases "git_headers obj") (auto simp: ParseSignedPayload_def payload_of_git[OF assms] shownBody_def Let_def)
qed

lemma HasPrefix_code: "HasPrefix (x # s) (y # p) \<longleftrightarrow> x = y \<and> HasPrefix s p"
  by (auto simp: HasPrefix_iff)

lemma TrimPrefix_code: "x = y \<Longrightarrow> HasPrefix s p \<Longrightarrow> TrimPrefix (x # s) (y # p) = TrimPrefix s p"
  by (auto simp: TrimPrefix_def HasPrefix_code)

lemmas header_eval = payloadHeader_def HasPrefix_code TrimPrefix_code

lemma fold_parents:
  "sp_ParentHash p \<noteq> [] \<Longrightarrow> fold payloadHeader (map (\<lambda>p. ''parent '' @ p) ps) p = p"
  by (induction ps) (auto simp: header_eval)

lemma fold_extra: "list_all extra_ok ex \<Longrightarrow> fold payloadHeader ex p = p"
  by (induction ex) (auto simp: payloadHeader_def extra_ok_def known_headers_def)

lemma fold_options: "fold payloadHeader (map (\<lambda>q. ''push-option '' @ q) opts) p = p"
  by (induction opts) (auto simp: header_eval)

lemma fold_headers:
  assumes "git_ok obj"
  shows "fold payloadHeader (git_headers obj)
      \<lparr>sp_Kind = payloadKind (hd (git_headers obj)), sp_Signer = [], sp_Committer = [],
       sp_Message = shownBody (g_body obj), sp_ParentHash = [], sp_TagName = [], sp_Target = [], sp_Pushee = []\<rparr>
    = git_display obj"
proof (cases obj)
  case (GCommit tree ps a c ex body)
  with assms show ?thesis
    by (cases ps) (auto simp: payloadKind_def header_eval fold_parents fold_extra TrimPrefix_def)
next
  case (GTag obj ty tag tagger body)
  with assms show ?thesis by (auto simp: payloadKind_def header_eval TrimPrefix_def)
next
  case (GPush v pusher pushee nonce opts body)
  with assms show ?thesis by (auto simp: payloadKind_def header_eval fold_options TrimPrefix_def)
qed


definition exCommit :: git_object where
  "exCommit = GCommit ''4b825d'' [''aa11'', ''bb22''] ''Ann <a@x> 1 +0000'' ''Bob <b@x> 2 +0000''
     [''encoding UTF-8'', ''gpgsig -----BEGIN'', '' author forged''] [''Fix'', [], ''author evil'', []]"


subsection \<open>Lines that do not fit\<close>

text \<open>
  The scan ends at the first line of \<open>1<<20\<close> bytes or more and the parser does not look at
  \<open>scanner.Err()\<close>: whatever follows such a line is signed but not shown.
\<close>

lemma scan_long_line:
  assumes "list_all line_ok ls" and "LF \<notin> set long" and "\<not> fits long" and "rest = [] \<or> hd rest = LF"
  shows "scan_lines (unlines ls @ long @ rest) = ls"
proof -
  have lf: "\<forall>l \<in> set ls. LF \<notin> set l" using assms(1) by (auto simp: list_all_iff line_ok_def)
  have "long \<noteq> []" using assms(3) by (auto simp: fits_def)
  obtain ws where ws: "Split (long @ rest) LF = long # ws"
    using assms(2,4) by (cases rest) (auto simp: Split_append Split_no_sep)
  have "\<exists>ws'. raw_lines (unlines ls @ long @ rest) = ls @ long # ws'"
    using Split_unlines[OF lf, of "long @ rest"] ws \<open>long \<noteq> []\<close>
    by (auto simp: raw_lines_def butlast_append Let_def)
  then obtain ws' where "raw_lines (unlines ls @ long @ rest) = ls @ long # ws'" by blast
  moreover have "takeWhile fits (ls @ long # ws') = ls"
    using assms(1,3) by (subst takeWhile_append2) (auto simp: list_all_iff line_ok_def)
  moreover have "map dropCR ls = ls"
    using assms(1) by (auto simp: list_all_iff dropCR_ok intro: map_idI)
  ultimately show ?thesis unfolding scan_lines_def by (simp only:)
qed

text \<open>
  When a payload holds a line of a mebibyte or more, the prompt shows the payload as if it ended
  before that line, whatever comes after it.\<close>
theorem long_line_hides_the_rest:
  assumes "list_all line_ok ls" and "LF \<notin> set long" and "scanMax \<le> int (length long)" and "rest = [] \<or> hd rest = LF"
  shows "ParseSignedPayload (unlines ls @ long @ rest) = ParseSignedPayload (unlines ls)"
proof -
  have "scan_lines (unlines ls @ long @ rest) = scan_lines (unlines ls)"
    using assms(3) by (simp add: scan_long_line[OF assms(1,2) _ assms(4)] scan_unlines[OF assms(1)] fits_def)
  then show ?thesis by (simp add: ParseSignedPayload_def)
qed

lemma long_run: "LF \<notin> set (replicate n CHR ''x'')" "int (length (replicate n CHR ''x'')) = int n"
  by (auto simp: in_set_replicate)

theorem long_line_hides_the_rest_witness:
  "ParseSignedPayload (unlines [''tree aa'', ''author A'', [], ''Typo''] @ replicate (nat scanMax) CHR ''x'' @
     unlines [[], ''Grant access''])
   = ParseSignedPayload (unlines [''tree aa'', ''author A'', [], ''Typo''])"
proof -
  have ok: "list_all line_ok [''tree aa'', ''author A'', [], ''Typo'']" by code_simp
  show ?thesis
  proof (rule long_line_hides_the_rest[OF ok])
    show "LF \<notin> set (replicate (nat scanMax) CHR ''x'')" by (rule long_run)
    show "scanMax \<le> int (length (replicate (nat scanMax) CHR ''x''))" unfolding long_run by simp
    show "unlines [[], ''Grant access''] = [] \<or> hd (unlines [[], ''Grant access'']) = LF"
      by (simp add: unlines_def)
  qed
qed

subsection \<open>Finding gpg and the key\<close>

lemma findGPG_loop_first:
  "findGPG_loop stat self cs = Inr c \<Longrightarrow>
   \<exists>i. stat c = Inr i \<and> i \<noteq> self \<and> c = hd (filter (\<lambda>c. \<exists>i. stat c = Inr i \<and> i \<noteq> self) cs)"
  by (induction cs) (auto split: sum.splits if_splits)

lemma FindRealGPG_never_self:
  assumes "FindRealGPG (Inr self) stat cs = Inr c"
  shows "\<exists>i. stat c = Inr i \<and> stat self \<noteq> Inr i"
  using assms by (auto simp: FindRealGPG_def dest: findGPG_loop_first split: sum.splits)

text \<open>git's own invocations: signing is recognised with its key, verification is not taken for signing.\<close>

lemma git_sign_invocation:
  "isSignRequest [''--status-fd=2'', ''-bsau'', key]" "extractKeyID [''--status-fd=2'', ''-bsau'', key] = key"
  by (auto simp: HasPrefix_def HasSuffix_def)

lemma git_verify_invocation:
  "isSignRequest [''--keyid-format=long'', ''--status-fd=1'', ''--verify'', sig, ''-''] \<longleftrightarrow> isSignRequest [sig]"
  by auto

end
