(* ===== verification/Api_Resolver.thy ===== *)
theory Api_Resolver
  imports Approval_Machine Proxy_Slow Git_Payload
begin

text \<open>
  \<^verbatim>\<open>internal/api/resolver.go\<close>, and the way \<^verbatim>\<open>internal/api/gpgsign.go\<close> runs gpg.  The resolver stands
  between the user's decision (web UI, CLI, desktop notification) and the approval manager; for a
  commit-signing request it runs the real gpg between looking the request up and resolving it.

  Running gpg takes long and other goroutines go on meanwhile, so \<open>Resolver_Approve\<close> is a \<open>_start\<close> (up to
  the call of gpg) and a \<open>_finish\<close>, composed around what the others do.  The gpg process
  is a parameter: what \<open>exec\<close> gives for a command line and standard input.
\<close>

subsection \<open>Running gpg\<close>

text \<open>What \<open>cmd.Run\<close> reports: success, an \<open>ExitError\<close> with its code, or another error.\<close>

datatype run_status = RunOk | RunExit int | RunFailed string

type_synonym exec = "string \<Rightarrow> string list \<Rightarrow> bytes \<Rightarrow> bytes \<times> bytes \<times> run_status"

record gpgResult =
  gr_sig :: bytes
  gr_status :: bytes
  gr_exitCode :: int
  gr_err :: "go_error option"

text \<open>The interface \<open>GPGRunner\<close> and its default implementation.\<close>

record GPGRunner =
  gp_FindGPG :: "go_error + string"
  gp_RunGPG :: "string \<Rightarrow> string \<Rightarrow> bytes \<Rightarrow> gpgResult"

definition RunGPG :: "exec \<Rightarrow> string \<Rightarrow> string \<Rightarrow> bytes \<Rightarrow> gpgResult" where
  "RunGPG ex gpgPath keyID commitObject =
     (case ex gpgPath [''--status-fd=2'', ''-bsau'', keyID] commitObject of
        (sig, status, RunOk) \<Rightarrow> \<lparr>gr_sig = sig, gr_status = status, gr_exitCode = 0, gr_err = None\<rparr>
      | (sig, status, RunExit code) \<Rightarrow> \<lparr>gr_sig = sig, gr_status = status, gr_exitCode = code, gr_err = None\<rparr>
      | (sig, status, RunFailed e) \<Rightarrow>
          \<lparr>gr_sig = [], gr_status = status, gr_exitCode = 1, gr_err = Some (ErrText (''gpg exec failed: '' @ e))\<rparr>)"

definition defaultGPGRunner :: "go_error + string \<Rightarrow> (string \<Rightarrow> go_error + 'i) \<Rightarrow> string list \<Rightarrow> exec \<Rightarrow> GPGRunner" where
  "defaultGPGRunner executable stat candidates ex =
     \<lparr>gp_FindGPG = FindRealGPG executable stat candidates, gp_RunGPG = RunGPG ex\<rparr>"

record Resolver =
  rv_GPGRunner :: GPGRunner
  rv_hasNotifier :: bool
  rv_SlowThreshold :: nanos

text \<open>\<open>gpgSignItems\<close>: the label of the slow-call notice; a byte slice, so a long subject is cut at 60 bytes.\<close>

definition gpgSignItems :: "GPGSignInfo option \<Rightarrow> ItemInfo list" where
  "gpgSignItems info =
     (case info of
        None \<Rightarrow> []
      | Some gi \<Rightarrow>
          (let label = gi_RepoName gi;
               label = (if gi_CommitMsg gi \<noteq> [] then
                  (let subject = gi_CommitMsg gi;
                       subject = (if length subject > 60 then take 60 subject else subject);
                       subject = takeWhile (\<lambda>c. c \<noteq> LF) subject
                   in label @ '': '' @ subject) else label)
           in [\<lparr>ii_Path = [], ii_Label = label, ii_Attributes = []\<rparr>]))"

text \<open>\<open>took\<close> is how long gpg runs, \<open>raced\<close> the choice of the \<open>select\<close> on a tie.\<close>

definition runGPGWithNotify :: "Resolver \<Rightarrow> nanos \<Rightarrow> bool \<Rightarrow> string \<Rightarrow> string \<Rightarrow> bytes \<Rightarrow> GPGSignInfo option \<Rightarrow> SenderInfo
    \<Rightarrow> gpgResult \<times> slow_event list" where
  "runGPGWithNotify r took raced gpgPath keyID commitObject info senderInfo =
     WithSlowNotify (rv_SlowThreshold r) (rv_hasNotifier r)
       \<lparr>cc_RequestType = RequestTypeGPGSign, cc_Items = gpgSignItems info, cc_SenderInfo = senderInfo,
        cc_ResolveSender = None\<rparr> took raced (gp_RunGPG (rv_GPGRunner r) gpgPath keyID commitObject)"

subsection \<open>The resolver\<close>

datatype approve_mode = JustApprove | AndAutoApprove string  \<comment> \<open>the ID a new rule gets\<close>

text \<open>\<open>Inl\<close>: finished, with the result; \<open>Inr\<close>: gpg at this path is to sign for this request.\<close>

definition Resolver_start :: "Resolver \<Rightarrow> approve_mode \<Rightarrow> nanos \<Rightarrow> string \<Rightarrow> Manager
    \<Rightarrow> (go_error option \<times> Manager) + (string \<times> Request \<times> GPGSignInfo)" where
  "Resolver_start r mode now i m =
     (case GetPending i m of
        None \<Rightarrow> Inl (Some ErrNotFound, m)
      | Some req \<Rightarrow>
          (case (rq_Type req = RequestTypeGPGSign, rq_GPGSignInfo req) of
             (True, Some gi) \<Rightarrow>
               (case gp_FindGPG (rv_GPGRunner r) of
                  Inl _ \<Rightarrow> Inl (ApproveGPGFailed now i [] 2 m)
                | Inr gpgPath \<Rightarrow> Inr (gpgPath, req, gi))
           | _ \<Rightarrow> Inl (case mode of JustApprove \<Rightarrow> Approve now i m
                       | AndAutoApprove uid \<Rightarrow> ApproveAndAutoApprove now uid i m)))"

definition Resolver_finish :: "approve_mode \<Rightarrow> nanos \<Rightarrow> string \<Rightarrow> Request \<Rightarrow> gpgResult \<Rightarrow> Manager
    \<Rightarrow> go_error option \<times> Manager" where
  "Resolver_finish mode now i req res m =
     (if gr_err res \<noteq> None \<or> gr_exitCode res \<noteq> 0 then ApproveGPGFailed now i (gr_status res) (gr_exitCode res) m
      else case mode of
             JustApprove \<Rightarrow> ApproveWithSignature now i (gr_sig res) (gr_status res) m
           | AndAutoApprove uid \<Rightarrow>
               (case ApproveWithSignature now i (gr_sig res) (gr_status res) m of
                  (Some err, m) \<Rightarrow> (Some err, m)
                | (None, m) \<Rightarrow> (None, snd (AddAutoApproveRule now uid req m))))"

record gpg_env =
  ge_took :: nanos
  ge_raced :: bool
  ge_others :: "Manager \<Rightarrow> Manager"
  ge_later :: nanos

definition Resolver_run :: "Resolver \<Rightarrow> approve_mode \<Rightarrow> gpg_env \<Rightarrow> nanos \<Rightarrow> string \<Rightarrow> Manager
    \<Rightarrow> go_error option \<times> Manager" where
  "Resolver_run r mode env now i m =
     (case Resolver_start r mode now i m of
        Inl done \<Rightarrow> done
      | Inr (gpgPath, req, gi) \<Rightarrow>
          (let res = fst (runGPGWithNotify r (ge_took env) (ge_raced env) gpgPath (gi_KeyID gi)
                            (gi_CommitObject gi) (Some gi) (rq_SenderInfo req))
           in Resolver_finish mode (ge_later env) i req res (ge_others env m)))"

definition Resolver_Approve :: "Resolver \<Rightarrow> gpg_env \<Rightarrow> nanos \<Rightarrow> string \<Rightarrow> Manager \<Rightarrow> go_error option \<times> Manager" where
  "Resolver_Approve r env now i m = Resolver_run r JustApprove env now i m"

definition Resolver_ApproveAndAutoApprove :: "Resolver \<Rightarrow> gpg_env \<Rightarrow> string \<Rightarrow> nanos \<Rightarrow> string \<Rightarrow> Manager
    \<Rightarrow> go_error option \<times> Manager" where
  "Resolver_ApproveAndAutoApprove r env uid now i m = Resolver_run r (AndAutoApprove uid) env now i m"

definition Resolver_Deny :: "nanos \<Rightarrow> string \<Rightarrow> Manager \<Rightarrow> go_error option \<times> Manager" where
  "Resolver_Deny now i m = Deny now i m"

definition Resolver_AutoApprove :: "nanos \<Rightarrow> string \<Rightarrow> string \<Rightarrow> Manager \<Rightarrow> go_error option \<times> Manager" where
  "Resolver_AutoApprove now uid requestID m =
     (case GetHistoryEntry requestID m of
        None \<Rightarrow> (Some ErrNotFound, m)
      | Some entry \<Rightarrow>
          if he_Resolution entry \<noteq> ResolutionCancelled then (Some ErrNotFound, m)
          else (None, snd (AddAutoApproveRule now uid (he_Request entry) m)))"

end
