(* ===== verification/Procutil.thy ===== *)
theory Procutil
  imports Go_Strings "HOL-Library.Word"
begin

text \<open>
  \<^verbatim>\<open>internal/procutil/procutil.go\<close>: walking the Linux process tree.  The files under \<^verbatim>\<open>/proc\<close> are a
  parameter (\<open>procfs\<close>): for each PID the content of \<open>comm\<close>, \<open>stat\<close>, \<open>cmdline\<close> and \<open>children\<close> and the
  targets of the links \<open>exe\<close> and \<open>cwd\<close>, or \<open>None\<close> where reading fails.  An \<open>int32\<close> PID is an
  integer; conversions from and to \<open>uint32\<close> wrap as in Go.

  A loop up the tree ends because the parent relation has no cycle; the model gives it fuel, and the
  termination theorem shows that some amount of fuel is always enough when there is no cycle.
\<close>

record procfs =
  pf_comm :: "int \<Rightarrow> string option"
  pf_stat :: "int \<Rightarrow> string option"
  pf_exe :: "int \<Rightarrow> string option"
  pf_cwd :: "int \<Rightarrow> string option"
  pf_cmdline :: "int \<Rightarrow> string option"
  pf_children :: "int \<Rightarrow> string option"

definition int32_of :: "32 word \<Rightarrow> int" where "int32_of w = sint w"
definition uint32_of :: "int \<Rightarrow> 32 word" where "uint32_of i = of_int i"

definition shells :: "string list" where
  "shells = [''sh'', ''bash'', ''zsh'', ''fish'', ''dash'', ''csh'', ''tcsh'', ''ksh'']"

definition IsShell :: "string \<Rightarrow> bool" where
  "IsShell comm \<longleftrightarrow> List.member shells comm"

definition ReadComm :: "procfs \<Rightarrow> int \<Rightarrow> string" where
  "ReadComm pf pid = (case pf_comm pf pid of None \<Rightarrow> [] | Some data \<Rightarrow> TrimSpace data)"

definition readStatFields :: "procfs \<Rightarrow> int \<Rightarrow> string list" where
  "readStatFields pf pid =
     (case pf_stat pf pid of
        None \<Rightarrow> []
      | Some s \<Rightarrow>
         (case LastIndexByte s (CHR '')'') of
            None \<Rightarrow> []
          | Some i \<Rightarrow> if i + 2 \<ge> length s then [] else Fields (drop (i + 2) s)))"

text \<open>
  \<open>fmt.Sscanf(s, "%d", &x)\<close> for an \<open>int32\<close>: an optional sign and the digits that follow; \<open>None\<close>, and \<open>x\<close>
  unchanged, if there is no digit or the number does not fit.
\<close>

definition is_digit :: "char \<Rightarrow> bool" where
  "is_digit c \<longleftrightarrow> (48::nat) \<le> of_char c \<and> of_char c \<le> (57::nat)"

definition sscanf_d :: "string \<Rightarrow> int option" where
  "sscanf_d s =
     (let neg = (s \<noteq> [] \<and> hd s = CHR ''-'');
          body = (if s \<noteq> [] \<and> (hd s = CHR ''-'' \<or> hd s = CHR ''+'') then tl s else s);
          ds = takeWhile is_digit body;
          v = (if neg then - int (undec ds) else int (undec ds))
      in if ds = [] \<or> v < - (2 ^ 31) \<or> v \<ge> 2 ^ 31 then None else Some v)"

definition ReadPPID :: "procfs \<Rightarrow> int \<Rightarrow> int" where
  "ReadPPID pf pid =
     (let fields = readStatFields pf pid in
      if length fields < 2 then 0 else (case sscanf_d (fields ! 1) of Some v \<Rightarrow> v | None \<Rightarrow> 0))"

definition IsSessionLeader :: "procfs \<Rightarrow> int \<Rightarrow> bool" where
  "IsSessionLeader pf pid =
     (let fields = readStatFields pf pid in
      if length fields < 4 then False
      else (case sscanf_d (fields ! 3) of Some v \<Rightarrow> v | None \<Rightarrow> 0) = pid)"

record ProcEntry =
  pr_Comm :: string
  pr_PID :: int
  pr_Exe :: string
  pr_Args :: "string list"
  pr_CWD :: string

definition ReadExe :: "procfs \<Rightarrow> int \<Rightarrow> string" where
  "ReadExe pf pid = (case pf_exe pf pid of None \<Rightarrow> [] | Some target \<Rightarrow> TrimSuffix target '' (deleted)'')"

definition ReadCWD :: "procfs \<Rightarrow> int \<Rightarrow> string" where
  "ReadCWD pf pid = (case pf_cwd pf pid of None \<Rightarrow> [] | Some target \<Rightarrow> target)"

definition ReadCmdline :: "procfs \<Rightarrow> int \<Rightarrow> string list" where
  "ReadCmdline pf pid =
     (case pf_cmdline pf pid of
        None \<Rightarrow> []
      | Some data \<Rightarrow>
         (if data = [] then []
          else (let s = TrimRightByte data (CHR 0x00) in if s = [] then [] else Split s (CHR 0x00))))"

definition procEntry :: "procfs \<Rightarrow> int \<Rightarrow> string \<Rightarrow> ProcEntry" where
  "procEntry pf p comm =
     \<lparr>pr_Comm = comm, pr_PID = p, pr_Exe = ReadExe pf p, pr_Args = ReadCmdline pf p, pr_CWD = ReadCWD pf p\<rparr>"

text \<open>The loop of \<open>ReadProcessChain\<close>; \<open>None\<close> when the fuel runs out.\<close>

fun chain_loop :: "nat \<Rightarrow> procfs \<Rightarrow> bool \<Rightarrow> int \<Rightarrow> ProcEntry list option" where
  "chain_loop 0 pf trim p = None"
| "chain_loop (Suc n) pf trim p =
     (if \<not> p > 1 then Some []
      else (let comm = ReadComm pf p in
            if comm = [] then Some []
            else (let e = procEntry pf p comm in
                  if trim \<and> IsSessionLeader pf p then
                    (let parent = ReadPPID pf p in
                     if parent > 1 \<and> ReadComm pf parent \<noteq> []
                     then Some [e, procEntry pf parent (ReadComm pf parent)] else Some [e])
                  else map_option ((#) e) (chain_loop n pf trim (ReadPPID pf p)))))"

definition ReadProcessChain :: "nat \<Rightarrow> procfs \<Rightarrow> int \<Rightarrow> bool \<Rightarrow> ProcEntry list option" where
  "ReadProcessChain fuel pf pid trimAtSessionLeader = chain_loop fuel pf trimAtSessionLeader pid"

definition ReadChildren :: "procfs \<Rightarrow> int \<Rightarrow> int list" where
  "ReadChildren pf pid =
     (case pf_children pf pid of
        None \<Rightarrow> []
      | Some data \<Rightarrow> if data = [] then [] else List.map_filter sscanf_d (Fields data))"

subsection \<open>The SSH destination\<close>

definition stripUser :: "string \<Rightarrow> string" where
  "stripUser s = (case LastIndexByte s (CHR ''@'') of Some i \<Rightarrow> drop (i + 1) s | None \<Rightarrow> s)"

definition flagsWithArg :: "string list" where
  "flagsWithArg = [''-b'', ''-c'', ''-D'', ''-E'', ''-e'', ''-F'', ''-I'', ''-i'', ''-J'', ''-L'',
     ''-l'', ''-m'', ''-O'', ''-o'', ''-p'', ''-Q'', ''-R'', ''-S'', ''-W'', ''-w'']"

fun sshArgs_loop :: "string list \<Rightarrow> string" where
  "sshArgs_loop [] = []"
| "sshArgs_loop [arg] =
     (if arg = ''--'' then []
      else if length arg > 1 \<and> hd arg = CHR ''-'' then []
      else stripUser arg)"
| "sshArgs_loop (arg # a # rest) =
     (if arg = ''--'' then stripUser a
      else if length arg > 1 \<and> hd arg = CHR ''-'' then
        (if List.member flagsWithArg arg then sshArgs_loop rest else sshArgs_loop (a # rest))
      else stripUser arg)"

definition parseSSHHost :: "string list \<Rightarrow> string" where
  "parseSSHHost argv = (if length argv < 2 then [] else sshArgs_loop (tl argv))"

definition isSSH :: "string \<Rightarrow> bool" where
  "isSSH comm \<longleftrightarrow> comm = ''ssh'' \<or> comm = ''ssh.exe''"

fun sshChildren_loop :: "procfs \<Rightarrow> int list \<Rightarrow> string" where
  "sshChildren_loop pf [] = []"
| "sshChildren_loop pf (child # rest) =
     (if isSSH (ReadComm pf child) \<and> parseSSHHost (ReadCmdline pf child) \<noteq> []
      then parseSSHHost (ReadCmdline pf child) else sshChildren_loop pf rest)"

definition ResolveSSHDestination :: "procfs \<Rightarrow> int \<Rightarrow> string" where
  "ResolveSSHDestination pf pid =
     (if isSSH (ReadComm pf pid) \<and> parseSSHHost (ReadCmdline pf pid) \<noteq> []
      then parseSSHHost (ReadCmdline pf pid)
      else sshChildren_loop pf (ReadChildren pf pid))"

subsection \<open>The invoker\<close>

text \<open>The walk up past the shells: the invoker found, or \<open>Some None\<close> when there is none.\<close>

fun invoker_loop :: "nat \<Rightarrow> procfs \<Rightarrow> int \<Rightarrow> (string \<times> int) option option" where
  "invoker_loop 0 pf p = None"
| "invoker_loop (Suc n) pf p =
     (if \<not> p > 1 then Some None
      else (let c = ReadComm pf p in
            if c = [] then Some None
            else if \<not> IsShell c then Some (Some (c, p))
            else invoker_loop n pf (ReadPPID pf p)))"

definition ResolveInvoker :: "nat \<Rightarrow> procfs \<Rightarrow> 32 word \<Rightarrow> (string \<times> 32 word) option" where
  "ResolveInvoker fuel pf pid =
     (let p = int32_of pid; comm = ReadComm pf p in
      if comm = [] then Some ([], 0)
      else if \<not> IsShell comm then Some (comm, pid)
      else (case invoker_loop fuel pf (ReadPPID pf p) of
              None \<Rightarrow> None
            | Some (Some (c, q)) \<Rightarrow> Some (c, uint32_of q)
            | Some None \<Rightarrow> Some (ReadComm pf (int32_of pid), pid)))"

subsection \<open>The walk up the tree\<close>

text \<open>No cycle among the readable processes: every parent has a smaller rank than its child.\<close>

definition acyclic_by :: "(int \<Rightarrow> nat) \<Rightarrow> procfs \<Rightarrow> bool" where
  "acyclic_by rank pf \<longleftrightarrow> (\<forall>p. 1 < p \<longrightarrow> ReadComm pf p \<noteq> [] \<longrightarrow> rank (ReadPPID pf p) < rank p)"

text \<open>A chain in which each entry is followed by its parent and describes a live process above 1.\<close>

fun linked :: "procfs \<Rightarrow> ProcEntry list \<Rightarrow> bool" where
  "linked pf [] \<longleftrightarrow> True"
| "linked pf (e # es) \<longleftrightarrow>
     1 < pr_PID e \<and> pr_Comm e \<noteq> [] \<and> e = procEntry pf (pr_PID e) (ReadComm pf (pr_PID e)) \<and>
     (es = [] \<or> pr_PID (hd es) = ReadPPID pf (pr_PID e)) \<and> linked pf es"

lemma procEntry_PID [simp]: "pr_PID (procEntry pf p c) = p" "pr_Comm (procEntry pf p c) = c"
  by (simp_all add: procEntry_def)

lemma chain_loop_result:
  assumes "acyclic_by rank pf"
  shows "rank p < n \<Longrightarrow>
     \<exists>chain. chain_loop n pf trim p = Some chain \<and> linked pf chain \<and> (chain = [] \<or> pr_PID (hd chain) = p)"
proof (induction n arbitrary: p)
  case (Suc n)
  show ?case
  proof (cases "1 < p \<and> ReadComm pf p \<noteq> []")
    case True
    then have "rank (ReadPPID pf p) < rank p" using assms by (simp add: acyclic_by_def)
    with Suc.prems have "rank (ReadPPID pf p) < n" by simp
    from Suc.IH [OF this] obtain chain where
      "chain_loop n pf trim (ReadPPID pf p) = Some chain" "linked pf chain"
      "chain = [] \<or> pr_PID (hd chain) = ReadPPID pf p" by blast
    with True show ?thesis by (auto simp: Let_def)
  qed auto
qed simp


text \<open>A small process tree: \<open>50\<close> is a child of \<open>42\<close>, which is a child of process 1.\<close>

definition exProc :: "string \<Rightarrow> procfs" where
  "exProc comm50 = \<lparr>pf_comm = (\<lambda>p. if p = 50 then Some comm50 else if p = 42 then Some ''gh'' else None),
     pf_stat = (\<lambda>p. if p = 50 then Some ''50 (x) S 42 50 42'' else if p = 42 then Some ''42 (gh) S 1 42 42'' else None),
     pf_exe = (\<lambda>p. if p = 50 then Some ''/tmp/evil'' else if p = 42 then Some ''/usr/bin/gh'' else None),
     pf_cwd = (\<lambda>p. Some ''/''), pf_cmdline = (\<lambda>p. None), pf_children = (\<lambda>p. None)\<rparr>"

lemma exProc_acyclic: "acyclic_by (\<lambda>p. if p = 50 then 2 else if p = 42 then 1 else 0) (exProc ''evil'')"
proof -
  have "ReadPPID (exProc ''evil'') 50 = 42" "ReadPPID (exProc ''evil'') 42 = 1" by code_simp+
  moreover have "p = 50 \<or> p = 42" if "ReadComm (exProc ''evil'') p \<noteq> []" for p
    using that by (auto simp: ReadComm_def exProc_def split: if_splits)
  ultimately show ?thesis unfolding acyclic_by_def by fastforce
qed


subsection \<open>The invoker\<close>

lemma invoker_loop_result:
  assumes "acyclic_by rank pf"
  shows "rank p < n \<Longrightarrow> \<exists>r. invoker_loop n pf p = Some r \<and>
     (\<forall>c q. r = Some (c, q) \<longrightarrow> c = ReadComm pf q \<and> c \<noteq> [] \<and> \<not> IsShell c \<and> 1 < q)"
proof (induction n arbitrary: p)
  case (Suc n)
  show ?case
  proof (cases "1 < p \<and> ReadComm pf p \<noteq> [] \<and> IsShell (ReadComm pf p)")
    case True
    then have "rank (ReadPPID pf p) < rank p" using assms by (simp add: acyclic_by_def)
    with Suc show ?thesis using True by (simp add: Let_def)
  qed (auto simp: Let_def)
qed simp

text \<open>
  The invoker search ends, and what it names is not a shell: it is the process itself if that is
  not a shell, otherwise the process found above it, and a shell only when nothing but shells is
  there.
\<close>

theorem invoker_is_no_shell:
  assumes "acyclic_by rank pf"
  shows "\<exists>c q. ResolveInvoker (Suc (rank (ReadPPID pf (int32_of pid)))) pf pid = Some (c, q) \<and>
     (c = [] \<or> \<not> IsShell c \<or> (c = ReadComm pf (int32_of pid) \<and> q = pid))"
proof -
  obtain r where r: "invoker_loop (Suc (rank (ReadPPID pf (int32_of pid)))) pf (ReadPPID pf (int32_of pid)) = Some r"
    "\<And>c q. r = Some (c, q) \<Longrightarrow> \<not> IsShell c"
    using invoker_loop_result [OF assms, of "ReadPPID pf (int32_of pid)" "Suc (rank (ReadPPID pf (int32_of pid)))"] by auto
  show ?thesis
  proof (cases r)
    case None
    then show ?thesis using r by (auto simp: ResolveInvoker_def Let_def simp del: invoker_loop.simps)
  next
    case (Some x)
    then show ?thesis using r by (cases x) (auto simp: ResolveInvoker_def Let_def simp del: invoker_loop.simps)
  qed
qed

theorem invoker_is_no_shell_witness:
  "\<exists>c q. ResolveInvoker 2 (exProc ''evil'') 50 = Some (c, q) \<and> \<not> IsShell c"
proof -
  have p: "ReadPPID (exProc ''evil'') (int32_of 50) = 42" "\<not> IsShell (ReadComm (exProc ''evil'') (int32_of 50))"
    "\<not> IsShell []" by code_simp+
  show ?thesis
    using invoker_is_no_shell [OF exProc_acyclic, of 50] p by (auto simp: numeral_2_eq_2)
qed

subsection \<open>Finding the host in an ssh command line\<close>

text \<open>Options as ssh takes them: a flag that wants a value with its value, or a flag alone.\<close>

inductive ssh_options :: "string list \<Rightarrow> bool" where
  no_option: "ssh_options []"
| value_option: "List.member flagsWithArg f \<Longrightarrow> ssh_options opts \<Longrightarrow> ssh_options (f # v # opts)"
| plain_option: "length f > 1 \<Longrightarrow> hd f = CHR ''-'' \<Longrightarrow> f \<noteq> ''--'' \<Longrightarrow> \<not> List.member flagsWithArg f \<Longrightarrow>
    ssh_options opts \<Longrightarrow> ssh_options (f # opts)"

lemma flagsWithArg_shape: "List.member flagsWithArg f \<Longrightarrow> length f > 1 \<and> hd f = CHR ''-'' \<and> f \<noteq> ''--''"
  by (auto simp: flagsWithArg_def)

lemma LastIndexByte_notin: "c \<notin> set h \<Longrightarrow> LastIndexByte h c = None"
  by (induction h) auto

lemma LastIndexByte_append: "c \<notin> set h \<Longrightarrow> LastIndexByte (u @ c # h) c = Some (length u)"
  by (induction u) (auto simp: LastIndexByte_notin)

lemma stripUser_at: "CHR ''@'' \<notin> set h \<Longrightarrow> stripUser (u @ CHR ''@'' # h) = h"
  by (simp add: stripUser_def LastIndexByte_append)

lemma stripUser_none: "CHR ''@'' \<notin> set h \<Longrightarrow> stripUser h = h"
  by (simp add: stripUser_def LastIndexByte_notin)

lemma sshArgs_skip:
  assumes "ssh_options opts"
  shows "sshArgs_loop (opts @ dest # cmd) = sshArgs_loop (dest # cmd)"
  using assms
proof (induction rule: ssh_options.induct)
  case (value_option f opts v)
  then show ?case using flagsWithArg_shape [of f] by (cases "opts @ dest # cmd") auto
next
  case (plain_option f opts)
  then show ?case by (cases "opts @ dest # cmd") auto
qed simp

text \<open>
  Whatever options precede it, the destination of an ssh command line is found, and the user
  part is stripped: for \<open>ssh options user@host command\<close> and for \<open>ssh options host command\<close> the result is
  the host.
\<close>

theorem parseSSHHost_finds_host:
  assumes "ssh_options opts" and "CHR ''@'' \<notin> set host" and "host \<noteq> []" and "hd host \<noteq> CHR ''-''"
    and "user \<noteq> []" and "hd user \<noteq> CHR ''-''"
  shows "parseSSHHost (bin # opts @ host # cmd) = host \<and>
         parseSSHHost (bin # opts @ (user @ CHR ''@'' # host) # cmd) = host"
proof -
  have "host \<noteq> ''--''" "user @ CHR ''@'' # host \<noteq> ''--''"
    using assms(3-6) by (auto simp: Cons_eq_append_conv append_eq_Cons_conv)
  moreover have "hd (user @ CHR ''@'' # host) \<noteq> CHR ''-''" using assms(5,6) by (cases user) auto
  ultimately show ?thesis
    using assms(2,4) by (cases cmd) (auto simp: parseSSHHost_def sshArgs_skip [OF assms(1)] stripUser_at stripUser_none)
qed

theorem parseSSHHost_finds_host_witness:
  "parseSSHHost [''ssh'', ''-v'', ''-p'', ''22'', ''git@github.com'', ''git-upload-pack''] = ''github.com''"
proof -
  have "ssh_options [''-v'', ''-p'', ''22'']"
    by (intro plain_option value_option no_option) (auto simp: flagsWithArg_def)
  from parseSSHHost_finds_host [OF this, of "''github.com''" "''git''" "''ssh''" "[''git-upload-pack'']"]
  show ?thesis by simp
qed

end
