(* ===== verification/Unit_Path.thy ===== *)
theory Unit_Path
  imports Go_Strings
begin

text \<open>
  \<^verbatim>\<open>internal/proxy/unitpath.go\<close>: decoding a systemd unit's D-Bus object path.  systemd escapes every
  byte of a unit name that is not a letter or a digit (and a leading digit) as an underscore followed
  by two lower-case hexadecimal digits; \<open>busLabelEscape\<close> is that encoding, stated here as the
  specification the decoder has to invert.
\<close>

text \<open>A byte is a character; \<open>byte_val\<close> its value.\<close>

abbreviation byte_val :: "char \<Rightarrow> nat" where "byte_val c \<equiv> of_char c"

definition hexValue :: "char \<Rightarrow> nat option" where
  "hexValue c =
     (if byte_val (CHR ''0'') \<le> byte_val c \<and> byte_val c \<le> byte_val (CHR ''9'') then Some (byte_val c - byte_val (CHR ''0''))
      else if byte_val (CHR ''a'') \<le> byte_val c \<and> byte_val c \<le> byte_val (CHR ''f'') then Some (byte_val c - byte_val (CHR ''a'') + 10)
      else if byte_val (CHR ''A'') \<le> byte_val c \<and> byte_val c \<le> byte_val (CHR ''F'') then Some (byte_val c - byte_val (CHR ''A'') + 10)
      else None)"

definition decodeHex :: "string \<Rightarrow> char option" where
  "decodeHex h =
     (case h of
        [a, b] \<Rightarrow> (case (hexValue a, hexValue b) of
            (Some high, Some low) \<Rightarrow> Some (char_of (16 * high + low))
          | _ \<Rightarrow> None)
      | _ \<Rightarrow> None)"

text \<open>The loop over the bytes: after an escape that decodes the index moves on by three.\<close>

fun decodeDBusPath :: "string \<Rightarrow> string" where
  "decodeDBusPath [] = []"
| "decodeDBusPath (c # rest) =
     (if c = CHR ''_'' \<and> length rest \<ge> 2 then
        (case decodeHex (take 2 rest) of
           Some decoded \<Rightarrow> decoded # decodeDBusPath (drop 2 rest)
         | None \<Rightarrow> c # decodeDBusPath rest)
      else c # decodeDBusPath rest)"

definition unitPrefix :: string where
  "unitPrefix = ''/org/freedesktop/systemd1/unit/''"

definition DecodeUnitPath :: "string \<Rightarrow> string" where
  "DecodeUnitPath path =
     (if \<not> HasPrefix path unitPrefix then [] else decodeDBusPath (drop (length unitPrefix) path))"

subsection \<open>The encoding systemd uses\<close>

definition hexDigit :: "nat \<Rightarrow> char" where
  "hexDigit n = (if n < 10 then char_of (48 + n) else char_of (87 + n))"

definition plainByte :: "char \<Rightarrow> bool" where
  "plainByte c \<longleftrightarrow> (48 \<le> byte_val c \<and> byte_val c \<le> 57) \<or> (65 \<le> byte_val c \<and> byte_val c \<le> 90) \<or>
     (97 \<le> byte_val c \<and> byte_val c \<le> 122)"

definition escapeByte :: "char \<Rightarrow> string" where
  "escapeByte c = [CHR ''_'', hexDigit (byte_val c div 16), hexDigit (byte_val c mod 16)]"

text \<open>Letters and digits stand for themselves; a digit in front, and everything else, is escaped.\<close>

definition busLabelEscape :: "string \<Rightarrow> string" where
  "busLabelEscape s =
     (case s of [] \<Rightarrow> ''_''
      | c # cs \<Rightarrow>
          (if plainByte c \<and> \<not> (48 \<le> byte_val c \<and> byte_val c \<le> 57) then [c] else escapeByte c) @
          concat (map (\<lambda>c. if plainByte c then [c] else escapeByte c) cs))"

lemma hexValue_hexDigit: "n < 16 \<Longrightarrow> hexValue (hexDigit n) = Some n"
  by (auto simp: hexValue_def hexDigit_def)

lemma decodeHex_escape: "decodeHex [hexDigit (byte_val c div 16), hexDigit (byte_val c mod 16)] = Some c"
proof -
  have "byte_val c < 256" by simp
  then have "byte_val c div 16 < 16" by linarith
  then show ?thesis by (simp add: decodeHex_def hexValue_hexDigit)
qed

lemma decode_escape: "decodeDBusPath (escapeByte c @ t) = c # decodeDBusPath t"
  by (simp add: escapeByte_def decodeHex_escape)

lemma plainByte_not_underscore: "plainByte c \<Longrightarrow> c \<noteq> CHR ''_''"
  by (auto simp: plainByte_def)

lemma decode_plain: "plainByte c \<Longrightarrow> decodeDBusPath (c # t) = c # decodeDBusPath t"
  by (simp add: plainByte_not_underscore)

lemma decode_escaped:
  "decodeDBusPath (concat (map (\<lambda>c. if plainByte c then [c] else escapeByte c) cs)) = cs"
  by (induction cs) (auto simp: decode_escape decode_plain simp del: decodeDBusPath.simps(2))

text \<open>
  Decoding the object path that systemd makes of a unit name gives the unit name back, for every
  non-empty name; the empty name and paths outside the unit tree are not mistaken for a unit.
\<close>

theorem DecodeUnitPath_inverts_escape:
  assumes "s \<noteq> []"
  shows "DecodeUnitPath (unitPrefix @ busLabelEscape s) = s"
proof -
  obtain c cs where "s = c # cs" using assms by (cases s) auto
  then show ?thesis
    by (auto simp: DecodeUnitPath_def busLabelEscape_def decode_escape decode_plain decode_escaped
        simp del: decodeDBusPath.simps(2))
qed

theorem DecodeUnitPath_inverts_escape_witness:
  "DecodeUnitPath ''/org/freedesktop/systemd1/unit/ssh_2eservice'' = ''ssh.service''"
proof -
  have "unitPrefix @ busLabelEscape ''ssh.service'' = ''/org/freedesktop/systemd1/unit/ssh_2eservice''" by code_simp
  then show ?thesis using DecodeUnitPath_inverts_escape [of "''ssh.service''"] by simp
qed

end
