(* ===== verification/Sender_Info.thy ===== *)
theory Sender_Info
  imports Approval_AutoRules DBus_Conn Procutil Unit_Path
begin

text \<open>
  \<^verbatim>\<open>internal/proxy/senderinfo.go\<close>: who is behind a D-Bus connection.  \<open>Resolve\<close> asks the bus daemon
  for PID and UID, systemd for the unit, and \<^verbatim>\<open>/proc\<close> for the process chain; it never fails, but
  may return partial information.
\<close>

definition busCall :: "string \<Rightarrow> dvalue list \<Rightarrow> upcall" where
  "busCall method args = mkcall ''org.freedesktop.DBus'' ''/org/freedesktop/DBus'' (''org.freedesktop.DBus.'' @ method) args"

definition GetConnectionUnixProcessID :: "upstream \<Rightarrow> upcall list \<Rightarrow> string \<Rightarrow> go_error + uint32" where
  "GetConnectionUnixProcessID bus lg sender = store1 asUInt32 (bus lg (busCall ''GetConnectionUnixProcessID'' [DStr sender]))"

definition GetConnectionUnixUser :: "upstream \<Rightarrow> upcall list \<Rightarrow> string \<Rightarrow> go_error + uint32" where
  "GetConnectionUnixUser bus lg sender = store1 asUInt32 (bus lg (busCall ''GetConnectionUnixUser'' [DStr sender]))"

definition GetUnitByPID :: "upstream \<Rightarrow> upcall list \<Rightarrow> uint32 \<Rightarrow> go_error + string" where
  "GetUnitByPID bus lg pid =
     (case store1 asPath (bus lg (mkcall ''org.freedesktop.systemd1'' ''/org/freedesktop/systemd1''
             ''org.freedesktop.systemd1.Manager.GetUnitByPID'' [DUInt32 pid])) of
        Inl err \<Rightarrow> Inl err
      | Inr unitPath \<Rightarrow> Inr (DecodeUnitPath unitPath))"

text \<open>The interface \<open>dbusClient\<close>, and the resolver with its two settings.\<close>

record dbusClient =
  dc_pid :: "string \<Rightarrow> go_error + uint32"
  dc_uid :: "string \<Rightarrow> go_error + uint32"
  dc_unit :: "uint32 \<Rightarrow> go_error + string"

definition realDBusClient :: "upstream \<Rightarrow> upcall list \<Rightarrow> dbusClient" where
  "realDBusClient bus lg = \<lparr>dc_pid = GetConnectionUnixProcessID bus lg, dc_uid = GetConnectionUnixUser bus lg,
     dc_unit = GetUnitByPID bus lg\<rparr>"

record SenderInfoResolver =
  rs_client :: dbusClient
  rs_trimProcessChain :: bool
  rs_selfExe :: string

definition processInfoOf :: "ProcEntry \<Rightarrow> ProcessInfo" where
  "processInfoOf e = \<lparr>pi_Name = pr_Comm e, pi_PID = uint32_of (pr_PID e), pi_Exe = pr_Exe e,
     pi_Args = pr_Args e, pi_CWD = pr_CWD e\<rparr>"

definition filterSelf :: "string \<Rightarrow> ProcEntry list \<Rightarrow> ProcessInfo list" where
  "filterSelf selfExe chain =
     map processInfoOf (filter (\<lambda>e. \<not> (selfExe \<noteq> [] \<and> pr_Exe e = selfExe)) chain)"

text \<open>\<open>None\<close> when a walk up the process tree runs out of fuel.\<close>

definition Resolve :: "nat \<Rightarrow> procfs \<Rightarrow> SenderInfoResolver \<Rightarrow> string \<Rightarrow> SenderInfo option" where
  "Resolve fuel pf r sender =
     (let info = zeroSenderInfo\<lparr>si_Sender := sender\<rparr>;
          info = (case dc_pid (rs_client r) sender of Inl _ \<Rightarrow> info | Inr pid \<Rightarrow> info\<lparr>si_PID := pid\<rparr>);
          info = (case dc_uid (rs_client r) sender of Inl _ \<Rightarrow> info | Inr uid \<Rightarrow> info\<lparr>si_UID := uid\<rparr>)
      in if si_PID info = 0 then Some info
         else
          (let info = (case dc_unit (rs_client r) (si_PID info) of Inl _ \<Rightarrow> info | Inr u \<Rightarrow> info\<lparr>si_SystemdUnit := u\<rparr>)
           in case ReadProcessChain fuel pf (int32_of (si_PID info)) (rs_trimProcessChain r) of
                None \<Rightarrow> None
              | Some chain \<Rightarrow>
                 (if chain = [] then Some (info\<lparr>si_InvokerName := si_SystemdUnit info\<rparr>)
                  else
                   (let info = info\<lparr>si_ProcessChain := filterSelf (rs_selfExe r) chain\<rparr>
                    in case ResolveInvoker fuel pf (si_PID info) of
                         None \<Rightarrow> None
                       | Some (comm, invokerPID) \<Rightarrow>
                           Some (info\<lparr>si_InvokerName := comm, si_PID := invokerPID\<rparr>)))))"

lemma Resolve_Sender: "Resolve fuel pf r sender = Some info \<Longrightarrow> si_Sender info = sender \<and> \<not> si_PeerTrusted info"
  by (auto simp: Resolve_def Let_def zeroSenderInfo_def split: sum.splits option.splits if_splits prod.splits)

subsection \<open>Properties\<close>

text \<open>
  Resolving a sender always succeeds (with a process tree without cycles), keeps the sender's bus
  name, and never marks a D-Bus caller as a trusted peer.  If neither the bus daemon nor \<^verbatim>\<open>/proc\<close> can say
  who the caller is, no executable is attributed to it, so that no auto-approve rule can match.
\<close>

theorem Resolve_total_and_fail_closed:
  assumes "acyclic_by rank pf" and "\<forall>p. rank p < fuel"
  shows "\<exists>info. Resolve fuel pf r sender = Some info \<and> si_Sender info = sender \<and> \<not> si_PeerTrusted info \<and>
     ((\<exists>e. dc_pid (rs_client r) sender = Inl e) \<longrightarrow> invokerExePath info = [] \<and> (\<forall>items t rule. \<not> autoRuleMatches info items t rule))"
proof -
  have C: "ReadProcessChain fuel pf p tr \<noteq> None" for p tr
    using chain_loop_result [OF assms(1), of p fuel] assms(2) by (auto simp: ReadProcessChain_def)
  have I: "ResolveInvoker fuel pf p \<noteq> None" for p
  proof -
    obtain x where "invoker_loop fuel pf (ReadPPID pf (int32_of p)) = Some x"
      using invoker_loop_result [OF assms(1), of "ReadPPID pf (int32_of p)" fuel] assms(2) by auto
    then show ?thesis by (auto simp: ResolveInvoker_def Let_def split: option.splits)
  qed
  have "Resolve fuel pf r sender \<noteq> None"
    by (simp add: Resolve_def Let_def C I split: option.splits)
  then obtain info where i: "Resolve fuel pf r sender = Some info" by blast
  moreover have "invokerExePath info = []" if "dc_pid (rs_client r) sender = Inl e" for e
    using i that by (auto simp: Resolve_def Let_def zeroSenderInfo_def invokerExePath_def split: sum.splits)
  ultimately show ?thesis using Resolve_Sender [OF i] by (auto simp: autoRuleMatches_iff)
qed

definition exResolver :: SenderInfoResolver where
  "exResolver = \<lparr>rs_client = \<lparr>dc_pid = (\<lambda>_. Inr 50), dc_uid = (\<lambda>_. Inr 1000), dc_unit = (\<lambda>_. Inl ErrNotFound)\<rparr>,
     rs_trimProcessChain = False, rs_selfExe = ''/usr/bin/secrets-dispatcher''\<rparr>"

theorem Resolve_total_and_fail_closed_witness:
  "\<exists>info. Resolve 3 (exProc ''evil'') exResolver '':1.7'' = Some info \<and> si_Sender info = '':1.7''"
proof -
  have "\<forall>p. (if p = 50 then 2 else if p = 42 then 1 else 0) < (3::nat)" for p :: int by simp
  from Resolve_total_and_fail_closed [OF exProc_acyclic this, of exResolver "'':1.7''"] show ?thesis by blast
qed

text \<open>
  The executable an auto-approve rule compares is taken from the invoker found by skipping shells,
  and what counts as a shell is decided by the comm name, which a process sets itself.  A process
  \<^verbatim>\<open>/tmp/evil\<close> started by \<^verbatim>\<open>/usr/bin/gh\<close> is identified by its own executable, but as soon as it
  calls itself \<open>bash\<close> it is identified as \<^verbatim>\<open>/usr/bin/gh\<close>, and a rule made for that program matches.
\<close>

theorem shell_name_impersonates_parent:
  "map_option invokerExePath (Resolve 5 (exProc ''evil'') exResolver '':1.7'') = Some ''/tmp/evil'' \<and>
   map_option invokerExePath (Resolve 5 (exProc ''bash'') exResolver '':1.7'') = Some ''/usr/bin/gh'' \<and>
   map_option (\<lambda>s. autoRuleMatches s [] RequestTypeGPGSign
       (ruleOfRequest 0 ''u'' (newRequest ''r'' 0 0 ''c'' [] ''s'' RequestTypeGPGSign [] exSender) exManager))
     (Resolve 5 (exProc ''bash'') exResolver '':1.7'') = Some True"
  by code_simp

end
