(* ===== verification/Api_GPGSign.thy ===== *)
theory Api_GPGSign
  imports Api_Types Api_Resolver Sender_Info Sample_Data
begin

text \<open>
  \<^verbatim>\<open>internal/api/gpgsign.go\<close> and \<^verbatim>\<open>internal/api/peercred.go\<close>: a commit-signing request arrives over the
  API socket, its display is bound to the bytes to be signed, and it is signed at once (trusted signer,
  auto-approve rule) or put before the user.
\<close>

subsection \<open>The peer of the socket\<close>

text \<open>
  \<open>cred\<close> are the peer credentials of the connection, \<open>None\<close> where the code returns the empty
  information; \<open>chain\<close> is the process chain of the peer (\<^const>\<open>ReadProcessChain\<close>).  The code
  takes \<open>chain[0]\<close> unchecked: \<open>None\<close> is the panic on an empty chain.
\<close>

fun peerInvoker_loop :: "ProcEntry \<Rightarrow> ProcEntry list \<Rightarrow> ProcEntry" where
  "peerInvoker_loop invoker [] = invoker"
| "peerInvoker_loop invoker (p # ps) = (if \<not> IsShell (pr_Comm p) then p else peerInvoker_loop p ps)"

definition resolvePeerInfo :: "(int \<times> uint32) option \<Rightarrow> ProcEntry list \<Rightarrow> string \<Rightarrow> SenderInfo option" where
  "resolvePeerInfo cred chain selfExe =
     (case cred of
        None \<Rightarrow> Some zeroSenderInfo
      | Some (pid, uid) \<Rightarrow>
          (case chain of
             [] \<Rightarrow> None
           | peer # _ \<Rightarrow>
               (let invoker = peerInvoker_loop peer (drop 2 chain);
                    peerTrusted = (length chain > 0 \<and> selfExe \<noteq> [] \<and> pr_Exe peer = selfExe);
                    processChain = map processInfoOf (filter (\<lambda>p. \<not> (selfExe \<noteq> [] \<and> pr_Exe p = selfExe)) chain)
                in Some (zeroSenderInfo\<lparr>si_PID := uint32_of (pr_PID invoker), si_UID := uid, si_InvokerName := pr_Comm invoker,
                     si_ProcessChain := processChain, si_PeerTrusted := peerTrusted\<rparr>))))"

subsection \<open>Binding the display to the payload\<close>

definition bindDisplayToSignedPayload :: "GPGSignInfo \<Rightarrow> GPGSignInfo" where
  "bindDisplayToSignedPayload info =
     (let p = ParseSignedPayload (gi_CommitObject info) in
      info\<lparr>gi_Kind := sp_Kind p, gi_Author := sp_Signer p, gi_Committer := sp_Committer p, gi_CommitMsg := sp_Message p,
           gi_ParentHash := sp_ParentHash p, gi_TagName := sp_TagName p, gi_Target := sp_Target p, gi_Pushee := sp_Pushee p\<rparr>)"

subsection \<open>The handler\<close>

record GPGSignRequest =
  gq_Client :: string
  gq_GPGSignInfo :: "GPGSignInfo option"

text \<open>
  Up to the point where gpg is run: \<open>Inl\<close> a response, \<open>Inr\<close> the path of gpg, the client name,
  the bound request and the sender, to be signed without a question.  As in the code, the state of
  the auto-approve rules is pruned by looking at them.
\<close>

definition signNow :: "Resolver \<Rightarrow> string \<Rightarrow> GPGSignInfo \<Rightarrow> SenderInfo \<Rightarrow> Manager
    \<Rightarrow> (response \<times> Manager) + (string \<times> string \<times> GPGSignInfo \<times> SenderInfo \<times> Manager)" where
  "signNow r client gi s m =
     (case gp_FindGPG (rv_GPGRunner r) of
        Inl findErr \<Rightarrow> Inl (writeError (''gpg exec failed: '' @ error_text findErr) StatusInternalServerError, m)
      | Inr gpgPath \<Rightarrow> Inr (gpgPath, client, gi, s, m))"

definition HandleGPGSignRequest_start :: "Resolver \<Rightarrow> nanos \<Rightarrow> string \<Rightarrow> string \<Rightarrow> GPGSignRequest option \<Rightarrow> SenderInfo option
    \<Rightarrow> Manager \<Rightarrow> ((response option \<times> Manager) + (string \<times> string \<times> GPGSignInfo \<times> SenderInfo \<times> Manager))" where
  "HandleGPGSignRequest_start r now uid meth body peer m =
     (if meth \<noteq> ''POST'' then Inl (Some methodNotAllowed, m)
      else case body of
        None \<Rightarrow> Inl (Some (writeError ''invalid request body'' StatusBadRequest), m)
      | Some req \<Rightarrow>
          (case gq_GPGSignInfo req of
             None \<Rightarrow> Inl (Some (writeError ''gpg_sign_info is required'' StatusBadRequest), m)
           | Some info \<Rightarrow>
               if gi_CommitObject info = [] then
                 Inl (Some (writeError ''gpg_sign_info.commit_object is required'' StatusBadRequest), m)
               else
                (let client = (if gq_Client req = [] then ''unknown'' else gq_Client req) in
                 case peer of
                   None \<Rightarrow> Inl (None, m)
                 | Some s \<Rightarrow>
                    (let gi = bindDisplayToSignedPayload info in
                     if CheckTrustedSigner m s (gi_RepoName gi) (gi_ChangedFiles gi)
                     then map_sum (map_prod Some id) id (signNow r client gi s m)
                     else (case CheckAutoApproveRules now s [] RequestTypeGPGSign m of
                        (Some rule, m) \<Rightarrow> map_sum (map_prod Some id) id (signNow r client gi s m)
                      | (None, m) \<Rightarrow>
                         (case CreateGPGSignRequest now uid client (Some gi) s m of
                            (Inl err, m) \<Rightarrow> Inl (Some (writeError (error_text err) StatusInternalServerError), m)
                          | (Inr i, m) \<Rightarrow> Inl (Some (writeJSON (GPGSignResponse i)), m)))))))"

text \<open>After the run: an \<open>exec\<close> error is reported, any exit code of gpg is not.\<close>

definition signAndRecord_finish :: "nanos \<Rightarrow> string \<Rightarrow> string \<Rightarrow> GPGSignInfo \<Rightarrow> SenderInfo \<Rightarrow> gpgResult \<Rightarrow> Manager
    \<Rightarrow> response \<times> Manager" where
  "signAndRecord_finish now uid client gi s res m =
     (case gr_err res of
        Some err \<Rightarrow> (writeError (''gpg exec failed: '' @ error_text err) StatusInternalServerError, m)
      | None \<Rightarrow>
          (case RecordAutoApprovedGPGSign now uid client (Some gi) s (gr_sig res) (gr_status res) m of
             (Inl err, m) \<Rightarrow> (writeError (error_text err) StatusInternalServerError, m)
           | (Inr i, m) \<Rightarrow> (writeJSON (GPGSignResponse i), m)))"

definition HandleGPGSignRequest :: "Resolver \<Rightarrow> gpg_env \<Rightarrow> nanos \<Rightarrow> string \<Rightarrow> string \<Rightarrow> GPGSignRequest option
    \<Rightarrow> SenderInfo option \<Rightarrow> Manager \<Rightarrow> response option \<times> Manager" where
  "HandleGPGSignRequest r env now uid meth body peer m =
     (case HandleGPGSignRequest_start r now uid meth body peer m of
        Inl done \<Rightarrow> done
      | Inr (gpgPath, client, gi, s, m) \<Rightarrow>
          (let res = fst (runGPGWithNotify r (ge_took env) (ge_raced env) gpgPath (gi_KeyID gi) (gi_CommitObject gi) (Some gi) s)
           in map_prod Some id (signAndRecord_finish (ge_later env) uid client gi s res (ge_others env m))))"

subsection \<open>What you see is what you sign\<close>

definition shownAs :: "SignedPayload \<Rightarrow> GPGSignInfo \<Rightarrow> bool" where
  "shownAs p gi \<longleftrightarrow>
     gi_Kind gi = sp_Kind p \<and> gi_Author gi = sp_Signer p \<and> gi_Committer gi = sp_Committer p \<and>
     gi_CommitMsg gi = sp_Message p \<and> gi_ParentHash gi = sp_ParentHash p \<and> gi_TagName gi = sp_TagName p \<and>
     gi_Target gi = sp_Target p \<and> gi_Pushee gi = sp_Pushee p"

definition bound :: "GPGSignInfo \<Rightarrow> bool" where
  "bound gi \<longleftrightarrow> shownAs (ParseSignedPayload (gi_CommitObject gi)) gi"

lemma bound_bind: "bound (bindDisplayToSignedPayload info)"
  by (simp add: bound_def shownAs_def bindDisplayToSignedPayload_def Let_def)

lemma bind_keeps [simp]:
  "gi_CommitObject (bindDisplayToSignedPayload info) = gi_CommitObject info"
  "gi_KeyID (bindDisplayToSignedPayload info) = gi_KeyID info"
  "gi_RepoName (bindDisplayToSignedPayload info) = gi_RepoName info"
  "gi_ChangedFiles (bindDisplayToSignedPayload info) = gi_ChangedFiles info"
  by (simp_all add: bindDisplayToSignedPayload_def Let_def)

lemma bind_bound: "bound gi \<Longrightarrow> bindDisplayToSignedPayload gi = gi"
  by (simp add: bound_def shownAs_def bindDisplayToSignedPayload_def Let_def)

text \<open>
  The signing machine: HTTP requests that ask for a signature, decisions on pending requests, gpg
  runs in flight, and everything else that happens to the manager.  \<open>ws_runs\<close> logs every start of
  gpg with the description that was on display for it.
\<close>

datatype gpg_job =
    UserJob approve_mode string Request gpgResult
  | AutoJob string string GPGSignInfo SenderInfo gpgResult

record gpg_run =
  run_shown :: GPGSignInfo
  run_path :: string
  run_key :: string
  run_bytes :: bytes

record WS =
  ws_mgr :: Manager
  ws_jobs :: "gpg_job list"
  ws_runs :: "gpg_run list"

definition runOf :: "string \<Rightarrow> GPGSignInfo \<Rightarrow> gpg_run" where
  "runOf gpgPath gi = \<lparr>run_shown = gi, run_path = gpgPath, run_key = gi_KeyID gi, run_bytes = gi_CommitObject gi\<rparr>"

definition runResult :: "Resolver \<Rightarrow> nanos \<Rightarrow> bool \<Rightarrow> gpg_run \<Rightarrow> SenderInfo \<Rightarrow> gpgResult" where
  "runResult r took raced run s =
     fst (runGPGWithNotify r took raced (run_path run) (run_key run) (run_bytes run) (Some (run_shown run)) s)"

inductive ws_step :: "Resolver \<Rightarrow> WS \<Rightarrow> WS \<Rightarrow> bool" for r where
  request_answered:
  "HandleGPGSignRequest_start r now uid meth body peer (ws_mgr w) = Inl (resp, m') \<Longrightarrow>
   ws_step r w (w\<lparr>ws_mgr := m'\<rparr>)"
| request_signing:
  "HandleGPGSignRequest_start r now uid meth body peer (ws_mgr w) = Inr (gpgPath, client, gi, s, m') \<Longrightarrow>
   run = runOf gpgPath gi \<Longrightarrow>
   ws_step r w (w\<lparr>ws_mgr := m', ws_jobs := AutoJob uid client gi s (runResult r took raced run s) # ws_jobs w,
                  ws_runs := run # ws_runs w\<rparr>)"
| decision_done:
  "Resolver_start r mode now i (ws_mgr w) = Inl (e, m') \<Longrightarrow> ws_step r w (w\<lparr>ws_mgr := m'\<rparr>)"
| decision_signing:
  "Resolver_start r mode now i (ws_mgr w) = Inr (gpgPath, req, gi) \<Longrightarrow> run = runOf gpgPath gi \<Longrightarrow>
   ws_step r w (w\<lparr>ws_jobs := UserJob mode i req (runResult r took raced run (rq_SenderInfo req)) # ws_jobs w,
                  ws_runs := run # ws_runs w\<rparr>)"
| user_finished:
  "UserJob mode i req res \<in> set (ws_jobs w) \<Longrightarrow> Resolver_finish mode now i req res (ws_mgr w) = (e, m') \<Longrightarrow>
   ws_step r w (w\<lparr>ws_mgr := m', ws_jobs := remove1 (UserJob mode i req res) (ws_jobs w)\<rparr>)"
| auto_finished:
  "AutoJob uid client gi s res \<in> set (ws_jobs w) \<Longrightarrow> signAndRecord_finish now uid client gi s res (ws_mgr w) = (resp, m') \<Longrightarrow>
   ws_step r w (w\<lparr>ws_mgr := m', ws_jobs := remove1 (AutoJob uid client gi s res) (ws_jobs w)\<rparr>)"
| ask:
  "RequireApproval_begin now uid client items session t sa s (ws_mgr w) = (res, m') \<Longrightarrow> ws_step r w (w\<lparr>ws_mgr := m'\<rparr>)"
| answer:
  "RequireApproval_select sel now req (ws_mgr w) = (res, m') \<Longrightarrow> ws_step r w (w\<lparr>ws_mgr := m'\<rparr>)"
| clean:
  "ws_step r w (w\<lparr>ws_mgr := RequireApproval_cleanup req (ws_mgr w)\<rparr>)"
| refuse:
  "op = RDeny \<or> op = RCancel \<Longrightarrow> resolve op now i (ws_mgr w) = (e, m') \<Longrightarrow> ws_step r w (w\<lparr>ws_mgr := m'\<rparr>)"
| expire:
  "ws_step r w (w\<lparr>ws_mgr := gpgTimeout_notify now req (gpgTimeout_remove req (ws_mgr w))\<rparr>)"
| recorded_only:
  "record_step uid (ws_mgr w) m' \<Longrightarrow> ws_step r w (w\<lparr>ws_mgr := m'\<rparr>)"
| other:
  "side_step (ws_mgr w) m' \<Longrightarrow> ws_step r w (w\<lparr>ws_mgr := m'\<rparr>)"

definition ws_init :: "WS \<Rightarrow> bool" where
  "ws_init w \<longleftrightarrow> (\<exists>cfg. ws_mgr w = NewManager cfg) \<and> ws_jobs w = [] \<and> ws_runs w = []"

definition pend_bound :: "Manager \<Rightarrow> bool" where
  "pend_bound m \<longleftrightarrow>
     (\<forall>req \<in> snd ` set (mg_pending m). \<forall>gi. rq_GPGSignInfo req = Some gi \<longrightarrow> bound gi)"

lemma pend_boundD: "pend_bound m \<Longrightarrow> map_of (mg_pending m) i = Some req \<Longrightarrow> rq_GPGSignInfo req = Some gi \<Longrightarrow> bound gi"
  by (force simp: pend_bound_def dest: map_of_SomeD)

definition run_ok :: "gpg_run \<Rightarrow> bool" where
  "run_ok run \<longleftrightarrow> shownAs (ParseSignedPayload (run_bytes run)) (run_shown run) \<and> run_key run = gi_KeyID (run_shown run)"

definition ws_inv :: "WS \<Rightarrow> bool" where
  "ws_inv w \<longleftrightarrow> pend_bound (ws_mgr w) \<and> (\<forall>run \<in> set (ws_runs w). run_ok run)"

lemma pend_bound_same: "pend_bound m \<Longrightarrow> mg_pending m' = mg_pending m \<Longrightarrow> pend_bound m'"
  by (simp add: pend_bound_def)

lemma pend_bound_del: "pend_bound m \<Longrightarrow> mg_pending m' = gm_del i (mg_pending m) \<Longrightarrow> pend_bound m'"
  by (auto simp: pend_bound_def AList.delete_eq)

lemma gm_put_subset: "set (gm_put k v xs) \<subseteq> insert (k, v) (set xs)"
  by (induction xs) auto

lemma pend_bound_put:
  assumes "pend_bound m" and "mg_pending m' = gm_put i req (mg_pending m)" and "\<And>gi. rq_GPGSignInfo req = Some gi \<Longrightarrow> bound gi"
  shows "pend_bound m'"
  using assms gm_put_subset[of i req "mg_pending m"] by (fastforce simp: pend_bound_def)

lemma takePending_pending: "takePending i res m = Some (req, m1) \<Longrightarrow> mg_pending m1 = gm_del i (mg_pending m)"
  by (auto simp: takePending_def closeDone_def split: option.splits if_splits)

lemma resolve_pending: "mg_pending (snd (resolve op now i m)) \<in> {mg_pending m, gm_del i (mg_pending m)}"
  by (cases op) (auto simp: Approve_eq ApproveAndAutoApprove_eq Deny_eq Cancel_eq ApproveWithSignature_eq
      ApproveGPGFailed_eq Let_def dest: takePending_pending split: option.splits)

lemma pend_bound_resolve: "pend_bound m \<Longrightarrow> pend_bound (snd (resolve op now i m))"
  using resolve_pending[of op now i m] pend_bound_same pend_bound_del by blast

lemma pend_bound_quiet: "pend_bound m \<Longrightarrow> quiet m m' \<Longrightarrow> pend_bound m'"
  by (auto simp: quiet_def intro: pend_bound_same)

lemma pend_bound_begin:
  assumes "pend_bound m" and "RequireApproval_begin now uid client items session t sa s m = (res, m')"
  shows "pend_bound m'"
proof (cases res)
  case None
  then show ?thesis
    using begin_None[of now uid client items session t sa s m m'] assms
    by (auto simp: newRequest_def intro: pend_bound_put)
next
  case (Some a)
  then show ?thesis using begin_Some[of now uid client items session t sa s m a m'] assms pend_bound_quiet by blast
qed

lemma pend_bound_select:
  "pend_bound m \<Longrightarrow> RequireApproval_select sel now req m = (res, m') \<Longrightarrow> pend_bound m'"
  by (auto simp: RequireApproval_select_def intro: pend_bound_same split: select_case.splits option.splits)

lemma pend_bound_start:
  assumes "pend_bound m"
  shows "case Resolver_start r mode now i m of Inl (e, m') \<Rightarrow> pend_bound m' | Inr (gpgPath, req, gi) \<Rightarrow> bound gi"
proof -
  have a: "pend_bound (snd (Approve now i m))" "pend_bound (snd (ApproveGPGFailed now i [] 2 m))"
    "pend_bound (snd (ApproveAndAutoApprove now uid i m))" for uid
    using pend_bound_resolve[OF assms, of RApprove] pend_bound_resolve[OF assms, of "RGPGFailed [] 2"]
      pend_bound_resolve[OF assms, of "RApproveAuto uid"] by simp_all
  then have b: "Approve now i m = (e, m') \<Longrightarrow> pend_bound m'" "ApproveGPGFailed now i [] 2 m = (e, m') \<Longrightarrow> pend_bound m'"
    "ApproveAndAutoApprove now uid i m = (e, m') \<Longrightarrow> pend_bound m'" for e m' uid
    by (metis snd_conv)+
  show ?thesis
    using assms by (auto simp: Resolver_start_def GetPending_def dest: b pend_boundD
        split: option.splits sum.splits bool.splits approve_mode.splits)
qed

lemma pend_bound_finish:
  assumes "pend_bound m"
  shows "pend_bound (snd (Resolver_finish mode now i req res m))"
proof -
  have a: "pend_bound (snd (ApproveGPGFailed now i st ec m))" "pend_bound (snd (ApproveWithSignature now i sig st m))" for st ec sig
    using pend_bound_resolve[OF assms, of "RGPGFailed st ec"] pend_bound_resolve[OF assms, of "RSignature sig st"] by simp_all
  have "pend_bound m'" if "ApproveWithSignature now i sig st m = (e, m')" for e m' sig st
    using a(2)[of sig st] that by simp
  then show ?thesis
    using a by (auto simp: Resolver_finish_def intro: pend_bound_same[OF _ AddAutoApproveRule_frame(1)]
        split: approve_mode.splits prod.splits option.splits)
qed

lemma pend_bound_record:
  "pend_bound m \<Longrightarrow> pend_bound (snd (signAndRecord_finish now uid client gi s res m))"
  by (auto simp: signAndRecord_finish_def RecordAutoApprovedGPGSign_def closeDone_def Let_def
      intro: pend_bound_same split: option.splits)

lemma pend_bound_create:
  "pend_bound m \<Longrightarrow> bound gi \<Longrightarrow> pend_bound (snd (CreateGPGSignRequest now uid client (Some gi) s m))"
  by (auto simp: CreateGPGSignRequest_def gpgRequest_def Let_def intro: pend_bound_put)

lemma pend_bound_handle:
  assumes "pend_bound m"
  shows "case HandleGPGSignRequest_start r now uid meth body peer m of
           Inl (resp, m') \<Rightarrow> pend_bound m'
         | Inr (gpgPath, client, gi, s, m') \<Rightarrow> bound gi \<and> pend_bound m'"
proof -
  have check: "pend_bound m'" if "CheckAutoApproveRules now s items t m = (x, m')" for x m' s items t
    using that assms by (auto simp: CheckAutoApproveRules_def checkAutoApproveRules_eq intro: pend_bound_same)
  have create: "pend_bound m''"
    if "CheckAutoApproveRules now s items t m = (x, m')"
       "CreateGPGSignRequest now uid client (Some (bindDisplayToSignedPayload info)) s' m' = (y, m'')" for s items t x m' client info s' y m''
    using pend_bound_create[OF check[OF that(1)] bound_bind[of info], of now uid client s'] that(2) by simp
  show ?thesis
    using assms check create
    by (auto simp: HandleGPGSignRequest_start_def signNow_def Let_def bound_bind
        split: option.splits sum.splits prod.splits)
qed

lemma run_ok_runOf: "bound gi \<Longrightarrow> run_ok (runOf p gi)"
  by (simp add: run_ok_def runOf_def bound_def)

lemma ws_inv_step: "ws_step r w w' \<Longrightarrow> ws_inv w \<Longrightarrow> ws_inv w'"
proof (induction rule: ws_step.induct)
  case (request_answered now uid meth body peer w resp m')
  then show ?case
    using pend_bound_handle[of "ws_mgr w" r now uid meth body peer] by (auto simp: ws_inv_def)
next
  case (request_signing now uid meth body peer w gpgPath client gi s m' run took raced)
  then show ?case
    using pend_bound_handle[of "ws_mgr w" r now uid meth body peer] by (auto simp: ws_inv_def run_ok_runOf)
next
  case (decision_done mode now i w e m')
  then show ?case using pend_bound_start[of "ws_mgr w" r mode now i] by (auto simp: ws_inv_def)
next
  case (decision_signing mode now i w gpgPath req gi run took raced)
  then show ?case using pend_bound_start[of "ws_mgr w" r mode now i] by (auto simp: ws_inv_def run_ok_runOf)
next
  case (user_finished mode i req res w now e m')
  then show ?case using pend_bound_finish[of "ws_mgr w" mode now i req res] by (auto simp: ws_inv_def)
next
  case (auto_finished uid client gi s res w now resp m')
  then show ?case using pend_bound_record[of "ws_mgr w" now uid client gi s res] by (auto simp: ws_inv_def)
next
  case (ask now uid client items session t sa s w res m')
  then show ?case using pend_bound_begin by (auto simp: ws_inv_def)
next
  case (answer sel now req w res m')
  then show ?case using pend_bound_select by (auto simp: ws_inv_def)
next
  case (clean w req)
  then show ?case by (auto simp: ws_inv_def RequireApproval_cleanup_def intro: pend_bound_del)
next
  case (refuse op now i w e m')
  then show ?case using pend_bound_resolve[of "ws_mgr w" op now i] by (auto simp: ws_inv_def)
next
  case (expire w now req)
  then show ?case by (auto simp: ws_inv_def gpgTimeout_notify_def gpgTimeout_remove_def intro: pend_bound_del)
next
  case (recorded_only uid w m')
  then show ?case by (auto simp: ws_inv_def intro: pend_bound_quiet record_step_quiet)
next
  case (other w m')
  then show ?case by (auto simp: ws_inv_def intro: pend_bound_quiet side_step_quiet)
qed

interpretation ws: invariant_system ws_init "ws_step r" ws_inv
proof
  show "ws_init s \<Longrightarrow> ws_inv s" for s
    by (auto simp: ws_init_def ws_inv_def pend_bound_def NewManager_def)
  show "ws_step r s t \<Longrightarrow> ws_inv s \<Longrightarrow> ws_inv t" for s t by (rule ws_inv_step)
qed

text \<open>
  C5: What you see is what you sign.  Whatever metadata callers send along, in every run of the
  daemon each start of gpg gets bytes whose kind, signer, committer, message, parent, tag, target and
  push URL are exactly those that were on display for that request (and the key shown), and every
  signing request waiting for a decision is on display the same way.
\<close>

theorem what_you_see_is_what_you_sign:
  assumes "reach ws_init (ws_step r) w"
  shows "(\<forall>run \<in> set (ws_runs w). shownAs (ParseSignedPayload (run_bytes run)) (run_shown run) \<and>
                                  run_key run = gi_KeyID (run_shown run)) \<and>
         (\<forall>req \<in> set (ListPending now (ws_mgr w)). \<forall>gi. rq_GPGSignInfo req = Some gi \<longrightarrow>
            shownAs (ParseSignedPayload (gi_CommitObject gi)) gi)"
proof -
  have "ws_inv w" using ws.reach_inv[OF assms] .
  then show ?thesis by (force simp: ws_inv_def run_ok_def pend_bound_def bound_def ListPending_def)
qed

definition exGPG :: Resolver where
  "exGPG = \<lparr>rv_GPGRunner = defaultGPGRunner (Inr ''/usr/bin/secrets-dispatcher'')
       (\<lambda>p. if p = ''/usr/bin/secrets-dispatcher'' \<or> p = ''/home/u/bin/gpg'' then Inr (1::nat)
            else if p = ''/usr/bin/gpg'' then Inr 2 else Inl (ErrText ''no such file''))
       [''/home/u/bin/gpg'', ''/usr/bin/gpg'']
       (\<lambda>path args stdin. (''SIG:'' @ stdin, ''[GNUPG:] SIG_CREATED'', RunOk)),
     rv_hasNotifier = False, rv_SlowThreshold = 0\<rparr>"

definition exLie :: GPGSignInfo where
  "exLie = \<lparr>gi_RepoName = ''repo'', gi_Kind = ''commit'', gi_CommitMsg = ''harmless'', gi_Author = ''Me'',
     gi_Committer = ''Me'', gi_KeyID = ''KEY1'', gi_Fingerprint = [], gi_ChangedFiles = [], gi_ParentHash = [],
     gi_TagName = [], gi_Target = [], gi_Pushee = [],
     gi_CommitObject = unlines [''object aa11'', ''type commit'', ''tag v1'', ''tagger Eve'', [], ''release'']\<rparr>"

definition exWS0 :: WS where
  "exWS0 = \<lparr>ws_mgr = NewManager exConfig, ws_jobs = [], ws_runs = []\<rparr>"

definition exWS1 :: WS where
  "exWS1 = exWS0\<lparr>ws_mgr :=
     (case HandleGPGSignRequest_start exGPG 100 ''g1'' ''POST'' (Some \<lparr>gq_Client = [], gq_GPGSignInfo = Some exLie\<rparr>)
             (Some zeroSenderInfo) (ws_mgr exWS0) of Inl (_, m) \<Rightarrow> m | Inr _ \<Rightarrow> ws_mgr exWS0)\<rparr>"

definition exWS2 :: WS where
  "exWS2 = (let gi = bindDisplayToSignedPayload exLie; run = runOf ''/usr/bin/gpg'' gi;
                req = gpgRequest ''g1'' 100 (100 + mc_Timeout exConfig) ''unknown'' gi zeroSenderInfo
            in exWS1\<lparr>ws_jobs := [UserJob JustApprove ''g1'' req (runResult exGPG 0 True run zeroSenderInfo)], ws_runs := [run]\<rparr>)"

lemma exWS_eval:
  "HandleGPGSignRequest_start exGPG 100 ''g1'' ''POST'' (Some \<lparr>gq_Client = [], gq_GPGSignInfo = Some exLie\<rparr>)
     (Some zeroSenderInfo) (ws_mgr exWS0) = Inl (Some (writeJSON (GPGSignResponse ''g1'')), ws_mgr exWS1)"
  "Resolver_start exGPG JustApprove 110 ''g1'' (ws_mgr exWS1) =
     Inr (''/usr/bin/gpg'', gpgRequest ''g1'' 100 (100 + mc_Timeout exConfig) ''unknown'' (bindDisplayToSignedPayload exLie) zeroSenderInfo,
          bindDisplayToSignedPayload exLie)"
  by code_simp+

lemma reach_exWS2: "reach ws_init (ws_step exGPG) exWS2"
proof -
  have "ws_init exWS0" by (auto simp: ws_init_def exWS0_def)
  then have "reach ws_init (ws_step exGPG) exWS0" by (rule reach_init)
  moreover have "ws_step exGPG exWS0 exWS1"
    using ws_step.request_answered[OF exWS_eval(1)] by (simp add: exWS1_def)
  moreover have "ws_step exGPG exWS1 exWS2"
    using ws_step.decision_signing[OF exWS_eval(2) refl, of 0 True]
    by (simp add: exWS2_def Let_def exWS1_def exWS0_def gpgRequest_def newRequest_def)
  ultimately show ?thesis by (meson reach_step)
qed

theorem what_you_see_is_what_you_sign_witness:
  "\<exists>run \<in> set (ws_runs exWS2). gi_Kind (run_shown run) = ''tag'' \<and> gi_Author (run_shown run) = ''Eve'' \<and>
     gi_CommitMsg (run_shown run) = ''release'' \<and> run_key run = ''KEY1''"
proof -
  define run where "run = runOf ''/usr/bin/gpg'' (bindDisplayToSignedPayload exLie)"
  have run: "run \<in> set (ws_runs exWS2)" by (simp add: exWS2_def Let_def run_def)
  have parsed: "ParseSignedPayload (run_bytes run) = \<lparr>sp_Kind = ''tag'', sp_Signer = ''Eve'', sp_Committer = [],
      sp_Message = ''release'', sp_ParentHash = [], sp_TagName = ''v1'', sp_Target = ''aa11'', sp_Pushee = []\<rparr>"
    unfolding run_def by code_simp
  have key: "gi_KeyID (run_shown run) = ''KEY1''" unfolding run_def by code_simp
  show ?thesis
    using what_you_see_is_what_you_sign[OF reach_exWS2] run key
    by (intro bexI[of _ run]) (auto simp: shownAs_def parsed)
qed

subsection \<open>The outcome of a signing request\<close>

text \<open>The newest history entry after a resolving call, for each of the two calls the resolver makes.\<close>

lemma signature_history:
  assumes "0 < mg_historyMax m" and "GetPending i m = Some req"
  shows "hd (History (snd (ApproveWithSignature now i sig st m))) =
           \<lparr>he_Request = req\<lparr>rq_Signature := sig, rq_GPGStatus := st\<rparr>, he_Resolution = ResolutionApproved, he_ResolvedAt = now\<rparr>"
    and "hd (History (snd (ApproveGPGFailed now i st ec m))) =
           \<lparr>he_Request = req\<lparr>rq_GPGStatus := st, rq_GPGExitCode := ec\<rparr>, he_Resolution = ResolutionApproved, he_ResolvedAt = now\<rparr>"
  using assms by (auto simp: ApproveWithSignature_eq ApproveGPGFailed_eq takePending_def GetPending_def History_def
      notify_terminal hd_notify_history Let_def)

text \<open>
  C11: Approving a signing request runs gpg with the key and the exact bytes of that request.  If gpg
  succeeds, the request is resolved as approved and carries exactly the signature gpg made; if gpg
  cannot be run or fails, it is resolved without a signature, with gpg's own status and exit code; if the request was resolved or timed out while gpg ran, the call reports that it
  was not found and the signature is thrown away.
\<close>

theorem approve_signs_exactly_the_request:
  assumes "GetPending i m = Some req" and "rq_Type req = RequestTypeGPGSign" and "rq_GPGSignInfo req = Some gi"
    and "gp_FindGPG (rv_GPGRunner r) = Inr gpgPath" and "0 < mg_historyMax (ge_others env m)"
  shows "let res = gp_RunGPG (rv_GPGRunner r) gpgPath (gi_KeyID gi) (gi_CommitObject gi);
             out = Resolver_Approve r env now i m; e = hd (History (snd out))
         in case GetPending i (ge_others env m) of
              None \<Rightarrow> out = (Some ErrNotFound, ge_others env m)
            | Some req' \<Rightarrow> fst out = None \<and> GetPending i (snd out) = None \<and> he_Resolution e = ResolutionApproved \<and>
                (if gr_err res = None \<and> gr_exitCode res = 0
                 then he_Request e = req'\<lparr>rq_Signature := gr_sig res, rq_GPGStatus := gr_status res\<rparr>
                 else he_Request e = req'\<lparr>rq_GPGStatus := gr_status res, rq_GPGExitCode := gr_exitCode res\<rparr>)"
proof -
  define m' where "m' = ge_others env m"
  define res where "res = gp_RunGPG (rv_GPGRunner r) gpgPath (gi_KeyID gi) (gi_CommitObject gi)"
  have out: "Resolver_Approve r env now i m = Resolver_finish JustApprove (ge_later env) i req res m'"
    using assms(1-4) by (simp add: Resolver_Approve_def Resolver_run_def Resolver_start_def runGPGWithNotify_def
        WithSlowNotify_def Let_def m'_def res_def)
  show ?thesis
  proof (cases "GetPending i m'")
    case None
    then show ?thesis
      by (auto simp: out Let_def m'_def[symmetric] Resolver_finish_def ApproveGPGFailed_eq ApproveWithSignature_eq
          takePending_def GetPending_def)
  next
    case (Some req')
    note h = signature_history[OF assms(5)[folded m'_def] Some]
    have gone: "GetPending i (snd (ApproveWithSignature now i sig st m')) = None" "fst (ApproveWithSignature now i sig st m') = None"
      "GetPending i (snd (ApproveGPGFailed now i st ec m')) = None" "fst (ApproveGPGFailed now i st ec m') = None" for now sig st ec
      using Some by (auto simp: ApproveGPGFailed_eq ApproveWithSignature_eq takePending_def GetPending_def closeDone_def Let_def)
    show ?thesis
      using Some by (simp add: out Let_def m'_def[symmetric] res_def[symmetric] Resolver_finish_def h gone)
  qed
qed

theorem approve_signs_exactly_the_request_witness:
  "let out = Resolver_Approve exGPG \<lparr>ge_took = 5, ge_raced = True, ge_others = id, ge_later = 120\<rparr> 110 ''g1'' (ws_mgr exWS1)
   in fst out = None \<and> rq_Signature (he_Request (hd (History (snd out)))) = ''SIG:'' @ gi_CommitObject exLie"
proof -
  define req where "req = gpgRequest ''g1'' 100 1100 ''unknown'' (bindDisplayToSignedPayload exLie) zeroSenderInfo"
  have 1: "GetPending ''g1'' (ws_mgr exWS1) = Some req" unfolding req_def by code_simp
  have 2: "rq_Type req = RequestTypeGPGSign" "rq_GPGSignInfo req = Some (bindDisplayToSignedPayload exLie)"
    by (simp_all add: req_def gpgRequest_def newRequest_def)
  have 3: "gp_FindGPG (rv_GPGRunner exGPG) = Inr ''/usr/bin/gpg''" by code_simp
  have 4: "0 < mg_historyMax (ws_mgr exWS1)" by code_simp
  have 5: "gp_RunGPG (rv_GPGRunner exGPG) p k b = \<lparr>gr_sig = ''SIG:'' @ b, gr_status = ''[GNUPG:] SIG_CREATED'',
      gr_exitCode = 0, gr_err = None\<rparr>" for p k b
    by (simp add: exGPG_def defaultGPGRunner_def RunGPG_def)
  show ?thesis
    using approve_signs_exactly_the_request[OF 1 2 3, of "\<lparr>ge_took = 5, ge_raced = True, ge_others = id, ge_later = 120\<rparr>" 110] 4 1
    by (simp add: Let_def 5)
qed

text \<open>
  On the path without a question an exit code of gpg is dropped: when gpg fails, the caller is
  told the request was created and the history records it as auto-approved with exit code 0 and
  whatever gpg wrote as its signature.
\<close>

theorem auto_signing_hides_gpg_failure:
  assumes "gr_err res = None" and "gr_exitCode res \<noteq> 0" and "0 < mg_historyMax m"
  shows "let out = signAndRecord_finish now uid client gi s res m; e = hd (History (snd out)) in
         rp_code (fst out) = StatusOK \<and> he_Resolution e = ResolutionAutoApproved \<and>
         rq_GPGExitCode (he_Request e) = 0 \<and> rq_Signature (he_Request e) = gr_sig res"
  using assms by (simp add: signAndRecord_finish_def RecordAutoApprovedGPGSign_def History_def hd_notify_history Let_def
      gpgRequest_def newRequest_def)

theorem auto_signing_hides_gpg_failure_witness:
  "let out = signAndRecord_finish 7 ''u'' ''c'' exLie zeroSenderInfo
        \<lparr>gr_sig = [], gr_status = ''no secret key'', gr_exitCode = 2, gr_err = None\<rparr> exManager
   in rp_code (fst out) = StatusOK \<and> rq_GPGExitCode (he_Request (hd (History (snd out)))) = 0"
proof -
  have "0 < mg_historyMax exManager" by code_simp
  then show ?thesis
    using auto_signing_hides_gpg_failure[of "\<lparr>gr_sig = [], gr_status = ''no secret key'', gr_exitCode = 2, gr_err = None\<rparr>"
        exManager 7 "''u''" "''c''" exLie zeroSenderInfo] by (simp add: Let_def)
qed

subsection \<open>The peer\<close>

lemma resolvePeerInfo_Some:
  assumes "resolvePeerInfo (Some cred) chain self = Some s"
  shows "\<exists>peer rest. chain = peer # rest \<and> (si_PeerTrusted s \<longleftrightarrow> self \<noteq> [] \<and> pr_Exe peer = self) \<and>
           si_ProcessChain s = map processInfoOf (filter (\<lambda>p. \<not> (self \<noteq> [] \<and> pr_Exe p = self)) chain)"
  using assms by (cases chain) (auto simp: resolvePeerInfo_def Let_def split: prod.splits)

text \<open>
  A signing request is signed without a question as coming from a trusted signer only if the
  process that opened the socket is the daemon's own executable and some other process of its chain,
  with a known executable, matches an entry of the configuration for the repository and the files.
\<close>

theorem trusted_signing_needs_own_client:
  assumes "resolvePeerInfo (Some cred) chain self = Some s" and "CheckTrustedSigner m s repo files"
  shows "chain \<noteq> [] \<and> self \<noteq> [] \<and> pr_Exe (hd chain) = self \<and>
         (\<exists>p \<in> set chain. pr_Exe p \<noteq> self \<and> pr_Exe p \<noteq> [] \<and>
            (\<exists>ts \<in> set (mg_trustedSigners m). signerMatches (processInfoOf p) repo files ts))"
proof -
  from resolvePeerInfo_Some[OF assms(1)] obtain peer rest where p: "chain = peer # rest"
    "si_PeerTrusted s \<longleftrightarrow> self \<noteq> [] \<and> pr_Exe peer = self"
    "si_ProcessChain s = map processInfoOf (filter (\<lambda>p. \<not> (self \<noteq> [] \<and> pr_Exe p = self)) chain)" by blast
  have exe: "pi_Exe (processInfoOf q) = pr_Exe q" for q by (simp add: processInfoOf_def)
  from assms(2) have "si_PeerTrusted s" and "\<exists>q \<in> set (si_ProcessChain s). pi_Exe q \<noteq> [] \<and>
      (\<exists>ts \<in> set (mg_trustedSigners m). signerMatches q repo files ts)"
    by (auto simp: CheckTrustedSigner_def list_ex_iff split: if_splits)
  then show ?thesis using p exe by auto
qed

definition exSelf :: ProcEntry where
  "exSelf = \<lparr>pr_Comm = ''secrets-dispatcher'', pr_PID = 9, pr_Exe = ''/usr/bin/sd'', pr_Args = [], pr_CWD = []\<rparr>"

definition exAgent :: ProcEntry where
  "exAgent = \<lparr>pr_Comm = ''claude'', pr_PID = 7, pr_Exe = ''/usr/bin/claude'', pr_Args = [], pr_CWD = []\<rparr>"

definition exSigners :: Manager where
  "exSigners = NewManager (exConfig\<lparr>mc_TrustedSigners := [\<lparr>ts_ExePath = ''/usr/bin/claude'', ts_RepoPath = [], ts_FilePrefix = []\<rparr>]\<rparr>)"

theorem trusted_signing_needs_own_client_witness:
  "pr_Exe (hd [exSelf, exAgent]) = ''/usr/bin/sd'' \<and>
   (\<exists>s. resolvePeerInfo (Some (9, 1000)) [exSelf, exAgent] ''/usr/bin/sd'' = Some s \<and> CheckTrustedSigner exSigners s ''repo'' [''a''])"
proof -
  obtain s where s: "resolvePeerInfo (Some (9, 1000)) [exSelf, exAgent] ''/usr/bin/sd'' = Some s"
    by (simp add: resolvePeerInfo_def Let_def)
  have "CheckTrustedSigner exSigners (the (resolvePeerInfo (Some (9, 1000)) [exSelf, exAgent] ''/usr/bin/sd'')) ''repo'' [''a'']"
    by code_simp
  then have "CheckTrustedSigner exSigners s ''repo'' [''a'']" by (simp add: s)
  then show ?thesis using trusted_signing_needs_own_client[OF s] s by blast
qed

text \<open>A peer whose process is already gone has an empty chain, and the handler panics.\<close>

lemma gone_peer_panics:
  assumes "pf_comm pf pid = None" and "1 < pid"
  shows "ReadProcessChain (Suc fuel) pf pid trim = Some [] \<and> resolvePeerInfo (Some (pid, uid)) [] self = None"
  using assms by (simp add: ReadProcessChain_def ReadComm_def resolvePeerInfo_def)

end
