(* ===== verification/Go_Encoding.thy ===== *)
theory Go_Encoding
  imports Go_Strings
begin

text \<open>
  The text encodings of the Go standard library the program uses: \<open>hex.EncodeToString\<close>,
  \<open>base64.RawURLEncoding\<close> and the decimal form of a signed integer, with the facts the clients
  need: decoding inverts encoding, and neither encoding produces a dot, a slash or white space.
\<close>

abbreviation byte_of :: "char \<Rightarrow> nat" where "byte_of c \<equiv> of_char c"

lemma char_byte [simp]: "char_of (byte_of c) = c"
  by simp

subsection \<open>Hexadecimal\<close>

definition hexDigits :: string where "hexDigits = ''0123456789abcdef''"

definition hexEncode :: "string \<Rightarrow> string" where
  "hexEncode bs = concat (map (\<lambda>b. [hexDigits ! (byte_of b div 16), hexDigits ! (byte_of b mod 16)]) bs)"

lemma hexDigits_length: "length hexDigits = 16"
  by (simp add: hexDigits_def)

lemma hexEncode_set: "set (hexEncode bs) \<subseteq> set hexDigits"
proof -
  have "byte_of b div 16 < length hexDigits" "byte_of b mod 16 < length hexDigits" for b
    unfolding hexDigits_length by (simp_all add: less_mult_imp_div_less)
  then show ?thesis by (auto simp: hexEncode_def intro!: nth_mem)
qed

lemma hexEncode_length [simp]: "length (hexEncode bs) = 2 * length bs"
  by (induction bs) (auto simp: hexEncode_def)

lemma hexEncode_Nil_iff [simp]: "hexEncode bs = [] \<longleftrightarrow> bs = []"
  using hexEncode_length[of bs] by (metis length_0_conv mult_is_0 zero_neq_numeral)

lemma hexEncode_plain: "c \<in> set (hexEncode bs) \<Longrightarrow> \<not> is_space c \<and> c \<noteq> CHR ''.''"
  using hexEncode_set[of bs] by (auto simp: hexDigits_def is_space_def)

subsection \<open>Base64, URL alphabet, no padding\<close>

definition b64Alphabet :: string where
  "b64Alphabet = ''ABCDEFGHIJKLMNOPQRSTUVWXYZabcdefghijklmnopqrstuvwxyz0123456789-_''"

definition b64Digit :: "nat \<Rightarrow> char" where
  "b64Digit n = b64Alphabet ! n"

text \<open>The value of a character, \<open>None\<close> outside the alphabet.\<close>

fun index_of :: "char \<Rightarrow> string \<Rightarrow> nat option" where
  "index_of c [] = None"
| "index_of c (x # xs) = (if x = c then Some 0 else map_option Suc (index_of c xs))"

definition b64Value :: "char \<Rightarrow> nat option" where
  "b64Value c = index_of c b64Alphabet"

fun b64Encode :: "string \<Rightarrow> string" where
  "b64Encode [] = []"
| "b64Encode [a] = [b64Digit (byte_of a div 4), b64Digit (byte_of a mod 4 * 16)]"
| "b64Encode [a, b] = [b64Digit (byte_of a div 4), b64Digit (byte_of a mod 4 * 16 + byte_of b div 16),
     b64Digit (byte_of b mod 16 * 4)]"
| "b64Encode (a # b # c # bs) =
     b64Digit (byte_of a div 4) # b64Digit (byte_of a mod 4 * 16 + byte_of b div 16) #
     b64Digit (byte_of b mod 16 * 4 + byte_of c div 64) # b64Digit (byte_of c mod 64) # b64Encode bs"

text \<open>Decoding: line breaks are skipped; bits left over in the last character are ignored.\<close>

fun b64Groups :: "nat list \<Rightarrow> string option" where
  "b64Groups [] = Some []"
| "b64Groups [p] = None"
| "b64Groups [p, q] = Some [char_of (p * 4 + q div 16)]"
| "b64Groups [p, q, r] = Some [char_of (p * 4 + q div 16), char_of (q mod 16 * 16 + r div 4)]"
| "b64Groups (p # q # r # s # vs) =
     map_option (\<lambda>bs. char_of (p * 4 + q div 16) # char_of (q mod 16 * 16 + r div 4) # char_of (r mod 4 * 64 + s) # bs)
       (b64Groups vs)"

definition b64Decode :: "string \<Rightarrow> string option" where
  "b64Decode s =
     (let vs = map b64Value (filter (\<lambda>c. c \<noteq> CHR 0x0A \<and> c \<noteq> CHR 0x0D) s)
      in if None \<in> set vs then None else b64Groups (map the vs))"

lemma index_of_nth: "distinct xs \<Longrightarrow> n < length xs \<Longrightarrow> index_of (xs ! n) xs = Some n"
proof (induction xs arbitrary: n)
  case (Cons x xs)
  then show ?case by (cases n) auto
qed simp

lemma b64Alphabet_facts: "distinct b64Alphabet" "length b64Alphabet = 64"
  "CHR ''.'' \<notin> set b64Alphabet" "CHR 0x0A \<notin> set b64Alphabet" "CHR 0x0D \<notin> set b64Alphabet"
  by code_simp+

lemma b64Value_Digit [simp]: "n < 64 \<Longrightarrow> b64Value (b64Digit n) = Some n"
  using b64Alphabet_facts by (simp add: b64Value_def b64Digit_def index_of_nth)

lemma b64Digit_mem: "n < 64 \<Longrightarrow> b64Digit n \<in> set b64Alphabet"
  using b64Alphabet_facts by (simp add: b64Digit_def)

lemma byte_parts:
  "byte_of a div 4 < 64" "byte_of b div 16 < 16" "byte_of c div 64 < 4"
  by (simp_all add: less_mult_imp_div_less)

lemma six_bits:
  "byte_of a div 4 < 64" "byte_of a mod 4 * 16 < 64" "byte_of a mod 4 * 16 + byte_of b div 16 < 64"
  "byte_of b mod 16 * 4 < 64" "byte_of b mod 16 * 4 + byte_of c div 64 < 64" "byte_of c mod 64 < 64"
proof -
  have "byte_of a mod 4 < 4" "byte_of b mod 16 < 16" by simp_all
  then show "byte_of a mod 4 * 16 < 64" "byte_of a mod 4 * 16 + byte_of b div 16 < 64"
    "byte_of b mod 16 * 4 < 64" "byte_of b mod 16 * 4 + byte_of c div 64 < 64"
    using byte_parts(2)[of b] byte_parts(3)[of c] by linarith+
qed (simp_all add: byte_parts)

lemma b64Encode_set: "set (b64Encode bs) \<subseteq> set b64Alphabet"
proof (induction bs rule: b64Encode.induct)
  case (4 a b c bs)
  then show ?case by (simp add: b64Digit_mem six_bits)
qed (auto simp: b64Digit_mem six_bits)

lemma b64Encode_no_dot: "CHR ''.'' \<notin> set (b64Encode bs)"
  using b64Encode_set[of bs] b64Alphabet_facts by auto

lemma byte_parts_div [simp]:
  "byte_of b div 16 div 16 = 0" "byte_of b div 16 mod 16 = byte_of b div 16"
  "byte_of c div 64 div 4 = 0" "byte_of c div 64 mod 4 = byte_of c div 64"
  by (simp_all add: byte_parts)

lemma b64Groups_Encode: "b64Groups (map (the \<circ> b64Value) (b64Encode bs)) = Some bs"
  by (induction bs rule: b64Encode.induct) (simp_all add: six_bits)

lemma b64_roundtrip [simp]: "b64Decode (b64Encode bs) = Some bs"
proof -
  have al: "set (b64Encode bs) \<subseteq> set b64Alphabet" by (rule b64Encode_set)
  then have 1: "filter (\<lambda>c. c \<noteq> CHR 0x0A \<and> c \<noteq> CHR 0x0D) (b64Encode bs) = b64Encode bs"
    using b64Alphabet_facts by (auto simp: filter_id_conv)
  have "b64Value c \<noteq> None" if "c \<in> set b64Alphabet" for c
    using that b64Alphabet_facts(1) by (auto simp: b64Value_def in_set_conv_nth index_of_nth)
  then have 2: "None \<notin> set (map b64Value (b64Encode bs))" using al by force
  show ?thesis using 2 by (simp add: b64Decode_def 1 b64Groups_Encode Let_def)
qed

subsection \<open>Base64, standard alphabet, padded\<close>

definition stdChar :: "char \<Rightarrow> char" where
  "stdChar c = (if c = CHR ''-'' then CHR ''+'' else if c = CHR ''_'' then CHR ''/'' else c)"

definition urlChar :: "char \<Rightarrow> char" where
  "urlChar c = (if c = CHR ''+'' then CHR ''-'' else if c = CHR ''/'' then CHR ''_'' else c)"

definition b64Padding :: "nat \<Rightarrow> string" where
  "b64Padding n = (if n mod 3 = 1 then ''=='' else if n mod 3 = 2 then ''='' else [])"

definition b64StdEncode :: "string \<Rightarrow> string" where
  "b64StdEncode bs = map stdChar (b64Encode bs) @ b64Padding (length bs)"

text \<open>
  Decoding drops line breaks, requires the padding to complete the last group of four, and rejects
  the characters of the URL alphabet.
\<close>

definition b64StdDecode :: "string \<Rightarrow> string option" where
  "b64StdDecode s =
     (let t = filter (\<lambda>c. c \<noteq> CHR 0x0A \<and> c \<noteq> CHR 0x0D) s;
          body = takeWhile (\<lambda>c. c \<noteq> CHR ''='') t; pad = drop (length body) t
      in if CHR ''-'' \<in> set body \<or> CHR ''_'' \<in> set body then None
         else if length body mod 4 = 1 \<or> pad \<noteq> replicate ((4 - length body mod 4) mod 4) (CHR ''='') then None
         else b64Decode (map urlChar body))"

lemma stdChar_facts:
  assumes "c \<in> set b64Alphabet"
  shows "urlChar (stdChar c) = c" "stdChar c \<noteq> CHR ''-''" "stdChar c \<noteq> CHR ''_''" "stdChar c \<noteq> CHR ''=''"
    "stdChar c \<noteq> CHR 0x0A" "stdChar c \<noteq> CHR 0x0D"
proof -
  have "list_all (\<lambda>c. urlChar (stdChar c) = c \<and> stdChar c \<noteq> CHR ''-'' \<and> stdChar c \<noteq> CHR ''_'' \<and> stdChar c \<noteq> CHR ''='' \<and>
      stdChar c \<noteq> CHR 0x0A \<and> stdChar c \<noteq> CHR 0x0D) b64Alphabet" by code_simp
  then show "urlChar (stdChar c) = c" "stdChar c \<noteq> CHR ''-''" "stdChar c \<noteq> CHR ''_''" "stdChar c \<noteq> CHR ''=''"
    "stdChar c \<noteq> CHR 0x0A" "stdChar c \<noteq> CHR 0x0D" using assms by (auto simp: list_all_iff)
qed

lemma Suc_mod: "Suc (Suc (Suc n)) mod 3 = n mod 3" "Suc (Suc (Suc (Suc n))) mod 4 = n mod 4"
  by presburger+

lemma b64Padding_eq:
  "b64Padding (length bs) = replicate ((4 - length (b64Encode bs) mod 4) mod 4) (CHR ''='') \<and> length (b64Encode bs) mod 4 \<noteq> 1"
proof (induction bs rule: b64Encode.induct)
  case (4 a b c bs)
  have "b64Padding (length (a # b # c # bs)) = b64Padding (length bs)" by (simp add: b64Padding_def Suc_mod)
  with 4 show ?case by (simp add: Suc_mod)
qed (simp_all add: b64Padding_def numeral_2_eq_2)

lemma b64Std_roundtrip [simp]: "b64StdDecode (b64StdEncode bs) = Some bs"
proof -
  let ?e = "map stdChar (b64Encode bs)"
  have al: "c \<in> set b64Alphabet" if "c \<in> set (b64Encode bs)" for c using that b64Encode_set by blast
  have pad: "c = CHR ''=''" if "c \<in> set (b64Padding (length bs))" for c using that by (auto simp: b64Padding_def split: if_splits)
  have f: "filter (\<lambda>c. c \<noteq> CHR 0x0A \<and> c \<noteq> CHR 0x0D) (b64StdEncode bs) = b64StdEncode bs"
    using al stdChar_facts(5,6) pad by (auto simp: filter_id_conv b64StdEncode_def)
  have t: "takeWhile (\<lambda>c. c \<noteq> CHR ''='') (b64StdEncode bs) = ?e"
    using al stdChar_facts(4) pad unfolding b64StdEncode_def
    by (subst takeWhile_append2) (auto simp: takeWhile_eq_Nil_iff intro: hd_in_set)
  have u: "map urlChar ?e = b64Encode bs" using al stdChar_facts(1) by (simp add: map_idI)
  have no: "CHR ''-'' \<notin> set ?e" "CHR ''_'' \<notin> set ?e" using al stdChar_facts(2,3) by force+
  have d: "drop (length ?e) (b64StdEncode bs) = b64Padding (length bs)" by (simp add: b64StdEncode_def)
  show ?thesis
    unfolding b64StdDecode_def f Let_def t d using no u b64Padding_eq[of bs] by simp
qed

subsection \<open>Signed decimals\<close>

definition dec_int :: "int \<Rightarrow> string" where
  "dec_int i = (if i < 0 then CHR ''-'' # dec (nat (- i)) else dec (nat i))"

end
