(* ===== verification/Api_Auth.thy ===== *)
theory Api_Auth
  imports Api_Types Go_Encoding
begin

text \<open>
  Authentication of the REST API: \<^verbatim>\<open>internal/api/auth.go\<close>, \<^verbatim>\<open>internal/api/jwt.go\<close> and the login
  handler of \<^verbatim>\<open>internal/api/handlers.go\<close>.

  The clock is the argument \<open>now\<close> (nanoseconds; \<open>unix\<close> is its whole seconds), random bytes are an
  argument (an error where \<open>rand.Read\<close> fails).  HMAC-SHA256 and the JSON reader are parameters, in
  the record \<open>jwt_lib\<close>; base64 is the theory Go_Encoding.
\<close>

subsection \<open>State\<close>

record Auth =
  au_token :: string
  au_filePath :: string
  au_sessions :: "(string, unit) gomap"
  au_usedJTIs :: "(string, int) gomap"

definition newAuth :: "string \<Rightarrow> string \<Rightarrow> Auth" where
  "newAuth token filePath = \<lparr>au_token = token, au_filePath = filePath, au_sessions = [], au_usedJTIs = []\<rparr>"

definition cookiePath :: "string \<Rightarrow> string" where
  "cookiePath configDir = configDir @ ''/.cookie''"

text \<open>
  The cookie file is its content (\<open>None\<close>: not readable); \<open>mkdirErr\<close> and \<open>writeErr\<close> are the
  results of \<open>os.MkdirAll\<close> and \<open>os.WriteFile\<close>.  The second component is the file afterwards.
\<close>

definition NewAuth :: "string \<Rightarrow> go_error option \<Rightarrow> string option \<Rightarrow> go_error + string \<Rightarrow> go_error option
    \<Rightarrow> (go_error + Auth) \<times> string option" where
  "NewAuth configDir mkdirErr file rnd writeErr =
     (case mkdirErr of
        Some err \<Rightarrow> (Inl err, file)
      | None \<Rightarrow>
          (let filePath = cookiePath configDir;
               token = (case file of None \<Rightarrow> [] | Some data \<Rightarrow> TrimSpace data)
           in if token \<noteq> [] then (Inr (newAuth token filePath), file)
              else (case rnd of
                      Inl err \<Rightarrow> (Inl err, file)
                    | Inr tokenBytes \<Rightarrow>
                        (let token = hexEncode tokenBytes in
                         case writeErr of
                           Some err \<Rightarrow> (Inl err, file)
                         | None \<Rightarrow> (Inr (newAuth token filePath), Some token)))))"

definition LoadAuth :: "string \<Rightarrow> string option \<Rightarrow> go_error + Auth" where
  "LoadAuth configDir file =
     (case file of
        None \<Rightarrow> Inl (ErrText ''read error'')
      | Some data \<Rightarrow>
          (let token = TrimSpace data in
           if token = [] then Inl (ErrText ''empty cookie file'')
           else Inr (newAuth token (cookiePath configDir))))"

subsection \<open>Checking a request\<close>

definition sessionCookieName :: string where "sessionCookieName = ''session''"

definition ValidateSession :: "Auth \<Rightarrow> http_request \<Rightarrow> bool" where
  "ValidateSession a r =
     (case map_of (hr_Cookies r) sessionCookieName of
        None \<Rightarrow> False
      | Some v \<Rightarrow> if v = [] then False else map_of (au_sessions a) v \<noteq> None)"

text \<open>\<open>strings.SplitN(s, " ", 2)\<close>.\<close>

definition splitSpace2 :: "string \<Rightarrow> string list" where
  "splitSpace2 s = (case Cut s (CHR '' '') of (before, after, found) \<Rightarrow> if found then [before, after] else [before])"

text \<open>\<open>None\<close>: the request goes on to the handler.\<close>

definition Middleware :: "Auth \<Rightarrow> http_request \<Rightarrow> response option" where
  "Middleware a r =
     (if ValidateSession a r then None
      else
       (let authHeader = hr_Authorization r in
        if authHeader = [] then Some (writeError ''unauthorized'' StatusUnauthorized)
        else (case splitSpace2 authHeader of
                [scheme, providedToken] \<Rightarrow>
                  if scheme \<noteq> ''Bearer'' then Some (writeError ''invalid Authorization header format'' StatusUnauthorized)
                  else if providedToken \<noteq> au_token a then Some (writeError ''invalid token'' StatusUnauthorized)
                  else None
              | _ \<Rightarrow> Some (writeError ''invalid Authorization header format'' StatusUnauthorized))))"

definition ValidateRequest :: "Auth \<Rightarrow> http_request \<Rightarrow> bool" where
  "ValidateRequest a r =
     (if ValidateSession a r then True
      else (case splitSpace2 (hr_Authorization r) of
              [scheme, t] \<Rightarrow> scheme = ''Bearer'' \<and> t = au_token a
            | _ \<Rightarrow> False))"

subsection \<open>Login tokens\<close>

record jwtHeader =
  jh_Alg :: string
  jh_Typ :: string

record jwtClaims =
  jc_Exp :: int
  jc_Iat :: int
  jc_Jti :: string

record jwt_lib =
  jl_hmac :: "string \<Rightarrow> string \<Rightarrow> bytes"
  jl_unmarshalHeader :: "string \<Rightarrow> jwtHeader option"
  jl_unmarshalClaims :: "string \<Rightarrow> jwtClaims option"

abbreviation (input) jwtExpiry :: nanos where "jwtExpiry \<equiv> 300000000000"

definition unix :: "nanos \<Rightarrow> int" where
  "unix t = t div 1000000000"

definition quoted :: "string \<Rightarrow> string" where
  "quoted s = [CHR 0x22] @ s @ [CHR 0x22]"

text \<open>\<open>json.Marshal\<close> of the two structures; the strings involved need no escaping.\<close>

definition marshalHeader :: "jwtHeader \<Rightarrow> string" where
  "marshalHeader h = ''{'' @ quoted ''alg'' @ '':'' @ quoted (jh_Alg h) @ '','' @ quoted ''typ'' @ '':'' @ quoted (jh_Typ h) @ ''}''"

definition marshalClaims :: "jwtClaims \<Rightarrow> string" where
  "marshalClaims c = ''{'' @ quoted ''exp'' @ '':'' @ dec_int (jc_Exp c) @ '','' @ quoted ''iat'' @ '':'' @ dec_int (jc_Iat c) @
     '','' @ quoted ''jti'' @ '':'' @ quoted (jc_Jti c) @ ''}''"

definition sign :: "jwt_lib \<Rightarrow> Auth \<Rightarrow> string \<Rightarrow> string" where
  "sign L a data = b64Encode (jl_hmac L (au_token a) data)"

definition hs256 :: jwtHeader where "hs256 = \<lparr>jh_Alg = ''HS256'', jh_Typ = ''JWT''\<rparr>"

definition newClaims :: "nanos \<Rightarrow> string \<Rightarrow> jwtClaims" where
  "newClaims now jtiBytes = \<lparr>jc_Exp = unix (now + jwtExpiry), jc_Iat = unix now, jc_Jti = hexEncode jtiBytes\<rparr>"

definition GenerateJWT :: "jwt_lib \<Rightarrow> nanos \<Rightarrow> go_error + string \<Rightarrow> Auth \<Rightarrow> go_error + string" where
  "GenerateJWT L now rnd a =
     (case rnd of
        Inl err \<Rightarrow> Inl (ErrText (''generate jti: '' @ error_text err))
      | Inr jtiBytes \<Rightarrow>
          (let headerB64 = b64Encode (marshalHeader hs256);
               claimsB64 = b64Encode (marshalClaims (newClaims now jtiBytes));
               signingInput = headerB64 @ ''.'' @ claimsB64
           in Inr (signingInput @ ''.'' @ sign L a signingInput)))"

definition ValidateJWT :: "jwt_lib \<Rightarrow> nanos \<Rightarrow> string \<Rightarrow> Auth \<Rightarrow> go_error + jwtClaims" where
  "ValidateJWT L now tokenString a =
     (case Split tokenString (CHR ''.'') of
        [headerB64, claimsB64, signatureB64] \<Rightarrow>
          if signatureB64 \<noteq> sign L a (headerB64 @ ''.'' @ claimsB64) then Inl (ErrText ''invalid signature'')
          else (case b64Decode headerB64 of
             None \<Rightarrow> Inl (ErrText ''decode header'')
           | Some headerJSON \<Rightarrow>
              (case jl_unmarshalHeader L headerJSON of
                 None \<Rightarrow> Inl (ErrText ''unmarshal header'')
               | Some header \<Rightarrow>
                   if jh_Alg header \<noteq> ''HS256'' \<or> jh_Typ header \<noteq> ''JWT'' then Inl (ErrText ''unsupported JWT type'')
                   else (case b64Decode claimsB64 of
                      None \<Rightarrow> Inl (ErrText ''decode claims'')
                    | Some claimsJSON \<Rightarrow>
                       (case jl_unmarshalClaims L claimsJSON of
                          None \<Rightarrow> Inl (ErrText ''unmarshal claims'')
                        | Some claims \<Rightarrow>
                            if unix now > jc_Exp claims then Inl (ErrText ''token expired'')
                            else if jc_Jti claims = [] then Inl (ErrText ''missing jti claim'')
                            else Inr claims))))
      | _ \<Rightarrow> Inl (ErrText ''invalid JWT format''))"

definition GenerateLoginURL :: "jwt_lib \<Rightarrow> nanos \<Rightarrow> go_error + string \<Rightarrow> string \<Rightarrow> Auth \<Rightarrow> go_error + string" where
  "GenerateLoginURL L now rnd addr a =
     (case GenerateJWT L now rnd a of
        Inl err \<Rightarrow> Inl err
      | Inr jwt \<Rightarrow> Inr (''http://'' @ addr @ ''/?token='' @ jwt))"

text \<open>Prune, then look, then record.\<close>

definition consumeJTI :: "nanos \<Rightarrow> string \<Rightarrow> int \<Rightarrow> Auth \<Rightarrow> bool \<times> Auth" where
  "consumeJTI now i expiry a =
     (let used = filter (\<lambda>(_, usedExp). \<not> usedExp \<le> unix now) (au_usedJTIs a) in
      if map_of used i \<noteq> None then (False, a\<lparr>au_usedJTIs := used\<rparr>)
      else (True, a\<lparr>au_usedJTIs := gm_put i expiry used\<rparr>))"

definition SetSessionCookie :: "go_error + string \<Rightarrow> Auth \<Rightarrow> (go_error + string) \<times> Auth" where
  "SetSessionCookie rnd a =
     (case rnd of
        Inl err \<Rightarrow> (Inl (ErrText (''generate session id: '' @ error_text err)), a)
      | Inr idBytes \<Rightarrow>
          (let i = hexEncode idBytes in (Inr i, a\<lparr>au_sessions := gm_put i () (au_sessions a)\<rparr>)))"

text \<open>\<open>HandleAuth\<close>; \<open>body\<close> is the token in the decoded request.\<close>

definition HandleAuth :: "jwt_lib \<Rightarrow> nanos \<Rightarrow> go_error + string \<Rightarrow> string \<Rightarrow> string option \<Rightarrow> Auth \<Rightarrow> response \<times> Auth" where
  "HandleAuth L now rnd meth body a =
     (if meth \<noteq> ''POST'' then (methodNotAllowed, a)
      else case body of
        None \<Rightarrow> (writeError ''invalid request body'' StatusBadRequest, a)
      | Some token \<Rightarrow>
          if token = [] then (writeError ''missing token'' StatusBadRequest, a)
          else (case ValidateJWT L now token a of
             Inl _ \<Rightarrow> (writeError ''invalid or expired token'' StatusUnauthorized, a)
           | Inr claims \<Rightarrow>
              (case consumeJTI now (jc_Jti claims) (jc_Exp claims) a of
                 (False, a) \<Rightarrow> (writeError ''invalid or expired token'' StatusUnauthorized, a)
               | (True, a) \<Rightarrow>
                  (case SetSessionCookie rnd a of
                     (Inl _, a) \<Rightarrow> (writeError ''failed to create session'' StatusInternalServerError, a)
                   | (Inr i, a) \<Rightarrow> ((writeJSON (ActionResponse ''authenticated''))\<lparr>rp_cookie := Some i\<rparr>, a)))))"

subsection \<open>Who gets in\<close>

lemma splitSpace2_two: "splitSpace2 s = [x, y] \<longleftrightarrow> CHR '' '' \<notin> set x \<and> s = x @ '' '' @ y"
proof
  assume *: "splitSpace2 s = [x, y]"
  then have mem: "CHR '' '' \<in> set s" by (auto simp: splitSpace2_def Cut_def split: if_splits)
  then obtain ys zs where yz: "s = ys @ CHR '' '' # zs" "CHR '' '' \<notin> set ys" using split_list_first by metis
  then have "splitSpace2 s = [ys, zs]" by (simp add: splitSpace2_def Cut_found)
  then show "CHR '' '' \<notin> set x \<and> s = x @ '' '' @ y" using * yz by simp
next
  assume "CHR '' '' \<notin> set x \<and> s = x @ '' '' @ y"
  then show "splitSpace2 s = [x, y]" using Cut_found[of "CHR '' ''" x y] by (simp add: splitSpace2_def)
qed

lemma ValidateRequest_iff:
  "ValidateRequest a r \<longleftrightarrow> ValidateSession a r \<or> hr_Authorization r = ''Bearer '' @ au_token a"
proof -
  have "ValidateRequest a r \<longleftrightarrow> ValidateSession a r \<or> splitSpace2 (hr_Authorization r) = [''Bearer'', au_token a]"
    by (auto simp: ValidateRequest_def split: list.splits)
  then show ?thesis by (simp add: splitSpace2_two)
qed

lemma Middleware_iff: "Middleware a r = None \<longleftrightarrow> ValidateRequest a r"
  by (auto simp: Middleware_def ValidateRequest_def Let_def splitSpace2_def Cut_def split: list.splits if_splits prod.splits)

text \<open>
  A request passes the middleware exactly if its session cookie names a live session or its
  \<open>Authorization\<close> header is \<open>Bearer\<close> and the master token; the WebSocket check accepts exactly the
  same requests; everything else is answered 401.
\<close>

theorem middleware_admits_exactly:
  "(Middleware a r = None \<longleftrightarrow> ValidateRequest a r) \<and>
   (ValidateRequest a r \<longleftrightarrow>
      (\<exists>v. map_of (hr_Cookies r) ''session'' = Some v \<and> v \<noteq> [] \<and> v \<in> dom (map_of (au_sessions a))) \<or>
      hr_Authorization r = ''Bearer '' @ au_token a) \<and>
   (case Middleware a r of None \<Rightarrow> True | Some resp \<Rightarrow> rp_code resp = StatusUnauthorized)"
proof -
  have "case Middleware a r of None \<Rightarrow> True | Some resp \<Rightarrow> rp_code resp = StatusUnauthorized"
    by (simp add: Middleware_def Let_def split: list.splits)
  then show ?thesis
    by (auto simp: Middleware_iff ValidateRequest_iff ValidateSession_def sessionCookieName_def split: option.splits)
qed

subsection \<open>The cookie file\<close>

lemma TrimSpace_plain:
  assumes "\<And>c. c \<in> set s \<Longrightarrow> \<not> is_space c"
  shows "TrimSpace s = s"
proof -
  have "dropWhile is_space s = s" "dropWhile is_space (rev s) = rev s"
    using assms by (metis dropWhile_eq_self_iff hd_in_set, metis dropWhile_eq_self_iff hd_in_set set_rev)
  then show ?thesis by (simp add: TrimSpace_def)
qed

text \<open>
  Whatever was in the cookie file, once the daemon has started with it the thin clients load
  the very same token from it, and so does the next start of the daemon.
\<close>

theorem token_survives_restart:
  assumes "NewAuth dir mkdirErr file (Inr bs) writeErr = (Inr a, file')" and "bs \<noteq> []"
  shows "LoadAuth dir file' = Inr a \<and> NewAuth dir None file' rnd w = (Inr a, file') \<and> au_token a \<noteq> []"
proof -
  have "TrimSpace (hexEncode bs) = hexEncode bs" using hexEncode_plain by (blast intro: TrimSpace_plain)
  then show ?thesis
    using assms hexEncode_Nil_iff[of bs, THEN iffD1, OF sym]
    by (auto simp: NewAuth_def LoadAuth_def Let_def newAuth_def split: option.splits if_splits)
qed

theorem token_survives_restart_witness:
  "\<exists>a. NewAuth ''/s'' None (Some '' '') (Inr ''ab'') None = (Inr a, Some ''6162'') \<and>
       LoadAuth ''/s'' (Some ''6162'') = Inr a \<and> au_token a = ''6162''"
proof -
  define a where "a = newAuth ''6162'' ''/s/.cookie''"
  have 1: "NewAuth ''/s'' None (Some '' '') (Inr ''ab'') None = (Inr a, Some ''6162'')"
    unfolding a_def by code_simp
  have "au_token a = ''6162''" by (simp add: a_def newAuth_def)
  then show ?thesis using token_survives_restart[OF 1] 1 by blast
qed

subsection \<open>Login tokens work once\<close>

lemma map_of_filter_keep: "map_of xs k = Some v \<Longrightarrow> P (k, v) \<Longrightarrow> map_of (filter P xs) k = Some v"
  by (induction xs) (auto split: if_splits)

lemma consumeJTI_True:
  assumes "consumeJTI now i e a = (True, a')"
  shows "map_of (au_usedJTIs a') i = Some e \<and>
         (\<forall>j e'. map_of (au_usedJTIs a) j = Some e' \<longrightarrow> unix now < e' \<longrightarrow> j \<noteq> i \<and> map_of (au_usedJTIs a') j = Some e')"
  using assms map_of_filter_keep[of "au_usedJTIs a" _ _ "\<lambda>(_, usedExp). \<not> usedExp \<le> unix now"]
  by (auto simp: consumeJTI_def Let_def split: if_splits)

lemma consumeJTI_False:
  assumes "consumeJTI now i e a = (False, a')" and "map_of (au_usedJTIs a) j = Some e'" and "unix now < e'"
  shows "map_of (au_usedJTIs a') j = Some e'"
  using assms map_of_filter_keep[of "au_usedJTIs a" j e' "\<lambda>(_, usedExp). \<not> usedExp \<le> unix now"]
  by (auto simp: consumeJTI_def Let_def split: if_splits)

lemma SetSessionCookie_jtis [simp]: "au_usedJTIs (snd (SetSessionCookie rnd a)) = au_usedJTIs a"
  by (auto simp: SetSessionCookie_def Let_def split: sum.splits)

text \<open>
  Logins over time: the clock goes on, login requests arrive.  \<open>ls_log\<close> lists the successful ones,
  newest first: nonce, expiry, and the second in which it happened.
\<close>

record LS =
  ls_auth :: Auth
  ls_clock :: nanos
  ls_log :: "(string \<times> int \<times> int) list"

inductive ls_step :: "jwt_lib \<Rightarrow> LS \<Rightarrow> LS \<Rightarrow> bool" for L where
  tick: "ls_clock x \<le> t \<Longrightarrow> ls_step L x (x\<lparr>ls_clock := t\<rparr>)"
| login_ok:
  "ValidateJWT L (ls_clock x) token (ls_auth x) = Inr claims \<Longrightarrow>
   HandleAuth L (ls_clock x) rnd ''POST'' (Some token) (ls_auth x) = (resp, a') \<Longrightarrow> rp_code resp = StatusOK \<Longrightarrow>
   ls_step L x (x\<lparr>ls_auth := a', ls_log := (jc_Jti claims, jc_Exp claims, unix (ls_clock x)) # ls_log x\<rparr>)"
| login_fail:
  "HandleAuth L (ls_clock x) rnd meth body (ls_auth x) = (resp, a') \<Longrightarrow> rp_code resp \<noteq> StatusOK \<Longrightarrow>
   ls_step L x (x\<lparr>ls_auth := a'\<rparr>)"

definition ls_init :: "LS \<Rightarrow> bool" where
  "ls_init x \<longleftrightarrow> (\<exists>token path. ls_auth x = newAuth token path) \<and> ls_log x = []"

definition once :: "(string \<times> int \<times> int) \<Rightarrow> (string \<times> int \<times> int) \<Rightarrow> bool" where
  "once new old \<longleftrightarrow> (fst new = fst old \<and> fst (snd new) = fst (snd old) \<longrightarrow> snd (snd new) = fst (snd new))"

definition ls_inv :: "LS \<Rightarrow> bool" where
  "ls_inv x \<longleftrightarrow> sorted_wrt once (ls_log x) \<and>
     (\<forall>(j, e, t) \<in> set (ls_log x). unix (ls_clock x) < e \<longrightarrow> map_of (au_usedJTIs (ls_auth x)) j = Some e)"

lemma ValidateJWT_not_expired: "ValidateJWT L now token a = Inr claims \<Longrightarrow> unix now \<le> jc_Exp claims"
  by (auto simp: ValidateJWT_def split: list.splits if_splits option.splits)

lemma HandleAuth_valid:
  assumes "token \<noteq> []" and "ValidateJWT L now token a = Inr claims"
  shows "HandleAuth L now rnd ''POST'' (Some token) a =
    (case consumeJTI now (jc_Jti claims) (jc_Exp claims) a of
       (False, a) \<Rightarrow> (writeError ''invalid or expired token'' StatusUnauthorized, a)
     | (True, a) \<Rightarrow> (case SetSessionCookie rnd a of
          (Inl _, a) \<Rightarrow> (writeError ''failed to create session'' StatusInternalServerError, a)
        | (Inr i, a) \<Rightarrow> ((writeJSON (ActionResponse ''authenticated''))\<lparr>rp_cookie := Some i\<rparr>, a)))"
  using assms by (simp add: HandleAuth_def)

lemma HandleAuth_invalid:
  assumes "HandleAuth L now rnd meth body a = (resp, a')"
    and "\<not> (\<exists>token claims. meth = ''POST'' \<and> body = Some token \<and> token \<noteq> [] \<and> ValidateJWT L now token a = Inr claims)"
  shows "a' = a \<and> rp_code resp \<noteq> StatusOK"
  using assms by (auto simp: HandleAuth_def split: if_splits option.splits sum.splits)

lemma ValidateJWT_ne: "ValidateJWT L now token a = Inr claims \<Longrightarrow> token \<noteq> []"
  by (auto simp: ValidateJWT_def)

lemma login_jtis:
  assumes "(case SetSessionCookie rnd a1 of
       (Inl _, a) \<Rightarrow> (writeError ''failed to create session'' StatusInternalServerError, a)
     | (Inr i, a) \<Rightarrow> ((writeJSON (ActionResponse ''authenticated''))\<lparr>rp_cookie := Some i\<rparr>, a)) = (resp, a')"
  shows "au_usedJTIs a' = au_usedJTIs a1"
  using assms SetSessionCookie_jtis[of rnd a1] by (cases "SetSessionCookie rnd a1") (auto split: sum.splits)

lemma HandleAuth_ok:
  assumes "HandleAuth L now rnd ''POST'' (Some token) a = (resp, a')" and "rp_code resp = StatusOK"
    and "ValidateJWT L now token a = Inr claims"
  shows "\<exists>a1. consumeJTI now (jc_Jti claims) (jc_Exp claims) a = (True, a1) \<and> au_usedJTIs a' = au_usedJTIs a1"
proof (cases "consumeJTI now (jc_Jti claims) (jc_Exp claims) a")
  case (Pair b a1)
  then show ?thesis
    using assms HandleAuth_valid[OF ValidateJWT_ne[OF assms(3)] assms(3), of rnd] login_jtis[of rnd a1 resp a']
    by (cases b) auto
qed

lemma HandleAuth_keeps:
  assumes "HandleAuth L now rnd meth body a = (resp, a')" and "map_of (au_usedJTIs a) j = Some e" and "unix now < e"
  shows "map_of (au_usedJTIs a') j = Some e"
proof (cases "\<exists>token claims. meth = ''POST'' \<and> body = Some token \<and> token \<noteq> [] \<and> ValidateJWT L now token a = Inr claims")
  case True
  then obtain token claims where *: "meth = ''POST''" "body = Some token" "token \<noteq> []" "ValidateJWT L now token a = Inr claims"
    by blast
  obtain b a1 where c: "consumeJTI now (jc_Jti claims) (jc_Exp claims) a = (b, a1)" by fastforce
  have keep: "map_of (au_usedJTIs a1) j = Some e"
  proof (cases b)
    case True
    then show ?thesis using consumeJTI_True[of now "jc_Jti claims" "jc_Exp claims" a a1] c assms(2,3) by simp
  next
    case False
    then show ?thesis using consumeJTI_False[of now "jc_Jti claims" "jc_Exp claims" a a1 j e] c assms(2,3) by simp
  qed
  then show ?thesis
    using assms(1) HandleAuth_valid[OF *(3,4), of rnd] * c login_jtis[of rnd a1 resp a'] by (cases b) auto
next
  case False
  then show ?thesis using HandleAuth_invalid[OF assms(1)] assms(2) by simp
qed

lemma unix_mono: "s \<le> t \<Longrightarrow> unix s \<le> unix t"
  by (simp add: unix_def zdiv_mono1)

lemma ls_inv_step: "ls_step L x y \<Longrightarrow> ls_inv x \<Longrightarrow> ls_inv y"
proof (induction rule: ls_step.induct)
  case (tick x t)
  then show ?case using unix_mono[OF tick.hyps] by (force simp: ls_inv_def)
next
  case (login_ok x token claims rnd resp a')
  from HandleAuth_ok[OF login_ok(2,3,1)] obtain a1 where a1:
    "consumeJTI (ls_clock x) (jc_Jti claims) (jc_Exp claims) (ls_auth x) = (True, a1)" "au_usedJTIs a' = au_usedJTIs a1"
    by blast
  note c = consumeJTI_True[OF a1(1)]
  have "once (jc_Jti claims, jc_Exp claims, unix (ls_clock x)) (j, e, t)" if "(j, e, t) \<in> set (ls_log x)" for j e t
    using that c login_ok.prems ValidateJWT_not_expired[OF login_ok(1)]
    by (fastforce simp: once_def ls_inv_def)
  then show ?case using login_ok.prems c a1(2) by (fastforce simp: ls_inv_def)
next
  case (login_fail x rnd meth body resp a')
  then show ?case using HandleAuth_keeps[OF login_fail(1)] by (fastforce simp: ls_inv_def)
qed

interpretation ls: invariant_system ls_init "ls_step L" ls_inv
proof
  show "ls_init s \<Longrightarrow> ls_inv s" for s by (auto simp: ls_init_def ls_inv_def)
  show "ls_step L s t \<Longrightarrow> ls_inv s \<Longrightarrow> ls_inv t" for s t by (rule ls_inv_step)
qed

text \<open>
  C13: A login token is single-use while it is valid: in every sequence of login requests, whatever
  their tokens, when the same token (nonce and expiry) has logged in before, it can log in again only
  in the very second in which it expires.
\<close>

theorem login_token_single_use:
  assumes "reach ls_init (ls_step L) x" and "i < k" and "k < length (ls_log x)"
    and "ls_log x ! i = (j, e, t2)" and "ls_log x ! k = (j, e, t1)"
  shows "t2 = e"
proof -
  have "sorted_wrt once (ls_log x)" using ls.reach_inv[OF assms(1)] by (simp add: ls_inv_def)
  then have "once (ls_log x ! i) (ls_log x ! k)" using assms(2,3) by (rule sorted_wrt_nth_less)
  then show ?thesis using assms(4,5) by (simp add: once_def)
qed

subsection \<open>A fresh token logs in\<close>

lemma Split_jwt:
  "Split (b64Encode x @ ''.'' @ b64Encode y @ ''.'' @ b64Encode z) (CHR ''.'') = [b64Encode x, b64Encode y, b64Encode z]"
  by (simp add: Split_append Split_no_sep b64Encode_no_dot)

lemma ValidateJWT_own:
  assumes "GenerateJWT L now (Inr jtiBytes) a = Inr token" and "au_token a' = au_token a"
    and "jl_unmarshalHeader L (marshalHeader hs256) = Some hs256"
    and "jl_unmarshalClaims L (marshalClaims (newClaims now jtiBytes)) = Some (newClaims now jtiBytes)"
    and "jtiBytes \<noteq> []" and "later \<le> now + jwtExpiry"
  shows "ValidateJWT L later token a' = Inr (newClaims now jtiBytes)"
proof -
  have t: "token = b64Encode (marshalHeader hs256) @ ''.'' @ b64Encode (marshalClaims (newClaims now jtiBytes)) @ ''.'' @
      b64Encode (jl_hmac L (au_token a) (b64Encode (marshalHeader hs256) @ ''.'' @ b64Encode (marshalClaims (newClaims now jtiBytes))))"
    using assms(1) by (simp add: GenerateJWT_def Let_def sign_def)
  have "unix later \<le> jc_Exp (newClaims now jtiBytes)" using unix_mono[OF assms(6)] by (simp add: newClaims_def)
  moreover have "jc_Jti (newClaims now jtiBytes) \<noteq> []" using assms(5) by (simp add: newClaims_def)
  ultimately show ?thesis
    unfolding ValidateJWT_def t Split_jwt using assms(2-4) by (simp add: sign_def hs256_def)
qed

lemma map_of_filter_None: "map_of xs k = None \<Longrightarrow> map_of (filter P xs) k = None"
  by (auto simp: map_of_eq_None_iff)

text \<open>
  A login token the daemon minted is accepted for five minutes if it has not been used: the login
  answers 200 and sets a session cookie with which every later request passes the middleware.
\<close>

theorem fresh_token_logs_in:
  assumes "GenerateJWT L now (Inr jtiBytes) a = Inr token" and "au_token a' = au_token a"
    and "jl_unmarshalHeader L (marshalHeader hs256) = Some hs256"
    and "jl_unmarshalClaims L (marshalClaims (newClaims now jtiBytes)) = Some (newClaims now jtiBytes)"
    and "jtiBytes \<noteq> []" and "later \<le> now + jwtExpiry" and "idBytes \<noteq> []"
    and "map_of (au_usedJTIs a') (hexEncode jtiBytes) = None"
  shows "let out = HandleAuth L later (Inr idBytes) ''POST'' (Some token) a' in
         rp_code (fst out) = StatusOK \<and> rp_cookie (fst out) = Some (hexEncode idBytes) \<and>
         Middleware (snd out) \<lparr>hr_Method = meth, hr_Path = path, hr_Cookies = [(''session'', hexEncode idBytes)], hr_Authorization = []\<rparr> = None"
proof -
  have v: "ValidateJWT L later token a' = Inr (newClaims now jtiBytes)" by (rule ValidateJWT_own[OF assms(1-6)])
  have j: "jc_Jti (newClaims now jtiBytes) = hexEncode jtiBytes" by (simp add: newClaims_def)
  have cons: "\<exists>u. consumeJTI later (jc_Jti (newClaims now jtiBytes)) (jc_Exp (newClaims now jtiBytes)) a' = (True, a'\<lparr>au_usedJTIs := u\<rparr>)"
    using assms(8) by (auto simp: consumeJTI_def j Let_def map_of_filter_None)
  then obtain u where u: "consumeJTI later (jc_Jti (newClaims now jtiBytes)) (jc_Exp (newClaims now jtiBytes)) a' = (True, a'\<lparr>au_usedJTIs := u\<rparr>)"
    by blast
  show ?thesis
    using assms(7) by (simp add: HandleAuth_valid[OF ValidateJWT_ne[OF v] v] u SetSessionCookie_def Let_def Middleware_def
        ValidateSession_def sessionCookieName_def)
qed

definition exJwtLib :: jwt_lib where
  "exJwtLib = \<lparr>jl_hmac = (\<lambda>k d. k @ take 3 d),
     jl_unmarshalHeader = (\<lambda>s. if s = marshalHeader hs256 then Some hs256 else None),
     jl_unmarshalClaims = (\<lambda>s. if s = marshalClaims (newClaims 0 ''ab'') then Some (newClaims 0 ''ab'') else None)\<rparr>"

definition exAuth :: Auth where "exAuth = newAuth ''tok'' ''/s/.cookie''"

definition exToken :: string where
  "exToken = (case GenerateJWT exJwtLib 0 (Inr ''ab'') exAuth of Inl _ \<Rightarrow> [] | Inr t \<Rightarrow> t)"

lemma exToken_gen: "GenerateJWT exJwtLib 0 (Inr ''ab'') exAuth = Inr exToken"
  by (simp add: exToken_def GenerateJWT_def Let_def)

theorem fresh_token_logs_in_witness:
  "rp_code (fst (HandleAuth exJwtLib 1000000000 (Inr ''sid'') ''POST'' (Some exToken) exAuth)) = StatusOK"
  using fresh_token_logs_in[OF exToken_gen refl, where later = 1000000000 and idBytes = "''sid''"]
  by (simp add: exJwtLib_def exAuth_def newAuth_def Let_def)

lemma ValidateJWT_token:
  assumes "au_token a = au_token a'"
  shows "ValidateJWT L now t a = ValidateJWT L now t a'"
proof -
  have "sign L a = sign L a'" using assms by (simp add: sign_def fun_eq_iff)
  then show ?thesis by (simp only: ValidateJWT_def)
qed

text \<open>
  In the second in which it expires a login token can be used again and again: the record of its
  use is pruned before it is looked up, while the token is still accepted.
\<close>

theorem login_token_replay_at_expiry:
  assumes "ValidateJWT L now token a = Inr claims" and "unix now = jc_Exp claims" and "au_usedJTIs a = []"
  shows "let first = HandleAuth L now (Inr id1) ''POST'' (Some token) a;
             second = HandleAuth L now (Inr id2) ''POST'' (Some token) (snd first)
         in rp_code (fst first) = StatusOK \<and> rp_code (fst second) = StatusOK"
proof -
  define a1 where "a1 = a\<lparr>au_usedJTIs := [(jc_Jti claims, jc_Exp claims)], au_sessions := gm_put (hexEncode id1) () (au_sessions a)\<rparr>"
  have first: "HandleAuth L now (Inr id1) ''POST'' (Some token) a =
      ((writeJSON (ActionResponse ''authenticated''))\<lparr>rp_cookie := Some (hexEncode id1)\<rparr>, a1)"
    using assms(3) by (simp add: HandleAuth_valid[OF ValidateJWT_ne[OF assms(1)] assms(1)] consumeJTI_def SetSessionCookie_def Let_def a1_def)
  have v: "ValidateJWT L now token a1 = Inr claims" using assms(1) ValidateJWT_token[of a1 a] by (simp add: a1_def)
  have "consumeJTI now (jc_Jti claims) (jc_Exp claims) a1 = (True, a1)"
    using assms(2) by (simp add: consumeJTI_def a1_def)
  then show ?thesis
    by (simp add: first HandleAuth_valid[OF ValidateJWT_ne[OF v] v] SetSessionCookie_def Let_def)
qed

definition exLogins :: LS where
  "exLogins = (let now = 300000000000; a1 = snd (HandleAuth exJwtLib now (Inr ''s1'') ''POST'' (Some exToken) exAuth);
                   a2 = snd (HandleAuth exJwtLib now (Inr ''s2'') ''POST'' (Some exToken) a1)
               in \<lparr>ls_auth = a2, ls_clock = now, ls_log = [(''6162'', 300, 300), (''6162'', 300, 300)]\<rparr>)"

lemma exToken_valid:
  assumes "au_token a = ''tok''"
  shows "ValidateJWT exJwtLib 300000000000 exToken a = Inr (newClaims 0 ''ab'')"
  by (rule ValidateJWT_own[OF exToken_gen]) (use assms in \<open>simp_all add: exJwtLib_def exAuth_def newAuth_def\<close>)

theorem login_token_replay_at_expiry_witness:
  "unix 300000000000 = jc_Exp (newClaims 0 ''ab'') \<and>
   rp_code (fst (HandleAuth exJwtLib 300000000000 (Inr ''s2'') ''POST'' (Some exToken)
      (snd (HandleAuth exJwtLib 300000000000 (Inr ''s1'') ''POST'' (Some exToken) exAuth)))) = StatusOK"
proof -
  have v: "ValidateJWT exJwtLib 300000000000 exToken exAuth = Inr (newClaims 0 ''ab'')"
    by (rule exToken_valid) (simp add: exAuth_def newAuth_def)
  have e: "unix 300000000000 = jc_Exp (newClaims 0 ''ab'')" by (simp add: unix_def newClaims_def)
  show ?thesis
    using login_token_replay_at_expiry[OF v e, of "''s1''" "''s2''"] e by (simp add: exAuth_def newAuth_def Let_def)
qed

lemma HandleAuth_fresh:
  assumes "ValidateJWT L now tok a = Inr cl" and "tok \<noteq> []"
    and "map_of (filter (\<lambda>(_, usedExp). \<not> usedExp \<le> unix now) (au_usedJTIs a)) (jc_Jti cl) = None"
  shows "HandleAuth L now (Inr ids) ''POST'' (Some tok) a =
    ((writeJSON (ActionResponse ''authenticated''))\<lparr>rp_cookie := Some (hexEncode ids)\<rparr>,
     a\<lparr>au_usedJTIs := gm_put (jc_Jti cl) (jc_Exp cl) (filter (\<lambda>(_, usedExp). \<not> usedExp \<le> unix now) (au_usedJTIs a)),
       au_sessions := gm_put (hexEncode ids) () (au_sessions a)\<rparr>)"
  using assms by (simp add: HandleAuth_def consumeJTI_def SetSessionCookie_def Let_def)

lemma reach_exLogins: "reach ls_init (ls_step exJwtLib) exLogins"
proof -
  define now :: nanos where "now = 300000000000"
  define a1 where "a1 = snd (HandleAuth exJwtLib now (Inr ''s1'') ''POST'' (Some exToken) exAuth)"
  define a2 where "a2 = snd (HandleAuth exJwtLib now (Inr ''s2'') ''POST'' (Some exToken) a1)"
  have tok: "au_token exAuth = ''tok''" by (simp add: exAuth_def newAuth_def)
  note v1 = exToken_valid[OF tok, folded now_def]
  have c: "jc_Jti (newClaims 0 ''ab'') = ''6162''" "jc_Exp (newClaims 0 ''ab'') = 300" "unix now = 300"
    and h: "hexEncode ''s1'' = ''7331''" "hexEncode ''s2'' = ''7332''"
    unfolding now_def by code_simp+
  have used: "au_usedJTIs exAuth = []" by (simp add: exAuth_def newAuth_def)
  have ne: "exToken \<noteq> []" using v1 by (auto simp: ValidateJWT_def exJwtLib_def)
  have r1: "HandleAuth exJwtLib now (Inr ''s1'') ''POST'' (Some exToken) exAuth =
      ((writeJSON (ActionResponse ''authenticated''))\<lparr>rp_cookie := Some ''7331''\<rparr>, a1)"
    and a1: "au_token a1 = ''tok''" "au_usedJTIs a1 = [(''6162'', 300)]"
    using HandleAuth_fresh[OF v1 ne, of "''s1''"] tok by (simp_all add: used c h a1_def)
  note v2 = exToken_valid[OF a1(1), folded now_def]
  have r2: "HandleAuth exJwtLib now (Inr ''s2'') ''POST'' (Some exToken) a1 =
      ((writeJSON (ActionResponse ''authenticated''))\<lparr>rp_cookie := Some ''7332''\<rparr>, a2)"
    unfolding a2_def by (simp add: HandleAuth_fresh[OF v2 ne] h c a1)
  define x0 where "x0 = \<lparr>ls_auth = exAuth, ls_clock = now, ls_log = []\<rparr>"
  have "reach ls_init (ls_step exJwtLib) x0" by (rule reach_init) (auto simp: ls_init_def x0_def exAuth_def)
  moreover have "ls_step exJwtLib x0 (x0\<lparr>ls_auth := a1, ls_log := [(''6162'', 300, 300)]\<rparr>)"
    using ls_step.login_ok[of exJwtLib x0 exToken "newClaims 0 ''ab''" "Inr ''s1''"] v1 r1 c by (simp add: x0_def)
  moreover have "ls_step exJwtLib (x0\<lparr>ls_auth := a1, ls_log := [(''6162'', 300, 300)]\<rparr>) exLogins"
    using ls_step.login_ok[of exJwtLib "x0\<lparr>ls_auth := a1, ls_log := [(''6162'', 300, 300)]\<rparr>" exToken "newClaims 0 ''ab''" "Inr ''s2''"] v2 r2 c
    by (simp add: x0_def exLogins_def Let_def a1_def a2_def now_def)
  ultimately show ?thesis by (meson reach_step)
qed

theorem login_token_single_use_witness:
  "ls_log exLogins ! 0 = (''6162'', 300, 300) \<and> ls_log exLogins ! 1 = (''6162'', 300, 300) \<and> (300::int) = 300"
proof -
  have l: "ls_log exLogins = [(''6162'', 300, 300), (''6162'', 300, 300)]" by (simp add: exLogins_def Let_def)
  show ?thesis using login_token_single_use[OF reach_exLogins, of 0 1 "''6162''" 300 300 300] by (simp add: l)
qed

end
