(* ===== verification/Api_Handlers.thy ===== *)
theory Api_Handlers
  imports Api_GPGSign Api_Auth
begin

text \<open>
  The REST handlers (\<^verbatim>\<open>internal/api/handlers.go\<close>) and the router (\<^verbatim>\<open>internal/api/server.go\<close>).
  A handler maps the manager to a response and the manager afterwards; a response \<open>None\<close> is a panic
  in the handler, which the HTTP server turns into a dropped connection.
\<close>

subsection \<open>Handlers\<close>

text \<open>\<open>hn_provider\<close>: the client list of the provider in multi-socket mode.\<close>

record Handlers =
  hn_resolver :: Resolver
  hn_provider :: "(string \<times> string) list option"
  hn_remoteSocket :: string
  hn_clientName :: string
  hn_testMode :: bool

definition NewHandlers :: "string \<Rightarrow> string \<Rightarrow> Resolver \<Rightarrow> Handlers" where
  "NewHandlers remoteSocket clientName r = \<lparr>hn_resolver = r, hn_provider = None, hn_remoteSocket = remoteSocket,
     hn_clientName = clientName, hn_testMode = False\<rparr>"

definition NewHandlersWithProvider :: "(string \<times> string) list \<Rightarrow> Resolver \<Rightarrow> Handlers" where
  "NewHandlersWithProvider provider r = \<lparr>hn_resolver = r, hn_provider = Some provider, hn_remoteSocket = [],
     hn_clientName = [], hn_testMode = False\<rparr>"

definition SetTestMode :: "bool \<Rightarrow> Handlers \<Rightarrow> Handlers" where
  "SetTestMode enabled h = h\<lparr>hn_testMode := enabled\<rparr>"

definition HandleStatus :: "Handlers \<Rightarrow> http_request \<Rightarrow> Manager \<Rightarrow> response" where
  "HandleStatus h r m =
     (if hr_Method r \<noteq> ''GET'' then methodNotAllowed
      else (let resp = \<lparr>st_Running = True, st_Clients = [], st_PendingCount = PendingCount m, st_Client = [], st_RemoteSocket = []\<rparr>;
                resp = (case hn_provider h of
                   Some clients \<Rightarrow> resp\<lparr>st_Clients := clients\<rparr>
                 | None \<Rightarrow> resp\<lparr>st_Clients := [(hn_clientName h, hn_remoteSocket h)], st_Client := hn_clientName h,
                                st_RemoteSocket := hn_remoteSocket h\<rparr>)
            in writeJSON (StatusValue resp)))"

definition HandlePendingList :: "nanos \<Rightarrow> http_request \<Rightarrow> Manager \<Rightarrow> response" where
  "HandlePendingList now r m =
     (if hr_Method r \<noteq> ''GET'' then methodNotAllowed
      else writeJSON (PendingListResponse (map convertRequest (ListPending now m))))"

text \<open>The shape the four resolving handlers share: method, path, call, error mapping.\<close>

definition resolvingHandler :: "http_request \<Rightarrow> string \<Rightarrow> string \<Rightarrow> (string \<Rightarrow> Manager \<Rightarrow> go_error option \<times> Manager) \<Rightarrow> Manager
    \<Rightarrow> response option \<times> Manager" where
  "resolvingHandler r action status call m =
     (if hr_Method r \<noteq> ''POST'' then (Some methodNotAllowed, m)
      else case extractRequestID (hr_Path r) ''/api/v1/pending/'' action of
        None \<Rightarrow> (None, m)
      | Some i \<Rightarrow>
          if i = [] then (Some (writeError ''invalid request path'' StatusBadRequest), m)
          else (case call i m of
             (Some err, m) \<Rightarrow>
               (if err = ErrNotFound then (Some (writeError ''request not found or expired'' StatusNotFound), m)
                else (Some (writeError (error_text err) StatusInternalServerError), m))
           | (None, m) \<Rightarrow> (Some (writeJSON (ActionResponse status)), m)))"

definition HandleApprove :: "Handlers \<Rightarrow> gpg_env \<Rightarrow> nanos \<Rightarrow> http_request \<Rightarrow> Manager \<Rightarrow> response option \<times> Manager" where
  "HandleApprove h env now r m = resolvingHandler r ''/approve'' ''approved'' (Resolver_Approve (hn_resolver h) env now) m"

definition HandleApproveAndAutoApprove :: "Handlers \<Rightarrow> gpg_env \<Rightarrow> string \<Rightarrow> nanos \<Rightarrow> http_request \<Rightarrow> Manager
    \<Rightarrow> response option \<times> Manager" where
  "HandleApproveAndAutoApprove h env uid now r m =
     resolvingHandler r ''/approve-and-auto-approve'' ''approved'' (Resolver_ApproveAndAutoApprove (hn_resolver h) env uid now) m"

definition HandleDeny :: "nanos \<Rightarrow> http_request \<Rightarrow> Manager \<Rightarrow> response option \<times> Manager" where
  "HandleDeny now r m = resolvingHandler r ''/deny'' ''denied'' (Deny now) m"

definition HandleCancel :: "nanos \<Rightarrow> http_request \<Rightarrow> Manager \<Rightarrow> response option \<times> Manager" where
  "HandleCancel now r m = resolvingHandler r ''/cancel'' ''cancelled'' (Cancel now) m"

definition HandleAutoApproveList :: "nanos \<Rightarrow> http_request \<Rightarrow> Manager \<Rightarrow> response" where
  "HandleAutoApproveList now r m =
     (if hr_Method r \<noteq> ''GET'' then methodNotAllowed else writeJSON (RulesValue (ListAutoApproveRules now m)))"

definition HandleAutoApproveCreate :: "nanos \<Rightarrow> string \<Rightarrow> http_request \<Rightarrow> string option \<Rightarrow> Manager \<Rightarrow> response \<times> Manager" where
  "HandleAutoApproveCreate now uid r body m =
     (if hr_Method r \<noteq> ''POST'' then (methodNotAllowed, m)
      else case body of
        None \<Rightarrow> (writeError ''invalid request body'' StatusBadRequest, m)
      | Some requestID \<Rightarrow>
          (case Resolver_AutoApprove now uid requestID m of
             (Some err, m) \<Rightarrow>
               (if err = ErrNotFound then (writeError ''cancelled request not found'' StatusNotFound, m)
                else (writeError (error_text err) StatusInternalServerError, m))
           | (None, m) \<Rightarrow> (writeJSON (ActionResponse ''created''), m)))"

definition HandleAutoApproveDelete :: "nanos \<Rightarrow> http_request \<Rightarrow> Manager \<Rightarrow> response \<times> Manager" where
  "HandleAutoApproveDelete now r m =
     (if hr_Method r \<noteq> ''DELETE'' then (methodNotAllowed, m)
      else (let i = TrimPrefix (hr_Path r) ''/api/v1/auto-approve/'' in
            if i = [] \<or> ContainsByte i (CHR ''/'') then (writeError ''invalid rule ID'' StatusBadRequest, m)
            else (case RemoveAutoApproveRule now i m of
               (Some err, m) \<Rightarrow>
                 (if err = ErrNotFound then (writeError ''rule not found'' StatusNotFound, m)
                  else (writeError (error_text err) StatusInternalServerError, m))
             | (None, m) \<Rightarrow> (writeJSON (ActionResponse ''deleted''), m))))"

definition HandleLog :: "http_request \<Rightarrow> Manager \<Rightarrow> response" where
  "HandleLog r m =
     (if hr_Method r \<noteq> ''GET'' then methodNotAllowed
      else writeJSON (HistoryResponse (map convertHistoryEntry (History m))))"

definition HandleTestInjectHistory :: "Handlers \<Rightarrow> http_request \<Rightarrow> ApiHistoryEntry option \<Rightarrow> Manager \<Rightarrow> response \<times> Manager" where
  "HandleTestInjectHistory h r body m =
     (if \<not> hn_testMode h then (writeError ''not found'' StatusNotFound, m)
      else if hr_Method r \<noteq> ''POST'' then (methodNotAllowed, m)
      else case body of
        None \<Rightarrow> (writeError ''invalid request body'' StatusBadRequest, m)
      | Some entry \<Rightarrow> (writeJSON (ActionResponse ''created''), AddHistoryEntry (historyOfApi entry) m))"

subsection \<open>The router\<close>

text \<open>
  Decoded bodies and the facts of the connection a handler may ask for; only those of the handler
  that is reached are looked at.
\<close>

record call_env =
  ce_now :: nanos
  ce_uid :: string
  ce_gpg :: gpg_env
  ce_rnd :: "go_error + string"
  ce_jwt :: jwt_lib
  ce_authBody :: "string option"
  ce_createBody :: "string option"
  ce_entryBody :: "ApiHistoryEntry option"
  ce_gpgBody :: "GPGSignRequest option"
  ce_peer :: "SenderInfo option"

record ApiState =
  ap_mgr :: Manager
  ap_auth :: Auth

text \<open>
  What the router does with a request: a response (\<open>None\<close>: the handler panicked), a WebSocket
  upgrade (theory Api_WebSocket), or a static file.
\<close>

datatype routed = Respond "response option" | UpgradeWS | ServeStatic

definition pendingRoute :: "Handlers \<Rightarrow> call_env \<Rightarrow> http_request \<Rightarrow> Manager \<Rightarrow> response option \<times> Manager" where
  "pendingRoute h ce r m =
     (let path = hr_Path r in
      if HasSuffix path ''/approve-and-auto-approve'' then HandleApproveAndAutoApprove h (ce_gpg ce) (ce_uid ce) (ce_now ce) r m
      else if HasSuffix path ''/approve'' then HandleApprove h (ce_gpg ce) (ce_now ce) r m
      else if HasSuffix path ''/deny'' then HandleDeny (ce_now ce) r m
      else if HasSuffix path ''/cancel'' then HandleCancel (ce_now ce) r m
      else (Some (writeError ''not found'' StatusNotFound), m))"

definition apiMux :: "Handlers \<Rightarrow> call_env \<Rightarrow> http_request \<Rightarrow> Manager \<Rightarrow> routed \<times> Manager" where
  "apiMux h ce r m =
     (let path = hr_Path r in
      if path = ''/api/v1/status'' then (Respond (Some (HandleStatus h r m)), m)
      else if path = ''/api/v1/pending'' then (Respond (Some (HandlePendingList (ce_now ce) r m)), m)
      else if path = ''/api/v1/log'' then (Respond (Some (HandleLog r m)), m)
      else if path = ''/api/v1/ws'' then (UpgradeWS, m)
      else if path = ''/api/v1/test/history'' then map_prod (Respond \<circ> Some) id (HandleTestInjectHistory h r (ce_entryBody ce) m)
      else if path = ''/api/v1/gpg-sign/request'' then
        map_prod Respond id (HandleGPGSignRequest (hn_resolver h) (ce_gpg ce) (ce_now ce) (ce_uid ce) (hr_Method r) (ce_gpgBody ce) (ce_peer ce) m)
      else if path = ''/api/v1/auto-approve'' then
        (if hr_Method r = ''GET'' then (Respond (Some (HandleAutoApproveList (ce_now ce) r m)), m)
         else if hr_Method r = ''POST'' then map_prod (Respond \<circ> Some) id (HandleAutoApproveCreate (ce_now ce) (ce_uid ce) r (ce_createBody ce) m)
         else (Respond (Some methodNotAllowed), m))
      else if HasPrefix path ''/api/v1/auto-approve/'' then map_prod (Respond \<circ> Some) id (HandleAutoApproveDelete (ce_now ce) r m)
      else if HasPrefix path ''/api/v1/pending/'' then map_prod Respond id (pendingRoute h ce r m)
      else (Respond (Some (writeError ''404 page not found'' StatusNotFound)), m))"

definition rootMux :: "Handlers \<Rightarrow> call_env \<Rightarrow> http_request \<Rightarrow> ApiState \<Rightarrow> routed \<times> ApiState" where
  "rootMux h ce r s =
     (let path = hr_Path r in
      if path = ''/api/v1/auth'' then
        (case HandleAuth (ce_jwt ce) (ce_now ce) (ce_rnd ce) (hr_Method r) (ce_authBody ce) (ap_auth s) of
           (resp, a) \<Rightarrow> (Respond (Some resp), s\<lparr>ap_auth := a\<rparr>))
      else if HasPrefix path ''/api/'' then
        (case Middleware (ap_auth s) r of
           Some resp \<Rightarrow> (Respond (Some resp), s)
         | None \<Rightarrow> (case apiMux h ce r (ap_mgr s) of (out, m) \<Rightarrow> (out, s\<lparr>ap_mgr := m\<rparr>)))
      else (ServeStatic, s))"

subsection \<open>Authentication guards the API\<close>

text \<open>
  C8: Nothing behind the API happens without authentication: a request that carries neither a live
  session nor the master token leaves the approval manager alone, opens no WebSocket, and is answered
  401 unless it asks for a static file or logs in.
\<close>

theorem api_requires_authentication:
  assumes "\<not> ValidateRequest (ap_auth s) r"
  shows "let (out, s') = rootMux h ce r s in
         ap_mgr s' = ap_mgr s \<and> out \<noteq> UpgradeWS \<and>
         (hr_Path r = ''/api/v1/auth'' \<or>
          s' = s \<and> (if HasPrefix (hr_Path r) ''/api/''
                    then \<exists>resp. out = Respond (Some resp) \<and> rp_code resp = StatusUnauthorized else out = ServeStatic))"
proof -
  obtain resp where m: "Middleware (ap_auth s) r = Some resp" using assms Middleware_iff[of "ap_auth s" r] by auto
  have "rp_code resp = StatusUnauthorized"
    using m by (auto simp: Middleware_def Let_def split: if_splits list.splits)
  then show ?thesis by (simp add: rootMux_def m Let_def split: prod.split)
qed

definition exHandlers :: Handlers where
  "exHandlers = NewHandlers ''/run/x.sock'' ''box'' exGPG"

definition exCall :: call_env where
  "exCall = \<lparr>ce_now = 110, ce_uid = ''u9'', ce_gpg = \<lparr>ge_took = 0, ge_raced = True, ge_others = id, ge_later = 110\<rparr>,
     ce_rnd = Inr ''zz'', ce_jwt = exJwtLib, ce_authBody = None, ce_createBody = None, ce_entryBody = None,
     ce_gpgBody = None, ce_peer = None\<rparr>"

definition exPost :: "string \<Rightarrow> string \<Rightarrow> http_request" where
  "exPost path auth = \<lparr>hr_Method = ''POST'', hr_Path = path, hr_Cookies = [], hr_Authorization = auth\<rparr>"

definition exState :: ApiState where
  "exState = \<lparr>ap_mgr = exPending, ap_auth = exAuth\<rparr>"

theorem api_requires_authentication_witness:
  "ap_mgr (snd (rootMux exHandlers exCall (exPost ''/api/v1/pending/r1/approve'' ''Bearer wrong'') exState)) = exPending"
proof -
  have "\<not> ValidateRequest (ap_auth exState) (exPost ''/api/v1/pending/r1/approve'' ''Bearer wrong'')" by code_simp
  from api_requires_authentication[OF this, of exHandlers exCall] show ?thesis
    by (simp add: Let_def split_beta exState_def)
qed

subsection \<open>The router reaches the request\<close>

lemma HasSuffix_rev: "HasSuffix s p \<longleftrightarrow> HasPrefix (rev s) (rev p)"
proof
  assume "HasSuffix s p"
  then show "HasPrefix (rev s) (rev p)" by (auto simp: HasSuffix_iff HasPrefix_iff)
next
  assume "HasPrefix (rev s) (rev p)"
  then obtain t where "rev s = rev p @ t" by (auto simp: HasPrefix_iff)
  then have "s = rev t @ p" by (metis rev_append rev_rev_ident)
  then show "HasSuffix s p" by (auto simp: HasSuffix_iff)
qed

text \<open>The actions, in the order in which the router tries them, and what each does to the manager.\<close>

datatype action = DoApproveAuto | DoApprove | DoDeny | DoCancel

fun actionSuffix :: "action \<Rightarrow> string" where
  "actionSuffix DoApproveAuto = ''/approve-and-auto-approve''"
| "actionSuffix DoApprove = ''/approve''"
| "actionSuffix DoDeny = ''/deny''"
| "actionSuffix DoCancel = ''/cancel''"

fun actionStatus :: "action \<Rightarrow> string" where
  "actionStatus DoDeny = ''denied''"
| "actionStatus DoCancel = ''cancelled''"
| "actionStatus _ = ''approved''"

fun actionCall :: "Handlers \<Rightarrow> call_env \<Rightarrow> action \<Rightarrow> string \<Rightarrow> Manager \<Rightarrow> go_error option \<times> Manager" where
  "actionCall h ce DoApproveAuto i m = Resolver_ApproveAndAutoApprove (hn_resolver h) (ce_gpg ce) (ce_uid ce) (ce_now ce) i m"
| "actionCall h ce DoApprove i m = Resolver_Approve (hn_resolver h) (ce_gpg ce) (ce_now ce) i m"
| "actionCall h ce DoDeny i m = Deny (ce_now ce) i m"
| "actionCall h ce DoCancel i m = Cancel (ce_now ce) i m"

definition actionPath :: "action \<Rightarrow> string \<Rightarrow> string" where
  "actionPath act i = ''/api/v1/pending/'' @ i @ actionSuffix act"

lemma actionPath_suffix: "HasSuffix (actionPath act i) (actionSuffix act)"
  unfolding actionPath_def by (metis HasSuffix_append append.assoc)

lemma actionPath_not_suffix:
  "\<not> HasSuffix (actionPath DoApprove i) ''/approve-and-auto-approve''"
  "\<not> HasSuffix (actionPath DoDeny i) ''/approve-and-auto-approve''" "\<not> HasSuffix (actionPath DoDeny i) ''/approve''"
  "\<not> HasSuffix (actionPath DoCancel i) ''/approve-and-auto-approve''" "\<not> HasSuffix (actionPath DoCancel i) ''/approve''"
  "\<not> HasSuffix (actionPath DoCancel i) ''/deny''"
  by (simp_all add: HasSuffix_rev actionPath_def HasPrefix_code)

lemma pendingRoute_action:
  "hr_Path r = actionPath act i \<Longrightarrow>
   pendingRoute h ce r m = resolvingHandler r (actionSuffix act) (actionStatus act) (actionCall h ce act) m"
  using actionPath_suffix[of act i] actionPath_not_suffix[of i]
  by (cases act) (auto simp: pendingRoute_def Let_def HandleApprove_def HandleApproveAndAutoApprove_def HandleDeny_def
      HandleCancel_def fun_eq_iff intro!: arg_cong[where f = "\<lambda>c. resolvingHandler r _ _ c m"])

lemma apiMux_pending: "hr_Path r = actionPath act i \<Longrightarrow> apiMux h ce r m = map_prod Respond id (pendingRoute h ce r m)"
  by (simp add: apiMux_def actionPath_def Let_def HasPrefix_code)

lemma resolvingHandler_built:
  assumes "hr_Method r = ''POST''" and "hr_Path r = actionPath act i" and "i \<noteq> []" and "CHR ''/'' \<notin> set i"
  shows "resolvingHandler r (actionSuffix act) status call m =
    (case call i m of
       (Some err, m) \<Rightarrow>
         (if err = ErrNotFound then (Some (writeError ''request not found or expired'' StatusNotFound), m)
          else (Some (writeError (error_text err) StatusInternalServerError), m))
     | (None, m) \<Rightarrow> (Some (writeJSON (ActionResponse status)), m))"
  using extractRequestID_built[OF assms(3,4), of "''/api/v1/pending/''" "actionSuffix act"] assms
  by (simp add: resolvingHandler_def actionPath_def)

lemma rootMux_action:
  assumes "ValidateRequest (ap_auth s) r" and "hr_Method r = ''POST''" and "hr_Path r = actionPath act i"
    and "i \<noteq> []" and "CHR ''/'' \<notin> set i"
  shows "rootMux h ce r s =
    (case actionCall h ce act i (ap_mgr s) of
       (Some err, m) \<Rightarrow>
         (Respond (Some (if err = ErrNotFound then writeError ''request not found or expired'' StatusNotFound
                         else writeError (error_text err) StatusInternalServerError)), s\<lparr>ap_mgr := m\<rparr>)
     | (None, m) \<Rightarrow> (Respond (Some (writeJSON (ActionResponse (actionStatus act)))), s\<lparr>ap_mgr := m\<rparr>))"
proof -
  have "Middleware (ap_auth s) r = None" using assms(1) by (simp add: Middleware_iff)
  moreover have "hr_Path r \<noteq> ''/api/v1/auth''" "HasPrefix (hr_Path r) ''/api/''"
    using assms(3) by (simp_all add: actionPath_def HasPrefix_code)
  ultimately have "rootMux h ce r s =
      (case map_prod Respond id (resolvingHandler r (actionSuffix act) (actionStatus act) (actionCall h ce act) (ap_mgr s)) of
         (out, m) \<Rightarrow> (out, s\<lparr>ap_mgr := m\<rparr>))"
    by (simp add: rootMux_def Let_def apiMux_pending[OF assms(3)] pendingRoute_action[OF assms(3)])
  then show ?thesis
    by (cases "actionCall h ce act i (ap_mgr s)"; cases "fst (actionCall h ce act i (ap_mgr s))")
      (simp_all add: resolvingHandler_built[OF assms(2-5)])
qed

text \<open>
  For every request ID without a slash, the authenticated POST to its approve, approve-and-auto-approve,
  deny or cancel path makes exactly that call on exactly that request: 200 with the verdict when the
  call succeeds, 404 when the request is unknown, and the manager is what the call left.
\<close>

theorem routed_decision_reaches_its_request:
  assumes "ValidateRequest (ap_auth s) r" and "hr_Method r = ''POST''" and "hr_Path r = actionPath act i"
    and "i \<noteq> []" and "CHR ''/'' \<notin> set i"
  shows "let (out, s') = rootMux h ce r s; (err, m') = actionCall h ce act i (ap_mgr s) in
         s' = s\<lparr>ap_mgr := m'\<rparr> \<and>
         (case err of
            None \<Rightarrow> out = Respond (Some (writeJSON (ActionResponse (actionStatus act))))
          | Some e \<Rightarrow> \<exists>resp. out = Respond (Some resp) \<and> rp_code resp = (if e = ErrNotFound then StatusNotFound else StatusInternalServerError))"
  by (auto simp: rootMux_action[OF assms] Let_def split: prod.splits option.splits)

theorem routed_decision_reaches_its_request_witness:
  "fst (rootMux exHandlers exCall (exPost ''/api/v1/pending/r1/deny'' ''Bearer tok'') exState) =
     Respond (Some (writeJSON (ActionResponse ''denied'')))"
proof -
  let ?r = "exPost ''/api/v1/pending/r1/deny'' ''Bearer tok''"
  have 1: "ValidateRequest (ap_auth exState) ?r" by code_simp
  have 2: "hr_Method ?r = ''POST''" "hr_Path ?r = actionPath DoDeny ''r1''" by (simp_all add: exPost_def actionPath_def)
  have 3: "fst (Deny 110 ''r1'' exPending) = None" by code_simp
  show ?thesis
    using routed_decision_reaches_its_request[OF 1 2, of exHandlers exCall] 3
    by (cases "rootMux exHandlers exCall ?r exState"; cases "Deny 110 ''r1'' exPending")
       (simp add: exCall_def exState_def)
qed

text \<open>
  A path that leaves the request ID out crashes its handler: the prefix and the suffix share a
  slash and the slice bounds cross.  The manager is not touched.
\<close>

theorem missing_request_id_panics:
  "rootMux exHandlers exCall (exPost ''/api/v1/pending/approve'' ''Bearer tok'') exState = (Respond None, exState) \<and>
   extractRequestID ''/api/v1/pending/approve'' ''/api/v1/pending/'' ''/approve'' = None"
  by code_simp

end
