(* ===== verification/Api_WebSocket.thy ===== *)
theory Api_WebSocket
  imports Api_Handlers
begin

text \<open>
  Live updates over WebSocket: \<^verbatim>\<open>internal/api/websocket.go\<close>.  A connection is an observer of the approval
  manager, known by its number; its \<open>send\<close> channel is a queue of at most 256 messages, written without
  blocking.  A message is the record that is encoded as JSON.
\<close>

subsection \<open>Messages\<close>

record WSMessage =
  wm_Type :: string
  wm_Version :: string
  wm_Requests :: "PendingRequest list"
  wm_Clients :: "(string \<times> string) list"
  wm_History :: "ApiHistoryEntry list"
  wm_AutoApproveRules :: "AutoApproveRule list"
  wm_TrustedSigners :: "TrustedSigner list"
  wm_TrustRules :: "TrustRule list"
  wm_AutoApproveDurationSeconds :: int
  wm_NotificationDelayMS :: int
  wm_Request :: "PendingRequest option"
  wm_ID :: string
  wm_Result :: string
  wm_Signature :: string
  wm_GPGStatus :: string
  wm_ExitCode :: int
  wm_Client :: "(string \<times> string) option"
  wm_HistoryEntry :: "ApiHistoryEntry option"
  wm_AutoApproveRule :: "AutoApproveRule option"

definition wsmsg :: "string \<Rightarrow> WSMessage" where
  "wsmsg t = \<lparr>wm_Type = t, wm_Version = [], wm_Requests = [], wm_Clients = [], wm_History = [], wm_AutoApproveRules = [],
     wm_TrustedSigners = [], wm_TrustRules = [], wm_AutoApproveDurationSeconds = 0, wm_NotificationDelayMS = 0,
     wm_Request = None, wm_ID = [], wm_Result = [], wm_Signature = [], wm_GPGStatus = [], wm_ExitCode = 0,
     wm_Client = None, wm_HistoryEntry = None, wm_AutoApproveRule = None\<rparr>"

definition makeHistoryEntry :: "nanos \<Rightarrow> Request \<Rightarrow> string \<Rightarrow> ApiHistoryEntry" where
  "makeHistoryEntry now req resolution =
     \<lparr>ah_Request = convertRequest req, ah_Resolution = resolution, ah_ResolvedAt = now\<rparr>"

definition historyMsg :: "nanos \<Rightarrow> Request \<Rightarrow> string \<Rightarrow> WSMessage" where
  "historyMsg now req resolution = (wsmsg ''history_entry'')\<lparr>wm_HistoryEntry := Some (makeHistoryEntry now req resolution)\<rparr>"

definition withSignature :: "Request \<Rightarrow> WSMessage \<Rightarrow> WSMessage" where
  "withSignature req msg =
     (let msg = msg\<lparr>wm_Signature := b64StdEncode (rq_Signature req), wm_GPGStatus := rq_GPGStatus req\<rparr>
      in if rq_GPGExitCode req \<noteq> 0 then msg\<lparr>wm_ExitCode := rq_GPGExitCode req\<rparr> else msg)"

text \<open>The messages for an event.  An event with the wrong payload (a nil pointer) does not occur.\<close>

definition eventMessages :: "nanos \<Rightarrow> Event \<Rightarrow> WSMessage list" where
  "eventMessages now event =
     (case (ev_Type event, ev_Request event, ev_Rule event) of
        (EventRequestCreated, Some req, _) \<Rightarrow> [(wsmsg ''request_created'')\<lparr>wm_Request := Some (convertRequest req)\<rparr>]
      | (EventRequestApproved, Some req, _) \<Rightarrow>
          (let msg = (wsmsg ''request_resolved'')\<lparr>wm_ID := rq_ID req, wm_Result := ''approved''\<rparr>;
               msg = (if rq_Type req = RequestTypeGPGSign then withSignature req msg else msg)
           in [msg, historyMsg now req ''approved''])
      | (EventRequestDenied, Some req, _) \<Rightarrow>
          [(wsmsg ''request_resolved'')\<lparr>wm_ID := rq_ID req, wm_Result := ''denied''\<rparr>, historyMsg now req ''denied'']
      | (EventRequestExpired, Some req, _) \<Rightarrow>
          [(wsmsg ''request_expired'')\<lparr>wm_ID := rq_ID req\<rparr>, historyMsg now req ''expired'']
      | (EventRequestCancelled, Some req, _) \<Rightarrow>
          [(wsmsg ''request_cancelled'')\<lparr>wm_ID := rq_ID req\<rparr>, historyMsg now req ''cancelled'']
      | (EventRequestAutoApproved, Some req, _) \<Rightarrow>
          (if rq_Type req = RequestTypeGPGSign
           then [withSignature req ((wsmsg ''request_resolved'')\<lparr>wm_ID := rq_ID req, wm_Result := ''auto_approved''\<rparr>)] else []) @
          [historyMsg now req ''auto_approved'']
      | (EventRequestIgnored, Some req, _) \<Rightarrow> [historyMsg now req ''ignored'']
      | (EventAutoApproveRuleAdded, _, rule) \<Rightarrow> [(wsmsg ''auto_approve_rule_added'')\<lparr>wm_AutoApproveRule := rule\<rparr>]
      | (EventAutoApproveRuleRemoved, _, Some rule) \<Rightarrow> [(wsmsg ''auto_approve_rule_removed'')\<lparr>wm_ID := ar_ID rule\<rparr>]
      | _ \<Rightarrow> [])"

subsection \<open>Connections\<close>

record WSHandler =
  wh_provider :: "(string \<times> string) list option"
  wh_remoteSocket :: string
  wh_clientName :: string
  wh_notificationDelayMS :: int
  wh_conns :: "(nat, WSMessage list) gomap"

definition NewWSHandler :: "(string \<times> string) list option \<Rightarrow> string \<Rightarrow> string \<Rightarrow> WSHandler" where
  "NewWSHandler provider remoteSocket clientName = \<lparr>wh_provider = provider, wh_remoteSocket = remoteSocket,
     wh_clientName = clientName, wh_notificationDelayMS = 0, wh_conns = []\<rparr>"

definition SetNotificationDelay :: "int \<Rightarrow> WSHandler \<Rightarrow> WSHandler" where
  "SetNotificationDelay ms h = h\<lparr>wh_notificationDelayMS := ms\<rparr>"

abbreviation (input) sendBuffer :: int where "sendBuffer \<equiv> 256"

text \<open>\<open>select { case send <- data: default: }\<close>: dropped when the channel is full.\<close>

definition trySend :: "WSMessage list \<Rightarrow> WSMessage \<Rightarrow> WSMessage list" where
  "trySend queue msg = (if int (length queue) < sendBuffer then queue @ [msg] else queue)"

definition OnEvent :: "nanos \<Rightarrow> Event \<Rightarrow> WSMessage list \<Rightarrow> WSMessage list" where
  "OnEvent now event queue = foldl trySend queue (eventMessages now event)"

definition snapshot :: "string \<Rightarrow> nanos \<Rightarrow> WSHandler \<Rightarrow> Manager \<Rightarrow> WSMessage" where
  "snapshot version now h m = (wsmsg ''snapshot'')\<lparr>wm_Version := version,
     wm_Requests := map convertRequest (ListPending now m),
     wm_Clients := (case wh_provider h of Some cs \<Rightarrow> cs | None \<Rightarrow> [(wh_clientName h, wh_remoteSocket h)]),
     wm_History := map convertHistoryEntry (History m),
     wm_AutoApproveRules := ListAutoApproveRules now m,
     wm_TrustedSigners := ListTrustedSigners m, wm_TrustRules := mg_trustRules m,
     wm_AutoApproveDurationSeconds := AutoApproveDuration m div 1000000000,
     wm_NotificationDelayMS := wh_notificationDelayMS h\<rparr>"

definition closeConn :: "nat \<Rightarrow> WSHandler \<Rightarrow> Manager \<Rightarrow> WSHandler \<times> Manager" where
  "closeConn c h m = (h\<lparr>wh_conns := gm_del c (wh_conns h)\<rparr>, Unsubscribe c m)"

text \<open>
  \<open>accepted\<close> and \<open>written\<close> are the results of the upgrade and of writing the snapshot.  The third
  component is what went out on the wire directly.
\<close>

definition HandleWS :: "string \<Rightarrow> nanos \<Rightarrow> nat \<Rightarrow> bool \<Rightarrow> bool \<Rightarrow> http_request \<Rightarrow> Auth \<Rightarrow> WSHandler \<Rightarrow> Manager
    \<Rightarrow> response option \<times> WSMessage list \<times> WSHandler \<times> Manager" where
  "HandleWS version now c accepted written r a h m =
     (if \<not> ValidateRequest a r then (Some (writeError ''unauthorized'' StatusUnauthorized), [], h, m)
      else if \<not> accepted then (None, [], h, m)
      else (let h = h\<lparr>wh_conns := gm_put c [] (wh_conns h)\<rparr>; m = Subscribe c m in
            if written then (None, [snapshot version now h m], h, m)
            else (case closeConn c h m of (h, m) \<Rightarrow> (None, [], h, m))))"

text \<open>One turn of \<open>writePump\<close> that takes a message: it is written, or the write fails and the connection goes.\<close>

definition writePump_send :: "bool \<Rightarrow> nat \<Rightarrow> WSHandler \<Rightarrow> Manager \<Rightarrow> WSMessage option \<times> WSHandler \<times> Manager" where
  "writePump_send ok c h m =
     (case map_of (wh_conns h) c of
        Some (msg # queue) \<Rightarrow>
          (if ok then (Some msg, h\<lparr>wh_conns := gm_put c queue (wh_conns h)\<rparr>, m)
           else (case closeConn c h m of (h, m) \<Rightarrow> (None, h, m)))
      | _ \<Rightarrow> (None, h, m))"

definition broadcast :: "WSMessage \<Rightarrow> WSHandler \<Rightarrow> WSHandler" where
  "broadcast msg h = h\<lparr>wh_conns := map (\<lambda>(c, queue). (c, trySend queue msg)) (wh_conns h)\<rparr>"

definition BroadcastClientConnected :: "string \<times> string \<Rightarrow> WSHandler \<Rightarrow> WSHandler" where
  "BroadcastClientConnected client h = broadcast ((wsmsg ''client_connected'')\<lparr>wm_Client := Some client\<rparr>) h"

definition BroadcastClientDisconnected :: "string \<times> string \<Rightarrow> WSHandler \<Rightarrow> WSHandler" where
  "BroadcastClientDisconnected client h = broadcast ((wsmsg ''client_disconnected'')\<lparr>wm_Client := Some client\<rparr>) h"

subsection \<open>One connection over time\<close>

text \<open>
  What happens to the accepted connection \<open>c\<close>: an event of the manager, a broadcast, a turn of its
  \<open>writePump\<close>.  \<open>wc_got\<close> is what its client has been sent so far and \<open>wc_lost\<close> whether a message had to
  be dropped because the queue was full.
\<close>

record wsconn =
  wc_handler :: WSHandler
  wc_got :: "WSMessage list"
  wc_lost :: bool

definition wsQueue :: "nat \<Rightarrow> WSHandler \<Rightarrow> WSMessage list" where
  "wsQueue c h = (case map_of (wh_conns h) c of Some queue \<Rightarrow> queue | None \<Rightarrow> [])"

datatype conn_op = Told nanos Event | Joined "string \<times> string" | Left "string \<times> string" | Written

text \<open>The messages an operation wants to put into the queue.\<close>

fun offered :: "conn_op \<Rightarrow> WSMessage list" where
  "offered (Told now e) = eventMessages now e"
| "offered (Joined client) = [(wsmsg ''client_connected'')\<lparr>wm_Client := Some client\<rparr>]"
| "offered (Left client) = [(wsmsg ''client_disconnected'')\<lparr>wm_Client := Some client\<rparr>]"
| "offered Written = []"

fun conn_handler :: "nat \<Rightarrow> conn_op \<Rightarrow> WSHandler \<Rightarrow> WSHandler" where
  "conn_handler c (Told now e) h = h\<lparr>wh_conns := gm_put c (OnEvent now e (wsQueue c h)) (wh_conns h)\<rparr>"
| "conn_handler c (Joined client) h = BroadcastClientConnected client h"
| "conn_handler c (Left client) h = BroadcastClientDisconnected client h"
| "conn_handler c Written h = h"

definition conn_step :: "nat \<Rightarrow> Manager \<Rightarrow> conn_op \<Rightarrow> wsconn \<Rightarrow> wsconn" where
  "conn_step c m op s =
     (if op = Written
      then (case writePump_send True c (wc_handler s) m of
              (Some msg, h, _) \<Rightarrow> s\<lparr>wc_handler := h, wc_got := wc_got s @ [msg]\<rparr>
            | (None, h, _) \<Rightarrow> s\<lparr>wc_handler := h\<rparr>)
      else (let h = conn_handler c op (wc_handler s)
            in s\<lparr>wc_handler := h,
                 wc_lost := wc_lost s \<or> length (wsQueue c h) < length (wsQueue c (wc_handler s)) + length (offered op)\<rparr>))"

definition conn_open :: "nat \<Rightarrow> wsconn \<Rightarrow> bool" where
  "conn_open c s \<longleftrightarrow> map_of (wh_conns (wc_handler s)) c \<noteq> None"

lemma trySend_all: "length (foldl trySend queue msgs) \<le> length queue + length msgs \<and>
  (length (foldl trySend queue msgs) = length queue + length msgs \<longrightarrow> foldl trySend queue msgs = queue @ msgs)"
proof (induction msgs arbitrary: queue)
  case (Cons msg msgs)
  have "length (trySend queue msg) \<le> Suc (length queue) \<and> (length (trySend queue msg) = Suc (length queue) \<longrightarrow> trySend queue msg = queue @ [msg])"
    by (simp add: trySend_def)
  with Cons.IH [of "trySend queue msg"] show ?case by auto
qed simp

lemma map_of_map_value: "map_of (map (\<lambda>(k, v). (k, f v)) xs) k = map_option f (map_of xs k)"
  by (induction xs) auto

lemma wsQueue_op:
  assumes "map_of (wh_conns h) c \<noteq> None"
  shows "map_of (wh_conns (conn_handler c op h)) c \<noteq> None \<and> wsQueue c (conn_handler c op h) = foldl trySend (wsQueue c h) (offered op)"
  using assms
  by (cases op) (auto simp: wsQueue_def OnEvent_def BroadcastClientConnected_def BroadcastClientDisconnected_def broadcast_def
    map_of_map_value)

lemma conn_step_open:
  assumes "conn_open c s"
  shows "conn_open c (conn_step c m op s)"
  using assms wsQueue_op [of "wc_handler s" c op]
  by (auto simp: conn_open_def conn_step_def writePump_send_def Let_def split: list.splits)

text \<open>Without a loss, nothing goes missing and nothing changes its place.\<close>

lemma conn_step_keeps:
  assumes "conn_open c s" and "\<not> wc_lost (conn_step c m op s)"
  shows "\<not> wc_lost s \<and> wc_got (conn_step c m op s) @ wsQueue c (wc_handler (conn_step c m op s)) =
           wc_got s @ wsQueue c (wc_handler s) @ offered op"
proof (cases "op = Written")
  case True
  then show ?thesis
    using assms by (auto simp: conn_step_def conn_open_def writePump_send_def wsQueue_def split: list.splits)
next
  case False
  then have l: "\<not> length (wsQueue c (conn_handler c op (wc_handler s))) < length (wsQueue c (wc_handler s)) + length (offered op)"
    "\<not> wc_lost s" using assms(2) by (auto simp: conn_step_def Let_def)
  with wsQueue_op [of "wc_handler s" c op] assms(1) trySend_all [of "wsQueue c (wc_handler s)" "offered op"]
  have "wsQueue c (conn_handler c op (wc_handler s)) = wsQueue c (wc_handler s) @ offered op"
    by (auto simp: conn_open_def)
  with False l(2) show ?thesis by (simp add: conn_step_def Let_def)
qed

definition conn_run :: "nat \<Rightarrow> Manager \<Rightarrow> conn_op list \<Rightarrow> wsconn \<Rightarrow> wsconn" where
  "conn_run c m ops s = fold (conn_step c m) ops s"

lemma conn_run_keeps:
  assumes "conn_open c s" and "\<not> wc_lost (conn_run c m ops s)"
  shows "conn_open c (conn_run c m ops s) \<and> \<not> wc_lost s \<and>
         wc_got (conn_run c m ops s) @ wsQueue c (wc_handler (conn_run c m ops s)) =
           wc_got s @ wsQueue c (wc_handler s) @ concat (map offered ops)"
  using assms unfolding conn_run_def
proof (induction ops arbitrary: s)
  case (Cons op ops)
  from Cons.IH [of "conn_step c m op s"] conn_step_open [OF Cons.prems(1)] Cons.prems(2)
    conn_step_keeps [OF Cons.prems(1), of m op] show ?case by auto
qed simp

text \<open>The connection as \<open>HandleWS\<close> leaves it.\<close>

definition conn_start :: "string \<Rightarrow> nanos \<Rightarrow> nat \<Rightarrow> http_request \<Rightarrow> Auth \<Rightarrow> WSHandler \<Rightarrow> Manager \<Rightarrow> wsconn \<times> Manager" where
  "conn_start version now c r a h m =
     (case HandleWS version now c True True r a h m of
        (_, msgs, h', m') \<Rightarrow> (\<lparr>wc_handler = h', wc_got = msgs, wc_lost = False\<rparr>, m'))"

lemma conn_start_facts:
  assumes "ValidateRequest a r"
  shows "conn_open c (fst (conn_start version now c r a h m))"
    and "wsQueue c (wc_handler (fst (conn_start version now c r a h m))) = []"
    and "wc_got (fst (conn_start version now c r a h m)) = [snapshot version now (h\<lparr>wh_conns := gm_put c [] (wh_conns h)\<rparr>) (Subscribe c m)]"
    and "snd (conn_start version now c r a h m) = Subscribe c m"
    and "\<not> wc_lost (fst (conn_start version now c r a h m))"
  using assms by (simp_all add: conn_start_def HandleWS_def Let_def conn_open_def wsQueue_def)

end
