(* ===== verification/Api_Mirror.thy ===== *)
theory Api_Mirror
  imports Api_WebSocket
begin

text \<open>
  The live view.  A client that connects before the first request and follows its WebSocket messages
  knows which requests wait for a decision.  The proof runs the approval machine of theory
  Approval_Machine, in which notifications travel apart from the changes they announce, beside the
  connection of theory Api_WebSocket with its bounded queue.
\<close>

subsection \<open>Following the messages\<close>

definition uiMsg :: "WSMessage \<Rightarrow> string set \<Rightarrow> string set" where
  "uiMsg msg M =
     (if wm_Type msg = ''snapshot'' then set (map pq_ID (wm_Requests msg))
      else if wm_Type msg = ''request_created'' then (case wm_Request msg of Some q \<Rightarrow> insert (pq_ID q) M | None \<Rightarrow> M)
      else if wm_Type msg = ''request_resolved'' \<or> wm_Type msg = ''request_expired'' \<or> wm_Type msg = ''request_cancelled''
      then M - {wm_ID msg} else M)"

text \<open>Which events announce a request, and which announce its end.\<close>

definition opens :: "Event \<Rightarrow> string \<Rightarrow> bool" where
  "opens e i \<longleftrightarrow> ev_Type e = EventRequestCreated \<and> (case ev_Request e of Some req \<Rightarrow> rq_ID req = i | None \<Rightarrow> False)"

definition ends :: "Event \<Rightarrow> string \<Rightarrow> bool" where
  "ends e i \<longleftrightarrow>
     (case ev_Request e of None \<Rightarrow> False
      | Some req \<Rightarrow> rq_ID req = i \<and>
          (ev_Type e \<in> {EventRequestApproved, EventRequestDenied, EventRequestExpired, EventRequestCancelled} \<or>
           ev_Type e = EventRequestAutoApproved \<and> rq_Type req = RequestTypeGPGSign))"

definition uiEvent :: "Event \<Rightarrow> string set \<Rightarrow> string set" where
  "uiEvent e M = (M \<union> {i. opens e i}) - {i. ends e i}"

lemma withSignature_fields [simp]:
  "wm_Type (withSignature req msg) = wm_Type msg" "wm_ID (withSignature req msg) = wm_ID msg"
  "wm_Result (withSignature req msg) = wm_Result msg"
  by (simp_all add: withSignature_def Let_def)

lemma wsmsg_Type [simp]: "wm_Type (wsmsg t) = t"
  by (simp add: wsmsg_def)

lemma historyMsg_Type [simp]: "wm_Type (historyMsg now req r) = ''history_entry''"
  by (simp add: historyMsg_def)

lemma uiMsg_eventMessages: "fold uiMsg (eventMessages now e) M = uiEvent e M"
proof (cases "ev_Request e")
  case None
  then show ?thesis
    by (cases "ev_Type e"; cases "ev_Rule e") (auto simp: eventMessages_def uiMsg_def uiEvent_def opens_def ends_def)
next
  case (Some req)
  then show ?thesis
    by (cases "ev_Type e"; cases "ev_Rule e")
       (auto simp: eventMessages_def uiMsg_def uiEvent_def opens_def ends_def convertRequest_def Let_def)
qed

lemma opens_simps [simp]:
  "opens (reqEvent t req) i \<longleftrightarrow> t = EventRequestCreated \<and> rq_ID req = i" "\<not> opens (ruleEvent t rule) i"
  by (auto simp: opens_def)

lemma ends_simps [simp]:
  "ends (reqEvent t req) i \<longleftrightarrow> rq_ID req = i \<and>
     (t \<in> {EventRequestApproved, EventRequestDenied, EventRequestExpired, EventRequestCancelled} \<or>
      t = EventRequestAutoApproved \<and> rq_Type req = RequestTypeGPGSign)"
  "\<not> ends (ruleEvent t rule) i"
  by (auto simp: ends_def)

lemma ends_opens: "ends e i \<Longrightarrow> \<not> opens e i"
  by (auto simp: ends_def opens_def split: option.splits)

definition eventsOf :: "nat \<Rightarrow> Manager \<Rightarrow> Event list" where
  "eventsOf ob m = map snd (filter (\<lambda>d. fst d = ob) (mg_delivered m))"

definition uiView :: "nat \<Rightarrow> Manager \<Rightarrow> string set" where
  "uiView ob m = fold uiEvent (eventsOf ob m) {}"

text \<open>Requests whose end was delivered before their creation.\<close>

definition overtaken :: "nat \<Rightarrow> Manager \<Rightarrow> string set" where
  "overtaken ob m = {i. \<exists>xs e ys. eventsOf ob m = xs @ e # ys \<and> opens e i \<and> (\<exists>e' \<in> set xs. ends e' i)}"

definition endedFor :: "nat \<Rightarrow> Manager \<Rightarrow> string set" where
  "endedFor ob m = {i. \<exists>e \<in> set (eventsOf ob m). ends e i}"

lemma seen_and_ended:
  "i \<in> fold uiEvent es {} \<Longrightarrow> \<exists>e \<in> set es. ends e i \<Longrightarrow> \<exists>xs e ys. es = xs @ e # ys \<and> opens e i \<and> (\<exists>e' \<in> set xs. ends e' i)"
proof (induction es rule: rev_induct)
  case (snoc e es)
  show ?case
  proof (cases "opens e i")
    case True
    with snoc.prems(2) ends_opens have "\<exists>e' \<in> set es. ends e' i" by auto
    with True show ?thesis by blast
  next
    case False
    with snoc.prems(1) have "i \<in> fold uiEvent es {}" "\<not> ends e i" by (auto simp: uiEvent_def [of e])
    with snoc obtain xs e2 ys where "es = xs @ e2 # ys \<and> opens e2 i \<and> (\<exists>e' \<in> set xs. ends e' i)" by auto
    then have "es @ [e] = xs @ e2 # (ys @ [e]) \<and> opens e2 i \<and> (\<exists>e' \<in> set xs. ends e' i)" by simp
    then show ?thesis by blast
  qed
qed simp

lemma seen_overtaken: "uiView ob m \<inter> endedFor ob m \<subseteq> overtaken ob m"
  unfolding uiView_def endedFor_def overtaken_def using seen_and_ended by blast

subsection \<open>Events on their way\<close>

fun told :: "nat \<Rightarrow> task \<Rightarrow> Event set" where
  "told ob (Notify e) = {e}"
| "told ob (Deliver ob' e) = (if ob' = ob then {e} else {})"
| "told ob _ = {}"

definition flight :: "nat \<Rightarrow> (goroutine \<times> task list) list \<Rightarrow> Event set" where
  "flight ob gs = (\<Union>(g, ts) \<in> set gs. \<Union> (told ob ` set ts))"

definition created :: "Event set \<Rightarrow> string set" where "created E = {i. \<exists>e \<in> E. opens e i}"
definition ended :: "Event set \<Rightarrow> string set" where "ended E = {i. \<exists>e \<in> E. ends e i}"

lemma created_simps [simp]:
  "created {} = {}" "created (insert e E) = {i. opens e i} \<union> created E" "created (E \<union> E') = created E \<union> created E'"
  by (auto simp: created_def)

lemma ended_simps [simp]:
  "ended {} = {}" "ended (insert e E) = {i. ends e i} \<union> ended E" "ended (E \<union> E') = ended E \<union> ended E'"
  by (auto simp: ended_def)

lemma flight_simps [simp]:
  "flight ob [] = {}" "flight ob ((g, ts) # gs) = \<Union> (told ob ` set ts) \<union> flight ob gs"
  "flight ob (gs @ gs') = flight ob gs \<union> flight ob gs'" "flight ob (todo g ts) = \<Union> (told ob ` set ts)"
  by (auto simp: flight_def todo_def)

text \<open>One task: the events on their way to \<open>ob\<close>, and those it has got.\<close>

lemma eventsOf_frame [simp]:
  "eventsOf ob (m\<lparr>mg_pending := p\<rparr>) = eventsOf ob m" "eventsOf ob (m\<lparr>mg_cache := c\<rparr>) = eventsOf ob m"
  "eventsOf ob (m\<lparr>mg_autoApproveRules := r\<rparr>) = eventsOf ob m" "eventsOf ob (m\<lparr>mg_observers := os\<rparr>) = eventsOf ob m"
  "eventsOf ob (cacheApproval now req m) = eventsOf ob m" "eventsOf ob (closeDone i v m) = eventsOf ob m"
  "eventsOf ob (insertPending req m) = eventsOf ob m" "eventsOf ob (addHistory now e m) = eventsOf ob m"
  by (simp_all add: eventsOf_def cacheApproval_def closeDone_def insertPending_def)

lemma task_run_told:
  assumes "task_run now t m = (first, m')" and "ob \<in> set (mg_observers m)"
  shows "(\<exists>e. t = Deliver ob e \<and> first = [] \<and> eventsOf ob m' = eventsOf ob m @ [e]) \<or>
         ((\<forall>e. t \<noteq> Deliver ob e) \<and> eventsOf ob m' = eventsOf ob m \<and>
          created (\<Union> (told ob ` set first)) = created (told ob t) \<and> ended (\<Union> (told ob ` set first)) = ended (told ob t))"
proof (cases t)
  case (Notify e)
  have "\<Union> (told ob ` set first) = {e}"
    using assms Notify by (auto simp: notify_tasks_def split: if_splits)
  then show ?thesis using Notify assms(1) by auto
next
  case (AddRule uid req)
  then show ?thesis using assms(1) by (auto simp: AddAutoApproveRule_section_def Let_def split: option.splits)
qed (use assms(1) in \<open>auto simp: eventsOf_def\<close>)

subsection \<open>The view in step with the manager\<close>

text \<open>
  The view \<open>V\<close> against the pending requests \<open>P\<close>, the calls on their way out \<open>L\<close>, the calls without a
  request \<open>C\<close>, the used IDs \<open>U\<close>, the requests whose creation (\<open>B\<close>) or end (\<open>E\<close>) is on its way to the
  client, and those whose end it has been told (\<open>X\<close>).
\<close>

definition mirror :: "string set \<Rightarrow> string set \<Rightarrow> string set \<Rightarrow> string set \<Rightarrow> string set \<Rightarrow> string set \<Rightarrow> string set \<Rightarrow> string set \<Rightarrow> bool" where
  "mirror V P L C U B E X \<longleftrightarrow>
     P - L \<subseteq> V \<union> B \<and> V \<union> B \<subseteq> P \<union> E \<union> X \<and> E \<inter> (P - L) = {} \<and> P \<inter> L \<subseteq> E \<union> X \<and> B \<union> E \<subseteq> U - C"

lemma mirror_changes:
  assumes "mirror V P L C U B E X"
  shows "mirror V P L C (insert i U) B E X"
    and "i \<notin> U \<Longrightarrow> mirror V P L (insert i C) (insert i U) B E X"
    and "mirror V P L (C - {i}) U B E X"
    and "i \<in> C \<Longrightarrow> i \<in> U \<Longrightarrow> i \<notin> P \<Longrightarrow> N \<subseteq> {i} \<Longrightarrow> mirror V P L (C - {i}) U B (N \<union> E) X"
    and "i \<in> C \<Longrightarrow> i \<in> U \<Longrightarrow> i \<notin> L \<Longrightarrow> mirror V (insert i P) L (C - {i}) U (insert i B) E X"
    and "i \<notin> U \<Longrightarrow> i \<notin> C \<Longrightarrow> i \<notin> L \<Longrightarrow> mirror V (insert i P) L C (insert i U) (insert i B) E X"
    and "i \<notin> U \<Longrightarrow> i \<notin> C \<Longrightarrow> i \<notin> P \<Longrightarrow> N \<subseteq> {i} \<Longrightarrow> mirror V P L C (insert i U) B (N \<union> E) X"
    and "i \<in> U - C \<Longrightarrow> mirror V (P - {i}) L C U B (insert i E) X"
    and "i \<in> U - C \<Longrightarrow> mirror V P (insert i L) C U B (insert i E) X"
    and "i \<notin> P \<Longrightarrow> mirror V P (insert i L) C U B E X"
    and "i \<in> L \<Longrightarrow> mirror V (P - {i}) (L - {i}) C U B E X"
  using assms unfolding mirror_def by blast+

lemma mirror_deliver:
  assumes "mirror V P L C U (N \<union> B) (M \<union> E) X"
  shows "mirror ((V \<union> N) - M) P L C U B E (X \<union> M)"
  using assms unfolding mirror_def by blast

abbreviation pendingIDs :: "AM \<Rightarrow> string set" where "pendingIDs a \<equiv> dom (map_of (mg_pending (am_mgr a)))"

definition in_step :: "nat \<Rightarrow> AM \<Rightarrow> bool" where
  "in_step ob a \<longleftrightarrow> mirror (uiView ob (am_mgr a)) (pendingIDs a) (dom (map_of (am_leaving a))) (dom (map_of (am_calls a)))
     (set (am_used a)) (created (flight ob (am_tasks a))) (ended (flight ob (am_tasks a))) (endedFor ob (am_mgr a))"

lemma view_same:
  assumes "eventsOf ob m' = eventsOf ob m"
  shows "uiView ob m' = uiView ob m" "endedFor ob m' = endedFor ob m"
  using assms by (simp_all add: uiView_def endedFor_def)

lemma view_frame [simp]:
  "uiView ob (m\<lparr>mg_pending := p\<rparr>) = uiView ob m" "endedFor ob (m\<lparr>mg_pending := p\<rparr>) = endedFor ob m"
  "uiView ob (closeDone i v m) = uiView ob m" "endedFor ob (closeDone i v m) = endedFor ob m"
  "uiView ob (insertPending req m) = uiView ob m" "endedFor ob (insertPending req m) = endedFor ob m"
  by (simp_all add: uiView_def endedFor_def)

lemma call_rules_event:
  "call_rules now i c m = (Some (r, e), m') \<Longrightarrow> {j. opens e j} = {} \<and> {j. ends e j} \<subseteq> {i}"
  by (auto simp: call_rules_def call_request_def newRequest_def Let_def split: if_splits option.splits prod.splits)

lemma recorded_event_ends: "recorded_event uid e \<Longrightarrow> {j. opens e j} = {} \<and> {j. ends e j} \<subseteq> {uid}"
  by (cases rule: recorded_event.cases) (auto simp: newRequest_def)

lemma silent_steps:
  "call_cache now c m = (hit, m1) \<Longrightarrow> eventsOf ob m1 = eventsOf ob m"
  "call_rules now i c m = (d, m2) \<Longrightarrow> eventsOf ob m2 = eventsOf ob m"
  "side_section m tasks m3 \<Longrightarrow> eventsOf ob m3 = eventsOf ob m \<and> created (flight ob (todo g tasks)) = {} \<and> ended (flight ob (todo g tasks)) = {}"
  "takePending i v m = Some (req, m4) \<Longrightarrow> eventsOf ob m4 = eventsOf ob m"
proof -
  show "call_cache now c m = (hit, m1) \<Longrightarrow> eventsOf ob m1 = eventsOf ob m"
    by (auto simp: call_cache_def checkApprovalCache_def split: if_splits prod.splits)
  show "call_rules now i c m = (d, m2) \<Longrightarrow> eventsOf ob m2 = eventsOf ob m"
    by (auto simp: call_rules_def Let_def checkAutoApproveRules_eq split: if_splits option.splits)
  show "side_section m tasks m3 \<Longrightarrow> eventsOf ob m3 = eventsOf ob m \<and> created (flight ob (todo g tasks)) = {} \<and> ended (flight ob (todo g tasks)) = {}"
    by (induction rule: side_section.induct)
       (auto simp: RemoveAutoApproveRule_section_def checkAutoApproveRules_eq CacheItemForSender_def split: option.splits)
  show "takePending i v m = Some (req, m4) \<Longrightarrow> eventsOf ob m4 = eventsOf ob m"
    by (auto simp: takePending_def split: option.splits)
qed

text \<open>How a step of the machine that only sends an event looks from here.\<close>

lemma in_step_init: "am_init a \<Longrightarrow> in_step ob (a\<lparr>am_mgr := Subscribe ob (am_mgr a)\<rparr>)"
  by (auto simp: in_step_def mirror_def am_init_def am_start_def NewManager_def Subscribe_def uiView_def eventsOf_def endedFor_def)

lemma inv_pending_ID: "am_inv a \<Longrightarrow> map_of (mg_pending (am_mgr a)) i = Some req \<Longrightarrow> rq_ID req = i"
  by (auto simp: am_inv_def Let_def owned_def)

lemma apart_owner: "apart C W L G D U \<Longrightarrow> i \<in> W \<union> L \<union> G \<Longrightarrow> i \<in> U - C"
  unfolding apart_def by blast

lemma inv_owner_used:
  assumes "am_inv a"
  shows "map_of (mg_pending (am_mgr a)) i = Some req \<Longrightarrow> i \<in> set (am_used a) - dom (map_of (am_calls a))"
    and "map_of (am_waiting a) i = Some req \<Longrightarrow> i \<in> set (am_used a) - dom (map_of (am_calls a))"
    and "map_of (am_watching a) i = Some req \<Longrightarrow> i \<in> set (am_used a) - dom (map_of (am_calls a))"
proof -
  note ap = apart_owner [OF am_inv_apart [OF assms], of i]
  show "map_of (mg_pending (am_mgr a)) i = Some req \<Longrightarrow> i \<in> set (am_used a) - dom (map_of (am_calls a))"
    by (rule ap) (use am_invD(2) [OF assms] in \<open>simp add: owned_def\<close>)
  show "map_of (am_waiting a) i = Some req \<Longrightarrow> i \<in> set (am_used a) - dom (map_of (am_calls a))" by (rule ap) auto
  show "map_of (am_watching a) i = Some req \<Longrightarrow> i \<in> set (am_used a) - dom (map_of (am_calls a))" by (rule ap) auto
qed

lemma inv_unused_call: "am_inv a \<Longrightarrow> i \<notin> set (am_used a) \<Longrightarrow> i \<notin> dom (map_of (am_calls a))"
  using am_inv_apart [of a] unfolding apart_def by blast

lemma free_dom: "free a i \<Longrightarrow> i \<notin> dom (map_of (mg_pending (am_mgr a))) \<and> i \<notin> dom (map_of (am_leaving a))"
  by (auto simp: free_def)

lemma in_step_step:
  assumes "am_step a b" and "am_inv a" and "ob \<in> set (mg_observers (am_mgr a))" and "in_step ob a"
  shows "in_step ob b"
  using assms(1)
proof cases
  case (call_hit uid now c m')
  then show ?thesis
    using mirror_changes(1) [OF assms(4) [unfolded in_step_def], of uid] call_cache_quiet [OF call_hit(3)] view_same [OF silent_steps(1) [OF call_hit(3), of ob]]
    by (simp add: in_step_def quiet_def)
next
  case (call_miss uid now c m')
  then show ?thesis
    using mirror_changes(2) [OF assms(4) [unfolded in_step_def], of uid] call_cache_quiet [OF call_miss(3)] view_same [OF silent_steps(1) [OF call_miss(3), of ob]]
    by (simp add: in_step_def quiet_def)
next
  case (call_rule i c now r e m')
  have "i \<in> dom (map_of (am_calls a))" using call_rule(2) by auto
  moreover have "free a i" using inv_free [OF assms(2)] call_rule(2) by simp
  ultimately show ?thesis
    using call_rule mirror_changes(4) [OF assms(4) [unfolded in_step_def], of i "{j. ends e j}"] inv_call_used [OF assms(2) call_rule(2)]
      call_rules_event [OF call_rule(3)] call_rules_quiet [OF call_rule(3)] view_same [OF silent_steps(2) [OF call_rule(3), of ob]] free_dom
    by (simp add: in_step_def quiet_def)
next
  case (call_return i r)
  then show ?thesis using assms(4) by (simp add: in_step_def)
next
  case (call_no_rule i c now m')
  then show ?thesis
    using assms(4) call_rules_quiet [OF call_no_rule(3)] view_same [OF silent_steps(2) [OF call_no_rule(3), of ob]]
    by (simp add: in_step_def quiet_def insert_absorb domI)
next
  case (call_wait i c req now)
  have i: "rq_ID req = i" using call_wait(3) by (simp add: call_request_def newRequest_def)
  have "i \<in> dom (map_of (am_calls a))" using call_wait(2) by auto
  moreover have "free a i" using inv_free [OF assms(2)] call_wait(2) by simp
  ultimately show ?thesis
    using call_wait(1) i mirror_changes(5) [OF assms(4) [unfolded in_step_def], of i] inv_call_used [OF assms(2) call_wait(2)] free_dom
    by (simp add: in_step_def insertPending_def)
next
  case (resolve_ok op i tasks m')
  obtain req rest where t: "takePending i (verdict op) (am_mgr a) = Some (req, m')"
    "tasks = Notify (reqEvent (settling_event op) (settled_request op req)) # rest"
    "set rest \<subseteq> range CacheIt \<union> {AddRule uid req' | uid req'. True}" using resolve_section_Some [OF resolve_ok(2)] by blast
  then have p: "map_of (mg_pending (am_mgr a)) i = Some req" by (auto simp: takePending_def split: option.splits)
  have D: "map_of (mg_done (am_mgr a)) i = None" using am_invD(2) [OF assms(2)] p by (auto simp: owned_def)
  have i: "rq_ID req = i" using inv_pending_ID [OF assms(2) p] .
  have "told ob x = {}" if "x \<in> set rest" for x using that t(3) by auto
  then have r: "\<Union> (told ob ` set rest) = {}" by simp
  have e: "{j. ends (reqEvent (settling_event op) (settled_request op req)) j} = {i}"
    "{j. opens (reqEvent (settling_event op) (settled_request op req)) j} = {}" using i by (cases op; simp)+
  show ?thesis
    using resolve_ok(1) t(2) r e mirror_changes(8) [OF assms(4) [unfolded in_step_def], of i] inv_owner_used(1) [OF assms(2) p]
      takePending_effect [OF t(1) D] view_same [OF silent_steps(4) [OF t(1), of ob]]
    by (simp add: in_step_def del: opens_simps ends_simps)
next
  case (wake i req now r m')
  have i: "rq_ID req = i" using inv_waiting_at [OF assms(2) wake(2)] by simp
  with wake(4) obtain v where "map_of (mg_done (am_mgr a)) i = Some v" "m' = am_mgr a"
    by (auto simp: RequireApproval_select_def split: option.splits)
  then have "i \<notin> pendingIDs a" "m' = am_mgr a" using inv_closed_at [OF assms(2)] by auto
  then show ?thesis using wake(1) mirror_changes(10) [OF assms(4) [unfolded in_step_def], of i] by (simp add: in_step_def)
next
  case (timer i req now)
  have i: "rq_ID req = i" using inv_waiting_at [OF assms(2) timer(2)] by simp
  show ?thesis using timer(1) i mirror_changes(9) [OF assms(4) [unfolded in_step_def], of i] inv_owner_used(2) [OF assms(2) timer(2)]
    by (simp add: in_step_def)
next
  case (ctx_done i req)
  have i: "rq_ID req = i" using inv_waiting_at [OF assms(2) ctx_done(2)] by simp
  show ?thesis using ctx_done(1) i mirror_changes(9) [OF assms(4) [unfolded in_step_def], of i] inv_owner_used(2) [OF assms(2) ctx_done(2)]
    by (simp add: in_step_def)
next
  case (leave i req r)
  have i: "rq_ID req = i" using inv_leaving_at [OF assms(2) leave(2)] by simp
  show ?thesis using leave(1,2) i mirror_changes(11) [OF assms(4) [unfolded in_step_def], of i]
    by (auto simp: in_step_def RequireApproval_cleanup_def)
next
  case (gpg_create uid req now client gi s)
  have i: "rq_ID req = uid" using gpg_create(3) by (simp add: gpgRequest_def newRequest_def)
  have "free a uid" using inv_free [OF assms(2)] gpg_create(2) by simp
  then show ?thesis
    using gpg_create(1,2) i mirror_changes(6) [OF assms(4) [unfolded in_step_def], of uid] inv_unused_call [OF assms(2) gpg_create(2)] free_dom
    by (simp add: in_step_def insertPending_def)
next
  case (gpg_auto uid now client gi s sig st)
  have "rq_ID (autoSigned now uid client gi s sig st) = uid" by (simp add: autoSigned_def gpgRequest_def newRequest_def)
  then have e: "{j. ends (reqEvent EventRequestAutoApproved (autoSigned now uid client gi s sig st)) j} \<subseteq> {uid}"
    "{j. opens (reqEvent EventRequestAutoApproved (autoSigned now uid client gi s sig st)) j} = {}" by auto
  have "free a uid" using inv_free [OF assms(2)] gpg_auto(2) by simp
  then show ?thesis
    using gpg_auto(1,2) e mirror_changes(7) [OF assms(4) [unfolded in_step_def] _ _ _ e(1)] inv_unused_call [OF assms(2) gpg_auto(2)] free_dom
    by (simp add: in_step_def free_def del: opens_simps ends_simps)
next
  case (gpg_resolved i req)
  then show ?thesis using assms(4) by (simp add: in_step_def)
next
  case (gpg_timer i req now)
  have i: "rq_ID req = i" using inv_watching_at [OF assms(2) gpg_timer(2)] by simp
  show ?thesis using gpg_timer(1) i mirror_changes(8) [OF assms(4) [unfolded in_step_def], of i] inv_owner_used(3) [OF assms(2) gpg_timer(2)]
    by (simp add: in_step_def gpgTimeout_remove_def)
next
  case (recorded_only uid e)
  have "free a uid" using inv_free [OF assms(2)] recorded_only(2) by simp
  then show ?thesis
    using recorded_only(1,2) mirror_changes(7) [OF assms(4) [unfolded in_step_def], of uid "{j. ends e j}"]
      recorded_event_ends [OF recorded_only(3)] inv_unused_call [OF assms(2) recorded_only(2)] free_dom
    by (simp add: in_step_def)
next
  case (side tasks m')
  then show ?thesis
    using assms(4) silent_steps(3) [OF side(2), of ob Other] view_same [of ob m' "am_mgr a"] side_section_quiet [OF side(2)]
    by (simp add: in_step_def quiet_def)
next
  case (subscribe m' x)
  have "eventsOf ob m' = eventsOf ob (am_mgr a)" using subscribe(3) by (auto simp: Subscribe_def Unsubscribe_def)
  from view_same [OF this] show ?thesis using subscribe(1) assms(4) subscribe_quiet [OF subscribe(3)]
    by (simp add: in_step_def quiet_def)
next
  case (run xs g t ts ys now first m')
  note q = task_run_quiet [OF run(3), unfolded quiet_def]
  define rest where "rest = flight ob xs \<union> \<Union> (told ob ` set ts) \<union> flight ob ys"
  have old: "created (flight ob (am_tasks a)) = created (told ob t) \<union> created rest"
    "ended (flight ob (am_tasks a)) = ended (told ob t) \<union> ended rest" by (auto simp: run(2) rest_def)
  have new: "created (flight ob (am_tasks b)) = created (\<Union> (told ob ` set first)) \<union> created rest"
    "ended (flight ob (am_tasks b)) = ended (\<Union> (told ob ` set first)) \<union> ended rest" by (auto simp: run(1) rest_def)
  have m: "mirror (uiView ob (am_mgr a)) (pendingIDs a) (dom (map_of (am_leaving a))) (dom (map_of (am_calls a)))
     (set (am_used a)) (created (told ob t) \<union> created rest) (ended (told ob t) \<union> ended rest) (endedFor ob (am_mgr a))"
    using assms(4) by (simp only: in_step_def old)
  from task_run_told [OF run(3) assms(3)] consider
      (tell) e where "t = Deliver ob e" "first = []" "eventsOf ob m' = eventsOf ob (am_mgr a) @ [e]"
    | (silent) "eventsOf ob m' = eventsOf ob (am_mgr a)" "created (\<Union> (told ob ` set first)) = created (told ob t)"
        "ended (\<Union> (told ob ` set first)) = ended (told ob t)" by blast
  then show ?thesis
  proof cases
    case tell
    have "uiView ob m' = (uiView ob (am_mgr a) \<union> {i. opens e i}) - {i. ends e i}" "endedFor ob m' = endedFor ob (am_mgr a) \<union> {i. ends e i}"
      using tell(3) by (auto simp: uiView_def uiEvent_def endedFor_def)
    then show ?thesis using mirror_deliver [OF m] tell(1,2) new run(1) q by (simp add: in_step_def)
  next
    case silent
    then show ?thesis using m new run(1) q view_same [OF silent(1)] by (simp add: in_step_def)
  qed
qed

subsection \<open>The connection beside the manager\<close>

text \<open>
  The client of connection \<open>ob\<close>: it is accepted before the first request and stays subscribed.  Every
  event the manager hands to it goes through \<open>OnEvent\<close> into its queue; the queue also takes the messages
  about trusted clients that come and go, and \<open>writePump\<close> empties it.
\<close>

record UI =
  ui_am :: AM
  ui_conn :: wsconn

inductive ui_step :: "nat \<Rightarrow> UI \<Rightarrow> UI \<Rightarrow> bool" for ob where
  ui_quiet:
  "am_step (ui_am s) b \<Longrightarrow> ob \<in> set (mg_observers (am_mgr b)) \<Longrightarrow>
   eventsOf ob (am_mgr b) = eventsOf ob (am_mgr (ui_am s)) \<Longrightarrow> ui_step ob s (s\<lparr>ui_am := b\<rparr>)"
| ui_told:
  "am_step (ui_am s) b \<Longrightarrow> ob \<in> set (mg_observers (am_mgr b)) \<Longrightarrow>
   eventsOf ob (am_mgr b) = eventsOf ob (am_mgr (ui_am s)) @ [e] \<Longrightarrow>
   ui_step ob s (s\<lparr>ui_am := b, ui_conn := conn_step ob (am_mgr b) (Told now e) (ui_conn s)\<rparr>)"
| ui_conn:
  "op = Joined client \<or> op = Left client \<or> op = Written \<Longrightarrow>
   ui_step ob s (s\<lparr>ui_conn := conn_step ob (am_mgr (ui_am s)) op (ui_conn s)\<rparr>)"

definition ui_init :: "nat \<Rightarrow> UI \<Rightarrow> bool" where
  "ui_init ob s \<longleftrightarrow>
     (\<exists>cfg version now r auth h. 0 \<le> mc_HistoryMax cfg \<and> ValidateRequest auth r \<and>
        (case conn_start version now ob r auth h (NewManager cfg) of
           (conn, m) \<Rightarrow> s = \<lparr>ui_am = (am_start cfg)\<lparr>am_mgr := m\<rparr>, ui_conn = conn\<rparr>))"

text \<open>What the client has read, and the requests it takes to be waiting.\<close>

definition uiSees :: "UI \<Rightarrow> string set" where
  "uiSees s = fold uiMsg (wc_got (ui_conn s)) {}"

definition caughtUp :: "nat \<Rightarrow> UI \<Rightarrow> bool" where
  "caughtUp ob s \<longleftrightarrow> \<not> wc_lost (ui_conn s) \<and> wsQueue ob (wc_handler (ui_conn s)) = []"

text \<open>No step of the manager is left out: one that keeps the subscription tells \<open>ob\<close> at most one event.\<close>

lemma am_step_told:
  assumes "am_step a b"
  shows "eventsOf ob (am_mgr b) = eventsOf ob (am_mgr a) \<or> (\<exists>e. eventsOf ob (am_mgr b) = eventsOf ob (am_mgr a) @ [e])"
  using assms
proof cases
  case (resolve_ok op i tasks m')
  then obtain req where "takePending i (verdict op) (am_mgr a) = Some (req, m')" using resolve_section_Some by blast
  then show ?thesis using silent_steps(4) resolve_ok(1) by simp
next
  case (run xs g t ts ys now first m')
  then show ?thesis by (cases t) (auto simp: eventsOf_def AddAutoApproveRule_section_def Let_def split: option.splits)
next
  case (wake i req now r m')
  then show ?thesis by (auto simp: RequireApproval_select_def split: option.splits)
qed (auto simp: silent_steps RequireApproval_cleanup_def gpgTimeout_remove_def Subscribe_def Unsubscribe_def)

definition ui_inv :: "nat \<Rightarrow> UI \<Rightarrow> bool" where
  "ui_inv ob s \<longleftrightarrow> am_inv (ui_am s) \<and> ob \<in> set (mg_observers (am_mgr (ui_am s))) \<and> in_step ob (ui_am s) \<and>
     conn_open ob (ui_conn s) \<and>
     (\<not> wc_lost (ui_conn s) \<longrightarrow>
        fold uiMsg (wc_got (ui_conn s) @ wsQueue ob (wc_handler (ui_conn s))) {} = uiView ob (am_mgr (ui_am s)))"

lemma offered_other:
  "op = Joined client \<or> op = Left client \<or> op = Written \<Longrightarrow> fold uiMsg (offered op) M = M"
  by (auto simp: uiMsg_def)

lemma ui_inv_conn:
  assumes "conn_open ob c" and "\<not> wc_lost c \<longrightarrow> fold uiMsg (wc_got c @ wsQueue ob (wc_handler c)) {} = V"
    and "\<not> wc_lost (conn_step ob m op c)"
  shows "fold uiMsg (wc_got (conn_step ob m op c) @ wsQueue ob (wc_handler (conn_step ob m op c))) {} = fold uiMsg (offered op) V"
proof -
  note k = conn_step_keeps [OF assms(1,3)]
  then have "fold uiMsg (wc_got c @ wsQueue ob (wc_handler c)) {} = V" using assms(2) by blast
  moreover have "wc_got (conn_step ob m op c) @ wsQueue ob (wc_handler (conn_step ob m op c)) =
      (wc_got c @ wsQueue ob (wc_handler c)) @ offered op" using k by simp
  ultimately show ?thesis by (simp only: fold_append comp_apply)
qed

lemma ui_step_inv: "ui_step ob s t \<Longrightarrow> ui_inv ob s \<Longrightarrow> ui_inv ob t"
proof (induction rule: ui_step.induct)
  case (ui_quiet s b)
  then have "am_inv b" "in_step ob b" using am_step_inv in_step_step by (auto simp: ui_inv_def)
  with ui_quiet show ?case using view_same(1) [OF ui_quiet(3)] by (simp add: ui_inv_def)
next
  case (ui_told s b e now)
  then have i: "am_inv b" "in_step ob b" "conn_open ob (ui_conn s)" using am_step_inv in_step_step by (auto simp: ui_inv_def)
  have "uiView ob (am_mgr b) = uiEvent e (uiView ob (am_mgr (ui_am s)))" using ui_told(3) by (simp add: uiView_def)
  with ui_inv_conn [OF i(3), of "uiView ob (am_mgr (ui_am s))" "am_mgr b" "Told now e"] i ui_told(2,4) conn_step_open [OF i(3)]
  show ?case by (simp add: ui_inv_def uiMsg_eventMessages)
next
  case (ui_conn op client s)
  then have c: "conn_open ob (ui_conn s)" by (simp add: ui_inv_def)
  with ui_inv_conn [OF c, of "uiView ob (am_mgr (ui_am s))" "am_mgr (ui_am s)" op] offered_other [OF ui_conn(1)] ui_conn(2)
    conn_step_open [OF c] show ?case by (simp add: ui_inv_def)
qed

lemma ui_init_inv: "ui_init ob s \<Longrightarrow> ui_inv ob s"
proof -
  assume "ui_init ob s"
  then obtain cfg version now r auth h where c: "0 \<le> mc_HistoryMax cfg" "ValidateRequest auth r"
    "case conn_start version now ob r auth h (NewManager cfg) of
       (conn, m) \<Rightarrow> s = \<lparr>ui_am = (am_start cfg)\<lparr>am_mgr := m\<rparr>, ui_conn = conn\<rparr>"
    unfolding ui_init_def by (elim exE conjE) (rule that)
  let ?m = "Subscribe ob (NewManager cfg)"
  note f = conn_start_facts [OF c(2), where c = ob and version = version and now = now and h = h and m = "NewManager cfg"]
  have s: "s = \<lparr>ui_am = (am_start cfg)\<lparr>am_mgr := ?m\<rparr>, ui_conn = fst (conn_start version now ob r auth h (NewManager cfg))\<rparr>"
    using c(3) f(4) by (simp add: case_prod_beta)
  have a: "am_init (am_start cfg)" by (rule am_init_start [OF c(1)])
  have "am_inv ((am_start cfg)\<lparr>am_mgr := ?m\<rparr>)"
    by (rule am_inv_quiet [OF am_init_inv [OF a]]) (auto simp: am_start_def quiet_def Subscribe_def)
  moreover have "in_step ob ((am_start cfg)\<lparr>am_mgr := ?m\<rparr>)" using in_step_init [OF a] by (simp add: am_start_def)
  moreover have "uiView ob ?m = {}" "ob \<in> set (mg_observers ?m)" "ListPending now ?m = []"
    by (auto simp: uiView_def eventsOf_def NewManager_def Subscribe_def ListPending_def)
  moreover have "fold uiMsg [snapshot version now (h\<lparr>wh_conns := gm_put ob [] (wh_conns h)\<rparr>) ?m] {} = {}"
    using calculation(5) by (simp add: uiMsg_def snapshot_def)
  ultimately show ?thesis using f by (simp add: ui_inv_def s)
qed

interpretation ui: invariant_system "ui_init ob" "ui_step ob" "ui_inv ob"
  by unfold_locales (auto intro: ui_init_inv ui_step_inv)


subsection \<open>Two runs\<close>

text \<open>
  Connection 1 is accepted and the call of Sample_Data is made.  Either its creation is announced before anything else
  happens, or the request is approved in between: the announcement of the end then arrives first.
\<close>

definition uiConn :: wsconn where
  "uiConn = fst (conn_start ''1.0'' 0 1 (exPost ''/api/v1/ws'' ''Bearer tok'') exAuth (NewWSHandler None ''/sock'' ''local'') (NewManager exConfig))"

definition uiMgr :: Manager where "uiMgr = Subscribe 1 (NewManager exConfig)"

abbreviation "evCreated \<equiv> reqEvent EventRequestCreated exRequest"
abbreviation "evApproved \<equiv> reqEvent EventRequestApproved exRequest"

definition uiAsked :: AM where
  "uiAsked = (am_start exConfig)\<lparr>am_mgr := insertPending exRequest uiMgr, am_waiting := [(''r1'', exRequest)],
     am_tasks := [(Caller ''r1'', [Notify evCreated])], am_used := [''r1'']\<rparr>"

definition uiShown :: AM where
  "uiShown = uiAsked\<lparr>am_mgr := carryOut 0 (Deliver 1 evCreated) (am_mgr uiAsked), am_tasks := []\<rparr>"

definition exUI :: UI where
  "exUI = \<lparr>ui_am = uiShown, ui_conn = conn_run 1 (am_mgr uiShown) [Told 0 evCreated, Written] uiConn\<rparr>"

lemma am_step_eq: "am_step a b \<Longrightarrow> b = c \<Longrightarrow> am_step a c"
  by simp

lemma ui_start: "reach (ui_init 1) (ui_step 1) \<lparr>ui_am = (am_start exConfig)\<lparr>am_mgr := uiMgr\<rparr>, ui_conn = uiConn\<rparr>"
proof (rule reach_init)
  have v: "ValidateRequest exAuth (exPost ''/api/v1/ws'' ''Bearer tok'')" by code_simp
  have "snd (conn_start ''1.0'' 0 1 (exPost ''/api/v1/ws'' ''Bearer tok'') exAuth (NewWSHandler None ''/sock'' ''local'') (NewManager exConfig)) = uiMgr"
    using conn_start_facts(4) [OF v] by (simp add: uiMgr_def)
  moreover have "0 \<le> mc_HistoryMax exConfig" by (simp add: exConfig_def)
  ultimately show "ui_init 1 \<lparr>ui_am = (am_start exConfig)\<lparr>am_mgr := uiMgr\<rparr>, ui_conn = uiConn\<rparr>"
    unfolding ui_init_def using v
    by (intro exI [of _ exConfig] exI [of _ "''1.0''"] exI [of _ 0] exI [of _ "exPost ''/api/v1/ws'' ''Bearer tok''"] exI [of _ exAuth]
      exI [of _ "NewWSHandler None ''/sock'' ''local''"]) (simp add: uiConn_def case_prod_beta)
qed

lemma ui_quiet_step:
  assumes "reach (ui_init ob) (ui_step ob) \<lparr>ui_am = a, ui_conn = c\<rparr>" and "am_step a b"
    and "ob \<in> set (mg_observers (am_mgr b))" and "eventsOf ob (am_mgr b) = eventsOf ob (am_mgr a)"
  shows "reach (ui_init ob) (ui_step ob) \<lparr>ui_am = b, ui_conn = c\<rparr>"
  using reach_step [OF assms(1)] ui_quiet [of "\<lparr>ui_am = a, ui_conn = c\<rparr>" b ob] assms(2-4) by simp

lemma ui_told_step:
  assumes "reach (ui_init ob) (ui_step ob) \<lparr>ui_am = a, ui_conn = c\<rparr>" and "am_step a b"
    and "ob \<in> set (mg_observers (am_mgr b))" and "eventsOf ob (am_mgr b) = eventsOf ob (am_mgr a) @ [e]"
  shows "reach (ui_init ob) (ui_step ob) \<lparr>ui_am = b, ui_conn = conn_step ob (am_mgr b) (Told now e) c\<rparr>"
  using reach_step [OF assms(1)] ui_told [of "\<lparr>ui_am = a, ui_conn = c\<rparr>" b ob e now] assms(2-4) by simp

lemma ui_written:
  assumes "reach (ui_init ob) (ui_step ob) \<lparr>ui_am = a, ui_conn = c\<rparr>"
  shows "reach (ui_init ob) (ui_step ob) \<lparr>ui_am = a, ui_conn = conn_step ob (am_mgr a) Written c\<rparr>"
  using reach_step [OF assms ui_conn [of Written "([], [])"]] by simp

lemma uiMgr_facts: "mg_observers uiMgr = [1]" "eventsOf ob uiMgr = []" "mg_timeout uiMgr = 1000" "mg_pending uiMgr = []"
  by (simp_all add: uiMgr_def Subscribe_def NewManager_def exConfig_def eventsOf_def)

lemma uiAsked_facts:
  "am_tasks uiAsked = [(Caller ''r1'', [Notify evCreated])]" "am_waiting uiAsked = [(''r1'', exRequest)]"
  "am_leaving uiAsked = []" "am_returned uiAsked = []" "am_resolved uiAsked = []"
  "mg_observers (am_mgr uiAsked) = [1]" "eventsOf ob (am_mgr uiAsked) = []"
  by (simp_all add: uiAsked_def am_start_def insertPending_def uiMgr_facts)

lemma reach_uiAsked: "reach (ui_init 1) (ui_step 1) \<lparr>ui_am = uiAsked, ui_conn = uiConn\<rparr>"
proof -
  let ?a0 = "(am_start exConfig)\<lparr>am_mgr := uiMgr\<rparr>"
  let ?a1 = "?a0\<lparr>am_calls := [(''r1'', Uncached exAsk)], am_used := [''r1'']\<rparr>"
  let ?a2 = "?a0\<lparr>am_calls := [(''r1'', Unmatched exAsk)], am_used := [''r1'']\<rparr>"
  have "call_cache 100 exAsk uiMgr = (False, uiMgr)" by code_simp
  then have 1: "am_step ?a0 ?a1" using call_miss [of "''r1''" ?a0 100 exAsk uiMgr] by (simp add: am_start_def)
  have "call_rules 100 ''r1'' exAsk uiMgr = (None, uiMgr)" by code_simp
  then have 2: "am_step ?a1 ?a2" using call_no_rule [of ?a1 "''r1''" exAsk 100 uiMgr] by (simp add: am_start_def)
  have "exRequest = call_request 100 (100 + mg_timeout uiMgr) ''r1'' exAsk" by code_simp
  then have 3: "am_step ?a2 uiAsked"
    using call_wait [of ?a2 "''r1''" exAsk exRequest 100] by (simp add: am_start_def uiAsked_def)
  from ui_quiet_step [OF ui_start 1] have "reach (ui_init 1) (ui_step 1) \<lparr>ui_am = ?a1, ui_conn = uiConn\<rparr>" by (simp add: uiMgr_facts)
  from ui_quiet_step [OF this 2] have "reach (ui_init 1) (ui_step 1) \<lparr>ui_am = ?a2, ui_conn = uiConn\<rparr>" by (simp add: uiMgr_facts)
  from ui_quiet_step [OF this 3] show ?thesis by (simp add: uiMgr_facts uiAsked_facts)
qed

lemma notify_tasks_1: "notify_tasks [1] evCreated = [Deliver 1 evCreated]" "notify_tasks [1] evApproved = [Deliver 1 evApproved, Record evApproved]"
  by (simp_all add: notify_tasks_def)

lemma reach_exUI: "reach (ui_init 1) (ui_step 1) exUI"
proof -
  let ?b = "uiAsked\<lparr>am_tasks := [(Caller ''r1'', [Deliver 1 evCreated])]\<rparr>"
  have 1: "am_step uiAsked ?b"
    using run_head [of uiAsked "Caller ''r1''" "Notify evCreated" "[]" "[]" 0 "[Deliver 1 evCreated]" "am_mgr uiAsked"] uiAsked_facts notify_tasks_1
    by (simp add: todo_def)
  have 2: "am_step ?b uiShown"
    using run_head [of ?b "Caller ''r1''" "Deliver 1 evCreated" "[]" "[]" 0 "[]" "carryOut 0 (Deliver 1 evCreated) (am_mgr uiAsked)"]
    by (simp add: uiShown_def todo_def)
  from ui_quiet_step [OF reach_uiAsked 1] have "reach (ui_init 1) (ui_step 1) \<lparr>ui_am = ?b, ui_conn = uiConn\<rparr>"
    by (simp add: uiAsked_facts)
  from ui_told_step [OF this 2, of evCreated 0]
  have "reach (ui_init 1) (ui_step 1) \<lparr>ui_am = uiShown, ui_conn = conn_step 1 (am_mgr uiShown) (Told 0 evCreated) uiConn\<rparr>"
    using uiAsked_facts(6,7) by (simp add: uiShown_def eventsOf_def)
  from ui_written [OF this] show ?thesis by (simp add: exUI_def conn_run_def)
qed


text \<open>
  The other order.  The manager's state after each section: the approval, its delivery, its record, the
  approved item cached, the delivery of the creation, the caller gone.
\<close>

definition gh1 :: Manager where "gh1 = snd (the (Approve_section ''r1'' (am_mgr uiAsked)))"
definition gh2 :: Manager where "gh2 = carryOut 110 (Deliver 1 evApproved) gh1"
definition gh3 :: Manager where "gh3 = carryOut 110 (CacheIt exRequest) (carryOut 110 (Record evApproved) gh2)"
definition gh4 :: Manager where "gh4 = carryOut 111 (Deliver 1 evCreated) gh3"
definition gh5 :: Manager where "gh5 = RequireApproval_cleanup exRequest gh4"

definition exGhost :: UI where
  "exGhost = \<lparr>ui_am = uiAsked\<lparr>am_mgr := gh5, am_waiting := [], am_tasks := [], am_returned := [(''r1'', (False, None))],
                                 am_resolved := [(''r1'', True)]\<rparr>,
     ui_conn = conn_run 1 gh5 [Written, Written, Written]
       (conn_step 1 gh4 (Told 111 evCreated) (conn_step 1 gh2 (Told 110 evApproved) uiConn))\<rparr>"

lemma gh_facts:
  "mg_observers (am_mgr uiAsked) = [1]" "mg_observers gh1 = [1]" "mg_observers gh2 = [1]" "mg_observers gh3 = [1]" "mg_observers gh4 = [1]"
  "mg_observers gh5 = [1]"
  "eventsOf 1 (am_mgr uiAsked) = []" "eventsOf 1 gh1 = []" "eventsOf 1 gh2 = [evApproved]" "eventsOf 1 gh3 = [evApproved]"
  "eventsOf 1 gh4 = [evApproved, evCreated]" "eventsOf 1 gh5 = [evApproved, evCreated]"
  "resolve_section RApprove ''r1'' (am_mgr uiAsked) = Some ([Notify evApproved, CacheIt exRequest], gh1)"
  "RequireApproval_select SelDone 112 exRequest gh4 = (Some (False, None), gh4)"
  by code_simp+

lemma reach_exGhost: "reach (ui_init 1) (ui_step 1) exGhost"
proof -
  let ?c = "(Caller ''r1'', [Notify evCreated])" and ?R = "Resolver ''r1''"
  let ?a = "\<lambda>m ts. uiAsked\<lparr>am_resolved := [(''r1'', True)], am_mgr := m, am_tasks := ts\<rparr>"
  have 1: "am_step uiAsked (?a gh1 [(?R, [Notify evApproved, CacheIt exRequest]), ?c])"
    by (rule am_step_eq [OF resolve_ok [of RApprove "''r1''" uiAsked "[Notify evApproved, CacheIt exRequest]" gh1]])
       (use gh_facts in \<open>simp, intro AM.equality, simp_all add: todo_def uiAsked_facts\<close>)
  have 2: "am_step (?a gh1 [(?R, [Notify evApproved, CacheIt exRequest]), ?c])
      (?a gh1 [(?R, [Deliver 1 evApproved, Record evApproved, CacheIt exRequest]), ?c])"
    using run_head [of "?a gh1 [(?R, [Notify evApproved, CacheIt exRequest]), ?c]" ?R "Notify evApproved" "[CacheIt exRequest]" "[?c]" 110 "[Deliver 1 evApproved, Record evApproved]" "gh1"] notify_tasks_1 gh_facts by (simp add: todo_def)
  have 3: "am_step (?a gh1 [(?R, [Deliver 1 evApproved, Record evApproved, CacheIt exRequest]), ?c])
      (?a gh2 [(?R, [Record evApproved, CacheIt exRequest]), ?c])"
    using run_head [of "?a gh1 [(?R, [Deliver 1 evApproved, Record evApproved, CacheIt exRequest]), ?c]" ?R "Deliver 1 evApproved" "[Record evApproved, CacheIt exRequest]" "[?c]" 110 "[]" "gh2"] by (simp add: todo_def gh2_def)
  have 4: "am_step (?a gh2 [(?R, [Record evApproved, CacheIt exRequest]), ?c])
      (?a (carryOut 110 (Record evApproved) gh2) [(?R, [CacheIt exRequest]), ?c])"
    using run_head [of "?a gh2 [(?R, [Record evApproved, CacheIt exRequest]), ?c]" ?R "Record evApproved" "[CacheIt exRequest]" "[?c]" 110 "[]" "carryOut 110 (Record evApproved) gh2"] by (simp add: todo_def)
  have 5: "am_step (?a (carryOut 110 (Record evApproved) gh2) [(?R, [CacheIt exRequest]), ?c]) (?a gh3 [?c])"
    using run_head [of "?a (carryOut 110 (Record evApproved) gh2) [(?R, [CacheIt exRequest]), ?c]" ?R "CacheIt exRequest" "[]" "[?c]" 110 "[]" "gh3"] by (simp add: todo_def gh3_def)
  have 6: "am_step (?a gh3 [?c]) (?a gh3 [(Caller ''r1'', [Deliver 1 evCreated])])"
    using run_head [of "?a gh3 [?c]" "Caller ''r1''" "Notify evCreated" "[]" "[]" 111 "[Deliver 1 evCreated]" "gh3"] notify_tasks_1 gh_facts by (simp add: todo_def)
  have 7: "am_step (?a gh3 [(Caller ''r1'', [Deliver 1 evCreated])]) (?a gh4 [])"
    using run_head [of "?a gh3 [(Caller ''r1'', [Deliver 1 evCreated])]" "Caller ''r1''" "Deliver 1 evCreated" "[]" "[]" 111 "[]" "gh4"] by (simp add: todo_def gh4_def)
  have 8: "am_step (?a gh4 []) ((?a gh4 [])\<lparr>am_waiting := [], am_leaving := [(''r1'', Leaving exRequest (False, None))]\<rparr>)"
    by (rule am_step_eq [OF wake [of _ "''r1''" exRequest 112 "(False, None)" gh4]], simp add: uiAsked_facts, simp add: busy_def,
        use gh_facts in simp, intro AM.equality, simp_all add: uiAsked_facts)
  have 9: "am_step ((?a gh4 [])\<lparr>am_waiting := [], am_leaving := [(''r1'', Leaving exRequest (False, None))]\<rparr>) (ui_am exGhost)"
    by (rule am_step_eq [OF leave [of _ "''r1''" exRequest "(False, None)"]], simp, simp add: busy_def,
        intro AM.equality, simp_all add: exGhost_def gh5_def uiAsked_facts)
  let ?u = "\<lambda>a c. reach (ui_init 1) (ui_step 1) \<lparr>ui_am = a, ui_conn = c\<rparr>"
  let ?c1 = "conn_step 1 gh2 (Told 110 evApproved) uiConn"
  let ?c2 = "conn_step 1 gh4 (Told 111 evCreated) ?c1"
  have "?u (?a gh1 [(?R, [Notify evApproved, CacheIt exRequest]), ?c]) uiConn"
    using ui_quiet_step [OF reach_uiAsked 1] gh_facts by simp
  then have "?u (?a gh1 [(?R, [Deliver 1 evApproved, Record evApproved, CacheIt exRequest]), ?c]) uiConn"
    using ui_quiet_step [OF _ 2] gh_facts by simp
  then have "?u (?a gh2 [(?R, [Record evApproved, CacheIt exRequest]), ?c]) ?c1"
    using ui_told_step [OF _ 3, of 1 uiConn evApproved 110] gh_facts by simp
  then have "?u (?a (carryOut 110 (Record evApproved) gh2) [(?R, [CacheIt exRequest]), ?c]) ?c1"
    using ui_quiet_step [OF _ 4] gh_facts by simp
  then have "?u (?a gh3 [?c]) ?c1" using ui_quiet_step [OF _ 5] gh_facts by simp
  then have "?u (?a gh3 [(Caller ''r1'', [Deliver 1 evCreated])]) ?c1" using ui_quiet_step [OF _ 6] gh_facts by simp
  then have "?u (?a gh4 []) ?c2" using ui_told_step [OF _ 7, of 1 ?c1 evCreated 111] gh_facts by simp
  then have "?u ((?a gh4 [])\<lparr>am_waiting := [], am_leaving := [(''r1'', Leaving exRequest (False, None))]\<rparr>) ?c2"
    using ui_quiet_step [OF _ 8] gh_facts by simp
  then have e: "?u (ui_am exGhost) ?c2" using ui_quiet_step [OF _ 9] gh_facts by (simp add: exGhost_def)
  have m: "am_mgr (ui_am exGhost) = gh5" by (simp add: exGhost_def)
  from ui_written [OF ui_written [OF ui_written [OF e]]] show ?thesis
    by (simp add: m conn_run_def) (simp add: exGhost_def conn_run_def)
qed

text \<open>
  Because \<open>RequireApproval\<close> announces a request after it has released the lock, a decision taken in
  between is announced first.  The client then shows, and keeps showing, a request that is no longer
  there: everything has been delivered, nothing was dropped, nothing is pending.
\<close>

theorem created_after_resolved_leaves_ghost:
  "reach (ui_init 1) (ui_step 1) exGhost \<and> caughtUp 1 exGhost \<and> am_tasks (ui_am exGhost) = [] \<and>
   am_leaving (ui_am exGhost) = [] \<and> mg_pending (am_mgr (ui_am exGhost)) = [] \<and>
   am_returned (ui_am exGhost) = [(''r1'', (False, None))] \<and> uiSees exGhost = {''r1''}"
proof (intro conjI)
  show "reach (ui_init 1) (ui_step 1) exGhost" by (rule reach_exGhost)
  show "caughtUp 1 exGhost" unfolding caughtUp_def by code_simp
  show "am_tasks (ui_am exGhost) = []" "am_leaving (ui_am exGhost) = []" "am_returned (ui_am exGhost) = [(''r1'', (False, None))]"
    by (simp_all add: exGhost_def uiAsked_facts)
qed code_simp+

end
