(* ===== verification/Proxy_Watcher.thy ===== *)
theory Proxy_Watcher
  imports Go_Strings
begin

text \<open>
  \<^verbatim>\<open>internal/proxy/manager.go\<close>: the directory watcher that runs one proxy for each socket file.
  An instance of a proxy is a number.  Connecting to the two buses may fail (\<open>connected\<close>); the goroutine
  of an instance ends some time after its context is cancelled or its connection breaks, and then runs
  its clean-up (\<open>finishProxy\<close>).
\<close>

datatype watch_event = ClientConnected string string | ClientDisconnected string string

record proxyInstance =
  px_id :: nat
  px_client :: string
  px_socket :: string

record ProxyManager =
  pw_proxies :: "(string, proxyInstance) gomap"
  pw_running :: "proxyInstance list"
  pw_cancelled :: "nat list"
  pw_next :: nat
  pw_observers :: "nat list"
  pw_events :: "watch_event list"

definition newProxyManager :: ProxyManager where
  "newProxyManager = \<lparr>pw_proxies = [], pw_running = [], pw_cancelled = [], pw_next = 0, pw_observers = [], pw_events = []\<rparr>"

definition isSocketFile :: "string \<Rightarrow> bool" where
  "isSocketFile name = HasSuffix name ''.sock''"

text \<open>\<open>filepath.Base\<close>: the last element of the path, without trailing slashes.\<close>

definition Base :: "string \<Rightarrow> string" where
  "Base path =
     (if path = [] then ''.''
      else (let p = TrimRightByte path (CHR ''/'') in
            if p = [] then ''/'' else rev (takeWhile (\<lambda>c. c \<noteq> CHR ''/'') (rev p))))"

definition clientNameFromSocket :: "string \<Rightarrow> string" where
  "clientNameFromSocket socketPath = TrimSuffix (Base socketPath) ''.sock''"

definition notifyWatch :: "watch_event \<Rightarrow> ProxyManager \<Rightarrow> ProxyManager" where
  "notifyWatch e m = m\<lparr>pw_events := pw_events m @ map (\<lambda>_. e) (pw_observers m)\<rparr>"

definition startProxy :: "bool \<Rightarrow> string \<Rightarrow> ProxyManager \<Rightarrow> ProxyManager" where
  "startProxy connected socketPath m =
     (if map_of (pw_proxies m) socketPath \<noteq> None then m
      else if \<not> connected then m
      else (let clientName = clientNameFromSocket socketPath;
                inst = \<lparr>px_id = pw_next m, px_client = clientName, px_socket = socketPath\<rparr>;
                m = m\<lparr>pw_proxies := gm_put socketPath inst (pw_proxies m), pw_next := pw_next m + 1,
                      pw_running := inst # pw_running m\<rparr>
            in notifyWatch (ClientConnected clientName socketPath) m))"

text \<open>The end of an instance's goroutine: the map entry of its socket path is deleted.\<close>

definition finishProxy :: "proxyInstance \<Rightarrow> ProxyManager \<Rightarrow> ProxyManager" where
  "finishProxy inst m =
     notifyWatch (ClientDisconnected (px_client inst) (px_socket inst))
       (m\<lparr>pw_running := remove1 inst (pw_running m), pw_proxies := gm_del (px_socket inst) (pw_proxies m)\<rparr>)"

definition stopProxy :: "string \<Rightarrow> ProxyManager \<Rightarrow> ProxyManager" where
  "stopProxy socketPath m =
     (case map_of (pw_proxies m) socketPath of
        None \<Rightarrow> m
      | Some inst \<Rightarrow> m\<lparr>pw_proxies := gm_del socketPath (pw_proxies m), pw_cancelled := px_id inst # pw_cancelled m\<rparr>)"

definition stopAllProxies :: "ProxyManager \<Rightarrow> ProxyManager" where
  "stopAllProxies m = m\<lparr>pw_proxies := [], pw_cancelled := map (px_id \<circ> snd) (pw_proxies m) @ pw_cancelled m\<rparr>"

datatype fs_op = FsCreate | FsRemove | FsRename | FsOther

definition handleEvent :: "bool \<Rightarrow> fs_op \<Rightarrow> string \<Rightarrow> ProxyManager \<Rightarrow> ProxyManager" where
  "handleEvent connected op name m =
     (if \<not> isSocketFile name then m
      else (case op of
              FsCreate \<Rightarrow> startProxy connected name m
            | FsRemove \<Rightarrow> stopProxy name m
            | FsRename \<Rightarrow> stopProxy name m
            | FsOther \<Rightarrow> m))"

text \<open>The initial scan; an entry is its name with the flag that it is a directory.\<close>

fun scanExistingSockets :: "bool \<Rightarrow> string \<Rightarrow> (string \<times> bool) list \<Rightarrow> ProxyManager \<Rightarrow> ProxyManager" where
  "scanExistingSockets connected dir [] m = m"
| "scanExistingSockets connected dir ((name, isDir) # rest) m =
     (if isDir then scanExistingSockets connected dir rest m
      else if \<not> isSocketFile name then scanExistingSockets connected dir rest m
      else scanExistingSockets connected dir rest (startProxy connected (dir @ ''/'' @ name) m))"

definition ProxyClients :: "ProxyManager \<Rightarrow> (string \<times> string) list" where
  "ProxyClients m = map (\<lambda>(path, inst). (px_client inst, path)) (pw_proxies m)"

definition SubscribeClients :: "nat \<Rightarrow> ProxyManager \<Rightarrow> ProxyManager" where
  "SubscribeClients ob m = m\<lparr>pw_observers := pw_observers m @ [ob]\<rparr>"

definition UnsubscribeClients :: "nat \<Rightarrow> ProxyManager \<Rightarrow> ProxyManager" where
  "UnsubscribeClients ob m = m\<lparr>pw_observers := remove1 ob (pw_observers m)\<rparr>"

subsection \<open>The watcher as a state machine\<close>

inductive pw_step :: "ProxyManager \<Rightarrow> ProxyManager \<Rightarrow> bool" where
  pw_event: "pw_step m (handleEvent connected op name m)"
| pw_scan: "pw_step m (scanExistingSockets connected dir entries m)"
| pw_finish: "inst \<in> set (pw_running m) \<Longrightarrow> pw_step m (finishProxy inst m)"
| pw_stop: "pw_step m (stopAllProxies m)"
| pw_sub: "pw_step m (SubscribeClients ob m)"
| pw_unsub: "pw_step m (UnsubscribeClients ob m)"

text \<open>
  A listed client is a running instance for that very socket; instance numbers are not reused.
\<close>

definition pw_inv :: "ProxyManager \<Rightarrow> bool" where
  "pw_inv m \<longleftrightarrow> gm_wf (pw_proxies m) \<and>
     (\<forall>p inst. map_of (pw_proxies m) p = Some inst \<longrightarrow>
        inst \<in> set (pw_running m) \<and> px_socket inst = p \<and> px_client inst = clientNameFromSocket p) \<and>
     (\<forall>inst \<in> set (pw_running m). px_id inst < pw_next m) \<and> distinct (map px_id (pw_running m))"

declare map_of_eq_Some_iff [simp del]

lemma notifyWatch_inv [simp]: "pw_inv (notifyWatch e m) = pw_inv m"
  by (simp add: pw_inv_def notifyWatch_def)

lemma startProxy_inv: "pw_inv m \<Longrightarrow> pw_inv (startProxy connected p m)"
proof -
  assume i: "pw_inv m"
  then have "pw_next m \<notin> px_id ` set (pw_running m)" by (auto simp: pw_inv_def)
  moreover have "\<forall>inst \<in> set (pw_running m). px_id inst < Suc (pw_next m)"
    using i by (auto simp: pw_inv_def less_SucI)
  ultimately have "pw_inv (m\<lparr>pw_proxies := gm_put p \<lparr>px_id = pw_next m, px_client = clientNameFromSocket p, px_socket = p\<rparr> (pw_proxies m),
      pw_next := Suc (pw_next m),
      pw_running := \<lparr>px_id = pw_next m, px_client = clientNameFromSocket p, px_socket = p\<rparr> # pw_running m\<rparr>)"
    using i by (auto simp: pw_inv_def)
  with i show ?thesis by (simp add: startProxy_def Let_def)
qed

lemma stopProxy_inv: "pw_inv m \<Longrightarrow> pw_inv (stopProxy p m)"
  by (auto simp: stopProxy_def pw_inv_def split: option.splits)

lemma scan_inv: "pw_inv m \<Longrightarrow> pw_inv (scanExistingSockets connected dir entries m)"
  by (induction connected dir entries m rule: scanExistingSockets.induct) (auto intro: startProxy_inv)

lemma distinct_map_remove1: "distinct (map f xs) \<Longrightarrow> distinct (map f (remove1 x xs))"
  by (induction xs) (auto dest: set_remove1_subset [THEN subsetD])

lemma finishProxy_inv:
  assumes "pw_inv m" and "inst \<in> set (pw_running m)"
  shows "pw_inv (finishProxy inst m)"
proof -
  let ?m = "m\<lparr>pw_running := remove1 inst (pw_running m), pw_proxies := gm_del (px_socket inst) (pw_proxies m)\<rparr>"
  have "x \<in> set (remove1 inst (pw_running m))"
    if "map_of (pw_proxies m) p = Some x" and "p \<noteq> px_socket inst" for p x
  proof -
    have "x \<in> set (pw_running m)" "x \<noteq> inst" using that assms(1) by (auto simp: pw_inv_def)
    then show ?thesis by (simp add: in_set_remove1)
  qed
  moreover have "distinct (map px_id (remove1 inst (pw_running m)))"
    using assms(1) by (auto simp: pw_inv_def intro: distinct_map_remove1)
  ultimately have "pw_inv ?m"
    using assms(1) by (auto simp: pw_inv_def dest: set_remove1_subset [THEN subsetD])
  then show ?thesis by (simp add: finishProxy_def)
qed

lemma pw_step_inv: "pw_step m m' \<Longrightarrow> pw_inv m \<Longrightarrow> pw_inv m'"
proof (induction rule: pw_step.induct)
  case (pw_event m connected op name)
  then show ?case by (cases op) (auto simp: handleEvent_def intro: startProxy_inv stopProxy_inv)
next
  case (pw_scan m connected dir entries)
  then show ?case by (rule scan_inv)
next
  case (pw_finish inst m)
  then show ?case by (auto intro: finishProxy_inv)
qed (auto simp: pw_inv_def stopAllProxies_def SubscribeClients_def UnsubscribeClients_def)

interpretation pw: invariant_system "\<lambda>m. m = newProxyManager" pw_step pw_inv
  by (unfold_locales, simp add: pw_inv_def newProxyManager_def, rule pw_step_inv)

text \<open>
  At any time the clients listed are running proxies, one per socket, under the name derived from
  the socket file; and stopping the watcher cancels every one of them.
\<close>

theorem listed_clients_are_running:
  assumes "reach (\<lambda>m. m = newProxyManager) pw_step m"
  shows "(\<forall>(name, path) \<in> set (ProxyClients m). name = clientNameFromSocket path \<and>
            (\<exists>inst \<in> set (pw_running m). px_socket inst = path \<and> px_id inst \<in> set (pw_cancelled (stopAllProxies m)))) \<and>
         distinct (map snd (ProxyClients m))"
proof -
  have i: "pw_inv m" by (rule pw.reach_inv [OF assms])
  then have wf: "gm_wf (pw_proxies m)" by (simp add: pw_inv_def)
  have "map snd (ProxyClients m) = map fst (pw_proxies m)" by (simp add: ProxyClients_def case_prod_beta')
  then have "distinct (map snd (ProxyClients m))" using wf by simp
  moreover have "name = clientNameFromSocket path \<and>
      (\<exists>inst \<in> set (pw_running m). px_socket inst = path \<and> px_id inst \<in> set (pw_cancelled (stopAllProxies m)))"
    if listed: "(name, path) \<in> set (ProxyClients m)" for name path
  proof -
    from listed obtain inst where m: "(path, inst) \<in> set (pw_proxies m)" and n: "name = px_client inst"
      by (auto simp: ProxyClients_def)
    have "px_id inst \<in> set (pw_cancelled (stopAllProxies m))" using m by (force simp: stopAllProxies_def)
    with n i map_of_is_SomeI [OF wf m] show ?thesis by (auto simp: pw_inv_def)
  qed
  ultimately show ?thesis by blast
qed

definition exSock :: string where "exSock = ''/run/d/box.sock''"

definition exWatch1 :: ProxyManager where "exWatch1 = handleEvent True FsCreate exSock newProxyManager"

definition exWatch2 :: ProxyManager where
  "exWatch2 = handleEvent True FsCreate exSock (handleEvent True FsRemove exSock exWatch1)"

definition exInst :: proxyInstance where
  "exInst = \<lparr>px_id = 0, px_client = ''box'', px_socket = exSock\<rparr>"

lemma reach_exWatch: "reach (\<lambda>m. m = newProxyManager) pw_step exWatch1" "reach (\<lambda>m. m = newProxyManager) pw_step exWatch2"
proof -
  have "reach (\<lambda>m. m = newProxyManager) pw_step newProxyManager" by (rule reach_init) simp
  then show 1: "reach (\<lambda>m. m = newProxyManager) pw_step exWatch1"
    unfolding exWatch1_def by (rule reach_step) (rule pw_event)
  show "reach (\<lambda>m. m = newProxyManager) pw_step exWatch2"
    unfolding exWatch2_def by (rule reach_step [OF reach_step [OF 1 pw_event] pw_event])
qed

theorem listed_clients_are_running_witness:
  "ProxyClients exWatch1 = [(''box'', exSock)] \<and>
   (\<exists>inst \<in> set (pw_running exWatch1). px_socket inst = exSock)"
proof -
  have 1: "ProxyClients exWatch1 = [(''box'', exSock)]" by code_simp
  with listed_clients_are_running [OF reach_exWatch(1)] show ?thesis by auto
qed

text \<open>
  A socket that is removed and created again can leave a proxy nobody controls: the old
  instance's goroutine, when it ends, deletes the map entry of its socket path, which by then belongs
  to the new instance.  The new proxy runs on, is no longer listed, and stopping the watcher does not
  cancel it.
\<close>

theorem recreated_socket_orphans_proxy:
  "\<exists>m. reach (\<lambda>m. m = newProxyManager) pw_step m \<and> ProxyClients m = [] \<and>
       (\<exists>inst \<in> set (pw_running m). px_id inst \<notin> set (pw_cancelled (stopAllProxies m)))"
proof (intro exI conjI)
  have "exInst \<in> set (pw_running exWatch2)" by code_simp
  then show "reach (\<lambda>m. m = newProxyManager) pw_step (finishProxy exInst exWatch2)"
    using reach_step [OF reach_exWatch(2)] pw_finish by blast
qed code_simp+

end
