(* ===== verification/Thin_Client.thy ===== *)
theory Thin_Client
  imports Api_Mirror Proxy_Watcher
begin

text \<open>
  The signing client git runs as \<open>gpg.program\<close>: \<^verbatim>\<open>internal/gpgsign/run.go\<close> and \<^verbatim>\<open>internal/gpgsign/daemon.go\<close>.
  It connects its WebSocket, posts the signing request and reads messages until one settles that
  request.  The outside world (standard input, git, the cookie file, the daemon, the real gpg) is the
  record \<open>thin_env\<close>; a message is what its JSON decodes to, \<open>None\<close> if it does not decode, and the end
  of the list is a failed read.
\<close>

subsection \<open>Waiting for the daemon\<close>

record wsMsg =
  ms_Type :: string
  ms_ID :: string
  ms_Result :: string
  ms_Signature :: string
  ms_GPGStatus :: string
  ms_ExitCode :: int

record waited =
  wt_signature :: bytes
  wt_gpgStatus :: bytes
  wt_exitCode :: int
  wt_denied :: bool
  wt_err :: "go_error option"

definition waitError :: "string \<Rightarrow> waited" where
  "waitError e = \<lparr>wt_signature = [], wt_gpgStatus = [], wt_exitCode = 0, wt_denied = False, wt_err = Some (ErrText e)\<rparr>"

definition waitDenied :: waited where
  "waitDenied = \<lparr>wt_signature = [], wt_gpgStatus = [], wt_exitCode = 0, wt_denied = True, wt_err = None\<rparr>"

text \<open>What one message settles; \<open>None\<close>: keep reading.\<close>

definition settles :: "string \<Rightarrow> wsMsg \<Rightarrow> waited option" where
  "settles requestID msg =
     (if ms_Type msg = ''request_resolved'' then
        (if ms_ID msg \<noteq> requestID then None
         else if ms_Result msg = ''denied'' then Some waitDenied
         else if ms_Result msg = ''approved'' \<or> ms_Result msg = ''auto_approved'' then
           (if ms_ExitCode msg \<noteq> 0 then
              Some \<lparr>wt_signature = [], wt_gpgStatus = ms_GPGStatus msg, wt_exitCode = ms_ExitCode msg, wt_denied = False, wt_err = None\<rparr>
            else (case b64StdDecode (ms_Signature msg) of
                    None \<Rightarrow> Some (waitError ''decode signature'')
                  | Some sig \<Rightarrow> Some \<lparr>wt_signature = sig, wt_gpgStatus = ms_GPGStatus msg, wt_exitCode = 0, wt_denied = False, wt_err = None\<rparr>))
         else None)
      else if ms_Type msg = ''request_expired'' then
        (if ms_ID msg \<noteq> requestID then None else Some (waitError (''signing request timed out (request_id='' @ requestID @ '')'')))
      else if ms_Type msg = ''request_cancelled'' then
        (if ms_ID msg \<noteq> requestID then None else Some waitDenied)
      else None)"

fun WaitForResolution :: "string \<Rightarrow> wsMsg option list \<Rightarrow> waited" where
  "WaitForResolution requestID [] = waitError ''websocket read''"
| "WaitForResolution requestID (None # msgs) = WaitForResolution requestID msgs"
| "WaitForResolution requestID (Some msg # msgs) =
     (case settles requestID msg of Some w \<Rightarrow> w | None \<Rightarrow> WaitForResolution requestID msgs)"

subsection \<open>The command\<close>

record thin_env =
  te_stdin :: "go_error + bytes"
  te_toplevel :: "go_error + string"
  te_diff :: "go_error + string"
  te_stateHome :: string
  te_home :: "go_error + string"
  te_readFile :: "string \<Rightarrow> go_error + string"
  te_dial :: "string \<Rightarrow> bool"
  te_post :: "string \<Rightarrow> string \<Rightarrow> GPGSignInfo \<Rightarrow> go_error + int \<times> string option"
  te_msgs :: "wsMsg option list"
  te_passThrough :: "string list \<Rightarrow> int"

record thin_result =
  tr_exit :: int
  tr_stdout :: bytes
  tr_stderr :: bytes

abbreviation exits :: "int \<Rightarrow> thin_result" where
  "exits c \<equiv> \<lparr>tr_exit = c, tr_stdout = [], tr_stderr = []\<rparr>"

definition resolveRepoName :: "go_error + string \<Rightarrow> string" where
  "resolveRepoName out = (case out of Inl _ \<Rightarrow> ''unknown'' | Inr s \<Rightarrow> Base (TrimSpace s))"

definition collectChangedFiles :: "go_error + string \<Rightarrow> string list" where
  "collectChangedFiles out = (case out of Inl _ \<Rightarrow> [] | Inr s \<Rightarrow> filter (\<lambda>f. f \<noteq> []) (Split s LF))"

definition loadAuthToken :: "thin_env \<Rightarrow> go_error + string" where
  "loadAuthToken e =
     (case (if te_stateHome e = [] then map_sum (\<lambda>_. ErrText ''get home dir'') (\<lambda>h. h @ ''/.local/state'') (te_home e)
            else Inr (te_stateHome e)) of
        Inl err \<Rightarrow> Inl err
      | Inr stateHome \<Rightarrow>
          (case te_readFile e (stateHome @ ''/secrets-dispatcher/.cookie'') of
             Inl err \<Rightarrow> Inl err
           | Inr data \<Rightarrow> (let token = TrimSpace data in if token = [] then Inl (ErrText ''cookie file is empty'') else Inr token)))"

definition signInfoOf :: "thin_env \<Rightarrow> string list \<Rightarrow> bytes \<Rightarrow> GPGSignInfo" where
  "signInfoOf e args commitBytes =
     (let p = ParseSignedPayload commitBytes in
      \<lparr>gi_RepoName = resolveRepoName (te_toplevel e), gi_Kind = sp_Kind p, gi_CommitMsg = sp_Message p, gi_Author = sp_Signer p,
       gi_Committer = sp_Committer p, gi_KeyID = extractKeyID args, gi_Fingerprint = [],
       gi_ChangedFiles = (if sp_Kind p = KindCommit then collectChangedFiles (te_diff e) else []),
       gi_ParentHash = sp_ParentHash p, gi_TagName = sp_TagName p, gi_Target = sp_Target p, gi_Pushee = sp_Pushee p,
       gi_CommitObject = commitBytes\<rparr>)"

text \<open>The daemon's answer: a transport error, or the status code and the request ID in the decoded body.\<close>

definition PostSigningRequest :: "go_error + int \<times> string option \<Rightarrow> go_error + string" where
  "PostSigningRequest answer =
     (case answer of
        Inl err \<Rightarrow> Inl (ErrText (''post signing request: '' @ error_text err))
      | Inr (code, body) \<Rightarrow>
          if code \<noteq> StatusOK then Inl (ErrText (''daemon returned status '' @ dec_int code))
          else (case body of
                  None \<Rightarrow> Inl (ErrText ''decode response'')
                | Some i \<Rightarrow> if i = [] then Inl (ErrText ''daemon returned empty request_id'') else Inr i))"

definition Run :: "thin_env \<Rightarrow> string list \<Rightarrow> thin_result" where
  "Run e args =
     (if \<not> isSignRequest args then exits (te_passThrough e args)
      else case te_stdin e of
        Inl _ \<Rightarrow> exits 2
      | Inr commitBytes \<Rightarrow>
         (let info = signInfoOf e args commitBytes in
          case loadAuthToken e of
            Inl _ \<Rightarrow> exits 2
          | Inr token \<Rightarrow>
              if \<not> te_dial e token then exits 2
              else (case PostSigningRequest (te_post e token (gi_RepoName info) info) of
                 Inl _ \<Rightarrow> exits 2
               | Inr reqID \<Rightarrow>
                  (let w = WaitForResolution reqID (te_msgs e) in
                   if wt_err w \<noteq> None then exits 1
                   else if wt_denied w then exits 1
                   else if wt_exitCode w \<noteq> 0 then \<lparr>tr_exit = wt_exitCode w, tr_stdout = [], tr_stderr = wt_gpgStatus w\<rparr>
                   else \<lparr>tr_exit = 0, tr_stdout = wt_signature w, tr_stderr = wt_gpgStatus w\<rparr>))))"

subsection \<open>The client and the daemon agree\<close>

text \<open>The fields the client reads of a message the daemon sends.\<close>

definition wsMsgOf :: "WSMessage \<Rightarrow> wsMsg" where
  "wsMsgOf m = \<lparr>ms_Type = wm_Type m, ms_ID = wm_ID m, ms_Result = wm_Result m, ms_Signature = wm_Signature m,
     ms_GPGStatus = wm_GPGStatus m, ms_ExitCode = wm_ExitCode m\<rparr>"

definition heard :: "wsconn \<Rightarrow> wsMsg option list" where
  "heard s = map (Some \<circ> wsMsgOf) (wc_got s)"

text \<open>How the request \<open>req\<close> ended, as the client should see it.\<close>

definition outcomeOf :: "EventType \<Rightarrow> Request \<Rightarrow> waited option" where
  "outcomeOf t req =
     (case t of
        EventRequestApproved \<Rightarrow>
          Some \<lparr>wt_signature = (if rq_GPGExitCode req = 0 then rq_Signature req else []), wt_gpgStatus = rq_GPGStatus req,
                wt_exitCode = rq_GPGExitCode req, wt_denied = False, wt_err = None\<rparr>
      | EventRequestAutoApproved \<Rightarrow>
          Some \<lparr>wt_signature = (if rq_GPGExitCode req = 0 then rq_Signature req else []), wt_gpgStatus = rq_GPGStatus req,
                wt_exitCode = rq_GPGExitCode req, wt_denied = False, wt_err = None\<rparr>
      | EventRequestDenied \<Rightarrow> Some waitDenied
      | EventRequestCancelled \<Rightarrow> Some waitDenied
      | EventRequestExpired \<Rightarrow> Some (waitError (''signing request timed out (request_id='' @ rq_ID req @ '')''))
      | _ \<Rightarrow> None)"

lemma Wait_skip:
  "\<forall>msg \<in> set msgs. \<forall>x. msg = Some x \<longrightarrow> settles i x = None \<Longrightarrow> WaitForResolution i (msgs @ rest) = WaitForResolution i rest"
proof (induction msgs)
  case (Cons msg msgs)
  then show ?case by (cases msg) auto
qed simp

lemma settles_history [simp]: "settles i (wsMsgOf (historyMsg now req r)) = None"
  by (simp add: settles_def wsMsgOf_def)

lemma settles_other_types [simp]:
  "settles i (wsMsgOf ((wsmsg ''request_created'')\<lparr>wm_Request := q\<rparr>)) = None"
  "settles i (wsMsgOf ((wsmsg ''auto_approve_rule_added'')\<lparr>wm_AutoApproveRule := r\<rparr>)) = None"
  "settles i (wsMsgOf ((wsmsg ''auto_approve_rule_removed'')\<lparr>wm_ID := j\<rparr>)) = None"
  by (simp_all add: settles_def wsMsgOf_def)

lemma settles_connection [simp]:
  "settles i (wsMsgOf ((wsmsg ''client_connected'')\<lparr>wm_Client := x\<rparr>)) = None"
  "settles i (wsMsgOf ((wsmsg ''client_disconnected'')\<lparr>wm_Client := x\<rparr>)) = None"
  "settles i (wsMsgOf (snapshot version now h m)) = None"
  by (simp_all add: settles_def wsMsgOf_def snapshot_def)

lemma settles_not_ended:
  assumes "\<not> ends e i" and "msg \<in> set (eventMessages t e)"
  shows "settles i (wsMsgOf msg) = None"
proof (cases "ev_Request e")
  case None
  with assms(2) show ?thesis
    by (cases "ev_Type e") (auto simp: eventMessages_def split: option.splits)
next
  case (Some req)
  have other: "wm_ID m \<noteq> i \<Longrightarrow> settles i (wsMsgOf m) = None" for m by (simp add: settles_def wsMsgOf_def)
  show ?thesis
    using assms Some
    by (cases "ev_Type e") (auto simp: eventMessages_def ends_def Let_def other split: if_splits option.splits)
qed

lemma settles_terminal:
  assumes "rq_Type req = RequestTypeGPGSign" and "outcomeOf t req = Some w"
  shows "\<exists>msg rest. eventMessages now (reqEvent t req) = msg # rest \<and> settles (rq_ID req) (wsMsgOf msg) = Some w"
  using assms by (cases t) (auto simp: outcomeOf_def eventMessages_def withSignature_def settles_def wsMsgOf_def wsmsg_def Let_def)

lemma settles_before:
  assumes "\<And>t e. Told t e \<in> set ops \<Longrightarrow> \<not> ends e i" and "msg \<in> set (concat (map offered ops))"
  shows "settles i (wsMsgOf msg) = None"
proof -
  obtain op where op: "op \<in> set ops" "msg \<in> set (offered op)" using assms(2) by auto
  show ?thesis
  proof (cases op)
    case (Told t e)
    then have "\<not> ends e i" using assms(1) op(1) by blast
    from settles_not_ended [OF this] show ?thesis using op(2) Told by simp
  qed (use op(2) in auto)
qed


definition exSigned :: Request where
  "exSigned = (gpgRequest ''g1'' 100 1100 ''repo'' exLie zeroSenderInfo)\<lparr>rq_Signature := ''SIG'', rq_GPGStatus := ''ok''\<rparr>"

text \<open>The daemon announces the request itself first; another request is denied meanwhile.\<close>

definition exHeard :: wsconn where
  "exHeard = conn_run 1 exManager ([Told 1 (reqEvent EventRequestCreated exSigned), Written, Told 2 (reqEvent EventRequestDenied exRequest)] @
     Told 3 (reqEvent EventRequestApproved exSigned) # [Written, Joined (''a'', ''b''), Written, Written, Written, Written])
     (fst (conn_start ''1.0'' 0 1 (exPost ''/api/v1/ws'' ''Bearer tok'') exAuth (NewWSHandler None ''/sock'' ''local'') exManager))"


subsection \<open>The command fails closed\<close>

lemma Wait_ok:
  assumes "WaitForResolution i msgs = w" and "wt_err w = None" and "\<not> wt_denied w"
  shows "\<exists>msg. Some msg \<in> set msgs \<and> ms_Type msg = ''request_resolved'' \<and> ms_ID msg = i \<and>
           (ms_Result msg = ''approved'' \<or> ms_Result msg = ''auto_approved'') \<and> ms_ExitCode msg = wt_exitCode w \<and>
           (wt_exitCode w = 0 \<longrightarrow> b64StdDecode (ms_Signature msg) = Some (wt_signature w))"
  using assms
proof (induction i msgs rule: WaitForResolution.induct)
  case (3 i msg msgs)
  show ?case
  proof (cases "settles i msg")
    case None
    with 3 show ?thesis by auto
  next
    case (Some v)
    with 3(2-4) have "settles i msg = Some w" by simp
    with 3(3,4) show ?thesis
      by (intro exI[of _ msg]) (auto simp: settles_def waitDenied_def waitError_def split: if_splits option.splits)
  qed
qed (auto simp: waitError_def)

text \<open>
  C9: The signing command fails closed.  Asked to sign, it exits 0 only if the daemon, addressed with the
  token of the cookie file, accepted the request for exactly the bytes git handed over and sent a message
  that resolves that very request as approved with gpg's exit code 0, and then its output is the
  signature in that message; in every other case its output is empty and its exit code is not 0, so
  git refuses the commit.
\<close>

theorem signing_command_fails_closed:
  assumes "isSignRequest args"
  shows "if tr_exit (Run e args) = 0
         then \<exists>commitBytes token reqID msg.
                te_stdin e = Inr commitBytes \<and> loadAuthToken e = Inr token \<and> te_dial e token \<and>
                PostSigningRequest (te_post e token (resolveRepoName (te_toplevel e)) (signInfoOf e args commitBytes)) = Inr reqID \<and>
                gi_CommitObject (signInfoOf e args commitBytes) = commitBytes \<and>
                Some msg \<in> set (te_msgs e) \<and> ms_Type msg = ''request_resolved'' \<and> ms_ID msg = reqID \<and>
                (ms_Result msg = ''approved'' \<or> ms_Result msg = ''auto_approved'') \<and> ms_ExitCode msg = 0 \<and>
                b64StdDecode (ms_Signature msg) = Some (tr_stdout (Run e args))
         else tr_stdout (Run e args) = []"
proof (cases "tr_exit (Run e args) = 0")
  case True
  from True assms obtain cb token reqID where
    p: "te_stdin e = Inr cb" "loadAuthToken e = Inr token" "te_dial e token"
       "PostSigningRequest (te_post e token (gi_RepoName (signInfoOf e args cb)) (signInfoOf e args cb)) = Inr reqID"
    by (auto simp: Run_def Let_def split: sum.splits if_splits)
  define w where "w = WaitForResolution reqID (te_msgs e)"
  have r: "Run e args = (if wt_err w \<noteq> None then exits 1 else if wt_denied w then exits 1
      else if wt_exitCode w \<noteq> 0 then \<lparr>tr_exit = wt_exitCode w, tr_stdout = [], tr_stderr = wt_gpgStatus w\<rparr>
      else \<lparr>tr_exit = 0, tr_stdout = wt_signature w, tr_stderr = wt_gpgStatus w\<rparr>)"
    using assms p by (simp add: Run_def w_def Let_def)
  with True have ok: "wt_err w = None" "\<not> wt_denied w" "wt_exitCode w = 0" by (auto split: if_splits)
  moreover have "gi_RepoName (signInfoOf e args cb) = resolveRepoName (te_toplevel e)" "gi_CommitObject (signInfoOf e args cb) = cb"
    by (simp_all add: signInfoOf_def Let_def)
  moreover have "tr_stdout (Run e args) = wt_signature w" using r ok by simp
  ultimately show ?thesis using True p Wait_ok[OF w_def[symmetric] ok(1,2)] by auto
next
  case False
  then show ?thesis using assms by (auto simp: Run_def Let_def split: sum.splits)
qed

definition exThin :: thin_env where
  "exThin = \<lparr>te_stdin = Inr (git_bytes exCommit), te_toplevel = Inr (''/home/u/repo'' @ [LF]), te_diff = Inr (''a.c'' @ [LF]),
     te_stateHome = ''/state'', te_home = Inr ''/home/u'', te_readFile = (\<lambda>p. Inr ''tok''), te_dial = (\<lambda>t. True),
     te_post = (\<lambda>t c i. Inr (200, Some ''g1'')), te_msgs = heard exHeard,
     te_passThrough = (\<lambda>a. 0)\<rparr>"

theorem signing_command_fails_closed_witness:
  "tr_exit (Run exThin [''--status-fd=2'', ''-bsau'', ''KEY'']) = 0 \<and>
   (\<exists>msg. Some msg \<in> set (te_msgs exThin) \<and> b64StdDecode (ms_Signature msg) = Some ''SIG'')"
proof -
  have 1: "isSignRequest [''--status-fd=2'', ''-bsau'', ''KEY'']" by (rule git_sign_invocation)
  have 2: "tr_exit (Run exThin [''--status-fd=2'', ''-bsau'', ''KEY'']) = 0" "tr_stdout (Run exThin [''--status-fd=2'', ''-bsau'', ''KEY'']) = ''SIG''"
    by code_simp+
  show ?thesis using signing_command_fails_closed[OF 1, of exThin] 2 by auto
qed

end
