(* ===== verification/Notify_Text.thy ===== *)
theory Notify_Text
  imports Proxy_Slow Git_Payload Sample_Data
begin

text \<open>
  What desktop notifications say: the text functions of \<^verbatim>\<open>internal/notification/desktop.go\<close> and
  \<open>slow_upstream.go\<close>.  The body of a notification is markup (the \<open>b\<close> and \<open>i\<close> tags and the
  entities of the freedesktop notification specification), built from text the requesting process controls.

  A small specification of such markup, with a reader, stands beside the code: it shows what a
  notification server displays for a body.
\<close>

subsection \<open>The code\<close>

definition notificationMeta :: "RequestType \<Rightarrow> string \<times> string" where
  "notificationMeta t =
     (if t = RequestTypeGPGSign then (''Sign commit'', ''emblem-important'')
      else if t = RequestTypeSearch then (''Secrets searched'', ''dialog-password'')
      else if t = RequestTypeDelete then (''Deletion requested'', ''dialog-warning'')
      else if t = RequestTypeWrite then (''Secret write requested'', ''dialog-warning'')
      else if t = RequestTypeSSHSign then (''SSH key requested'', ''dialog-password'')
      else (''Secret requested'', ''dialog-password''))"

definition formatDurationShort :: "nanos \<Rightarrow> string" where
  "formatDurationShort d =
     (if d \<le> 0 then ''0s''
      else (let m = d div 60000000000; s = d div 1000000000 mod 60 in
            if m > 0 \<and> s = 0 then dec (nat m) @ ''m''
            else if m > 0 then dec (nat m) @ ''m'' @ dec (nat s) @ ''s''
            else dec (nat s) @ ''s''))"

definition escapeChar :: "char \<Rightarrow> string" where
  "escapeChar c = (if c = CHR ''&'' then ''&amp;'' else if c = CHR ''<'' then ''&lt;'' else if c = CHR ''>'' then ''&gt;'' else [c])"

definition escapeMarkup :: "string \<Rightarrow> string" where
  "escapeMarkup s = concat (map escapeChar s)"

definition commitSubject :: "string \<Rightarrow> string" where
  "commitSubject msg = (case Cut msg LF of (before, _, ok) \<Rightarrow> if ok then before else msg)"

text \<open>The two arrows, in UTF-8.\<close>

definition arrowLeft :: string where "arrowLeft = '' '' @ [CHR 0xE2, CHR 0x86, CHR 0x90] @ '' ''"
definition arrowRight :: string where "arrowRight = '' '' @ [CHR 0xE2, CHR 0x86, CHR 0x92] @ '' ''"

definition chainEntry :: "bool \<Rightarrow> ProcessInfo \<Rightarrow> string" where
  "chainEntry showPIDs p = escapeMarkup (pi_Name p) @ (if showPIDs then ''['' @ dec (unat (pi_PID p)) @ '']'' else [])"

fun writeChain :: "bool \<Rightarrow> bool \<Rightarrow> ProcessInfo list \<Rightarrow> string" where
  "writeChain showPIDs first [] = []"
| "writeChain showPIDs first (p # ps) =
     (if first then [LF] else arrowLeft) @ chainEntry showPIDs p @ writeChain showPIDs False ps"

text \<open>Go visits the map in some order; the order of the list stands for it.\<close>

definition escapedSearchAttrs :: "(string, string) gomap \<Rightarrow> string" where
  "escapedSearchAttrs attrs = Join (map (\<lambda>(k, v). escapeMarkup k @ ''='' @ escapeMarkup v) attrs) '', ''"

definition itemsBody :: "string \<Rightarrow> string \<Rightarrow> Request \<Rightarrow> string" where
  "itemsBody open close req =
     (if rq_Type req = RequestTypeGetSecret \<or> rq_Type req = RequestTypeDelete \<or> rq_Type req = RequestTypeWrite then
        (case rq_Items req of
           [item] \<Rightarrow> open @ escapeMarkup (ii_Label item) @ close
         | _ \<Rightarrow> open @ dec (length (rq_Items req)) @ '' items'' @ close)
      else if rq_Type req = RequestTypeSearch then
        (if length (rq_SearchAttributes req) > 0 then open @ escapedSearchAttrs (rq_SearchAttributes req) @ close
         else open @ ''all'' @ close)
      else [])"

definition formatBody :: "bool \<Rightarrow> Request \<Rightarrow> string" where
  "formatBody showPIDs req =
     (let s = rq_SenderInfo req; chain = si_ProcessChain s in
      if rq_Type req = RequestTypeGPGSign then
        (case rq_GPGSignInfo req of
           Some gi \<Rightarrow> ''<b>'' @ escapeMarkup (gi_RepoName gi) @ ''</b>: <i>'' @ escapeMarkup (commitSubject (gi_CommitMsg gi)) @ ''</i>'' @
                      writeChain showPIDs True chain
         | None \<Rightarrow> [])
      else if rq_Type req = RequestTypeSSHSign then
        (case rq_Items req of
           [] \<Rightarrow> []
         | item # _ \<Rightarrow> ''<b>'' @ escapeMarkup (ii_Label item) @ ''</b>'' @
             (case map_of (ii_Attributes item) ''destination'' of
                Some dest \<Rightarrow> if dest \<noteq> [] then arrowRight @ escapeMarkup dest else []
              | None \<Rightarrow> [])) @
        writeChain showPIDs True chain
      else if length chain > 0 then itemsBody ''<b>'' ''</b>'' req @ writeChain showPIDs True chain
      else
        (if si_InvokerName s \<noteq> [] then
           ''<b>'' @ escapeMarkup (si_InvokerName s) @ ''</b>@'' @ escapeMarkup (rq_Client req) @ ''['' @ dec (unat (si_PID s)) @ '']: ''
         else if si_PID s \<noteq> 0 then ''<b>'' @ escapeMarkup (rq_Client req) @ ''</b>['' @ dec (unat (si_PID s)) @ '']: ''
         else ''<b>'' @ escapeMarkup (rq_Client req) @ ''</b>: '') @
        itemsBody ''<i>'' ''</i>'' req)"

definition slowUpstreamSummary :: "RequestType \<Rightarrow> string" where
  "slowUpstreamSummary t =
     (if t = RequestTypeGPGSign then ''Signing commit''
      else if t = RequestTypeSSHSign then ''SSH key signing''
      else if t = RequestTypeSearch then ''Searching keyring''
      else if t = RequestTypeUnlock then ''Unlocking keyring''
      else ''Waiting for keyring unlock'')"

definition itemDisplayLabel :: "ItemInfo \<Rightarrow> string" where
  "itemDisplayLabel item = (if ii_Label item \<noteq> [] then ii_Label item else ii_Path item)"

definition formatSlowUpstreamBody :: "UpstreamCallContext \<Rightarrow> string" where
  "formatSlowUpstreamBody ctx =
     (let b = (case cc_Items ctx of
                 [] \<Rightarrow> []
               | [item] \<Rightarrow> itemDisplayLabel item
               | items \<Rightarrow> Join (map itemDisplayLabel items) '', '' @ '' ('' @ dec (length items) @ '' items)'');
          chain = si_ProcessChain (cc_SenderInfo ctx)
      in if length chain > 0 then b @ (if length b > 0 then [LF] else []) @ Join (map pi_Name chain) arrowLeft else b)"

subsection \<open>Markup and its reader\<close>

datatype markup = Txt string | Tag string

datatype token = Chr char | Tg string

fun printMarkup :: "markup \<Rightarrow> string" where
  "printMarkup (Txt s) = escapeMarkup s"
| "printMarkup (Tag t) = ''<'' @ t @ ''>''"

fun tokens :: "markup \<Rightarrow> token list" where
  "tokens (Txt s) = map Chr s"
| "tokens (Tag t) = [Tg t]"

lemma Cut_after_length: "Cut s c = (a, b, f) \<Longrightarrow> length b \<le> length s"
  by (auto simp: Cut_def length_dropWhile_le le_trans[OF diff_le_self] split: if_splits)

function readMarkup :: "string \<Rightarrow> token list" where
  "readMarkup [] = []"
| "readMarkup (c # s) =
     (if c = CHR ''<'' then (case Cut s (CHR ''>'') of (tag, rest, _) \<Rightarrow> Tg tag # readMarkup rest)
      else if c = CHR ''&'' \<and> HasPrefix s ''amp;'' then Chr (CHR ''&'') # readMarkup (drop 4 s)
      else if c = CHR ''&'' \<and> HasPrefix s ''lt;'' then Chr (CHR ''<'') # readMarkup (drop 3 s)
      else if c = CHR ''&'' \<and> HasPrefix s ''gt;'' then Chr (CHR ''>'') # readMarkup (drop 3 s)
      else Chr c # readMarkup s)"
  by pat_completeness auto
termination
  by (relation "measure length") (auto dest: Cut_after_length[OF sym] simp: le_imp_less_Suc)

lemma readMarkup_escape: "readMarkup (escapeMarkup s @ rest) = map Chr s @ readMarkup rest"
  by (induction s) (auto simp: escapeMarkup_def escapeChar_def HasPrefix_def)

lemma readMarkup_tag: "CHR ''>'' \<notin> set t \<Longrightarrow> readMarkup (''<'' @ t @ ''>'' @ rest) = Tg t # readMarkup rest"
  using Cut_found[of "CHR ''>''" t rest] by simp

text \<open>Printing and reading markup loses nothing, whatever the text.\<close>

definition tags_ok :: "markup list \<Rightarrow> bool" where
  "tags_ok ms \<longleftrightarrow> (\<forall>t. Tag t \<in> set ms \<longrightarrow> CHR ''>'' \<notin> set t)"

lemma markup_roundtrip: "tags_ok ms \<Longrightarrow> readMarkup (concat (map printMarkup ms)) = concat (map tokens ms)"
proof (induction ms)
  case (Cons m ms)
  then have "tags_ok ms" by (simp add: tags_ok_def)
  with Cons show ?case
    by (cases m) (auto simp: readMarkup_escape readMarkup_tag[simplified] tags_ok_def)
qed simp

subsection \<open>What a body shows\<close>

fun chainText :: "bool \<Rightarrow> bool \<Rightarrow> ProcessInfo list \<Rightarrow> string" where
  "chainText showPIDs first [] = []"
| "chainText showPIDs first (p # ps) =
     (if first then [LF] else arrowLeft) @ pi_Name p @ (if showPIDs then ''['' @ dec (unat (pi_PID p)) @ '']'' else []) @
     chainText showPIDs False ps"

definition attrsText :: "(string, string) gomap \<Rightarrow> string" where
  "attrsText attrs = Join (map (\<lambda>(k, v). k @ ''='' @ v) attrs) '', ''"

definition itemsText :: "Request \<Rightarrow> string option" where
  "itemsText req =
     (if rq_Type req = RequestTypeGetSecret \<or> rq_Type req = RequestTypeDelete \<or> rq_Type req = RequestTypeWrite then
        Some (case rq_Items req of [item] \<Rightarrow> ii_Label item | _ \<Rightarrow> dec (length (rq_Items req)) @ '' items'')
      else if rq_Type req = RequestTypeSearch then
        Some (if length (rq_SearchAttributes req) > 0 then attrsText (rq_SearchAttributes req) else ''all'')
      else None)"

definition marked :: "string \<Rightarrow> string \<Rightarrow> markup list" where
  "marked t s = [Tag t, Txt s, Tag (''/'' @ t)]"

definition itemsMarkup :: "string \<Rightarrow> Request \<Rightarrow> markup list" where
  "itemsMarkup t req = (case itemsText req of None \<Rightarrow> [] | Some s \<Rightarrow> marked t s)"

definition bodyMarkup :: "bool \<Rightarrow> Request \<Rightarrow> markup list" where
  "bodyMarkup showPIDs req =
     (let s = rq_SenderInfo req; chain = Txt (chainText showPIDs True (si_ProcessChain s)) in
      if rq_Type req = RequestTypeGPGSign then
        (case rq_GPGSignInfo req of
           Some gi \<Rightarrow> marked ''b'' (gi_RepoName gi) @ [Txt '': ''] @ marked ''i'' (commitSubject (gi_CommitMsg gi)) @ [chain]
         | None \<Rightarrow> [])
      else if rq_Type req = RequestTypeSSHSign then
        (case rq_Items req of
           [] \<Rightarrow> []
         | item # _ \<Rightarrow> marked ''b'' (ii_Label item) @
             (case map_of (ii_Attributes item) ''destination'' of
                Some dest \<Rightarrow> if dest \<noteq> [] then [Txt (arrowRight @ dest)] else [] | None \<Rightarrow> [])) @ [chain]
      else if length (si_ProcessChain s) > 0 then itemsMarkup ''b'' req @ [chain]
      else
        (if si_InvokerName s \<noteq> [] then
           marked ''b'' (si_InvokerName s) @ [Txt (''@'' @ rq_Client req @ ''['' @ dec (unat (si_PID s)) @ '']: '')]
         else if si_PID s \<noteq> 0 then marked ''b'' (rq_Client req) @ [Txt (''['' @ dec (unat (si_PID s)) @ '']: '')]
         else marked ''b'' (rq_Client req) @ [Txt '': '']) @ itemsMarkup ''i'' req)"

lemma escape_append [simp]: "escapeMarkup (s @ t) = escapeMarkup s @ escapeMarkup t"
  by (simp add: escapeMarkup_def)

lemma escape_Nil [simp]: "escapeMarkup [] = []"
  by (simp add: escapeMarkup_def)

lemma escape_plain: "set s \<inter> {CHR ''&'', CHR ''<'', CHR ''>''} = {} \<Longrightarrow> escapeMarkup s = s"
  by (induction s) (auto simp: escapeMarkup_def escapeChar_def)

lemma digit_char_plain: "d < 10 \<Longrightarrow> digit_char d \<notin> {CHR ''&'', CHR ''<'', CHR ''>''}"
proof -
  assume "d < 10"
  then have "d \<in> set [0..<10]" by simp
  moreover have "list_all (\<lambda>d. digit_char d \<notin> {CHR ''&'', CHR ''<'', CHR ''>''}) [0..<10]" by code_simp
  ultimately show ?thesis by (auto simp: list_all_iff)
qed

lemma dec_plain: "set (dec n) \<inter> {CHR ''&'', CHR ''<'', CHR ''>''} = {}"
proof (induction n rule: dec.induct)
  case (1 n)
  show ?case
  proof (cases "n < 10")
    case True
    then show ?thesis using digit_char_plain[of n] by (subst dec.simps) auto
  next
    case False
    then show ?thesis using 1 digit_char_plain[of "n mod 10"] by (subst dec.simps) auto
  qed
qed

lemma escape_dec [simp]: "escapeMarkup (dec n) = dec n"
  by (rule escape_plain[OF dec_plain])

lemma escape_Cons [simp]:
  "c \<noteq> CHR ''&'' \<Longrightarrow> c \<noteq> CHR ''<'' \<Longrightarrow> c \<noteq> CHR ''>'' \<Longrightarrow> escapeMarkup (c # s) = c # escapeMarkup s"
  by (simp add: escapeMarkup_def escapeChar_def)

lemma escape_arrows [simp]: "escapeMarkup arrowLeft = arrowLeft" "escapeMarkup arrowRight = arrowRight"
  by (simp_all add: arrowLeft_def arrowRight_def)

lemma writeChain_text: "writeChain showPIDs first ps = escapeMarkup (chainText showPIDs first ps)"
  by (induction showPIDs first ps rule: writeChain.induct) (simp_all add: chainEntry_def)

lemma escape_Join: "escapeMarkup (Join ws sep) = Join (map escapeMarkup ws) (escapeMarkup sep)"
  by (induction ws sep rule: Join.induct) auto

lemma escapedSearchAttrs_text: "escapedSearchAttrs attrs = escapeMarkup (attrsText attrs)"
  by (simp add: escapedSearchAttrs_def attrsText_def escape_Join comp_def split_def)

lemma itemsBody_markup:
  "itemsBody (''<'' @ t @ ''>'') (''</'' @ t @ ''>'') req = concat (map printMarkup (itemsMarkup t req))"
  by (simp add: itemsBody_def itemsMarkup_def itemsText_def marked_def escapedSearchAttrs_text split: list.splits)

lemma formatBody_markup: "formatBody showPIDs req = concat (map printMarkup (bodyMarkup showPIDs req))"
  using itemsBody_markup[of "''b''" req] itemsBody_markup[of "''i''" req]
  by (simp add: formatBody_def bodyMarkup_def marked_def writeChain_text Let_def split: option.splits list.splits)

lemma bodyMarkup_tags: "Tag t \<in> set (bodyMarkup showPIDs req) \<Longrightarrow> t \<in> {''b'', ''/b'', ''i'', ''/i''}"
  by (auto simp: bodyMarkup_def marked_def itemsMarkup_def Let_def split: option.splits list.splits if_splits)

text \<open>
  C25: Requesting processes cannot forge the notification.  For every request the server displays
  exactly the intended bold and italic frame, and inside it every label, attribute, process name, repository
  and commit subject appears letter by letter as text; the only tags in the body are the program's own.
\<close>

theorem notification_text_is_literal:
  "readMarkup (formatBody showPIDs req) = concat (map tokens (bodyMarkup showPIDs req)) \<and>
   {t. Tg t \<in> set (readMarkup (formatBody showPIDs req))} \<subseteq> {''b'', ''/b'', ''i'', ''/i''}"
proof -
  have "tags_ok (bodyMarkup showPIDs req)"
    unfolding tags_ok_def using bodyMarkup_tags[of _ showPIDs req] by fastforce
  then have 1: "readMarkup (formatBody showPIDs req) = concat (map tokens (bodyMarkup showPIDs req))"
    unfolding formatBody_markup by (rule markup_roundtrip)
  have "Tg t \<in> set (tokens m) \<Longrightarrow> m = Tag t" for t m by (cases m) auto
  then have "Tg t \<in> set (readMarkup (formatBody showPIDs req)) \<Longrightarrow> Tag t \<in> set (bodyMarkup showPIDs req)" for t
    unfolding 1 by auto
  then show ?thesis using 1 bodyMarkup_tags by blast
qed

text \<open>
  The notice about a slow upstream call is not escaped: a process named like a tag puts its own
  markup into the notice.
\<close>

theorem slow_notice_forges_markup:
  "Tg ''b'' \<in> set (readMarkup (formatSlowUpstreamBody
     \<lparr>cc_RequestType = RequestTypeGetSecret, cc_Items = [exItem],
      cc_SenderInfo = exSender\<lparr>si_ProcessChain := [exTool\<lparr>pi_Name := ''<b>safe</b>''\<rparr>]\<rparr>, cc_ResolveSender = None\<rparr>))"
  by code_simp

end
