(* ===== verification/Notify_Handler.thy ===== *)
theory Notify_Handler
  imports Notify_Text DBus_Conn
begin

text \<open>
  The desktop notification handler (\<^verbatim>\<open>internal/notification/desktop.go\<close>): it observes the approval manager,
  shows a notification per request after a grace period, and turns button clicks into decisions.

  The notification server is a parameter: the result of each \<open>Notify\<close> is an argument.  What the
  handler does to the outside is returned as a list of effects.  A delayed notification is sent by the
  timer's own goroutine, in two steps: it takes the timer out of the group, then sends.
\<close>

subsection \<open>Talking to the notification server\<close>

text \<open>One call on the bus: the connection was closed, another error, or a reply with what decoding it gave.\<close>

datatype 'a bus_reply = BusClosed | BusError go_error | BusReply "go_error + 'a"

definition connClosed :: go_error where "connClosed = ErrText ''dbus: connection closed by user''"

definition wrapErr :: "string \<Rightarrow> go_error \<Rightarrow> go_error" where
  "wrapErr what e = ErrText (what @ '': '' @ error_text e)"

definition doNotifyFull :: "uint32 bus_reply \<Rightarrow> go_error + uint32" where
  "doNotifyFull call =
     (case call of
        BusClosed \<Rightarrow> Inl (wrapErr ''notify call'' connClosed)
      | BusError e \<Rightarrow> Inl (wrapErr ''notify call'' e)
      | BusReply (Inl e) \<Rightarrow> Inl (wrapErr ''store notify result'' e)
      | BusReply (Inr i) \<Rightarrow> Inr i)"

definition doClose :: "unit bus_reply \<Rightarrow> go_error + unit" where
  "doClose call =
     (case call of
        BusClosed \<Rightarrow> Inl (wrapErr ''close notification'' connClosed)
      | BusError e \<Rightarrow> Inl (wrapErr ''close notification'' e)
      | BusReply _ \<Rightarrow> Inr ())"

text \<open>\<open>Notify\<close>, \<open>NotifyPersistent\<close> and \<open>Close\<close>: one call, and one more after a reconnect if the connection was closed.\<close>

definition withReconnect :: "string \<Rightarrow> ('a bus_reply \<Rightarrow> go_error + 'a) \<Rightarrow> 'a bus_reply \<Rightarrow> go_error option \<Rightarrow> 'a bus_reply
    \<Rightarrow> go_error + 'a" where
  "withReconnect what call reply reconnErr again =
     (case (reply, call reply) of
        (BusClosed, Inl err) \<Rightarrow>
          (case reconnErr of
             Some e \<Rightarrow> Inl (wrapErr what (ErrText (error_text err @ '' (reconnect failed: '' @ error_text e @ '')'')))
           | None \<Rightarrow> call again)
      | (_, result) \<Rightarrow> result)"

definition Notify :: "uint32 bus_reply \<Rightarrow> go_error option \<Rightarrow> uint32 bus_reply \<Rightarrow> go_error + uint32" where
  "Notify reply reconnErr again = withReconnect ''notify call'' doNotifyFull reply reconnErr again"

definition CloseNotification :: "unit bus_reply \<Rightarrow> go_error option \<Rightarrow> unit bus_reply \<Rightarrow> go_error + unit" where
  "CloseNotification reply reconnErr again = withReconnect ''close notification'' doClose reply reconnErr again"

record Action =
  ac_NotificationID :: uint32
  ac_ActionKey :: string

record Closed =
  cl_NotificationID :: uint32
  cl_Reason :: uint32

record DBusNotifier =
  dn_actions :: "Action list"
  dn_closed :: "Closed list"

abbreviation (input) queueSize :: int where "queueSize \<equiv> 16"

text \<open>One turn of \<open>processSignals\<close>: the sends never block; an event that does not fit is dropped.\<close>

definition processNotifySignal :: "string \<Rightarrow> dvalue list \<Rightarrow> DBusNotifier \<Rightarrow> DBusNotifier" where
  "processNotifySignal name body n =
     (case body of
        [b0, b1] \<Rightarrow>
          (if name = ''org.freedesktop.Notifications.ActionInvoked'' then
             (case (b0, b1) of
                (DUInt32 i, DStr key) \<Rightarrow>
                  if int (length (dn_actions n)) < queueSize
                  then n\<lparr>dn_actions := dn_actions n @ [\<lparr>ac_NotificationID = i, ac_ActionKey = key\<rparr>]\<rparr> else n
              | _ \<Rightarrow> n)
           else if name = ''org.freedesktop.Notifications.NotificationClosed'' then
             (case (b0, b1) of
                (DUInt32 i, DUInt32 reason) \<Rightarrow>
                  if int (length (dn_closed n)) < queueSize
                  then n\<lparr>dn_closed := dn_closed n @ [\<lparr>cl_NotificationID = i, cl_Reason = reason\<rparr>]\<rparr> else n
              | _ \<Rightarrow> n)
           else n)
      | _ \<Rightarrow> n)"

subsection \<open>The handler\<close>

datatype neffect =
    Notified uint32 string string string string "string list"  \<comment> \<open>notification, request, summary, body, icon, actions\<close>
  | ClosedN uint32
  | Called string string  \<comment> \<open>action, request\<close>
  | OpenedURL string

record NHandler =
  nh_baseURL :: string
  nh_showPIDs :: bool
  nh_autoApproveDuration :: nanos
  nh_notificationDelay :: nanos
  nh_notifications :: "(string, uint32) gomap"
  nh_requests :: "(uint32, string) gomap"
  nh_timers :: "(string, Request) gomap"
  nh_cancelled :: "(string, Request \<times> nanos) gomap"

definition newNHandler :: "string \<Rightarrow> bool \<Rightarrow> nanos \<Rightarrow> nanos \<Rightarrow> NHandler" where
  "newNHandler baseURL showPIDs autoApproveDuration notificationDelay =
     \<lparr>nh_baseURL = baseURL, nh_showPIDs = showPIDs, nh_autoApproveDuration = autoApproveDuration,
      nh_notificationDelay = notificationDelay, nh_notifications = [], nh_requests = [], nh_timers = [], nh_cancelled = []\<rparr>"

text \<open>\<open>delayGroup\<close>: the map of timers, each standing for the notification it will send.\<close>

definition Schedule :: "string \<Rightarrow> Request \<Rightarrow> NHandler \<Rightarrow> NHandler" where
  "Schedule key req h = h\<lparr>nh_timers := gm_put key req (nh_timers h)\<rparr>"

definition CancelTimer :: "string \<Rightarrow> NHandler \<Rightarrow> bool \<times> NHandler" where
  "CancelTimer key h =
     (case map_of (nh_timers h) key of
        None \<Rightarrow> (False, h)
      | Some _ \<Rightarrow> (True, h\<lparr>nh_timers := gm_del key (nh_timers h)\<rparr>))"

definition timerFires :: "string \<Rightarrow> NHandler \<Rightarrow> Request option \<times> NHandler" where
  "timerFires key h =
     (case map_of (nh_timers h) key of
        None \<Rightarrow> (None, h)
      | Some req \<Rightarrow> (Some req, h\<lparr>nh_timers := gm_del key (nh_timers h)\<rparr>))"

definition remember :: "string \<Rightarrow> uint32 \<Rightarrow> NHandler \<Rightarrow> NHandler" where
  "remember reqID i h = h\<lparr>nh_notifications := gm_put reqID i (nh_notifications h), nh_requests := gm_put i reqID (nh_requests h)\<rparr>"

definition sendNotification :: "go_error + uint32 \<Rightarrow> Request \<Rightarrow> NHandler \<Rightarrow> NHandler \<times> neffect list" where
  "sendNotification res req h =
     (case notificationMeta (rq_Type req) of (summary, icon) \<Rightarrow>
       (let body = formatBody (nh_showPIDs h) req;
            actions = [''default'', [], ''approve'', ''Approve'', ''approve_and_auto_approve'',
                       ''Approve '' @ formatDurationShort (nh_autoApproveDuration h), ''deny'', ''Deny'']
        in case res of
             Inl _ \<Rightarrow> (h, [])
           | Inr i \<Rightarrow> (remember (rq_ID req) i h, [Notified i (rq_ID req) summary body icon actions])))"

definition handleCreated :: "go_error + uint32 \<Rightarrow> Request \<Rightarrow> NHandler \<Rightarrow> NHandler \<times> neffect list" where
  "handleCreated res req h =
     (if nh_notificationDelay h \<le> 0 then sendNotification res req h else (Schedule (rq_ID req) req h, []))"

text \<open>Forget the notification of a request; the flag tells whether there was one.\<close>

definition forget :: "string \<Rightarrow> NHandler \<Rightarrow> uint32 option \<times> NHandler" where
  "forget reqID h =
     (case map_of (nh_notifications h) reqID of
        None \<Rightarrow> (None, h)
      | Some i \<Rightarrow> (Some i, h\<lparr>nh_notifications := gm_del reqID (nh_notifications h), nh_requests := gm_del i (nh_requests h)\<rparr>))"

abbreviation (input) fiveMinutes :: nanos where "fiveMinutes \<equiv> 300000000000"

definition handleCancelled :: "go_error + uint32 \<Rightarrow> nanos \<Rightarrow> Request \<Rightarrow> NHandler \<Rightarrow> NHandler \<times> neffect list" where
  "handleCancelled res now req h =
     (case CancelTimer (rq_ID req) h of
        (True, h) \<Rightarrow> (h, [])
      | (False, h) \<Rightarrow>
          (case forget (rq_ID req) h of (old, h) \<Rightarrow>
            (let closing = (case old of Some i \<Rightarrow> [ClosedN i] | None \<Rightarrow> []);
                 h = h\<lparr>nh_cancelled := filter (\<lambda>(_, _, t). \<not> t < now) (gm_put (rq_ID req) (req, now + fiveMinutes) (nh_cancelled h))\<rparr>;
                 invoker = (if si_InvokerName (rq_SenderInfo req) = [] then ''client'' else si_InvokerName (rq_SenderInfo req));
                 summary = invoker @ '' timed out'';
                 body = ''Auto-approve similar requests for '' @ formatDurationShort (nh_autoApproveDuration h) @ ''?'';
                 actions = [''auto_approve'', ''Auto-approve'', ''dismiss'', ''Dismiss'']
             in case res of
                  Inl _ \<Rightarrow> (h, closing)
                | Inr newID \<Rightarrow> (remember (rq_ID req) newID h,
                                closing @ [Notified newID (rq_ID req) summary body ''dialog-question'' actions]))))"

definition handleResolved :: "string \<Rightarrow> NHandler \<Rightarrow> NHandler \<times> neffect list" where
  "handleResolved requestID h =
     (case CancelTimer requestID h of
        (True, h) \<Rightarrow> (h, [])
      | (False, h) \<Rightarrow>
          (case forget requestID h of
             (None, h) \<Rightarrow> (h, [])
           | (Some i, h) \<Rightarrow> (h, [ClosedN i])))"

definition NHandler_OnEvent :: "go_error + uint32 \<Rightarrow> nanos \<Rightarrow> Event \<Rightarrow> NHandler \<Rightarrow> NHandler \<times> neffect list" where
  "NHandler_OnEvent res now e h =
     (case (ev_Type e, ev_Request e) of
        (EventRequestCreated, Some req) \<Rightarrow> handleCreated res req h
      | (EventRequestCancelled, Some req) \<Rightarrow> handleCancelled res now req h
      | (EventRequestApproved, Some req) \<Rightarrow> handleResolved (rq_ID req) h
      | (EventRequestDenied, Some req) \<Rightarrow> handleResolved (rq_ID req) h
      | (EventRequestExpired, Some req) \<Rightarrow> handleResolved (rq_ID req) h
      | (EventRequestAutoApproved, Some req) \<Rightarrow> handleResolved (rq_ID req) h
      | _ \<Rightarrow> (h, []))"

text \<open>A click: \<open>Called\<close> stands for the call of the approver, whose outcome is only logged.\<close>

definition handleAction :: "Action \<Rightarrow> NHandler \<Rightarrow> NHandler \<times> neffect list" where
  "handleAction action h =
     (case map_of (nh_requests h) (ac_NotificationID action) of
        None \<Rightarrow> (h, [])
      | Some reqID \<Rightarrow>
          (let h = h\<lparr>nh_requests := gm_del (ac_NotificationID action) (nh_requests h),
                     nh_notifications := gm_del reqID (nh_notifications h)\<rparr>;
               key = ac_ActionKey action
           in if key = ''default'' then (h, [OpenedURL (nh_baseURL h @ ''?request='' @ reqID)])
              else if key = ''approve'' \<or> key = ''approve_and_auto_approve'' \<or> key = ''deny'' \<or> key = ''auto_approve''
              then (h, [Called key reqID])
              else (h, [])))"

text \<open>The slow-upstream notice; the returned number, if any, is what the dismiss function closes.\<close>

definition NotifySlowUpstream :: "go_error + uint32 \<Rightarrow> UpstreamCallContext \<Rightarrow> uint32 option \<times> neffect list" where
  "NotifySlowUpstream res ctx =
     (case res of
        Inl _ \<Rightarrow> (None, [])
      | Inr i \<Rightarrow> (Some i, [Notified i [] (slowUpstreamSummary (cc_RequestType ctx)) (formatSlowUpstreamBody ctx) ''dialog-password'' []]))"

definition dismissSlowUpstream :: "uint32 option \<Rightarrow> neffect list" where
  "dismissSlowUpstream i = (case i of None \<Rightarrow> [] | Some i \<Rightarrow> [ClosedN i])"

subsection \<open>Runs of the handler\<close>

text \<open>
  Events of the manager, timers that go off and clicks, in any order.  The notification server gives
  out numbers it has not used before, and a request is reported as created once.  A timer's goroutine
  takes the timer and sends in one step (\<open>fire\<close>) or, where races are considered, in two (\<open>take\<close>, \<open>send\<close>).
\<close>

record NM =
  nm_h :: NHandler
  nm_firing :: "Request list"
  nm_known :: "string list"
  nm_log :: "neffect list"

fun shownIn :: "neffect list \<Rightarrow> (uint32 \<times> string) list" where
  "shownIn [] = []"
| "shownIn (Notified i r _ _ _ _ # es) = (i, r) # shownIn es"
| "shownIn (_ # es) = shownIn es"

definition fresh_id :: "neffect list \<Rightarrow> go_error + uint32 \<Rightarrow> bool" where
  "fresh_id log res = (case res of Inl _ \<Rightarrow> True | Inr i \<Rightarrow> i \<notin> fst ` set (shownIn log))"

definition fresh_event :: "string list \<Rightarrow> Event \<Rightarrow> bool" where
  "fresh_event known e = (case ev_Request e of
      None \<Rightarrow> True | Some req \<Rightarrow> ev_Type e = EventRequestCreated \<longrightarrow> rq_ID req \<notin> set known)"

definition known_event :: "Event \<Rightarrow> string list" where
  "known_event e = (case ev_Request e of None \<Rightarrow> [] | Some req \<Rightarrow> [rq_ID req])"

inductive nm_step :: "bool \<Rightarrow> NM \<Rightarrow> NM \<Rightarrow> bool" for race where
  event:
  "NHandler_OnEvent res now e (nm_h x) = (h, eff) \<Longrightarrow> fresh_id (nm_log x) res \<Longrightarrow> fresh_event (nm_known x) e \<Longrightarrow>
   nm_step race x (x\<lparr>nm_h := h, nm_known := known_event e @ nm_known x, nm_log := rev eff @ nm_log x\<rparr>)"
| fire:
  "timerFires r (nm_h x) = (Some req, h1) \<Longrightarrow> sendNotification res req h1 = (h, eff) \<Longrightarrow> fresh_id (nm_log x) res \<Longrightarrow>
   nm_step race x (x\<lparr>nm_h := h, nm_log := rev eff @ nm_log x\<rparr>)"
| take:
  "race \<Longrightarrow> timerFires r (nm_h x) = (Some req, h) \<Longrightarrow>
   nm_step race x (x\<lparr>nm_h := h, nm_firing := req # nm_firing x\<rparr>)"
| send:
  "race \<Longrightarrow> req \<in> set (nm_firing x) \<Longrightarrow> sendNotification res req (nm_h x) = (h, eff) \<Longrightarrow> fresh_id (nm_log x) res \<Longrightarrow>
   nm_step race x (x\<lparr>nm_h := h, nm_firing := remove1 req (nm_firing x), nm_log := rev eff @ nm_log x\<rparr>)"
| click:
  "handleAction a (nm_h x) = (h, eff) \<Longrightarrow> nm_step race x (x\<lparr>nm_h := h, nm_log := rev eff @ nm_log x\<rparr>)"

definition nm_init :: "NM \<Rightarrow> bool" where
  "nm_init x \<longleftrightarrow> (\<exists>url pids dur delay. nm_h x = newNHandler url pids dur delay) \<and>
     nm_firing x = [] \<and> nm_known x = [] \<and> nm_log x = []"

subsubsection \<open>A click answers the question that was shown\<close>

text \<open>What a notification for a request may say.\<close>

definition saysQuestion :: "NHandler \<Rightarrow> Request \<Rightarrow> string \<Rightarrow> string \<Rightarrow> bool" where
  "saysQuestion h req summary body \<longleftrightarrow>
     summary = fst (notificationMeta (rq_Type req)) \<and> body = formatBody (nh_showPIDs h) req"

definition saysFollowUp :: "NHandler \<Rightarrow> Request \<Rightarrow> string \<Rightarrow> string \<Rightarrow> bool" where
  "saysFollowUp h req summary body \<longleftrightarrow> HasSuffix summary '' timed out'' \<and>
     body = ''Auto-approve similar requests for '' @ formatDurationShort (nh_autoApproveDuration h) @ ''?''"

fun honest :: "NHandler \<Rightarrow> neffect \<Rightarrow> bool" where
  "honest h (Notified i r summary body icon actions) \<longleftrightarrow>
     (\<exists>req. rq_ID req = r \<and> (saysQuestion h req summary body \<or> saysFollowUp h req summary body))"
| "honest h _ \<longleftrightarrow> True"

definition config :: "NHandler \<Rightarrow> string \<times> bool \<times> nanos \<times> nanos" where
  "config h = (nh_baseURL h, nh_showPIDs h, nh_autoApproveDuration h, nh_notificationDelay h)"

definition click_inv :: "NM \<Rightarrow> bool" where
  "click_inv x \<longleftrightarrow>
     (\<forall>r i. map_of (nh_notifications (nm_h x)) r = Some i \<longrightarrow> map_of (nh_requests (nm_h x)) i = Some r) \<and>
     (\<forall>i r. map_of (nh_requests (nm_h x)) i = Some r \<longrightarrow> (i, r) \<in> set (shownIn (nm_log x))) \<and>
     distinct (map fst (shownIn (nm_log x))) \<and>
     (\<forall>e \<in> set (nm_log x). honest (nm_h x) e)"

lemmas nh_defs = sendNotification_def handleCreated_def handleCancelled_def handleResolved_def NHandler_OnEvent_def
  handleAction_def Schedule_def CancelTimer_def timerFires_def remember_def forget_def Let_def

lemma shownIn_append: "shownIn (xs @ ys) = shownIn xs @ shownIn ys"
  by (induction xs rule: shownIn.induct) auto

text \<open>Every operation is a sequence of four small changes.\<close>

definition nm_show :: "uint32 \<Rightarrow> Request \<Rightarrow> neffect \<Rightarrow> NM \<Rightarrow> NM" where
  "nm_show i req e x = x\<lparr>nm_h := remember (rq_ID req) i (nm_h x), nm_log := e # nm_log x\<rparr>"

definition nm_drop :: "string \<Rightarrow> uint32 \<Rightarrow> NM \<Rightarrow> NM" where
  "nm_drop r i x = x\<lparr>nm_h := (nm_h x)\<lparr>nh_notifications := gm_del r (nh_notifications (nm_h x)), nh_requests := gm_del i (nh_requests (nm_h x))\<rparr>\<rparr>"

lemma honest_cong: "config h = config h' \<Longrightarrow> honest h = honest h'"
  by (rule ext, rename_tac e, case_tac e) (auto simp: config_def saysQuestion_def saysFollowUp_def)

text \<open>The invariant looks at the two maps, the log and the settings only.\<close>

lemma click_inv_cong:
  assumes "click_inv x" and "nh_notifications (nm_h y) = nh_notifications (nm_h x)"
    and "nh_requests (nm_h y) = nh_requests (nm_h x)" and "config (nm_h y) = config (nm_h x)"
    and "shownIn (nm_log y) = shownIn (nm_log x)" and "\<forall>e \<in> set (nm_log y). e \<in> set (nm_log x) \<or> (\<forall>h. honest h e)"
  shows "click_inv y"
  using assms honest_cong[OF assms(4)] by (auto simp: click_inv_def)

lemma click_inv_shown:
  assumes "click_inv x" and "map_of (nh_requests (nm_h x)) i = Some r"
  shows "i \<in> fst ` set (shownIn (nm_log x))"
proof -
  have "(i, r) \<in> set (shownIn (nm_log x))" using assms by (simp add: click_inv_def)
  then show ?thesis by force
qed

lemma click_inv_show:
  assumes inv: "click_inv x" and fresh: "i \<notin> fst ` set (shownIn (nm_log x))"
    and e: "e = Notified i (rq_ID req) summary body icon actions" and h: "honest (nm_h x) e"
  shows "click_inv (nm_show i req e x)"
proof -
  have c: "honest (nm_h (nm_show i req e x)) = honest (nm_h x)"
    by (rule honest_cong) (simp add: config_def remember_def nm_show_def)
  have n: "map_of (nh_requests (nm_h x)) i = None" using fresh click_inv_shown[OF inv] by (rule_tac ccontr) auto
  have l: "shownIn (nm_log (nm_show i req e x)) = (i, rq_ID req) # shownIn (nm_log x)" by (simp add: nm_show_def e)
  show ?thesis
    using inv fresh n h unfolding click_inv_def c l by (auto simp: nm_show_def remember_def)
qed

lemma click_inv_drop:
  assumes inv: "click_inv x" and "map_of (nh_requests (nm_h x)) i = Some r"
  shows "click_inv (nm_drop r i x)"
proof -
  have c: "honest (nm_h (nm_drop r i x)) = honest (nm_h x)"
    by (rule honest_cong) (simp add: config_def nm_drop_def)
  show ?thesis
    using inv assms(2) unfolding click_inv_def c by (auto simp: nm_drop_def)
qed

subsubsection \<open>The steps in terms of these changes\<close>

lemma click_inv_forget:
  assumes "forget r (nm_h x) = (old, h)" and "click_inv x"
  shows "click_inv (x\<lparr>nm_h := h\<rparr>)"
proof (cases "map_of (nh_notifications (nm_h x)) r")
  case None
  then show ?thesis using assms by (auto simp: forget_def)
next
  case (Some i)
  then have "map_of (nh_requests (nm_h x)) i = Some r" using assms(2) by (simp add: click_inv_def)
  from click_inv_drop[OF assms(2) this] show ?thesis
    using assms(1) Some by (auto simp: forget_def nm_drop_def)
qed

lemma click_inv_send:
  assumes "sendNotification res req (nm_h x) = (h, eff)" and "fresh_id (nm_log x) res" and "click_inv x"
  shows "click_inv (x\<lparr>nm_h := h, nm_log := rev eff @ nm_log x\<rparr>)"
proof (cases res)
  case (Inl e)
  then show ?thesis using assms by (auto simp: sendNotification_def Let_def split: prod.splits)
next
  case (Inr i)
  obtain summary icon where m: "notificationMeta (rq_Type req) = (summary, icon)" by fastforce
  obtain e actions where *: "h = remember (rq_ID req) i (nm_h x)" "eff = [e]"
      "e = Notified i (rq_ID req) summary (formatBody (nh_showPIDs (nm_h x)) req) icon actions"
    using assms(1) Inr m by (auto simp: sendNotification_def Let_def)
  have "honest (nm_h x) e" using m by (auto simp: *(3) saysQuestion_def)
  from click_inv_show[OF assms(3) _ *(3) this] show ?thesis
    using assms(2) Inr by (simp add: * fresh_id_def nm_show_def)
qed

lemma click_inv_timer:
  assumes "CancelTimer r (nm_h x) = (b, h)" and "click_inv x"
  shows "click_inv (x\<lparr>nm_h := h\<rparr>)"
  by (rule click_inv_cong[OF assms(2)]) (use assms(1) in \<open>auto simp: CancelTimer_def config_def split: option.splits\<close>)

lemma click_inv_fires:
  assumes "timerFires r (nm_h x) = (b, h)" and "click_inv x"
  shows "click_inv (x\<lparr>nm_h := h\<rparr>)"
  by (rule click_inv_cong[OF assms(2)]) (use assms(1) in \<open>auto simp: timerFires_def config_def split: option.splits\<close>)

lemma click_inv_effect:
  assumes "click_inv x" and "shownIn [e] = []" and "\<forall>h. honest h e"
  shows "click_inv (x\<lparr>nm_log := e # nm_log x\<rparr>)"
  by (rule click_inv_cong[OF assms(1)]) (use assms(2,3) shownIn_append[of "[e]" "nm_log x"] in simp_all)

lemma click_inv_other: "click_inv x \<Longrightarrow> nm_h y = nm_h x \<Longrightarrow> nm_log y = nm_log x \<Longrightarrow> click_inv y"
  by (simp add: click_inv_def)

lemma click_inv_resolved:
  assumes "handleResolved r (nm_h x) = (h, eff)" and "click_inv x"
  shows "click_inv (x\<lparr>nm_h := h, nm_log := rev eff @ nm_log x\<rparr>)"
proof -
  obtain b h1 where c: "CancelTimer r (nm_h x) = (b, h1)" by fastforce
  note i1 = click_inv_timer[OF c assms(2)]
  obtain old h2 where f: "forget r h1 = (old, h2)" by fastforce
  have i2: "click_inv (x\<lparr>nm_h := h2\<rparr>)" using click_inv_forget[of r "x\<lparr>nm_h := h1\<rparr>"] i1 f by simp
  show ?thesis
    using assms(1) i1 i2 click_inv_effect[OF i2]
    by (cases b; cases old) (auto simp: handleResolved_def c f)
qed

lemma click_inv_created:
  assumes "handleCreated res req (nm_h x) = (h, eff)" and "fresh_id (nm_log x) res" and "click_inv x"
  shows "click_inv (x\<lparr>nm_h := h, nm_log := rev eff @ nm_log x\<rparr>)"
proof (cases "nh_notificationDelay (nm_h x) \<le> 0")
  case True
  then show ?thesis using click_inv_send[OF _ assms(2,3)] assms(1) by (simp add: handleCreated_def)
next
  case False
  show ?thesis
    by (rule click_inv_cong[OF assms(3)]) (use assms(1) False in \<open>auto simp: handleCreated_def Schedule_def config_def\<close>)
qed

lemma click_inv_action:
  assumes "handleAction a (nm_h x) = (h, eff)" and "click_inv x"
  shows "click_inv (x\<lparr>nm_h := h, nm_log := rev eff @ nm_log x\<rparr>)"
proof (cases "map_of (nh_requests (nm_h x)) (ac_NotificationID a)")
  case None
  then show ?thesis using assms by (auto simp: handleAction_def)
next
  case (Some r)
  note i1 = click_inv_drop[OF assms(2) Some]
  have h: "x\<lparr>nm_h := h\<rparr> = nm_drop r (ac_NotificationID a) x" and "eff = [] \<or> (\<exists>e. eff = [e] \<and> shownIn [e] = [] \<and> (\<forall>h. honest h e))"
    using assms(1) Some by (auto simp: handleAction_def Let_def nm_drop_def split: if_splits)
  then show ?thesis using i1 click_inv_effect[OF i1] by (auto simp: h[symmetric])
qed

lemma click_inv_cancelled:
  assumes "handleCancelled res now req (nm_h x) = (h, eff)" and "fresh_id (nm_log x) res" and "click_inv x"
  shows "click_inv (x\<lparr>nm_h := h, nm_log := rev eff @ nm_log x\<rparr>)"
proof -
  let ?r = "rq_ID req"
  obtain b h1 where c: "CancelTimer ?r (nm_h x) = (b, h1)" by fastforce
  note i1 = click_inv_timer[OF c assms(3)]
  obtain old h2 where f: "forget ?r h1 = (old, h2)" by fastforce
  define closing where "closing = (case old of Some i \<Rightarrow> [ClosedN i] | None \<Rightarrow> [])"
  define h3 where "h3 = h2\<lparr>nh_cancelled := filter (\<lambda>(_, _, t). \<not> t < now) (gm_put ?r (req, now + fiveMinutes) (nh_cancelled h2))\<rparr>"
  have i2: "click_inv (x\<lparr>nm_h := h2\<rparr>)" using click_inv_forget[of ?r "x\<lparr>nm_h := h1\<rparr>"] i1 f by simp
  have i3: "click_inv (x\<lparr>nm_h := h3, nm_log := closing @ nm_log x\<rparr>)" (is "click_inv ?y")
    by (rule click_inv_cong[OF i2]) (auto simp: h3_def closing_def config_def split: option.splits)
  show ?thesis
  proof (cases b)
    case True
    then show ?thesis using assms(1) i1 by (auto simp: handleCancelled_def c)
  next
    case nb: False
    show ?thesis
    proof (cases res)
      case (Inl e)
      then show ?thesis using assms(1) i3 nb
        by (auto simp: handleCancelled_def c f h3_def closing_def Let_def split: option.splits)
    next
      case (Inr i)
      obtain e invoker actions where e: "e = Notified i ?r (invoker @ '' timed out'')
          (''Auto-approve similar requests for '' @ formatDurationShort (nh_autoApproveDuration h3) @ ''?'') ''dialog-question'' actions"
          and h: "h = remember ?r i h3" "eff = closing @ [e]"
        using assms(1) nb Inr by (auto simp: handleCancelled_def c f h3_def closing_def Let_def)
      have "honest h3 e" by (auto simp: e saysFollowUp_def HasSuffix_iff)
      moreover have "i \<notin> fst ` set (shownIn (nm_log ?y))"
        using assms(2) Inr by (auto simp: fresh_id_def closing_def split: option.splits)
      ultimately show ?thesis using click_inv_show[of ?y i e req] i3 e
        by (auto simp: h nm_show_def closing_def split: option.splits)
    qed
  qed
qed

lemma nm_step_click_inv: "nm_step race x y \<Longrightarrow> click_inv x \<Longrightarrow> click_inv y"
proof (induction rule: nm_step.induct)
  case (event res now e x h eff)
  have "click_inv (x\<lparr>nm_h := h, nm_log := rev eff @ nm_log x\<rparr>)"
    using event click_inv_created[OF _ event(2,4)] click_inv_cancelled[OF _ event(2,4)] click_inv_resolved[OF _ event(4)]
    by (auto simp: NHandler_OnEvent_def split: EventType.splits option.splits)
  then show ?case by (rule click_inv_other) simp_all
next
  case (fire r x req h1 res h eff)
  show ?case using click_inv_send[of res req "x\<lparr>nm_h := h1\<rparr>" h eff] click_inv_fires[OF fire(1)] fire by simp
next
  case (take r x req h)
  show ?case by (rule click_inv_other[OF click_inv_fires[OF take(2,3)]]) simp_all
next
  case (send req x res h eff)
  show ?case by (rule click_inv_other[OF click_inv_send[OF send(3,4,5)]]) simp_all
next
  case (click a x h eff)
  then show ?case by (rule click_inv_action)
qed

lemma nm_init_click_inv: "nm_init x \<Longrightarrow> click_inv x"
  by (auto simp: nm_init_def click_inv_def newNHandler_def)

interpretation nm: invariant_system nm_init "nm_step race" click_inv for race
  by unfold_locales (rule nm_init_click_inv, assumption, rule nm_step_click_inv)

lemma shownIn_iff: "(i, r) \<in> set (shownIn log) \<longleftrightarrow> (\<exists>s b icon as. Notified i r s b icon as \<in> set log)"
  by (induction log rule: shownIn.induct) auto

lemma handleAction_consumes:
  assumes "handleAction a h = (h', eff)" and "ac_NotificationID b = ac_NotificationID a"
  shows "handleAction b h' = (h', [])"
  using assms by (auto simp: handleAction_def Let_def split: option.splits if_splits)


subsubsection \<open>Nothing is left on the screen\<close>

text \<open>
  When the timers' goroutines are not interrupted, the two maps are inverse to each other and a request
  waiting for its timer has no notification.
\<close>

definition calm :: "NHandler \<Rightarrow> string set \<Rightarrow> bool" where
  "calm h known \<longleftrightarrow>
     (\<forall>i r. map_of (nh_requests h) i = Some r \<longleftrightarrow> map_of (nh_notifications h) r = Some i) \<and>
     (\<forall>r req. map_of (nh_timers h) r = Some req \<longrightarrow> rq_ID req = r \<and> r \<in> known \<and> map_of (nh_notifications h) r = None) \<and>
     dom (map_of (nh_notifications h)) \<subseteq> known"

lemma calm_mono: "calm h K \<Longrightarrow> K \<subseteq> K' \<Longrightarrow> calm h K'"
  unfolding calm_def by blast

lemma calm_cancelTimer: "CancelTimer r h = (b, h') \<Longrightarrow> calm h K \<Longrightarrow> calm h' K \<and> map_of (nh_timers h') r = None \<and>
    (b \<longrightarrow> map_of (nh_notifications h') r = None)"
  by (auto simp: CancelTimer_def calm_def split: option.splits if_splits)

lemma calm_iff: "calm h K \<Longrightarrow> map_of (nh_requests h) i = Some r \<longleftrightarrow> map_of (nh_notifications h) r = Some i"
  by (simp add: calm_def)

lemma calm_forget:
  assumes "forget r h = (old, h')" and "calm h K"
  shows "calm h' K \<and> map_of (nh_notifications h') r = None \<and> nh_timers h' = nh_timers h"
proof (cases "map_of (nh_notifications h) r")
  case None
  then show ?thesis using assms by (auto simp: forget_def)
next
  case (Some i)
  then have h': "h' = h\<lparr>nh_notifications := gm_del r (nh_notifications h), nh_requests := gm_del i (nh_requests h)\<rparr>"
    using assms(1) by (simp add: forget_def)
  have "map_of (nh_requests h) i = Some r" using Some calm_iff[OF assms(2)] by simp
  then have "map_of (nh_notifications h) r' \<noteq> Some i" if "r' \<noteq> r" for r'
    using that calm_iff[OF assms(2), of i r'] by auto
  then show ?thesis using assms(2) Some by (auto simp: h' calm_def)
qed

lemma calm_remember:
  assumes "calm h K" and "map_of (nh_notifications h) r = None" and "map_of (nh_requests h) i = None"
    and "map_of (nh_timers h) r = None"
  shows "calm (remember r i h) (insert r K)"
proof -
  have "map_of (nh_notifications h) r' \<noteq> Some i" for r' using calm_iff[OF assms(1), of i r'] assms(3) by simp
  then show ?thesis using assms by (auto simp: calm_def remember_def)
qed

lemma calm_send:
  assumes "sendNotification res req h = (h', eff)" and "calm h K" and "map_of (nh_notifications h) (rq_ID req) = None"
    and "map_of (nh_timers h) (rq_ID req) = None" and "\<And>i. res = Inr i \<Longrightarrow> map_of (nh_requests h) i = None"
  shows "calm h' (insert (rq_ID req) K)"
proof (cases res)
  case (Inl e)
  then show ?thesis using assms(1,2) calm_mono[of h K "insert (rq_ID req) K"] by (auto simp: sendNotification_def Let_def split: prod.splits)
next
  case (Inr i)
  then show ?thesis using assms(1) calm_remember[OF assms(2-3) assms(5)[OF Inr] assms(4)]
    by (auto simp: sendNotification_def Let_def split: prod.splits)
qed

lemma calm_created:
  assumes "handleCreated res req h = (h', eff)" and "calm h K" and "rq_ID req \<notin> K" and "\<And>i. res = Inr i \<Longrightarrow> map_of (nh_requests h) i = None"
  shows "calm h' (insert (rq_ID req) K)"
proof -
  have n: "map_of (nh_notifications h) (rq_ID req) = None" "map_of (nh_timers h) (rq_ID req) = None"
    using assms(2,3) unfolding calm_def by (blast, rule_tac ccontr, auto)
  show ?thesis
  proof (cases "nh_notificationDelay h \<le> 0")
    case True
    then show ?thesis using assms(1) calm_send[OF _ assms(2) n assms(4)] by (simp add: handleCreated_def)
  next
    case False
    then have h': "h' = Schedule (rq_ID req) req h" using assms(1) by (simp add: handleCreated_def)
    show ?thesis using assms(2) n unfolding calm_def h' Schedule_def by auto
  qed
qed

lemma calm_resolved:
  assumes "handleResolved r h = (h', eff)" and "calm h K"
  shows "calm h' K \<and> map_of (nh_timers h') r = None \<and> (\<forall>i. map_of (nh_requests h') i \<noteq> Some r)"
proof -
  obtain b h1 where c: "CancelTimer r h = (b, h1)" by fastforce
  obtain old h2 where f: "forget r h1 = (old, h2)" by fastforce
  note i1 = calm_cancelTimer[OF c assms(2)]
  note i2 = calm_forget[OF f conjunct1[OF i1]]
  have "h' = (if b then h1 else h2)" using assms(1) by (auto simp: handleResolved_def c f split: option.splits)
  then show ?thesis using i1 i2 calm_iff[of h1 K _ r] calm_iff[of h2 K _ r] by auto
qed

lemma calm_cancelled:
  assumes "handleCancelled res now req h = (h', eff)" and "calm h K" and "\<And>i. res = Inr i \<Longrightarrow> map_of (nh_requests h) i = None"
  shows "calm h' (insert (rq_ID req) K)"
proof -
  let ?r = "rq_ID req"
  obtain b h1 where c: "CancelTimer ?r h = (b, h1)" by fastforce
  obtain old h2 where f: "forget ?r h1 = (old, h2)" by fastforce
  define h3 where "h3 = h2\<lparr>nh_cancelled := filter (\<lambda>(_, _, t). \<not> t < now) (gm_put ?r (req, now + fiveMinutes) (nh_cancelled h2))\<rparr>"
  note i1 = calm_cancelTimer[OF c assms(2)]
  note i2 = calm_forget[OF f conjunct1[OF i1]]
  have q: "nh_requests h1 = nh_requests h" using c by (auto simp: CancelTimer_def split: option.splits)
  have "map_of (nh_requests h3) i = None" if "res = Inr i" for i
    using assms(3)[OF that] f by (auto simp: h3_def forget_def q[symmetric] split: option.splits)
  moreover have "h' = (if b then h1 else case res of Inl _ \<Rightarrow> h3 | Inr i \<Rightarrow> remember ?r i h3)"
    using assms(1) by (auto simp: handleCancelled_def c f h3_def Let_def split: sum.splits)
  moreover have "calm h3 K" "map_of (nh_notifications h3) ?r = None" "map_of (nh_timers h3) ?r = None"
    using i1 i2 by (auto simp: h3_def calm_def)
  ultimately show ?thesis
    using i1 calm_mono[of _ K "insert ?r K"] calm_remember[of h3 K ?r] by (auto split: sum.splits)
qed

definition calm_inv :: "NM \<Rightarrow> bool" where
  "calm_inv x \<longleftrightarrow> click_inv x \<and> calm (nm_h x) (set (nm_known x))"

lemma fresh_id_requests: "click_inv x \<Longrightarrow> fresh_id (nm_log x) (Inr i) \<Longrightarrow> map_of (nh_requests (nm_h x)) i = None"
  using click_inv_shown[of x i] by (cases "map_of (nh_requests (nm_h x)) i") (auto simp: fresh_id_def)

lemma calm_action:
  assumes "handleAction a h = (h', eff)" and "calm h K"
  shows "calm h' K"
proof (cases "map_of (nh_requests h) (ac_NotificationID a)")
  case None
  then show ?thesis using assms by (auto simp: handleAction_def)
next
  case (Some r)
  then have n: "map_of (nh_notifications h) r = Some (ac_NotificationID a)" using calm_iff[OF assms(2)] by simp
  have "h' = snd (forget r h)" using assms(1) Some n by (auto simp: handleAction_def forget_def Let_def split: if_splits)
  then show ?thesis using calm_forget[of r h "fst (forget r h)"] assms(2) by simp
qed

lemma calm_event:
  assumes ev: "NHandler_OnEvent res now e h = (h', eff)" and c: "calm h (set known)" and fe: "fresh_event known e"
    and f: "\<And>i. res = Inr i \<Longrightarrow> map_of (nh_requests h) i = None"
  shows "calm h' (set (known_event e @ known))"
proof (cases "ev_Request e")
  case None
  then show ?thesis using ev c by (auto simp: NHandler_OnEvent_def known_event_def split: EventType.splits)
next
  case (Some req)
  let ?K = "insert (rq_ID req) (set known)"
  have "calm h' ?K"
  proof (cases "ev_Type e")
    case EventRequestCreated
    then show ?thesis using ev fe Some calm_created[OF _ c _ f, of res req h' eff]
      by (simp add: NHandler_OnEvent_def fresh_event_def)
  next
    case EventRequestCancelled
    then show ?thesis using ev Some calm_cancelled[OF _ c f, of res now req h' eff] by (simp add: NHandler_OnEvent_def)
  qed (use ev Some c calm_resolved[OF _ c, of "rq_ID req" h' eff] calm_mono[of h' "set known" ?K] in \<open>auto simp: NHandler_OnEvent_def\<close>)
  then show ?thesis using Some by (simp add: known_event_def)
qed

lemma calm_fires:
  assumes "timerFires r h = (Some req, h1)" and "calm h K"
  shows "calm h1 K \<and> r = rq_ID req \<and> r \<in> K \<and> nh_requests h1 = nh_requests h \<and>
         map_of (nh_notifications h1) r = None \<and> map_of (nh_timers h1) r = None"
  using assms by (auto simp: timerFires_def calm_def split: option.splits if_splits)

lemma nm_step_calm_inv: "nm_step race x y \<Longrightarrow> \<not> race \<Longrightarrow> calm_inv x \<Longrightarrow> calm_inv y"
proof (induction rule: nm_step.induct)
  case (event res now e x h eff)
  then have c: "click_inv x" "calm (nm_h x) (set (nm_known x))" by (auto simp: calm_inv_def)
  have "calm h (set (known_event e @ nm_known x))"
    using calm_event[OF event(1) c(2) event(3)] fresh_id_requests[OF c(1)] event(2) by blast
  then show ?case using nm_step_click_inv[OF nm_step.event[OF event(1-3)] c(1)] by (simp add: calm_inv_def)
next
  case (fire r x req h1 res h eff)
  then have c: "click_inv x" "calm (nm_h x) (set (nm_known x))" by (auto simp: calm_inv_def)
  note f = calm_fires[OF fire(1) c(2)]
  have "calm h (insert (rq_ID req) (set (nm_known x)))"
    by (rule calm_send[OF fire(2)]) (use f fresh_id_requests[OF c(1)] fire(3) in auto)
  moreover have "insert (rq_ID req) (set (nm_known x)) = set (nm_known x)" using f by auto
  ultimately have "calm h (set (nm_known x))" by simp
  then show ?case using nm_step_click_inv[OF nm_step.fire[OF fire(1-3)] c(1)] by (simp add: calm_inv_def)
next
  case (click a x h eff)
  then show ?case using nm_step_click_inv[OF nm_step.click[OF click(1)]] calm_action[OF click(1)] by (auto simp: calm_inv_def)
qed simp_all

interpretation calm: invariant_system nm_init "nm_step False" calm_inv
proof (unfold_locales, goal_cases)
  case (1 x)
  then show ?case using nm_init_click_inv[OF 1] by (auto simp: calm_inv_def nm_init_def newNHandler_def calm_def)
next
  case (2 x y)
  then show ?case by (simp add: nm_step_calm_inv)
qed

text \<open>The events that settle a request.\<close>

definition settling :: "EventType \<Rightarrow> bool" where
  "settling t \<longleftrightarrow> t \<in> {EventRequestApproved, EventRequestDenied, EventRequestExpired, EventRequestAutoApproved}"

text \<open>
  Once a request is settled its buttons are dead: unless a timer's goroutine is caught between taking
  its timer and sending, after the event that settles a request no notification on the screen answers for it
  any more and none is about to appear; its notification, if there was one, is closed.
\<close>

theorem settled_request_leaves_no_buttons:
  assumes "reach nm_init (nm_step False) x" and "settling t"
    and "NHandler_OnEvent res now (reqEvent t req) (nm_h x) = (h, eff)"
  shows "(\<forall>a. map_of (nh_requests (nm_h x)) (ac_NotificationID a) \<in> {None, Some (rq_ID req)} \<longrightarrow> handleAction a h = (h, [])) \<and>
         map_of (nh_timers h) (rq_ID req) = None \<and>
         (case map_of (nh_notifications (nm_h x)) (rq_ID req) of Some i \<Rightarrow> eff = [ClosedN i] | None \<Rightarrow> eff = [])"
proof -
  have c: "calm (nm_h x) (set (nm_known x))" using calm.reach_inv[OF assms(1)] by (simp add: calm_inv_def)
  have r: "handleResolved (rq_ID req) (nm_h x) = (h, eff)" using assms(2,3) by (auto simp: settling_def NHandler_OnEvent_def)
  note s = calm_resolved[OF r c]
  have sub: "map_of (nh_requests h) i = Some q \<Longrightarrow> map_of (nh_requests (nm_h x)) i = Some q" for i q
    using r by (auto simp: handleResolved_def CancelTimer_def forget_def split: option.splits if_splits)
  have "handleAction a h = (h, [])" if "map_of (nh_requests (nm_h x)) (ac_NotificationID a) \<in> {None, Some (rq_ID req)}" for a
    using that s sub[of "ac_NotificationID a"] by (cases "map_of (nh_requests h) (ac_NotificationID a)") (auto simp: handleAction_def)
  moreover have "case map_of (nh_notifications (nm_h x)) (rq_ID req) of Some i \<Rightarrow> eff = [ClosedN i] | None \<Rightarrow> eff = []"
    using r c by (auto simp: handleResolved_def CancelTimer_def forget_def calm_def split: option.splits)
  ultimately show ?thesis using s by blast
qed

subsubsection \<open>Sample runs\<close>

definition exNM0 :: NM where
  "exNM0 = \<lparr>nm_h = newNHandler ''http://127.0.0.1:8484/'' False 120000000000 500000000, nm_firing = [], nm_known = [], nm_log = []\<rparr>"

definition exNM1 :: NM where
  "exNM1 = exNM0\<lparr>nm_h := Schedule ''r1'' exRequest (nm_h exNM0), nm_known := [''r1'']\<rparr>"

definition exNM2 :: NM where
  "exNM2 = (case timerFires ''r1'' (nm_h exNM1) of (_, h1) \<Rightarrow>
     (case sendNotification (Inr 7) exRequest h1 of (h, eff) \<Rightarrow> exNM1\<lparr>nm_h := h, nm_log := rev eff @ nm_log exNM1\<rparr>))"

lemma nm_step_eq: "nm_step race x y \<Longrightarrow> y = z \<Longrightarrow> nm_step race x z"
  by simp

lemma reach_exNM1: "reach nm_init (nm_step race) exNM1"
proof -
  have "nm_init exNM0" unfolding nm_init_def exNM0_def by auto
  then have "reach nm_init (nm_step race) exNM0" by (rule reach_init)
  moreover have "nm_step race exNM0 exNM1"
    by (rule nm_step_eq[OF nm_step.event[where res = "Inr 7" and now = 0 and e = "reqEvent EventRequestCreated exRequest"]])
      (code_simp+)
  ultimately show ?thesis by (rule reach_step)
qed

lemma reach_exNM2: "reach nm_init (nm_step race) exNM2"
proof -
  have "nm_step race exNM1 exNM2"
    by (rule nm_step_eq[OF nm_step.fire[where r = "''r1''" and res = "Inr 7" and req = exRequest]]) (code_simp+)
  with reach_exNM1 show ?thesis by (rule reach_step)
qed


theorem settled_request_leaves_no_buttons_witness:
  "snd (NHandler_OnEvent (Inr 8) 0 (reqEvent EventRequestDenied exRequest) (nm_h exNM2)) = [ClosedN 7] \<and>
   handleAction \<lparr>ac_NotificationID = 7, ac_ActionKey = ''approve''\<rparr>
     (fst (NHandler_OnEvent (Inr 8) 0 (reqEvent EventRequestDenied exRequest) (nm_h exNM2))) =
   (fst (NHandler_OnEvent (Inr 8) 0 (reqEvent EventRequestDenied exRequest) (nm_h exNM2)), [])"
proof -
  obtain h eff where a: "NHandler_OnEvent (Inr 8) 0 (reqEvent EventRequestDenied exRequest) (nm_h exNM2) = (h, eff)" by fastforce
  have 1: "map_of (nh_requests (nm_h exNM2)) 7 = Some (rq_ID exRequest)" "map_of (nh_notifications (nm_h exNM2)) (rq_ID exRequest) = Some 7"
    by code_simp+
  from settled_request_leaves_no_buttons[OF reach_exNM2 _ a] 1 show ?thesis by (auto simp: a settling_def)
qed

text \<open>
  Between taking its timer and sending, a goroutine is not stopped by the decision: the question
  appears after the request was approved, and stays, with live buttons.
\<close>

definition exNM3 :: NM where
  "exNM3 = (case timerFires ''r1'' (nm_h exNM1) of (_, h) \<Rightarrow> exNM1\<lparr>nm_h := h, nm_firing := [exRequest]\<rparr>)"

definition exNM4 :: NM where
  "exNM4 = exNM3\<lparr>nm_known := [''r1'', ''r1'']\<rparr>"

definition exNM5 :: NM where
  "exNM5 = (case sendNotification (Inr 7) exRequest (nm_h exNM4) of (h, eff) \<Rightarrow>
     exNM4\<lparr>nm_h := h, nm_firing := [], nm_log := rev eff @ nm_log exNM4\<rparr>)"

theorem late_timer_leaves_buttons:
  "reach nm_init (nm_step True) exNM3 \<and>
   NHandler_OnEvent (Inr 7) 0 (reqEvent EventRequestApproved exRequest) (nm_h exNM3) = (nm_h exNM4, []) \<and>
   nm_step True exNM3 exNM4 \<and> nm_step True exNM4 exNM5 \<and>
   map_of (nh_requests (nm_h exNM5)) 7 = Some (rq_ID exRequest)"
proof -
  have "nm_step True exNM1 exNM3"
    by (rule nm_step_eq[OF nm_step.take[where r = "''r1''" and req = exRequest]]) (code_simp+)
  with reach_exNM1 have "reach nm_init (nm_step True) exNM3" by (rule reach_step)
  moreover have "nm_step True exNM3 exNM4"
    by (rule nm_step_eq[OF nm_step.event[where res = "Inr 7" and now = 0 and e = "reqEvent EventRequestApproved exRequest"]])
      (code_simp+)
  moreover have "nm_step True exNM4 exNM5"
    by (rule nm_step_eq[OF nm_step.send[where req = exRequest and res = "Inr 7"]]) (code_simp+)
  moreover have "NHandler_OnEvent (Inr 7) 0 (reqEvent EventRequestApproved exRequest) (nm_h exNM3) = (nm_h exNM4, [])"
    "map_of (nh_requests (nm_h exNM5)) 7 = Some (rq_ID exRequest)" by code_simp+
  ultimately show ?thesis by blast
qed

end
