(* ===== verification/Proxy_Handlers.thy ===== *)
theory Proxy_Handlers
  imports Proxy_Base "HOL-Library.List_Lexorder" "HOL-Library.Char_ord"
begin

text \<open>
  The D-Bus methods of the proxy: \<^verbatim>\<open>internal/proxy/item.go\<close>, \<open>collection.go\<close>, \<open>service.go\<close>,
  \<open>subtree.go\<close>, \<open>prompt.go\<close> and the call forwarder of \<open>forward.go\<close>.  Every method is a whole
  handler: its guards, its upstream calls, its approval, its error returns.
\<close>

type_synonym 'a handler_result = "(dbus_error + 'a) option \<times> ProxyState"

subsection \<open>Items\<close>

definition Item_Delete :: "proxy_env \<Rightarrow> message \<Rightarrow> ProxyState \<Rightarrow> ObjectPath handler_result" where
  "Item_Delete env msg st =
     (let path = pathOf msg in
      if \<not> isItemPath path then (Some (Inl (ErrObjectNotFound path)), st)
      else
       (let sender = senderOf msg;
            (itemInfo, st) = getItemInfo env path st;
            (rid, st) = enter env sender st;
            senderInfo = pe_resolve env sender;
            items = [itemInfo];
            (res, st) = ask env items [] RequestTypeDelete senderInfo st
        in case res of
             None \<Rightarrow> (None, st)
           | Some (_, Some err) \<Rightarrow> (Some (Inl (ErrAccessDenied (error_text err))), leave sender rid st)
           | Some (_, None) \<Rightarrow>
              (let (r, st) = callUp env path (ItemInterface @ ''.Delete'') [] st in
               case store1 asPath r of
                 Inl err \<Rightarrow> (Some (Inl (ErrFailed err)), leave sender rid st)
               | Inr prompt \<Rightarrow> (Some (Inr prompt), leave sender rid st))))"

definition Item_GetSecret :: "proxy_env \<Rightarrow> message \<Rightarrow> ObjectPath \<Rightarrow> ProxyState \<Rightarrow> Secret handler_result" where
  "Item_GetSecret env msg session st =
     (let path = pathOf msg in
      if \<not> isItemPath path then (Some (Inl (ErrObjectNotFound path)), st)
      else
       (let sender = senderOf msg;
            (itemInfo, st) = getItemInfo env path st;
            (rid, st) = enter env sender st;
            senderInfo = pe_resolve env sender;
            items = [itemInfo];
            (res, st) = ask env items session RequestTypeGetSecret senderInfo st
        in case res of
             None \<Rightarrow> (None, st)
           | Some (_, Some err) \<Rightarrow> (Some (Inl (ErrAccessDenied (error_text err))), leave sender rid st)
           | Some (_, None) \<Rightarrow>
              (case GetLocalSession session (ps_sessions st) of
                 (localSession, ok) \<Rightarrow>
                  if \<not> ok then (Some (Inl (ErrSessionNotFound session)), leave sender rid st)
                  else
                   (let (r, st) = callUp env path (ItemInterface @ ''.GetSecret'') [DPath localSession] st in
                    case store1 asSecret r of
                      Inl err \<Rightarrow> (Some (Inl (ErrFailed err)), leave sender rid st)
                    | Inr secret \<Rightarrow>
                       (case ForClient (pe_crypto env) session secret (ps_sessions st) of
                          Inl err \<Rightarrow> (Some (Inl (ErrFailed err)), leave sender rid st)
                        | Inr encoded \<Rightarrow> (Some (Inr encoded), leave sender rid st))))))"

definition Item_SetSecret :: "proxy_env \<Rightarrow> message \<Rightarrow> Secret \<Rightarrow> ProxyState \<Rightarrow> unit handler_result" where
  "Item_SetSecret env msg secret st =
     (let path = pathOf msg in
      if \<not> isItemPath path then (Some (Inl (ErrObjectNotFound path)), st)
      else
       (let sender = senderOf msg;
            (itemInfo, st) = getItemInfo env path st;
            (rid, st) = enter env sender st;
            senderInfo = pe_resolve env sender;
            items = [itemInfo];
            (res, st) = ask env items (sec_Session secret) RequestTypeWrite senderInfo st
        in case res of
             None \<Rightarrow> (None, st)
           | Some (_, Some err) \<Rightarrow>
              (if err = ErrIgnored then (Some (Inr ()), leave sender rid st)
               else (Some (Inl (ErrAccessDenied (error_text err))), leave sender rid st))
           | Some (_, None) \<Rightarrow>
              (case ForUpstream (pe_crypto env) secret (ps_sessions st) of
                 (localSecret, ok, err) \<Rightarrow>
                  if \<not> ok then (Some (Inl (ErrSessionNotFound (sec_Session secret))), leave sender rid st)
                  else (case err of
                     Some e \<Rightarrow> (Some (Inl (ErrFailed e)), leave sender rid st)
                   | None \<Rightarrow>
                      (let (r, st) = callUp env path (ItemInterface @ ''.SetSecret'') [DSecret localSecret] st in
                       case r of
                         Inl e \<Rightarrow> (Some (Inl (ErrFailed e)), leave sender rid st)
                       | Inr _ \<Rightarrow> (Some (Inr ()), leave sender rid st))))))"

text \<open>The property methods; the guard on the object path is the only difference between the kinds.\<close>

definition propGet :: "(ObjectPath \<Rightarrow> bool) \<Rightarrow> proxy_env \<Rightarrow> message \<Rightarrow> string \<Rightarrow> string \<Rightarrow> ProxyState \<Rightarrow> dvalue handler_result" where
  "propGet guard env msg iface property st =
     (let path = pathOf msg in
      if \<not> guard path then (Some (Inl (ErrObjectNotFound path)), st)
      else (let (r, st) = upstreamGetProperty env path (iface @ ''.'' @ property) st in
            case r of Inl err \<Rightarrow> (Some (Inl (ErrFailed err)), st) | Inr v \<Rightarrow> (Some (Inr v), st)))"

definition propGetAll :: "(ObjectPath \<Rightarrow> bool) \<Rightarrow> proxy_env \<Rightarrow> message \<Rightarrow> string \<Rightarrow> ProxyState
    \<Rightarrow> (string \<times> dvalue) list handler_result" where
  "propGetAll guard env msg iface st =
     (let path = pathOf msg in
      if \<not> guard path then (Some (Inl (ErrObjectNotFound path)), st)
      else (let (r, st) = callUp env path PropertiesGetAll [DStr iface] st in
            case store1 asProps r of Inl err \<Rightarrow> (Some (Inl (ErrFailed err)), st) | Inr v \<Rightarrow> (Some (Inr v), st)))"

definition propSet :: "(ObjectPath \<Rightarrow> bool) \<Rightarrow> proxy_env \<Rightarrow> message \<Rightarrow> string \<Rightarrow> string \<Rightarrow> dvalue \<Rightarrow> ProxyState
    \<Rightarrow> unit handler_result" where
  "propSet guard env msg iface property value st =
     (let path = pathOf msg in
      if \<not> guard path then (Some (Inl (ErrObjectNotFound path)), st)
      else (let (r, st) = callUp env path PropertiesSet [DStr iface, DStr property, value] st in
            case r of Inl err \<Rightarrow> (Some (Inl (ErrFailed err)), st) | Inr _ \<Rightarrow> (Some (Inr ()), st)))"

definition Item_Get :: "proxy_env \<Rightarrow> message \<Rightarrow> string \<Rightarrow> string \<Rightarrow> ProxyState \<Rightarrow> dvalue handler_result" where
  "Item_Get env msg iface property st = propGet isItemPath env msg iface property st"

definition Item_GetAll :: "proxy_env \<Rightarrow> message \<Rightarrow> string \<Rightarrow> ProxyState \<Rightarrow> (string \<times> dvalue) list handler_result" where
  "Item_GetAll env msg iface st = propGetAll isItemPath env msg iface st"

definition Item_Set :: "proxy_env \<Rightarrow> message \<Rightarrow> string \<Rightarrow> string \<Rightarrow> dvalue \<Rightarrow> ProxyState \<Rightarrow> unit handler_result" where
  "Item_Set env msg iface property value st = propSet isItemPath env msg iface property value st"

subsection \<open>Collections\<close>

definition Collection_Delete :: "proxy_env \<Rightarrow> message \<Rightarrow> ProxyState \<Rightarrow> ObjectPath handler_result" where
  "Collection_Delete env msg st =
     (let path = pathOf msg in
      if \<not> isCollectionPath path then (Some (Inl (ErrObjectNotFound path)), st)
      else
       (let sender = senderOf msg;
            (collectionInfo, st) = getCollectionInfo env path st;
            (rid, st) = enter env sender st;
            senderInfo = pe_resolve env sender;
            items = [collectionInfo];
            (res, st) = ask env items [] RequestTypeDelete senderInfo st
        in case res of
             None \<Rightarrow> (None, st)
           | Some (_, Some err) \<Rightarrow> (Some (Inl (ErrAccessDenied (error_text err))), leave sender rid st)
           | Some (_, None) \<Rightarrow>
              (let (r, st) = callUp env path (CollectionInterface @ ''.Delete'') [] st in
               case store1 asPath r of
                 Inl err \<Rightarrow> (Some (Inl (ErrFailed err)), leave sender rid st)
               | Inr prompt \<Rightarrow> (Some (Inr prompt), leave sender rid st))))"

definition extractItemInfo :: "string \<Rightarrow> (string \<times> dvalue) list \<Rightarrow> ItemInfo" where
  "extractItemInfo collectionPath properties =
     \<lparr>ii_Path = collectionPath,
      ii_Label = (case map_of properties (ItemInterface @ ''.Label'') of
          Some v \<Rightarrow> (case asStr v of Some s \<Rightarrow> s | None \<Rightarrow> []) | None \<Rightarrow> []),
      ii_Attributes = (case map_of properties (ItemInterface @ ''.Attributes'') of
          Some v \<Rightarrow> (case asAttrs v of Some a \<Rightarrow> a | None \<Rightarrow> []) | None \<Rightarrow> [])\<rparr>"

fun searchLabel :: "(string, string) gomap \<Rightarrow> string list \<Rightarrow> string \<Rightarrow> string" where
  "searchLabel attributes [] label = label"
| "searchLabel attributes (k # ks) label =
     searchLabel attributes ks ((if label \<noteq> [] then label @ '', '' else label) @ k @ ''='' @ str_get attributes k)"

definition searchAttributesToItemInfo :: "(string, string) gomap \<Rightarrow> ItemInfo list" where
  "searchAttributesToItemInfo attributes =
     [\<lparr>ii_Path = [], ii_Label = searchLabel attributes (sort (map fst attributes)) [], ii_Attributes = []\<rparr>]"

text \<open>Searching and unlocking are not gated; only a trust rule with action \<open>deny\<close> stops them.\<close>

definition denyRule :: "Manager \<Rightarrow> SenderInfo \<Rightarrow> ItemInfo list \<Rightarrow> RequestType \<Rightarrow> (string, string) gomap \<Rightarrow> TrustRule option" where
  "denyRule m senderInfo infos t sa =
     (case CheckTrustRules m senderInfo infos t sa of
        Some rule \<Rightarrow> if tr_Action rule = ''deny'' then Some rule else None
      | None \<Rightarrow> None)"

definition Collection_SearchItems :: "proxy_env \<Rightarrow> message \<Rightarrow> (string, string) gomap \<Rightarrow> ProxyState
    \<Rightarrow> ObjectPath list handler_result" where
  "Collection_SearchItems env msg attributes st =
     (let path = pathOf msg in
      if \<not> isCollectionPath path then (Some (Inl (ErrObjectNotFound path)), st)
      else
       (let infos = searchAttributesToItemInfo attributes;
            senderInfo = pe_resolve env (senderOf msg)
        in case denyRule (ps_mgr st) senderInfo infos RequestTypeSearch attributes of
             Some rule \<Rightarrow>
               (Some (Inl (ErrAccessDenied (''denied by trust rule: '' @ tr_Name rule))),
                st\<lparr>ps_mgr := RecordDenied (pe_now env) (pe_uid env) (pe_clientName env) infos [] RequestTypeSearch
                              attributes senderInfo (ps_mgr st)\<rparr>)
           | None \<Rightarrow>
               (let st = st\<lparr>ps_mgr := RecordPassthrough (pe_now env) (pe_uid env) (pe_clientName env) infos []
                              RequestTypeSearch attributes senderInfo (ps_mgr st)\<rparr>;
                    (r, st) = callUp env path (CollectionInterface @ ''.SearchItems'') [DAttrs attributes] st
                in case store1 asPaths r of
                     Inl err \<Rightarrow> (Some (Inl (ErrFailed err)), st)
                   | Inr results \<Rightarrow> (Some (Inr results), st))))"

definition Collection_CreateItem :: "proxy_env \<Rightarrow> message \<Rightarrow> (string \<times> dvalue) list \<Rightarrow> Secret \<Rightarrow> bool \<Rightarrow> ProxyState
    \<Rightarrow> (ObjectPath \<times> ObjectPath) handler_result" where
  "Collection_CreateItem env msg properties secret replace st =
     (let path = pathOf msg in
      if \<not> isCollectionPath path then (Some (Inl (ErrObjectNotFound path)), st)
      else
       (let itemInfo = extractItemInfo path properties;
            sender = senderOf msg;
            (rid, st) = enter env sender st;
            senderInfo = pe_resolve env sender;
            items = [itemInfo]
        in if ShouldIgnore (ps_mgr st) items RequestTypeWrite then
             (Some (Inr (''/'', ''/'')),
              leave sender rid (st\<lparr>ps_mgr := RecordIgnored (pe_now env) (pe_uid env) (pe_clientName env) items
                                     (sec_Session secret) senderInfo (ps_mgr st)\<rparr>))
           else
             (let (res, st) = ask env items (sec_Session secret) RequestTypeWrite senderInfo st in
              case res of
                None \<Rightarrow> (None, st)
              | Some (_, Some err) \<Rightarrow>
                 (if err = ErrIgnored then (Some (Inr (''/'', ''/'')), leave sender rid st)
                  else (Some (Inl (ErrAccessDenied (error_text err))), leave sender rid st))
              | Some (_, None) \<Rightarrow>
                 (case ForUpstream (pe_crypto env) secret (ps_sessions st) of
                    (localSecret, ok, err) \<Rightarrow>
                     if \<not> ok then (Some (Inl (ErrSessionNotFound (sec_Session secret))), leave sender rid st)
                     else (case err of
                        Some e \<Rightarrow> (Some (Inl (ErrFailed e)), leave sender rid st)
                      | None \<Rightarrow>
                         (let (r, st) = callUp env path (CollectionInterface @ ''.CreateItem'')
                                          [DProps properties, DSecret localSecret, DBool replace] st in
                          case store2 asPath asPath r of
                            Inl e \<Rightarrow> (Some (Inl (ErrFailed e)), leave sender rid st)
                          | Inr (item, prompt) \<Rightarrow>
                              (Some (Inr (item, prompt)),
                               leave sender rid (st\<lparr>ps_mgr := CacheItemForSender (pe_now env) sender item (ps_mgr st)\<rparr>))))))))"

definition Collection_Get :: "proxy_env \<Rightarrow> message \<Rightarrow> string \<Rightarrow> string \<Rightarrow> ProxyState \<Rightarrow> dvalue handler_result" where
  "Collection_Get env msg iface property st = propGet isCollectionPath env msg iface property st"

definition Collection_GetAll :: "proxy_env \<Rightarrow> message \<Rightarrow> string \<Rightarrow> ProxyState \<Rightarrow> (string \<times> dvalue) list handler_result" where
  "Collection_GetAll env msg iface st = propGetAll isCollectionPath env msg iface st"

definition Collection_Set :: "proxy_env \<Rightarrow> message \<Rightarrow> string \<Rightarrow> string \<Rightarrow> dvalue \<Rightarrow> ProxyState \<Rightarrow> unit handler_result" where
  "Collection_Set env msg iface property value st = propSet isCollectionPath env msg iface property value st"

text \<open>\<open>SubtreePropertiesHandler\<close>: collections and items alike.\<close>

definition subtreePath :: "ObjectPath \<Rightarrow> bool" where
  "subtreePath p \<longleftrightarrow> isCollectionPath p \<or> isItemPath p"

definition Subtree_Get :: "proxy_env \<Rightarrow> message \<Rightarrow> string \<Rightarrow> string \<Rightarrow> ProxyState \<Rightarrow> dvalue handler_result" where
  "Subtree_Get env msg iface property st = propGet subtreePath env msg iface property st"

definition Subtree_GetAll :: "proxy_env \<Rightarrow> message \<Rightarrow> string \<Rightarrow> ProxyState \<Rightarrow> (string \<times> dvalue) list handler_result" where
  "Subtree_GetAll env msg iface st = propGetAll subtreePath env msg iface st"

definition Subtree_Set :: "proxy_env \<Rightarrow> message \<Rightarrow> string \<Rightarrow> string \<Rightarrow> dvalue \<Rightarrow> ProxyState \<Rightarrow> unit handler_result" where
  "Subtree_Set env msg iface property value st = propSet subtreePath env msg iface property value st"

end
