(* ===== verification/Proxy_Service.thy ===== *)
theory Proxy_Service
  imports Proxy_Handlers
begin

text \<open>
  The methods of the Secret Service root object (\<^verbatim>\<open>internal/proxy/service.go\<close>), the call forwarder
  (\<open>forward.go\<close>) with the prompt objects built on it (\<open>prompt.go\<close>), the signal forwarder
  (\<open>signals.go\<close>), and the dispatch of an incoming call to its handler as \<open>ConnectWith\<close>
  (\<open>proxy.go\<close>) exports them.
\<close>

subsection \<open>The service object\<close>

definition Service_OpenSession :: "proxy_env \<Rightarrow> string \<Rightarrow> dvalue \<Rightarrow> ProxyState \<Rightarrow> (dvalue \<times> ObjectPath) handler_result" where
  "Service_OpenSession env algorithm input st =
     (let (r, ss, lg) = CreateSession (pe_crypto env) (pe_up env) algorithm input (ps_sessions st) (ps_log st);
          st = st\<lparr>ps_sessions := ss, ps_log := lg\<rparr>
      in case r of
           Inl (ErrDBus e) \<Rightarrow> (Some (Inl e), st)
         | Inl err \<Rightarrow> (Some (Inl (ErrFailed err)), st)
         | Inr out \<Rightarrow> (Some (Inr out), st))"

definition Service_SearchItems :: "proxy_env \<Rightarrow> message \<Rightarrow> (string, string) gomap \<Rightarrow> ProxyState
    \<Rightarrow> (ObjectPath list \<times> ObjectPath list) handler_result" where
  "Service_SearchItems env msg attributes st =
     (let infos = searchAttributesToItemInfo attributes;
          senderInfo = pe_resolve env (senderOf msg)
      in case denyRule (ps_mgr st) senderInfo infos RequestTypeSearch attributes of
           Some rule \<Rightarrow>
             (Some (Inl (ErrAccessDenied (''denied by trust rule: '' @ tr_Name rule))),
              st\<lparr>ps_mgr := RecordDenied (pe_now env) (pe_uid env) (pe_clientName env) infos [] RequestTypeSearch
                            attributes senderInfo (ps_mgr st)\<rparr>)
         | None \<Rightarrow>
             (let st = st\<lparr>ps_mgr := RecordPassthrough (pe_now env) (pe_uid env) (pe_clientName env) infos []
                            RequestTypeSearch attributes senderInfo (ps_mgr st)\<rparr>;
                  (r, st) = callUp env ServicePath (ServiceInterface @ ''.SearchItems'') [DAttrs attributes] st
              in case store2 asPaths asPaths r of
                   Inl err \<Rightarrow> (Some (Inl (ErrFailed err)), st)
                 | Inr res \<Rightarrow> (Some (Inr res), st)))"

text \<open>The loop that encodes every secret of the reply for the client.\<close>

fun encodeSecrets :: "crypto \<Rightarrow> ObjectPath \<Rightarrow> SessionManager \<Rightarrow> (ObjectPath, Secret) gomap
    \<Rightarrow> go_error + (ObjectPath, Secret) gomap" where
  "encodeSecrets cr session ss [] = Inr []"
| "encodeSecrets cr session ss ((path, secret) # rest) =
     (case ForClient cr session secret ss of
        Inl err \<Rightarrow> Inl err
      | Inr encoded \<Rightarrow>
         (case encodeSecrets cr session ss rest of
            Inl err \<Rightarrow> Inl err | Inr xs \<Rightarrow> Inr ((path, encoded) # xs)))"

definition Service_GetSecrets :: "proxy_env \<Rightarrow> message \<Rightarrow> ObjectPath list \<Rightarrow> ObjectPath \<Rightarrow> ProxyState
    \<Rightarrow> (ObjectPath, Secret) gomap handler_result" where
  "Service_GetSecrets env msg items session st =
     (let sender = senderOf msg;
          (itemInfos, st) = getItemInfos env items st;
          (rid, st) = enter env sender st;
          senderInfo = pe_resolve env sender;
          (res, st) = ask env itemInfos session RequestTypeGetSecret senderInfo st
      in case res of
           None \<Rightarrow> (None, st)
         | Some (_, Some err) \<Rightarrow> (Some (Inl (ErrAccessDenied (error_text err))), leave sender rid st)
         | Some (_, None) \<Rightarrow>
            (case GetLocalSession session (ps_sessions st) of
               (localSession, ok) \<Rightarrow>
                if \<not> ok then (Some (Inl (ErrSessionNotFound session)), leave sender rid st)
                else
                 (let (r, st) = callUp env ServicePath (ServiceInterface @ ''.GetSecrets'')
                                  [DPaths items, DPath localSession] st in
                  case store1 asSecrets r of
                    Inl err \<Rightarrow> (Some (Inl (ErrFailed err)), leave sender rid st)
                  | Inr secrets \<Rightarrow>
                     (case encodeSecrets (pe_crypto env) session (ps_sessions st) secrets of
                        Inl err \<Rightarrow> (Some (Inl (ErrFailed err)), leave sender rid st)
                      | Inr encoded \<Rightarrow> (Some (Inr encoded), leave sender rid st)))))"

definition Service_Unlock :: "proxy_env \<Rightarrow> message \<Rightarrow> ObjectPath list \<Rightarrow> ProxyState
    \<Rightarrow> (ObjectPath list \<times> ObjectPath) handler_result" where
  "Service_Unlock env msg objects st =
     (let (infos, st) = getUnlockInfo env objects st;
          senderInfo = pe_resolve env (senderOf msg)
      in case denyRule (ps_mgr st) senderInfo infos RequestTypeUnlock [] of
           Some rule \<Rightarrow>
             (Some (Inl (ErrAccessDenied (''denied by trust rule: '' @ tr_Name rule))),
              st\<lparr>ps_mgr := RecordDenied (pe_now env) (pe_uid env) (pe_clientName env) infos [] RequestTypeUnlock
                            [] senderInfo (ps_mgr st)\<rparr>)
         | None \<Rightarrow>
             (let st = st\<lparr>ps_mgr := RecordPassthrough (pe_now env) (pe_uid env) (pe_clientName env) infos []
                            RequestTypeUnlock [] senderInfo (ps_mgr st)\<rparr>;
                  (r, st) = callUp env ServicePath (ServiceInterface @ ''.Unlock'') [DPaths objects] st
              in case store2 asPaths asPath r of
                   Inl err \<Rightarrow> (Some (Inl (ErrFailed err)), st)
                 | Inr res \<Rightarrow> (Some (Inr res), st)))"

definition Service_Lock :: "proxy_env \<Rightarrow> message \<Rightarrow> ObjectPath list \<Rightarrow> ProxyState
    \<Rightarrow> (ObjectPath list \<times> ObjectPath) handler_result" where
  "Service_Lock env msg objects st =
     (let (r, st) = callUp env ServicePath (ServiceInterface @ ''.Lock'') [DPaths objects] st in
      case store2 asPaths asPath r of
        Inl err \<Rightarrow> (Some (Inl (ErrFailed err)), st) | Inr res \<Rightarrow> (Some (Inr res), st))"

definition Service_ReadAlias :: "proxy_env \<Rightarrow> message \<Rightarrow> string \<Rightarrow> ProxyState \<Rightarrow> ObjectPath handler_result" where
  "Service_ReadAlias env msg name st =
     (let (r, st) = callUp env ServicePath (ServiceInterface @ ''.ReadAlias'') [DStr name] st in
      case store1 asPath r of
        Inl err \<Rightarrow> (Some (Inl (ErrFailed err)), st) | Inr res \<Rightarrow> (Some (Inr res), st))"

definition Service_SetAlias :: "proxy_env \<Rightarrow> message \<Rightarrow> string \<Rightarrow> ObjectPath \<Rightarrow> ProxyState \<Rightarrow> unit handler_result" where
  "Service_SetAlias env msg name collection st =
     (let (r, st) = callUp env ServicePath (ServiceInterface @ ''.SetAlias'') [DStr name, DPath collection] st in
      case r of Inl err \<Rightarrow> (Some (Inl (ErrFailed err)), st) | Inr _ \<Rightarrow> (Some (Inr ()), st))"

definition Service_CreateCollection :: "proxy_env \<Rightarrow> message \<Rightarrow> (string \<times> dvalue) list \<Rightarrow> string \<Rightarrow> ProxyState
    \<Rightarrow> (ObjectPath \<times> ObjectPath) handler_result" where
  "Service_CreateCollection env msg properties alias st =
     (let (r, st) = callUp env ServicePath (ServiceInterface @ ''.CreateCollection'') [DProps properties, DStr alias] st in
      case store2 asPath asPath r of
        Inl err \<Rightarrow> (Some (Inl (ErrFailed err)), st) | Inr res \<Rightarrow> (Some (Inr res), st))"

definition unknownInterface :: "string \<Rightarrow> dbus_error" where
  "unknownInterface iface = DBusError ''org.freedesktop.DBus.Error.UnknownInterface'' iface"

definition Service_Get :: "proxy_env \<Rightarrow> message \<Rightarrow> string \<Rightarrow> string \<Rightarrow> ProxyState \<Rightarrow> dvalue handler_result" where
  "Service_Get env msg iface property st =
     (if iface \<noteq> ServiceInterface then (Some (Inl (unknownInterface iface)), st)
      else (let (r, st) = upstreamGetProperty env ServicePath (iface @ ''.'' @ property) st in
            case r of Inl err \<Rightarrow> (Some (Inl (ErrFailed err)), st) | Inr v \<Rightarrow> (Some (Inr v), st)))"

definition Service_GetAll :: "proxy_env \<Rightarrow> message \<Rightarrow> string \<Rightarrow> ProxyState \<Rightarrow> (string \<times> dvalue) list handler_result" where
  "Service_GetAll env msg iface st =
     (if iface \<noteq> ServiceInterface then (Some (Inl (unknownInterface iface)), st)
      else (let (r, st) = callUp env ServicePath PropertiesGetAll [DStr iface] st in
            case store1 asProps r of Inl err \<Rightarrow> (Some (Inl (ErrFailed err)), st) | Inr v \<Rightarrow> (Some (Inr v), st)))"

definition Service_Set :: "proxy_env \<Rightarrow> message \<Rightarrow> string \<Rightarrow> string \<Rightarrow> dvalue \<Rightarrow> ProxyState \<Rightarrow> unit handler_result" where
  "Service_Set env msg iface property value st =
     (if iface \<noteq> ServiceInterface then (Some (Inl (unknownInterface iface)), st)
      else (let (r, st) = callUp env ServicePath PropertiesSet [DStr iface, DStr property, value] st in
            case r of Inl err \<Rightarrow> (Some (Inl (ErrFailed err)), st) | Inr _ \<Rightarrow> (Some (Inr ()), st)))"

subsection \<open>Forwarded calls\<close>

text \<open>\<open>callForwarder.forward\<close>: the same member with the same body, on the peer \<open>dst\<close>.\<close>

definition forwardCall :: "string \<Rightarrow> message \<Rightarrow> upcall" where
  "forwardCall dstName msg = mkcall dstName (pathOf msg) (interfaceOf msg @ ''.'' @ memberOf msg) (ms_body msg)"

definition forward :: "upstream \<Rightarrow> string \<Rightarrow> message \<Rightarrow> upcall list \<Rightarrow> (dbus_error + dvalue list) \<times> upcall list" where
  "forward up dstName msg lg =
     (let c = forwardCall dstName msg in
      ((case up lg c of
          Inl (ErrRemote e) \<Rightarrow> Inl e
        | Inl err \<Rightarrow> Inl (ErrFailed err)
        | Inr body \<Rightarrow> Inr body), lg @ [c]))"

definition forwardVoid :: "upstream \<Rightarrow> string \<Rightarrow> message \<Rightarrow> upcall list \<Rightarrow> dbus_error option \<times> upcall list" where
  "forwardVoid up dstName msg lg =
     (case forward up dstName msg lg of
        (Inl e, lg) \<Rightarrow> (Some e, lg) | (Inr _, lg) \<Rightarrow> (None, lg))"

definition promptForward :: "proxy_env \<Rightarrow> message \<Rightarrow> ProxyState \<Rightarrow> unit handler_result" where
  "promptForward env msg st =
     (let path = pathOf msg in
      if \<not> isPromptPath path then (Some (Inl (ErrObjectNotFound path)), st)
      else (let (e, lg) = forwardVoid (pe_up env) BusName msg (ps_log st); st = st\<lparr>ps_log := lg\<rparr> in
            case e of Some err \<Rightarrow> (Some (Inl err), st) | None \<Rightarrow> (Some (Inr ()), st)))"

definition Prompt_Prompt :: "proxy_env \<Rightarrow> message \<Rightarrow> string \<Rightarrow> ProxyState \<Rightarrow> unit handler_result" where
  "Prompt_Prompt env msg windowID st = promptForward env msg st"

definition Prompt_Dismiss :: "proxy_env \<Rightarrow> message \<Rightarrow> ProxyState \<Rightarrow> unit handler_result" where
  "Prompt_Dismiss env msg st = promptForward env msg st"

definition nameHasOwner :: "upstream \<Rightarrow> upcall list \<Rightarrow> string \<Rightarrow> bool" where
  "nameHasOwner up lg name =
     (case store1 asBool (up lg (mkcall ''org.freedesktop.DBus'' ''/org/freedesktop/DBus''
             ''org.freedesktop.DBus.NameHasOwner'' [DStr name])) of
        Inl _ \<Rightarrow> False | Inr has \<Rightarrow> has)"

text \<open>The signal forwarder: what is emitted on the front bus for a list of backend signals.\<close>

definition forwardsSignal :: "string \<Rightarrow> bool" where
  "forwardsSignal name \<longleftrightarrow>
     \<not> (\<not> HasPrefix name ''org.freedesktop.Secret.'' \<and> \<not> HasPrefix name ''org.freedesktop.DBus.Properties.'')"

fun runSignals :: "(ObjectPath \<times> string \<times> dvalue list) list \<Rightarrow> (ObjectPath \<times> string \<times> dvalue list) list" where
  "runSignals [] = []"
| "runSignals ((path, name, body) # rest) =
     (if \<not> forwardsSignal name then runSignals rest else (path, name, body) # runSignals rest)"

subsection \<open>Dispatch\<close>

text \<open>
  The methods \<open>ConnectWith\<close> exports, with their decoded arguments.  \<open>Export\<close> and \<open>ExportSubtree\<close>
  publish every method of a handler, so the property methods of the item and collection handlers are
  there as well.
\<close>

datatype client_call =
    COpenSession string dvalue | CSearchItems "(string, string) gomap" | CGetSecrets "ObjectPath list" ObjectPath
  | CUnlock "ObjectPath list" | CLock "ObjectPath list" | CReadAlias string | CSetAlias string ObjectPath
  | CCreateCollection "(string \<times> dvalue) list" string
  | CServiceGet string string | CServiceGetAll string | CServiceSet string string dvalue
  | CCollectionDelete | CCollectionSearch "(string, string) gomap"
  | CCreateItem "(string \<times> dvalue) list" Secret bool
  | CCollectionGet string string | CCollectionGetAll string | CCollectionSet string string dvalue
  | CItemDelete | CGetSecret ObjectPath | CSetSecret Secret
  | CItemGet string string | CItemGetAll string | CItemSet string string dvalue
  | CSubtreeGet string string | CSubtreeGetAll string | CSubtreeSet string string dvalue
  | CPrompt string | CDismiss

definition emit :: "('a \<Rightarrow> dvalue list) \<Rightarrow> 'a handler_result \<Rightarrow> dvalue list handler_result" where
  "emit f = (\<lambda>(r, st). (map_option (map_sum id f) r, st))"

fun dispatch :: "proxy_env \<Rightarrow> client_call \<Rightarrow> message \<Rightarrow> ProxyState \<Rightarrow> dvalue list handler_result" where
  "dispatch env (COpenSession a i) msg st = emit (\<lambda>(v, p). [v, DPath p]) (Service_OpenSession env a i st)"
| "dispatch env (CSearchItems a) msg st = emit (\<lambda>(u, l). [DPaths u, DPaths l]) (Service_SearchItems env msg a st)"
| "dispatch env (CGetSecrets is s) msg st = emit (\<lambda>x. [DSecrets x]) (Service_GetSecrets env msg is s st)"
| "dispatch env (CUnlock os) msg st = emit (\<lambda>(u, p). [DPaths u, DPath p]) (Service_Unlock env msg os st)"
| "dispatch env (CLock os) msg st = emit (\<lambda>(u, p). [DPaths u, DPath p]) (Service_Lock env msg os st)"
| "dispatch env (CReadAlias n) msg st = emit (\<lambda>p. [DPath p]) (Service_ReadAlias env msg n st)"
| "dispatch env (CSetAlias n c) msg st = emit (\<lambda>_. []) (Service_SetAlias env msg n c st)"
| "dispatch env (CCreateCollection ps a) msg st = emit (\<lambda>(c, p). [DPath c, DPath p]) (Service_CreateCollection env msg ps a st)"
| "dispatch env (CServiceGet i p) msg st = emit (\<lambda>v. [v]) (Service_Get env msg i p st)"
| "dispatch env (CServiceGetAll i) msg st = emit (\<lambda>v. [DProps v]) (Service_GetAll env msg i st)"
| "dispatch env (CServiceSet i p v) msg st = emit (\<lambda>_. []) (Service_Set env msg i p v st)"
| "dispatch env CCollectionDelete msg st = emit (\<lambda>p. [DPath p]) (Collection_Delete env msg st)"
| "dispatch env (CCollectionSearch a) msg st = emit (\<lambda>p. [DPaths p]) (Collection_SearchItems env msg a st)"
| "dispatch env (CCreateItem ps s r) msg st = emit (\<lambda>(i, p). [DPath i, DPath p]) (Collection_CreateItem env msg ps s r st)"
| "dispatch env (CCollectionGet i p) msg st = emit (\<lambda>v. [v]) (Collection_Get env msg i p st)"
| "dispatch env (CCollectionGetAll i) msg st = emit (\<lambda>v. [DProps v]) (Collection_GetAll env msg i st)"
| "dispatch env (CCollectionSet i p v) msg st = emit (\<lambda>_. []) (Collection_Set env msg i p v st)"
| "dispatch env CItemDelete msg st = emit (\<lambda>p. [DPath p]) (Item_Delete env msg st)"
| "dispatch env (CGetSecret s) msg st = emit (\<lambda>x. [DSecret x]) (Item_GetSecret env msg s st)"
| "dispatch env (CSetSecret s) msg st = emit (\<lambda>_. []) (Item_SetSecret env msg s st)"
| "dispatch env (CItemGet i p) msg st = emit (\<lambda>v. [v]) (Item_Get env msg i p st)"
| "dispatch env (CItemGetAll i) msg st = emit (\<lambda>v. [DProps v]) (Item_GetAll env msg i st)"
| "dispatch env (CItemSet i p v) msg st = emit (\<lambda>_. []) (Item_Set env msg i p v st)"
| "dispatch env (CSubtreeGet i p) msg st = emit (\<lambda>v. [v]) (Subtree_Get env msg i p st)"
| "dispatch env (CSubtreeGetAll i) msg st = emit (\<lambda>v. [DProps v]) (Subtree_GetAll env msg i st)"
| "dispatch env (CSubtreeSet i p v) msg st = emit (\<lambda>_. []) (Subtree_Set env msg i p v st)"
| "dispatch env (CPrompt w) msg st = emit (\<lambda>_. []) (Prompt_Prompt env msg w st)"
| "dispatch env CDismiss msg st = emit (\<lambda>_. []) (Prompt_Dismiss env msg st)"

text \<open>
  The D-Bus library selects a handler by the interface (which a client may leave out) and the member
  of the message.  Only the forwarded methods read them again.
\<close>

fun routed :: "client_call \<Rightarrow> message \<Rightarrow> bool" where
  "routed (CPrompt w) msg \<longleftrightarrow> ms_iface msg \<in> {None, Some PromptInterface} \<and> ms_member msg = Some ''Prompt''"
| "routed CDismiss msg \<longleftrightarrow> ms_iface msg \<in> {None, Some PromptInterface} \<and> ms_member msg = Some ''Dismiss''"
| "routed _ msg \<longleftrightarrow> True"

text \<open>A run of the proxy: the calls in the order in which they are taken up.\<close>

fun serve :: "(proxy_env \<times> client_call \<times> message) list \<Rightarrow> ProxyState \<Rightarrow> ProxyState" where
  "serve [] st = st"
| "serve ((env, call, msg) # rest) st = serve rest (snd (dispatch env call msg st))"

end
