(* ===== verification/Proxy_Mediation.thy ===== *)
theory Proxy_Mediation
  imports Proxy_Service
begin

text \<open>
  Complete mediation: whatever a client sends, an upstream call that reads, writes or deletes a
  secret is made only after \<open>RequireApproval\<close> has returned success for a request of the right kind
  about exactly the objects that call touches.
\<close>

subsection \<open>Calls that touch secrets\<close>

definition kindOf :: "upcall \<Rightarrow> RequestType option" where
  "kindOf c =
     (if uc_method c \<in> {ItemInterface @ ''.GetSecret'', ServiceInterface @ ''.GetSecrets''} then Some RequestTypeGetSecret
      else if uc_method c \<in> {ItemInterface @ ''.SetSecret'', CollectionInterface @ ''.CreateItem''} then Some RequestTypeWrite
      else if uc_method c \<in> {ItemInterface @ ''.Delete'', CollectionInterface @ ''.Delete''} then Some RequestTypeDelete
      else None)"

definition touched :: "upcall \<Rightarrow> ObjectPath list" where
  "touched c = (if uc_method c = ServiceInterface @ ''.GetSecrets''
                then (case uc_args c of DPaths ps # _ \<Rightarrow> ps | _ \<Rightarrow> []) else [uc_path c])"

text \<open>
  What a client call asks the user for: the objects as described to the user, the session, and the kind of
  access.  All other calls ask for nothing.
\<close>

fun asks :: "proxy_env \<Rightarrow> client_call \<Rightarrow> message \<Rightarrow> ProxyState \<Rightarrow> (ItemInfo list \<times> string \<times> RequestType) option" where
  "asks env (CGetSecrets items session) msg st = Some (fst (getItemInfos env items st), session, RequestTypeGetSecret)"
| "asks env (CGetSecret session) msg st = Some ([fst (getItemInfo env (pathOf msg) st)], session, RequestTypeGetSecret)"
| "asks env (CSetSecret secret) msg st = Some ([fst (getItemInfo env (pathOf msg) st)], sec_Session secret, RequestTypeWrite)"
| "asks env CItemDelete msg st = Some ([fst (getItemInfo env (pathOf msg) st)], [], RequestTypeDelete)"
| "asks env CCollectionDelete msg st = Some ([fst (getCollectionInfo env (pathOf msg) st)], [], RequestTypeDelete)"
| "asks env (CCreateItem properties secret replace) msg st =
     Some ([extractItemInfo (pathOf msg) properties], sec_Session secret, RequestTypeWrite)"
| "asks env _ msg st = None"

text \<open>The answer \<open>RequireApproval\<close> gives to that question, on the manager as it is when the call is taken up.\<close>

definition answer :: "proxy_env \<Rightarrow> message \<Rightarrow> Manager \<Rightarrow> ItemInfo list \<times> string \<times> RequestType \<Rightarrow> approval_result option" where
  "answer env msg m = (\<lambda>(items, session, t).
     fst (RequireApproval (pe_wait env) (pe_now env) (pe_uid env) (pe_clientName env) items session t []
            (pe_resolve env (senderOf msg)) m))"

definition mediated :: "proxy_env \<Rightarrow> (ItemInfo list \<times> string \<times> RequestType) option \<Rightarrow> message \<Rightarrow> ProxyState \<Rightarrow> ProxyState \<Rightarrow> bool" where
  "mediated env q msg st st' \<longleftrightarrow>
     (\<exists>cs. ps_log st' = ps_log st @ cs \<and>
        (\<forall>c \<in> set cs. \<forall>t. kindOf c = Some t \<longrightarrow>
           (\<exists>items session auto. q = Some (items, session, t) \<and> map ii_Path items = touched c \<and>
              answer env msg (ps_mgr st) (items, session, t) = Some (auto, None))))"

lemma kindOf_simps [simp]:
  "kindOf (mkcall d p (''org.freedesktop.Secret.Item.GetSecret'') a) = Some RequestTypeGetSecret"
  "kindOf (mkcall d p (''org.freedesktop.Secret.Service.GetSecrets'') a) = Some RequestTypeGetSecret"
  "kindOf (mkcall d p (''org.freedesktop.Secret.Item.SetSecret'') a) = Some RequestTypeWrite"
  "kindOf (mkcall d p (''org.freedesktop.Secret.Collection.CreateItem'') a) = Some RequestTypeWrite"
  "kindOf (mkcall d p (''org.freedesktop.Secret.Item.Delete'') a) = Some RequestTypeDelete"
  "kindOf (mkcall d p (''org.freedesktop.Secret.Collection.Delete'') a) = Some RequestTypeDelete"
  by (simp_all add: kindOf_def mkcall_def)

lemma kindOf_None:
  "uc_method c \<in> {PropertiesGet, PropertiesGetAll, PropertiesSet, ServiceInterface @ ''.OpenSession'',
     ServiceInterface @ ''.SearchItems'', CollectionInterface @ ''.SearchItems'', ServiceInterface @ ''.Unlock'',
     ServiceInterface @ ''.Lock'', ServiceInterface @ ''.ReadAlias'', ServiceInterface @ ''.SetAlias'',
     ServiceInterface @ ''.CreateCollection'', PromptInterface @ ''.Prompt'', PromptInterface @ ''.Dismiss'',
     ''.Prompt'', ''.Dismiss''} \<Longrightarrow> kindOf c = None"
  by (auto simp: kindOf_def)

lemma touched_simps [simp]:
  "touched (mkcall d p (''org.freedesktop.Secret.Item.GetSecret'') a) = [p]"
  "touched (mkcall d p (''org.freedesktop.Secret.Service.GetSecrets'') [DPaths ps, x]) = ps"
  "touched (mkcall d p (''org.freedesktop.Secret.Item.SetSecret'') a) = [p]"
  "touched (mkcall d p (''org.freedesktop.Secret.Collection.CreateItem'') a) = [p]"
  "touched (mkcall d p (''org.freedesktop.Secret.Item.Delete'') a) = [p]"
  "touched (mkcall d p (''org.freedesktop.Secret.Collection.Delete'') a) = [p]"
  by (simp_all add: touched_def mkcall_def)

lemma mediated_quiet: "reads st st1 \<Longrightarrow> ps_log st' = ps_log st1 \<Longrightarrow> mediated env q msg st st'"
  unfolding reads_def mediated_def using kindOf_None by fastforce

lemma mediated_plain:
  "reads st st1 \<Longrightarrow> ps_log st' = ps_log st1 @ [c] \<Longrightarrow> kindOf c = None \<Longrightarrow> mediated env q msg st st'"
  unfolding reads_def mediated_def using kindOf_None by fastforce

lemma mediated_gate:
  assumes "reads st st1" and "ps_mgr st2 = ps_mgr st1"
    and "fst (ask env items session t (pe_resolve env (senderOf msg)) st2) = Some (auto, None)"
    and "map ii_Path items = touched c" and "kindOf c = Some t"
    and "ps_log st' = ps_log st1 @ [c]"
  shows "mediated env (Some (items, session, t)) msg st st'"
proof -
  have "ps_mgr st2 = ps_mgr st" using assms(1,2) by (simp add: reads_def)
  then have "answer env msg (ps_mgr st) (items, session, t) = Some (auto, None)"
    using assms(3) unfolding answer_def ask_fst by simp
  moreover obtain cs where "ps_log st1 = ps_log st @ cs" "\<forall>c \<in> set cs. kindOf c = None"
    using assms(1) kindOf_None unfolding reads_def by blast
  ultimately show ?thesis
    using assms(4-6) unfolding mediated_def by (intro exI [of _ "cs @ [c]"]) auto
qed

lemma gate_context:
  assumes "reads st st1" and "map ii_Path items = ps"
    and "enter env (senderOf msg) st1 = (rid, st2)"
    and "ask env items session t (pe_resolve env (senderOf msg)) st2 = (res, st3)"
  shows "ps_log st' = ps_log st3 \<Longrightarrow> mediated env q msg st st'"
    and "\<exists>auto. res = Some (auto, None) \<Longrightarrow> kindOf c = Some t \<Longrightarrow> touched c = ps \<Longrightarrow>
           mediated env (Some (items, session, t)) msg st (leave s i (st3\<lparr>ps_log := ps_log st3 @ [c]\<rparr>))"
    and "\<exists>auto. res = Some (auto, None) \<Longrightarrow> kindOf c = Some t \<Longrightarrow> touched c = ps \<Longrightarrow>
           mediated env (Some (items, session, t)) msg st (leave s i (st3\<lparr>ps_log := ps_log st3 @ [c], ps_mgr := m\<rparr>))"
proof -
  have l: "ps_mgr st2 = ps_mgr st1" "ps_log st3 = ps_log st1"
    using enter_log [of env "senderOf msg" st1] ask_log [of env items session t "pe_resolve env (senderOf msg)" st2] assms(3,4)
    by simp_all
  show "ps_log st' = ps_log st3 \<Longrightarrow> mediated env q msg st st'"
    using mediated_quiet [OF assms(1)] l by simp
  show "\<exists>auto. res = Some (auto, None) \<Longrightarrow> kindOf c = Some t \<Longrightarrow> touched c = ps \<Longrightarrow>
      mediated env (Some (items, session, t)) msg st (leave s i (st3\<lparr>ps_log := ps_log st3 @ [c]\<rparr>))"
    "\<exists>auto. res = Some (auto, None) \<Longrightarrow> kindOf c = Some t \<Longrightarrow> touched c = ps \<Longrightarrow>
      mediated env (Some (items, session, t)) msg st (leave s i (st3\<lparr>ps_log := ps_log st3 @ [c], ps_mgr := m\<rparr>))"
    using mediated_gate [OF assms(1) l(1), of env items session t msg _ c] assms(2,4) l(2) by auto
qed

subsection \<open>The handlers\<close>

lemma Item_Delete_mediated: "mediated env (asks env CItemDelete msg st) msg st (snd (Item_Delete env msg st))"
proof -
  obtain x st1 where g: "getItemInfo env (pathOf msg) st = (x, st1)" by fastforce
  obtain rid st2 where e: "enter env (senderOf msg) st1 = (rid, st2)" by fastforce
  obtain res st3 where a: "ask env [x] [] RequestTypeDelete (pe_resolve env (senderOf msg)) st2 = (res, st3)" by fastforce
  from reads_getItemInfo [OF g] have r: "reads st st1" "map ii_Path [x] = [pathOf msg]" by simp_all
  note gc = gate_context [OF r e a]
  show ?thesis
    unfolding Item_Delete_def
    by (auto simp: Let_def g e a callUp_def mediated_quiet [OF reads_refl] gc
        split: option.splits sum.splits)
qed

lemma Item_GetSecret_mediated: "mediated env (asks env (CGetSecret session) msg st) msg st (snd (Item_GetSecret env msg session st))"
proof -
  obtain x st1 where g: "getItemInfo env (pathOf msg) st = (x, st1)" by fastforce
  obtain rid st2 where e: "enter env (senderOf msg) st1 = (rid, st2)" by fastforce
  obtain res st3 where a: "ask env [x] session RequestTypeGetSecret (pe_resolve env (senderOf msg)) st2 = (res, st3)" by fastforce
  from reads_getItemInfo [OF g] have r: "reads st st1" "map ii_Path [x] = [pathOf msg]" by simp_all
  note gc = gate_context [OF r e a]
  show ?thesis
    unfolding Item_GetSecret_def
    by (auto simp: Let_def g e a callUp_def mediated_quiet [OF reads_refl] gc
        split: option.splits sum.splits prod.splits)
qed

lemma Item_SetSecret_mediated: "mediated env (asks env (CSetSecret secret) msg st) msg st (snd (Item_SetSecret env msg secret st))"
proof -
  obtain x st1 where g: "getItemInfo env (pathOf msg) st = (x, st1)" by fastforce
  obtain rid st2 where e: "enter env (senderOf msg) st1 = (rid, st2)" by fastforce
  obtain res st3 where a: "ask env [x] (sec_Session secret) RequestTypeWrite (pe_resolve env (senderOf msg)) st2 = (res, st3)" by fastforce
  from reads_getItemInfo [OF g] have r: "reads st st1" "map ii_Path [x] = [pathOf msg]" by simp_all
  note gc = gate_context [OF r e a]
  show ?thesis
    unfolding Item_SetSecret_def
    by (auto simp: Let_def g e a callUp_def mediated_quiet [OF reads_refl] gc
        split: option.splits sum.splits prod.splits)
qed

lemma Collection_Delete_mediated: "mediated env (asks env CCollectionDelete msg st) msg st (snd (Collection_Delete env msg st))"
proof -
  obtain x st1 where g: "getCollectionInfo env (pathOf msg) st = (x, st1)" by fastforce
  obtain rid st2 where e: "enter env (senderOf msg) st1 = (rid, st2)" by fastforce
  obtain res st3 where a: "ask env [x] [] RequestTypeDelete (pe_resolve env (senderOf msg)) st2 = (res, st3)" by fastforce
  from reads_getCollectionInfo [OF g] have r: "reads st st1" "map ii_Path [x] = [pathOf msg]" by simp_all
  note gc = gate_context [OF r e a]
  show ?thesis
    unfolding Collection_Delete_def
    by (auto simp: Let_def g e a callUp_def mediated_quiet [OF reads_refl] gc
        split: option.splits sum.splits)
qed

lemma Collection_CreateItem_mediated:
  "mediated env (asks env (CCreateItem properties secret replace) msg st) msg st (snd (Collection_CreateItem env msg properties secret replace st))"
proof -
  let ?x = "extractItemInfo (pathOf msg) properties"
  obtain rid st2 where e: "enter env (senderOf msg) st = (rid, st2)" by fastforce
  obtain res st3 where a: "ask env [?x] (sec_Session secret) RequestTypeWrite (pe_resolve env (senderOf msg)) st2 = (res, st3)" by fastforce
  have r: "map ii_Path [?x] = [pathOf msg]" by (simp add: extractItemInfo_def)
  note gc = gate_context [OF reads_refl r e a]
  have l: "ps_log st2 = ps_log st" using enter_log [of env "senderOf msg" st] e by simp
  show ?thesis
    unfolding Collection_CreateItem_def
    by (auto simp: Let_def e a l callUp_def mediated_quiet [OF reads_refl] gc
        split: option.splits sum.splits prod.splits)
qed

lemma Service_GetSecrets_mediated: "mediated env (asks env (CGetSecrets items session) msg st) msg st (snd (Service_GetSecrets env msg items session st))"
proof -
  obtain xs st1 where g: "getItemInfos env items st = (xs, st1)" by fastforce
  obtain rid st2 where e: "enter env (senderOf msg) st1 = (rid, st2)" by fastforce
  obtain res st3 where a: "ask env xs session RequestTypeGetSecret (pe_resolve env (senderOf msg)) st2 = (res, st3)" by fastforce
  from reads_getItemInfos [OF g] have r: "reads st st1" "map ii_Path xs = items" by simp_all
  note gc = gate_context [OF r e a]
  show ?thesis
    unfolding Service_GetSecrets_def
    by (auto simp: Let_def g e a callUp_def gc split: option.splits sum.splits prod.splits)
qed

text \<open>The handlers without a gate send nothing that touches a secret.\<close>

lemma upstreamGetProperty_log:
  "snd (upstreamGetProperty env p pr st) = st\<lparr>ps_log := ps_log st @ [mkcall BusName p PropertiesGet [DStr pr]]\<rparr>"
  by (simp add: upstreamGetProperty_def callUp_def Let_def)

lemma mediated_one:
  "kindOf c = None \<Longrightarrow> mediated env q msg st (st\<lparr>ps_log := ps_log st @ [c]\<rparr>)"
  by (rule mediated_plain [OF reads_refl]) simp_all

lemma propGet_mediated: "mediated env q msg st (snd (propGet guard env msg iface property st))"
  using mediated_one [of "mkcall BusName (pathOf msg) PropertiesGet [DStr (iface @ ''.'' @ property)]" env q msg st]
  by (auto simp: propGet_def upstreamGetProperty_def callUp_def Let_def mediated_quiet [OF reads_refl] kindOf_None mkcall_def
      split: sum.splits)

lemma propGetAll_mediated: "mediated env q msg st (snd (propGetAll guard env msg iface st))"
  by (auto simp: propGetAll_def callUp_def Let_def mediated_quiet [OF reads_refl] mediated_one kindOf_None mkcall_def
      split: sum.splits)

lemma propSet_mediated: "mediated env q msg st (snd (propSet guard env msg iface property value st))"
  by (auto simp: propSet_def callUp_def Let_def mediated_quiet [OF reads_refl] mediated_one kindOf_None mkcall_def
      split: sum.splits)

lemma Service_props_mediated:
  "mediated env q msg st (snd (Service_Get env msg iface property st))"
  "mediated env q msg st (snd (Service_GetAll env msg iface st))"
  "mediated env q msg st (snd (Service_Set env msg iface property value st))"
  by (auto simp: Service_Get_def Service_GetAll_def Service_Set_def upstreamGetProperty_def callUp_def Let_def
      mediated_quiet [OF reads_refl] mediated_one kindOf_None mkcall_def split: sum.splits)

lemma Service_calls_mediated:
  "mediated env q msg st (snd (Service_Lock env msg objects st))"
  "mediated env q msg st (snd (Service_ReadAlias env msg name st))"
  "mediated env q msg st (snd (Service_SetAlias env msg name collection st))"
  "mediated env q msg st (snd (Service_CreateCollection env msg properties alias st))"
  by (auto simp: Service_Lock_def Service_ReadAlias_def Service_SetAlias_def Service_CreateCollection_def
      callUp_def Let_def mediated_one kindOf_None mkcall_def split: sum.splits)

lemma Service_OpenSession_mediated: "mediated env q msg st (snd (Service_OpenSession env algorithm input st))"
proof -
  obtain r ss lg where c: "CreateSession (pe_crypto env) (pe_up env) algorithm input (ps_sessions st) (ps_log st) = (r, ss, lg)"
    by (cases "CreateSession (pe_crypto env) (pe_up env) algorithm input (ps_sessions st) (ps_log st)")
  then have "lg = ps_log st \<or> lg = ps_log st @ [openUpstream]"
    by (auto simp: CreateSession_def Let_def split: sum.splits prod.splits)
  moreover have "kindOf openUpstream = None" by (rule kindOf_None) (simp add: openUpstream_def mkcall_def)
  ultimately have "mediated env q msg st (st\<lparr>ps_sessions := ss, ps_log := lg\<rparr>)"
    using mediated_quiet [OF reads_refl] mediated_plain [OF reads_refl] by fastforce
  then show ?thesis
    by (auto simp: Service_OpenSession_def c Let_def split: sum.splits go_error.splits)
qed

lemma SearchItems_mediated:
  "mediated env q msg st (snd (Service_SearchItems env msg attributes st))"
  "mediated env q msg st (snd (Collection_SearchItems env msg attributes st))"
proof -
  have q: "mediated env q msg st (st\<lparr>ps_mgr := m\<rparr>)" for m by (rule mediated_quiet [OF reads_refl]) simp
  have o: "kindOf c = None \<Longrightarrow> mediated env q msg st (st\<lparr>ps_mgr := m, ps_log := ps_log st @ [c]\<rparr>)" for m c
    by (rule mediated_plain [OF reads_refl]) simp_all
  show "mediated env q msg st (snd (Service_SearchItems env msg attributes st))"
    "mediated env q msg st (snd (Collection_SearchItems env msg attributes st))"
    by (auto simp: Service_SearchItems_def Collection_SearchItems_def callUp_def Let_def q o kindOf_None mkcall_def
        mediated_quiet [OF reads_refl] split: sum.splits option.splits)
qed

lemma Service_Unlock_mediated: "mediated env q msg st (snd (Service_Unlock env msg objects st))"
proof -
  obtain xs st1 where g: "getUnlockInfo env objects st = (xs, st1)" by fastforce
  from reads_getUnlockInfo [OF g] have r: "reads st st1" by simp
  have q: "mediated env q msg st (st1\<lparr>ps_mgr := m\<rparr>)" for m by (rule mediated_quiet [OF r]) simp
  have o: "kindOf c = None \<Longrightarrow> mediated env q msg st (st1\<lparr>ps_mgr := m, ps_log := ps_log st1 @ [c]\<rparr>)" for m c
    by (rule mediated_plain [OF r]) simp_all
  show ?thesis
    by (auto simp: Service_Unlock_def g callUp_def Let_def q o kindOf_None mkcall_def split: sum.splits option.splits)
qed

lemma promptForward_mediated:
  assumes "interfaceOf msg = PromptInterface \<or> interfaceOf msg = []"
    and "memberOf msg = ''Prompt'' \<or> memberOf msg = ''Dismiss''"
  shows "mediated env q msg st (snd (promptForward env msg st))"
proof -
  have "kindOf (forwardCall BusName msg) = None"
    using assms by (intro kindOf_None) (auto simp: forwardCall_def mkcall_def)
  then have "mediated env q msg st (st\<lparr>ps_log := ps_log st @ [forwardCall BusName msg]\<rparr>)" by (rule mediated_one)
  then show ?thesis
    by (auto simp: promptForward_def forwardVoid_def forward_def Let_def mediated_quiet [OF reads_refl]
        split: sum.splits go_error.splits)
qed

subsection \<open>Properties\<close>

lemma snd_emit [simp]: "snd (emit f r) = snd r"
  by (cases r) (simp add: emit_def)

lemma dispatch_mediated: "routed call msg \<Longrightarrow> mediated env (asks env call msg st) msg st (snd (dispatch env call msg st))"
  using Item_Delete_mediated [of env msg st] Item_GetSecret_mediated [of env _ msg st] Item_SetSecret_mediated [of env _ msg st]
    Collection_Delete_mediated [of env msg st] Collection_CreateItem_mediated [of env _ _ _ msg st]
    Service_GetSecrets_mediated [of env _ _ msg st]
  by (cases call)
     (auto simp: Service_props_mediated Service_calls_mediated
       Service_OpenSession_mediated SearchItems_mediated Service_Unlock_mediated propGet_mediated propGetAll_mediated
       propSet_mediated Item_Get_def Item_GetAll_def Item_Set_def Collection_Get_def Collection_GetAll_def
       Collection_Set_def Subtree_Get_def Subtree_GetAll_def Subtree_Set_def Prompt_Prompt_def Prompt_Dismiss_def
       interfaceOf_def memberOf_def simp del: asks.simps(1-6) intro!: promptForward_mediated)

lemma serve_append: "serve (before @ rest) st = serve rest (serve before st)"
  by (induction before st rule: serve.induct) simp_all

lemma serve_log: "\<forall>(env, call, msg) \<in> set reqs. routed call msg \<Longrightarrow> \<exists>cs. ps_log (serve reqs st) = ps_log st @ cs"
proof (induction reqs st rule: serve.induct)
  case (2 env call msg rest st)
  then have "mediated env (asks env call msg st) msg st (snd (dispatch env call msg st))" by (intro dispatch_mediated) simp
  with 2 show ?case by (fastforce simp: mediated_def)
qed simp

text \<open>A call in the log of a run was sent while one of the client calls of the run was served.\<close>

lemma sent_while_serving:
  assumes "\<forall>(env, call, msg) \<in> set reqs. routed call msg"
    and "c \<in> set (drop (length (ps_log st)) (ps_log (serve reqs st)))"
  shows "\<exists>before env call msg after. reqs = before @ (env, call, msg) # after \<and>
     c \<in> set (drop (length (ps_log (serve before st))) (ps_log (snd (dispatch env call msg (serve before st)))))"
  using assms
proof (induction reqs st rule: serve.induct)
  case (2 env call msg rest st)
  let ?st = "snd (dispatch env call msg st)"
  have "mediated env (asks env call msg st) msg st ?st" using 2(2) by (intro dispatch_mediated) simp
  then obtain cs where cs: "ps_log ?st = ps_log st @ cs" by (auto simp: mediated_def)
  have r: "\<forall>(env, call, msg) \<in> set rest. routed call msg" using 2(2) by simp
  obtain ds where ds: "ps_log (serve rest ?st) = ps_log ?st @ ds" using serve_log [OF r] by blast
  from 2(3) cs ds have "c \<in> set cs \<or> c \<in> set ds" by auto
  then show ?case
  proof
    assume "c \<in> set cs"
    then show ?thesis using cs by (intro exI [of _ "[]"]) auto
  next
    assume "c \<in> set ds"
    then obtain before e a m after where "rest = before @ (e, a, m) # after"
      "c \<in> set (drop (length (ps_log (serve before ?st))) (ps_log (snd (dispatch e a m (serve before ?st)))))"
      using 2(1) [OF r] ds by auto
    then show ?thesis by (intro exI [of _ "(env, call, msg) # before"]) auto
  qed
qed simp

lemma call_was_approved:
  assumes "routed call msg" and "c \<in> set (drop (length (ps_log st)) (ps_log (snd (dispatch env call msg st))))"
    and "kindOf c = Some t"
  shows "\<exists>items session auto. asks env call msg st = Some (items, session, t) \<and> map ii_Path items = touched c \<and>
     answer env msg (ps_mgr st) (items, session, t) = Some (auto, None)"
  using dispatch_mediated [OF assms(1), of env st] assms(2,3) by (auto simp: mediated_def)

text \<open>
  C1: Complete mediation.  In every run of the proxy, over any calls of any clients and any behaviour
  of the upstream service, an upstream call that reads, writes or deletes a secret is sent only while a client call is
  served that asked the user for that kind of access to exactly the objects the upstream call touches, and
  \<open>RequireApproval\<close>, on the approval manager as that very client call found it and for the caller as
  resolved from its sender, returned success for that question.
\<close>

theorem complete_mediation:
  assumes "\<forall>(env, call, msg) \<in> set reqs. routed call msg"
    and "c \<in> set (drop (length (ps_log st)) (ps_log (serve reqs st)))" and "kindOf c = Some t"
  shows "\<exists>before env call msg after items session auto.
     reqs = before @ (env, call, msg) # after \<and>
     c \<in> set (drop (length (ps_log (serve before st))) (ps_log (snd (dispatch env call msg (serve before st))))) \<and>
     asks env call msg (serve before st) = Some (items, session, t) \<and> map ii_Path items = touched c \<and>
     fst (RequireApproval (pe_wait env) (pe_now env) (pe_uid env) (pe_clientName env) items session t []
            (pe_resolve env (senderOf msg)) (ps_mgr (serve before st))) = Some (auto, None)"
proof -
  obtain before env call msg after where r: "reqs = before @ (env, call, msg) # after"
    and c: "c \<in> set (drop (length (ps_log (serve before st))) (ps_log (snd (dispatch env call msg (serve before st)))))"
    using sent_while_serving [OF assms(1,2)] by blast
  have "routed call msg" using assms(1) r by simp
  from call_was_approved [OF this c assms(3)] r c show ?thesis by (auto simp: answer_def) blast
qed

text \<open>A run with one approved read: the trust rule of the sample manager lets the caller through.\<close>

definition exEnv :: proxy_env where
  "exEnv = \<lparr>pe_up = (\<lambda>lg c. if uc_method c = ItemInterface @ ''.GetSecret''
        then Inr [DSecret (zeroSecret\<lparr>sec_Value := ''hunter2''\<rparr>)] else Inr [DStr ''token'']),
     pe_crypto = exCrypto, pe_clientName = ''local'', pe_resolve = (\<lambda>_. exSender), pe_connected = (\<lambda>_. True),
     pe_now = 100, pe_uid = ''r1'', pe_wait = \<lparr>we_others = id, we_sel = SelDone, we_later = 100\<rparr>, pe_meanwhile = id\<rparr>"

definition exMsg :: message where
  "exMsg = \<lparr>ms_sender = '':1.7'', ms_path = ii_Path exItem, ms_iface = Some ItemInterface, ms_member = Some ''GetSecret'',
     ms_body = [DPath ''/s/1'']\<rparr>"

definition exProxy :: ProxyState where
  "exProxy = \<lparr>ps_mgr = exTrusting,
     ps_sessions = \<lparr>ss_sessions = [(''/s/1'', \<lparr>se_local = ''/up/1'', se_cipher = None\<rparr>)], ss_counter = 1\<rparr>,
     ps_tracker = newClientTracker, ps_log = []\<rparr>"

lemma exRun_log:
  "mkcall BusName (ii_Path exItem) ''org.freedesktop.Secret.Item.GetSecret'' [DPath ''/up/1'']
     \<in> set (ps_log (serve [(exEnv, CGetSecret ''/s/1'', exMsg)] exProxy))"
  by code_simp

theorem complete_mediation_witness:
  "\<exists>auto. fst (RequireApproval (pe_wait exEnv) (pe_now exEnv) (pe_uid exEnv) (pe_clientName exEnv)
     [fst (getItemInfo exEnv (pathOf exMsg) exProxy)] ''/s/1'' RequestTypeGetSecret []
     (pe_resolve exEnv (senderOf exMsg)) (ps_mgr exProxy)) = Some (auto, None)"
proof -
  let ?c = "mkcall BusName (ii_Path exItem) ''org.freedesktop.Secret.Item.GetSecret'' [DPath ''/up/1'']"
  let ?reqs = "[(exEnv, CGetSecret ''/s/1'', exMsg)]"
  have "ps_log exProxy = []" by (simp add: exProxy_def)
  then have "?c \<in> set (drop (length (ps_log exProxy)) (ps_log (serve ?reqs exProxy)))" using exRun_log by simp
  from complete_mediation [OF _ this, of RequestTypeGetSecret] show ?thesis
    by (auto simp: Cons_eq_append_conv)
qed

end
