(* ===== verification/Proxy_Props.thy ===== *)
theory Proxy_Props
  imports Proxy_Mediation
begin

text \<open>
  Properties of single handlers of the proxy: writes that are dropped, writes that may be read back,
  refusals, and the secrets handed to a client.
\<close>

lemma history_notify_ignored:
  "0 < mg_historyMax m \<Longrightarrow>
     hd (History (notify now (reqEvent EventRequestIgnored req) m)) =
       \<lparr>he_Request = req, he_Resolution = ResolutionIgnored, he_ResolvedAt = now\<rparr>"
proof -
  assume "0 < mg_historyMax m"
  then obtain n where "nat (mg_historyMax m) = Suc n" by (metis Suc_pred zero_less_nat_eq)
  then show ?thesis
    using notify_terminal(1) [of m EventRequestIgnored ResolutionIgnored now req] \<open>0 < mg_historyMax m\<close>
    by (simp add: History_def)
qed

text \<open>
  Chrome's keyring probe is dropped.  With the option on, \<open>CreateItem\<close> for an item of the dummy
  schema answers success with no item, sends nothing upstream, asks nobody, and leaves an "ignored"
  entry in the history.
\<close>

theorem chrome_probe_is_dropped:
  assumes "isCollectionPath (pathOf msg)" and "mg_ignoreChromeDummy (ps_mgr st)"
    and "str_get (ii_Attributes (extractItemInfo (pathOf msg) properties)) ''xdg:schema'' = chromeDummySchema"
    and "0 < mg_historyMax (ps_mgr st)"
    and "Collection_CreateItem env msg properties secret replace st = (r, st')"
  shows "r = Some (Inr (''/'', ''/'')) \<and> ps_log st' = ps_log st \<and> mg_pending (ps_mgr st') = mg_pending (ps_mgr st) \<and>
         he_Resolution (hd (History (ps_mgr st'))) = ResolutionIgnored"
proof -
  obtain rid st2 where e: "enter env (senderOf msg) st = (rid, st2)" by fastforce
  have l: "ps_log st2 = ps_log st" "ps_mgr st2 = ps_mgr st" using enter_log [of env "senderOf msg" st] e by simp_all
  have "ShouldIgnore (ps_mgr st) [extractItemInfo (pathOf msg) properties] RequestTypeWrite"
    using assms(2,3) by (simp add: ShouldIgnore_def)
  with assms(1,5) e l show ?thesis
    using history_notify_ignored [OF assms(4)]
    by (auto simp: Collection_CreateItem_def Let_def RecordIgnored_def leave_def)
qed

definition exCollMsg :: message where
  "exCollMsg = \<lparr>ms_sender = '':1.7'', ms_path = ''/org/freedesktop/secrets/collection/login'',
     ms_iface = Some CollectionInterface, ms_member = Some ''CreateItem'', ms_body = []\<rparr>"

definition exDummyProps :: "(string \<times> dvalue) list" where
  "exDummyProps = [(ItemInterface @ ''.Attributes'', DAttrs [(''xdg:schema'', chromeDummySchema)])]"

theorem chrome_probe_is_dropped_witness:
  "fst (Collection_CreateItem exEnv exCollMsg exDummyProps zeroSecret True exProxy) = Some (Inr (''/'', ''/'')) \<and>
   ps_log (snd (Collection_CreateItem exEnv exCollMsg exDummyProps zeroSecret True exProxy)) = []"
proof -
  have 1: "isCollectionPath (pathOf exCollMsg)" "mg_ignoreChromeDummy (ps_mgr exProxy)"
    "str_get (ii_Attributes (extractItemInfo (pathOf exCollMsg) exDummyProps)) ''xdg:schema'' = chromeDummySchema"
    "0 < mg_historyMax (ps_mgr exProxy)" by code_simp+
  from chrome_probe_is_dropped [OF 1, of exEnv zeroSecret True] show ?thesis
    by (metis exProxy_def prod.collapse select_convs(4) ProxyState.select_convs(4))
qed

text \<open>
  A client may read back what it has just written.  After a successful \<open>CreateItem\<close> the path the
  upstream service gave the new item is in the approval cache for that sender: a read of the item
  within the approval window needs no question.
\<close>

theorem created_item_readable_back:
  assumes "Collection_CreateItem env msg properties secret replace st = (Some (Inr (item, prompt)), st')"
    and "item \<noteq> ''/''"
    and "mg_approvalWindow (ps_mgr st') > 0" and "\<not> mg_disabled (ps_mgr st')"
    and "later \<le> pe_now env + mg_approvalWindow (ps_mgr st')"
    and "si_Sender s = senderOf msg" and "ii_Path it = item"
  shows "fst (RequireApproval_begin later uid client [it] session RequestTypeGetSecret sa s (ps_mgr st')) = Some (True, None)"
proof -
  have "\<exists>m. ps_mgr st' = CacheItemForSender (pe_now env) (senderOf msg) item m"
    using assms(1,2)
    by (auto simp: Collection_CreateItem_def Let_def leave_def split: if_splits option.splits prod.splits sum.splits)
  then obtain m where m: "ps_mgr st' = CacheItemForSender (pe_now env) (senderOf msg) item m" ..
  then have "mg_approvalWindow m > 0" "\<not> mg_disabled m" using assms(3,4) by (auto simp: CacheItemForSender_def split: if_splits)
  with m have "cachedFresh (mg_cache (ps_mgr st')) later (mg_approvalWindow (ps_mgr st')) (si_Sender s) it"
    using assms(5-7) by (simp add: CacheItemForSender_def cachedFresh_def)
  then show ?thesis
    unfolding RequireApproval_begin_policy approvalPolicy_approved_iff using assms(3) by (simp add: cacheable_def)
qed

definition exEnvCreate :: proxy_env where
  "exEnvCreate = exEnv\<lparr>pe_up := (\<lambda>lg c. Inr [DPath (ii_Path exItem), DPath ''/''])\<rparr>"

definition exProxyOpen :: ProxyState where
  "exProxyOpen = exProxy\<lparr>ps_mgr := NewManager (exConfig\<lparr>mc_TrustRules := [exTrust\<lparr>tr_RequestTypes := [''write'']\<rparr>]\<rparr>)\<rparr>"

theorem created_item_readable_back_witness:
  "\<exists>st'. Collection_CreateItem exEnvCreate exCollMsg [] (zeroSecret\<lparr>sec_Session := ''/s/1''\<rparr>) True exProxyOpen =
       (Some (Inr (ii_Path exItem, ''/'')), st') \<and>
     fst (RequireApproval_begin 150 ''r2'' ''c'' [exItem] ''s'' RequestTypeGetSecret [] exSender (ps_mgr st')) = Some (True, None)"
proof -
  let ?r = "Collection_CreateItem exEnvCreate exCollMsg [] (zeroSecret\<lparr>sec_Session := ''/s/1''\<rparr>) True exProxyOpen"
  have 1: "fst ?r = Some (Inr (ii_Path exItem, ''/''))" by code_simp
  have 2: "mg_approvalWindow (ps_mgr (snd ?r)) = 50" "\<not> mg_disabled (ps_mgr (snd ?r))" "pe_now exEnvCreate = 100"
    "ii_Path exItem \<noteq> ''/''" "si_Sender exSender = senderOf exCollMsg" by code_simp+
  have 3: "?r = (Some (Inr (ii_Path exItem, ''/'')), snd ?r)" using 1 by (simp add: prod_eq_iff)
  show ?thesis
    using created_item_readable_back [OF 3, of 150 exSender exItem] 2 3 by auto
qed

text \<open>
  A refused read reveals nothing.  When the request for an item's secret is denied, times out or
  is cancelled, the client gets an "access denied" error with the reason, and the only upstream calls
  made were property reads.
\<close>

theorem refused_read_reveals_nothing:
  assumes "isItemPath (pathOf msg)"
    and "getItemInfo env (pathOf msg) st = (info, st1)"
    and "fst (RequireApproval (pe_wait env) (pe_now env) (pe_uid env) (pe_clientName env) [info] session
           RequestTypeGetSecret [] (pe_resolve env (senderOf msg)) (ps_mgr st)) = Some (auto, Some err)"
    and "Item_GetSecret env msg session st = (r, st')"
  shows "r = Some (Inl (ErrAccessDenied (error_text err))) \<and>
         (\<exists>cs. ps_log st' = ps_log st @ cs \<and> (\<forall>c \<in> set cs. uc_method c = PropertiesGet))"
proof -
  have rd: "reads st st1" using reads_getItemInfo [OF assms(2)] by simp
  obtain rid st2 where e: "enter env (senderOf msg) st1 = (rid, st2)" by fastforce
  obtain res st3 where a: "ask env [info] session RequestTypeGetSecret (pe_resolve env (senderOf msg)) st2 = (res, st3)" by fastforce
  have m: "ps_mgr st2 = ps_mgr st" "ps_log st2 = ps_log st1"
    using enter_log [of env "senderOf msg" st1] e rd by (simp_all add: reads_def)
  have "res = Some (auto, Some err)" using a assms(3) m ask_fst by (metis fst_conv)
  moreover have "ps_log st3 = ps_log st1"
    using ask_log [of env "[info]" session RequestTypeGetSecret "pe_resolve env (senderOf msg)" st2] a m by simp
  ultimately show ?thesis
    using assms(1,2,4) e a rd by (auto simp: Item_GetSecret_def Let_def reads_def)
qed

definition exDenyProxy :: ProxyState where
  "exDenyProxy = exProxy\<lparr>ps_mgr := NewManager (exConfig\<lparr>mc_TrustRules := [exTrust\<lparr>tr_Action := ''deny''\<rparr>]\<rparr>)\<rparr>"

theorem refused_read_reveals_nothing_witness:
  "fst (Item_GetSecret exEnv exMsg ''/s/1'' exDenyProxy) = Some (Inl (ErrAccessDenied ''access denied by trust rule''))"
proof -
  let ?g = "getItemInfo exEnv (pathOf exMsg) exDenyProxy"
  have 1: "isItemPath (pathOf exMsg)" by code_simp
  have 2: "?g = (fst ?g, snd ?g)" by simp
  have 3: "fst (RequireApproval (pe_wait exEnv) (pe_now exEnv) (pe_uid exEnv) (pe_clientName exEnv) [fst ?g] ''/s/1''
      RequestTypeGetSecret [] (pe_resolve exEnv (senderOf exMsg)) (ps_mgr exDenyProxy)) = Some (True, Some ErrDeniedByRule)"
    by code_simp
  show ?thesis
    using refused_read_reveals_nothing [OF 1 2 3, of "fst (Item_GetSecret exEnv exMsg ''/s/1'' exDenyProxy)"
        "snd (Item_GetSecret exEnv exMsg ''/s/1'' exDenyProxy)"] by simp
qed

end
