(* ===== verification/Ssh_Agent.thy ===== *)
theory Ssh_Agent
  imports Approval_Facts Sender_Info
begin

text \<open>
  The SSH agent proxy (\<^verbatim>\<open>internal/sshagent\<close>): programs speak the agent protocol to the daemon's socket; listing
  and managing keys is passed on to the real agent, signing only after an approval.

  The real agent and the protocol framing (\<open>agent.ServeAgent\<close>) are not part of the repository: the agent
  answers calls through a parameter, with the calls made so far, and the requests of a connection arrive one by one.
  The fingerprint and the hash of a key are parameters too.
\<close>

subsection \<open>The real agent\<close>

record ssh_key =
  sk_Blob :: bytes
  sk_Comment :: string

datatype agent_call =
    AgList | AgSign bytes bytes | AgSignWithFlags bytes bytes uint32 | AgAdd bytes | AgRemove bytes | AgRemoveAll
  | AgLock bytes | AgUnlock bytes | AgSigners | AgExtension string bytes

datatype agent_value = KeysV "ssh_key list" | SigV bytes | BytesV bytes | UnitV

type_synonym real_agent = "agent_call list \<Rightarrow> agent_call \<Rightarrow> go_error + agent_value"

subsection \<open>The proxy\<close>

record proxyAgent =
  pa_senderInfo :: SenderInfo
  pa_destination :: string
  pa_extended :: bool
  pa_keys :: "ssh_key list"

definition newProxyAgent :: "bool \<Rightarrow> SenderInfo \<Rightarrow> string \<Rightarrow> proxyAgent" where
  "newProxyAgent extended senderInfo destination =
     \<lparr>pa_senderInfo = senderInfo, pa_destination = destination, pa_extended = extended, pa_keys = []\<rparr>"

record SshState =
  ss_mgr :: Manager
  ss_agent :: proxyAgent
  ss_log :: "agent_call list"

record ssh_env =
  se_real :: real_agent
  se_fingerprint :: "bytes \<Rightarrow> string"
  se_sha256 :: "bytes \<Rightarrow> bytes"
  se_now :: nanos
  se_uid :: string
  se_wait :: wait_env

definition callAgent :: "ssh_env \<Rightarrow> agent_call \<Rightarrow> SshState \<Rightarrow> (go_error + agent_value) \<times> SshState" where
  "callAgent env c st = (se_real env (ss_log st) c, st\<lparr>ss_log := ss_log st @ [c]\<rparr>)"

definition AgentList :: "ssh_env \<Rightarrow> SshState \<Rightarrow> (go_error + agent_value) \<times> SshState" where
  "AgentList env st =
     (case callAgent env AgList st of
        (Inr (KeysV keys), st) \<Rightarrow> (Inr (KeysV keys), st\<lparr>ss_agent := (ss_agent st)\<lparr>pa_keys := keys\<rparr>\<rparr>)
      | (r, st) \<Rightarrow> (r, st))"

fun findKeyComment :: "(bytes \<Rightarrow> bytes) \<Rightarrow> bytes \<Rightarrow> ssh_key list \<Rightarrow> string" where
  "findKeyComment sha256 key [] = []"
| "findKeyComment sha256 key (k # ks) =
     (if sha256 key = sha256 (sk_Blob k) then sk_Comment k else findKeyComment sha256 key ks)"

text \<open>What the user is asked about: one item, named by the fingerprint of the key.\<close>

definition signItems :: "ssh_env \<Rightarrow> bytes \<Rightarrow> proxyAgent \<Rightarrow> ItemInfo list" where
  "signItems env key p =
     (let fingerprint = se_fingerprint env key;
          comment = findKeyComment (se_sha256 env) key (pa_keys p);
          label = (if comment = [] then fingerprint else comment);
          attrs = [(''fingerprint'', fingerprint)];
          attrs = (if pa_destination p \<noteq> [] then gm_put ''destination'' (pa_destination p) attrs else attrs)
      in [\<lparr>ii_Path = fingerprint, ii_Label = label, ii_Attributes = attrs\<rparr>])"

definition signWithApproval :: "ssh_env \<Rightarrow> bytes \<Rightarrow> bytes \<Rightarrow> uint32 \<Rightarrow> SshState \<Rightarrow> (go_error + agent_value) option \<times> SshState" where
  "signWithApproval env key payload flags st =
     (let p = ss_agent st;
          items = signItems env key p;
          (r, m) = RequireApproval (se_wait env) (se_now env) (se_uid env) ''ssh-agent'' items [] RequestTypeSSHSign []
                     (pa_senderInfo p) (ss_mgr st);
          st = st\<lparr>ss_mgr := m\<rparr>
      in case r of
           None \<Rightarrow> (None, st)
         | Some (_, Some err) \<Rightarrow> (Some (Inl (ErrText (''sign request denied: '' @ error_text err))), st)
         | Some (_, None) \<Rightarrow>
             map_prod Some id
               (if flags \<noteq> 0 \<and> pa_extended p then callAgent env (AgSignWithFlags key payload flags) st
                else callAgent env (AgSign key payload) st))"

definition Extension :: "ssh_env \<Rightarrow> string \<Rightarrow> bytes \<Rightarrow> SshState \<Rightarrow> (go_error + agent_value) \<times> SshState" where
  "Extension env extensionType contents st =
     (if pa_extended (ss_agent st) then callAgent env (AgExtension extensionType contents) st
      else (Inl (ErrText ''agent: extension unsupported''), st))"

text \<open>The methods a connection can reach.\<close>

datatype agent_request =
    RqList | RqSign bytes bytes | RqSignWithFlags bytes bytes uint32 | RqAdd bytes | RqRemove bytes | RqRemoveAll
  | RqLock bytes | RqUnlock bytes | RqSigners | RqExtension string bytes

fun serveAgent :: "ssh_env \<Rightarrow> agent_request \<Rightarrow> SshState \<Rightarrow> (go_error + agent_value) option \<times> SshState" where
  "serveAgent env RqList st = map_prod Some id (AgentList env st)"
| "serveAgent env (RqSign key payload) st = signWithApproval env key payload 0 st"
| "serveAgent env (RqSignWithFlags key payload flags) st = signWithApproval env key payload flags st"
| "serveAgent env (RqAdd key) st = map_prod Some id (callAgent env (AgAdd key) st)"
| "serveAgent env (RqRemove key) st = map_prod Some id (callAgent env (AgRemove key) st)"
| "serveAgent env RqRemoveAll st = map_prod Some id (callAgent env AgRemoveAll st)"
| "serveAgent env (RqLock passphrase) st = map_prod Some id (callAgent env (AgLock passphrase) st)"
| "serveAgent env (RqUnlock passphrase) st = map_prod Some id (callAgent env (AgUnlock passphrase) st)"
| "serveAgent env RqSigners st = map_prod Some id (callAgent env AgSigners st)"
| "serveAgent env (RqExtension t contents) st = map_prod Some id (Extension env t contents st)"

subsection \<open>Connections\<close>

text \<open>\<open>cred\<close>: PID and UID of the peer, \<open>None\<close> where they cannot be read.  \<open>None\<close> as result: out of fuel.\<close>

definition extractSenderInfo :: "nat \<Rightarrow> procfs \<Rightarrow> bool \<Rightarrow> (int \<times> uint32) option \<Rightarrow> SenderInfo option" where
  "extractSenderInfo fuel pf trimProcessChain cred =
     (case cred of
        None \<Rightarrow> Some zeroSenderInfo
      | Some (pid, uid) \<Rightarrow>
          (case ReadProcessChain fuel pf pid trimProcessChain of
             None \<Rightarrow> None
           | Some chain \<Rightarrow>
               (case ResolveInvoker fuel pf (uint32_of pid) of
                  None \<Rightarrow> None
                | Some (comm, invokerPID) \<Rightarrow>
                    Some (zeroSenderInfo\<lparr>si_PID := invokerPID, si_UID := uid, si_InvokerName := comm,
                            si_ProcessChain := map processInfoOf chain\<rparr>))))"

text \<open>The agent proxy of a connection; the second \<open>None\<close>: the real agent cannot be reached and the connection is closed.\<close>

definition handleConnection :: "nat \<Rightarrow> procfs \<Rightarrow> bool \<Rightarrow> (int \<times> uint32) option \<Rightarrow> bool \<Rightarrow> proxyAgent option option" where
  "handleConnection fuel pf trimProcessChain cred dialled =
     (case extractSenderInfo fuel pf trimProcessChain cred of
        None \<Rightarrow> None
      | Some senderInfo \<Rightarrow>
          (let destination = ResolveSSHDestination pf (int32_of (si_PID senderInfo)) in
           if dialled then Some (Some (newProxyAgent True senderInfo destination)) else Some None))"

subsection \<open>What the proxy promises\<close>

definition signing :: "agent_call \<Rightarrow> bool" where
  "signing c = (case c of AgSign _ _ \<Rightarrow> True | AgSignWithFlags _ _ _ \<Rightarrow> True | _ \<Rightarrow> False)"

text \<open>The decision on a request to sign with \<open>key\<close>.\<close>

definition signDecision :: "ssh_env \<Rightarrow> bytes \<Rightarrow> SshState \<Rightarrow> approval_result option" where
  "signDecision env key st =
     fst (RequireApproval (se_wait env) (se_now env) (se_uid env) ''ssh-agent'' (signItems env key (ss_agent st)) []
            RequestTypeSSHSign [] (pa_senderInfo (ss_agent st)) (ss_mgr st))"

lemma signWithApproval_gated:
  "let (out, st') = signWithApproval env key payload flags st; new = drop (length (ss_log st)) (ss_log st');
       c = (if flags \<noteq> 0 \<and> pa_extended (ss_agent st) then AgSignWithFlags key payload flags else AgSign key payload) in
   ss_log st' = ss_log st @ new \<and> map ii_Path (signItems env key (ss_agent st)) = [se_fingerprint env key] \<and>
   (case signDecision env key st of
      None \<Rightarrow> out = None \<and> new = []
    | Some (_, Some err) \<Rightarrow> out = Some (Inl (ErrText (''sign request denied: '' @ error_text err))) \<and> new = []
    | Some (_, None) \<Rightarrow> out = Some (se_real env (ss_log st) c) \<and> new = [c])"
proof -
  obtain r m where r: "RequireApproval (se_wait env) (se_now env) (se_uid env) ''ssh-agent'' (signItems env key (ss_agent st)) []
      RequestTypeSSHSign [] (pa_senderInfo (ss_agent st)) (ss_mgr st) = (r, m)" by fastforce
  show ?thesis
    by (auto simp: r signWithApproval_def signDecision_def callAgent_def Let_def signItems_def[THEN arg_cong[where f = "map ii_Path"]] split: option.splits)
qed

fun signCall :: "bool \<Rightarrow> agent_request \<Rightarrow> (bytes \<times> agent_call) option" where
  "signCall extended (RqSign key payload) = Some (key, AgSign key payload)"
| "signCall extended (RqSignWithFlags key payload flags) =
     Some (key, if flags \<noteq> 0 \<and> extended then AgSignWithFlags key payload flags else AgSign key payload)"
| "signCall extended _ = None"

text \<open>
  C10: The key is used only on approval.  A request to sign makes exactly one call to the real agent, for that
  key and those bytes, if the approval manager granted a request of type \<open>ssh_sign\<close> for that key's
  fingerprint; if it refused, no call is made and the client gets an error; while the decision is open nothing
  happens.  No other request makes the real agent sign.
\<close>

theorem ssh_key_used_only_on_approval:
  "let (out, st') = serveAgent env req st; new = drop (length (ss_log st)) (ss_log st') in
   ss_log st' = ss_log st @ new \<and>
   (case signCall (pa_extended (ss_agent st)) req of
      None \<Rightarrow> filter signing new = [] \<and> ss_mgr st' = ss_mgr st
    | Some (key, c) \<Rightarrow> map ii_Path (signItems env key (ss_agent st)) = [se_fingerprint env key] \<and>
        (case signDecision env key st of
           None \<Rightarrow> out = None \<and> new = []
         | Some (_, Some err) \<Rightarrow> out = Some (Inl (ErrText (''sign request denied: '' @ error_text err))) \<and> new = []
         | Some (_, None) \<Rightarrow> out = Some (se_real env (ss_log st) c) \<and> new = [c]))"
proof (cases "signCall (pa_extended (ss_agent st)) req")
  case None
  then show ?thesis
    by (cases req) (auto simp: AgentList_def callAgent_def Extension_def signing_def split: sum.splits agent_value.splits)
next
  case (Some kc)
  then consider (plain) key payload where "req = RqSign key payload" | (flags) key payload flags where "req = RqSignWithFlags key payload flags"
    by (cases req) auto
  then show ?thesis
  proof cases
    case plain
    then show ?thesis using signWithApproval_gated[of env key payload 0 st] by (simp add: Let_def split_beta)
  next
    case flags
    then show ?thesis using signWithApproval_gated[of env key payload flags st] by (simp add: Let_def split_beta)
  qed
qed

lemma findKeyComment_correct:
  assumes "inj sha256"
  shows "findKeyComment sha256 key ks = (case find (\<lambda>k. sk_Blob k = key) ks of None \<Rightarrow> [] | Some k \<Rightarrow> sk_Comment k)"
  using assms by (induction ks) (auto simp: inj_eq)

lemma extractSenderInfo_anonymous:
  assumes "extractSenderInfo fuel pf trim cred = Some s"
  shows "si_Sender s = [] \<and> \<not> si_PeerTrusted s"
  using assms by (auto simp: extractSenderInfo_def zeroSenderInfo_def split: option.splits)

text \<open>
  All connections to the agent socket share one line of the approval cache, because the sender of an agent
  request is empty: once the user has approved one program's signature, every other program that connects
  within the approval window signs with the same key, for any destination, without a question.
\<close>

theorem ssh_approval_serves_every_client:
  assumes "extractSenderInfo fuel pf trim cred = Some asker" and "extractSenderInfo fuel' pf' trim' cred' = Some other"
    and "GetPending i m = Some req" and "rq_SenderInfo req = asker" and "rq_Items req = signItems env key p"
    and "mg_approvalWindow m > 0" and "now \<le> se_now env" and "se_now env \<le> now + mg_approvalWindow m"
    and "pa_senderInfo (ss_agent st) = other" and "ss_mgr st = snd (Approve now i m)"
  shows "signDecision env key st = Some (True, None)"
proof -
  have 1: "si_Sender other = si_Sender (rq_SenderInfo req)"
    using extractSenderInfo_anonymous[OF assms(1)] extractSenderInfo_anonymous[OF assms(2)] assms(4) by simp
  have 2: "signItems env key (ss_agent st) \<noteq> []" by (simp add: signItems_def Let_def)
  have 3: "ii_Path ` set (signItems env key (ss_agent st)) \<subseteq> ii_Path ` set (rq_Items req)"
    unfolding assms(5) by (simp add: signItems_def Let_def)
  have "fst (RequireApproval_begin (se_now env) (se_uid env) ''ssh-agent'' (signItems env key (ss_agent st)) [] RequestTypeSSHSign []
      other (snd (Approve now i m))) = Some (True, None)"
    by (rule approved_items_hit[OF assms(3,6,7,8) 1 2 3]) simp_all
  then show ?thesis
    by (auto simp: signDecision_def RequireApproval_def assms(9,10) split: prod.splits option.splits)
qed

end
