(* ===== verification/Go_Outcome.thy ===== *)
theory Go_Outcome
  imports DBus_Types
begin

text \<open>
  Operations that change a world and may fail: \<open>if err != nil { return err }\<close>, with the error returned as it is,
  wrapped, or thrown away.
\<close>

definition andThen :: "go_error option \<times> 'w \<Rightarrow> ('w \<Rightarrow> go_error option \<times> 'w) \<Rightarrow> go_error option \<times> 'w" where
  "andThen r f = (case r of (Some e, w) \<Rightarrow> (Some e, w) | (None, w) \<Rightarrow> f w)"

definition wrapping :: "string \<Rightarrow> go_error option \<times> 'w \<Rightarrow> go_error option \<times> 'w" where
  "wrapping what r = (case r of (Some e, w) \<Rightarrow> (Some (ErrText (what @ '': '' @ error_text e)), w) | (None, w) \<Rightarrow> (None, w))"

definition ignoring :: "go_error option \<times> 'w \<Rightarrow> 'w" where
  "ignoring r = snd r"

lemma wrapping_None [simp]: "wrapping what (None, w) = (None, w)"
  by (simp add: wrapping_def)

lemma andThen_None [simp]: "andThen (None, w) f = f w"
  by (simp add: andThen_def)

lemma wrapping_ok: "wrapping what r = (None, w) \<longleftrightarrow> r = (None, w)"
  by (auto simp: wrapping_def split: prod.splits option.splits)

lemma andThen_ok: "andThen r f = (None, w') \<longleftrightarrow> (\<exists>w. r = (None, w) \<and> f w = (None, w'))"
  by (auto simp: andThen_def split: prod.splits option.splits)

end
