(* ===== verification/Glob_Valid.thy ===== *)
theory Glob_Valid
  imports Go_Glob
begin

text \<open>
  Whether a shell pattern is malformed does not depend on the text it is matched with: \<open>path.Match\<close> reports
  a bad pattern for one text if and only if it does for every text.  The configuration check relies on this: it tries
  every pattern on the word \<open>test\<close>.
\<close>

lemma classLoop_rest: "map_option snd (classLoop r m n c) = map_option snd (classLoop r' m' n c)"
proof (induction r m n c arbitrary: r' m' rule: classLoop.induct)
  case (1 r matched nrange chunk)
  show ?case
  proof (cases "chunk \<noteq> [] \<and> hd chunk = CHR '']'' \<and> nrange")
    case True
    then show ?thesis by (subst (1 2) classLoop.simps) simp
  next
    case False
    show ?thesis
    proof (cases "getEsc chunk")
      case None
      with False show ?thesis by (auto simp: classLoop.simps[of _ _ nrange chunk])
    next
      case (Some p)
      obtain lo c1 where p: "p = (lo, c1)" by fastforce
      show ?thesis
      proof (cases "if hd c1 = CHR ''-'' then getEsc (tl c1) else Some (lo, c1)")
        case None
        with False Some p show ?thesis by (auto simp: classLoop.simps[of _ _ nrange chunk])
      next
        case (Some q)
        obtain hi c2 where q: "q = (hi, c2)" by fastforce
        let ?m = "\<lambda>r m. m \<or> (case r of None \<Rightarrow> False
                    | Some x \<Rightarrow> (of_char lo :: nat) \<le> of_char x \<and> (of_char x :: nat) \<le> of_char hi)"
        have step: "classLoop r m nrange chunk = classLoop r (?m r m) True c2" for r m
          using False \<open>getEsc chunk = Some p\<close> p Some q by (subst classLoop.simps) (simp only: if_False option.case prod.case)
        have "map_option snd (classLoop r (?m r matched) True c2) = map_option snd (classLoop r' (?m r' m') True c2)"
          by (rule 1[OF False \<open>getEsc chunk = Some p\<close> p[symmetric] Some q[symmetric]])
        then show ?thesis by (simp only: step)
      qed
    qed
  qed
qed

lemma classLoop_cases:
  "(classLoop r m n c = None \<and> classLoop r' m' n c = None) \<or>
   (\<exists>b b' rest. classLoop r m n c = Some (b, rest) \<and> classLoop r' m' n c = Some (b', rest))"
  using classLoop_rest[of r m n c r' m'] by (cases "classLoop r m n c"; cases "classLoop r' m' n c") auto

lemma matchChunk_None: "matchChunk f c s = None \<Longrightarrow> matchChunk f' c s' = None"
proof (induction f c s arbitrary: f' s' rule: matchChunk.induct)
  case (1 f s)
  then show ?case by simp
next
  case (2 f c cs s)
  let ?F = "\<lambda>f s. f \<or> s = []"
  show ?case
  proof (cases "c = CHR ''[''")
    case True
    let ?neg = "cs \<noteq> [] \<and> hd cs = CHR ''^''" and ?body = "if cs \<noteq> [] \<and> hd cs = CHR ''^'' then tl cs else cs"
    let ?r = "\<lambda>f s. if ?F f s then None else Some (hd s)" and ?t = "\<lambda>f s. if ?F f s then s else tl s"
    have eq: "matchChunk f (c # cs) s = (case classLoop (?r f s) False False ?body of None \<Rightarrow> None
        | Some (m, rest) \<Rightarrow> matchChunk (?F f s \<or> m = ?neg) rest (?t f s))" for f s
      using True by (simp add: matchChunk.simps(2) Let_def)
    from classLoop_cases[of "?r f s" False False ?body "?r f' s'" False] show ?thesis
    proof
      assume "classLoop (?r f s) False False ?body = None \<and> classLoop (?r f' s') False False ?body = None"
      then show ?thesis by (simp only: eq option.case)
    next
      assume "\<exists>b b' rest. classLoop (?r f s) False False ?body = Some (b, rest) \<and> classLoop (?r f' s') False False ?body = Some (b', rest)"
      then obtain b b' rest where c: "classLoop (?r f s) False False ?body = Some (b, rest)"
        "classLoop (?r f' s') False False ?body = Some (b', rest)" by blast
      have "matchChunk (?F f s \<or> b = ?neg) rest (?t f s) = None" using "2.prems" unfolding eq c by simp
      then show ?thesis using "2.IH"(1)[OF refl True refl refl refl refl c(1) refl] unfolding eq c(2) by simp
    qed
  next
    case nb: False
    show ?thesis
    proof (cases "c = CHR ''?''")
      case True
      have eq: "matchChunk f (c # cs) s = (if ?F f s then matchChunk True cs s else matchChunk (hd s = CHR ''/'') cs (tl s))" for f s
        using True by (auto simp: matchChunk.simps(2) Let_def)
      have "matchChunk g cs t = None" for g t
      proof (cases "?F f s")
        case T: True
        have "matchChunk True cs s = None" using "2.prems" T by (simp only: eq if_True)
        then show ?thesis using 2(2)[OF refl nb True, of g t] T by simp
      next
        case F: False
        have "matchChunk (hd s = CHR ''/'') cs (tl s) = None" using "2.prems" F by (simp only: eq if_False)
        then show ?thesis using 2(3)[OF refl nb True, of g t] F by simp
      qed
      then show ?thesis by (simp add: eq)
    next
      case nq: False
      show ?thesis
      proof (cases "c = CHR 0x5C \<and> cs = []")
        case True
        then show ?thesis by (simp add: matchChunk.simps(2))
      next
        case nl: False
        define lit where "lit = (if c = CHR 0x5C then hd cs else c)"
        define rest where "rest = (if c = CHR 0x5C then tl cs else cs)"
        have eq: "matchChunk f (c # cs) s = (if ?F f s then matchChunk True rest s else matchChunk (lit \<noteq> hd s) rest (tl s))" for f s
          unfolding lit_def rest_def using nb nq nl by (subst matchChunk.simps(2)) (auto simp: Let_def)
        have "matchChunk g rest t = None" for g t
        proof (cases "?F f s")
          case T: True
          have "matchChunk True rest s = None" using "2.prems" T by (simp only: eq if_True)
          then show ?thesis using 2(4)[OF refl nb nq nl lit_def rest_def, of g t] T by simp
        next
          case F: False
          have "matchChunk (lit \<noteq> hd s) rest (tl s) = None" using "2.prems" F by (simp only: eq if_False)
          then show ?thesis using 2(5)[OF refl nb nq nl lit_def rest_def, of g t] F by simp
        qed
        then show ?thesis by (simp add: eq)
      qed
    qed
  qed
qed

lemma matchChunk_None_iff: "matchChunk f c s = None \<longleftrightarrow> matchChunk f' c s' = None"
  using matchChunk_None by blast

lemma skipMatch_None: "skipMatch c final s = None \<Longrightarrow> matchChunk False c [] = None"
  by (induction c final s rule: skipMatch.induct) (auto split: if_splits option.splits bool.splits intro: matchChunk_None)

lemma scanChunk_empty: "scanChunk p = (star, [], rest) \<Longrightarrow> rest = []"
proof -
  assume s: "scanChunk p = (star, [], rest)"
  define q where "q = snd (dropStars p)"
  have hd: "q = [] \<or> hd q \<noteq> CHR ''*''" unfolding q_def by (induction p rule: dropStars.induct) auto
  have "take (scanLen False q) q = []" "rest = drop (scanLen False q) q"
    using s by (auto simp: scanChunk_def q_def Let_def split: prod.splits)
  then show "rest = []" using hd scanLen_pos[of q] by (cases q) auto
qed

theorem Match_bad_pattern: "Match p n = None \<longleftrightarrow> \<not> restValid p"
proof (induction p n rule: Match.induct)
  case (1 p n)
  show ?case
  proof (cases "p = []")
    case True
    then show ?thesis by (simp add: restValid.simps)
  next
    case ne: False
    obtain star chunk rest where sc: "scanChunk p = (star, chunk, rest)" by (cases "scanChunk p") auto
    have rv: "restValid p \<longleftrightarrow> matchChunk False chunk [] \<noteq> None \<and> restValid rest"
      using ne by (subst restValid.simps) (simp add: sc)
    show ?thesis
    proof (cases "star \<and> chunk = []")
      case True
      then have "rest = []" using scanChunk_empty sc by simp
      then show ?thesis using True ne rv by (subst Match.simps) (simp add: sc restValid.simps)
    next
      case nt: False
      show ?thesis
      proof (cases "matchChunk False chunk n")
        case None
        then show ?thesis using ne nt rv matchChunk_None[of False chunk n] by (subst Match.simps) (auto simp: sc)
      next
        case (Some tok)
        obtain t ok where tok: "tok = (t, ok)" by fastforce
        have good: "matchChunk False chunk [] \<noteq> None" using Some matchChunk_None_iff[of False chunk "[]" False n] by simp
        have sk: "skipMatch chunk (rest = []) n \<noteq> None"
        proof
          assume "skipMatch chunk (rest = []) n = None"
          from skipMatch_None[OF this] good show False by contradiction
        qed
        show ?thesis
        proof (cases "ok \<and> (t = [] \<or> rest \<noteq> [])")
          case True
          have "Match rest t = None \<longleftrightarrow> \<not> restValid rest" using 1(1)[OF ne sc[symmetric] refl nt Some tok[symmetric] True] .
          then show ?thesis using ne nt rv good Some tok True by (subst Match.simps) (auto simp: sc)
        next
          case False
          have IH: "Match rest t' = None \<longleftrightarrow> \<not> restValid rest"
            if "(if star then skipMatch chunk (rest = []) n else Some None) = Some (Some t')" for t'
            using 1(2)[OF ne sc[symmetric] refl nt Some tok[symmetric] False that refl] .
          have M: "Match p n = (case (if star then skipMatch chunk (rest = []) n else Some None) of
                 None \<Rightarrow> None
               | Some (Some t') \<Rightarrow> Match rest t'
               | Some None \<Rightarrow> if restValid rest then Some False else None)"
            using ne nt Some tok False by (subst Match.simps) (simp only: sc if_False prod.case option.case)
          show ?thesis
          proof (cases "if star then skipMatch chunk (rest = []) n else Some None")
            case None
            then show ?thesis using sk by (simp split: if_splits)
          next
            case (Some o')
            then show ?thesis using M IH rv good by (cases o') (simp_all del: not_None_eq)
          qed
        qed
      qed
    qed
  qed
qed

text \<open>One try decides for all texts.\<close>

corollary Match_valid_everywhere: "Match p n \<noteq> None \<Longrightarrow> Match p n' \<noteq> None"
  by (simp add: Match_bad_pattern)

end
