(* ===== verification/Config.thy ===== *)
theory Config
  imports Glob_Valid Approval_Facts
begin

text \<open>
  The configuration file (\<^verbatim>\<open>internal/config/config.go\<close>) and how \<open>runServe\<close> in \<^verbatim>\<open>main.go\<close> turns it, with the
  command line, into the settings of the approval manager.

  The YAML decoder is a parameter: \<open>Load\<close> gets what reading and decoding the file gave.  Environment variables
  are arguments, empty when unset.  The rule and signer types of the configuration have the fields of those of the
  approval package and are copied field by field, so one record serves for both.
\<close>

subsection \<open>The configuration\<close>

record BusConfig =
  bc_Type :: string
  bc_Path :: string

record ServeConfig =
  sv_Upstream :: BusConfig
  sv_Downstream :: "BusConfig list"
  sv_LogLevel :: string
  sv_LogFormat :: string
  sv_Timeout :: nanos
  sv_HistoryLimit :: int
  sv_Notifications :: "bool option"
  sv_ShowPIDs :: "bool option"
  sv_TrimProcessChain :: "bool option"
  sv_ApprovalWindow :: nanos
  sv_AutoApproveDuration :: nanos
  sv_NotificationDelay :: nanos
  sv_TrustedSigners :: "TrustedSigner list"
  sv_IgnoreChromeDummySecret :: "bool option"
  sv_UpstreamSlowThreshold :: "nanos option"
  sv_UpstreamSlowAlways :: "bool option"
  sv_Rules :: "TrustRule list"

record SSHConfig =
  sh_Upstream :: string
  sh_Listen :: string

record Config =
  cf_StateDir :: string
  cf_Listen :: string
  cf_Serve :: ServeConfig
  cf_SSH :: "SSHConfig option"

definition zeroServe :: ServeConfig where
  "zeroServe = \<lparr>sv_Upstream = \<lparr>bc_Type = [], bc_Path = []\<rparr>, sv_Downstream = [], sv_LogLevel = [], sv_LogFormat = [],
     sv_Timeout = 0, sv_HistoryLimit = 0, sv_Notifications = None, sv_ShowPIDs = None, sv_TrimProcessChain = None,
     sv_ApprovalWindow = 0, sv_AutoApproveDuration = 0, sv_NotificationDelay = 0, sv_TrustedSigners = [],
     sv_IgnoreChromeDummySecret = None, sv_UpstreamSlowThreshold = None, sv_UpstreamSlowAlways = None, sv_Rules = []\<rparr>"

definition zeroConfig :: Config where
  "zeroConfig = \<lparr>cf_StateDir = [], cf_Listen = [], cf_Serve = zeroServe, cf_SSH = None\<rparr>"

abbreviation (input) DefaultListenAddr :: string where "DefaultListenAddr \<equiv> ''127.0.0.1:8484''"
abbreviation (input) DefaultTimeout :: nanos where "DefaultTimeout \<equiv> 300000000000"
abbreviation (input) DefaultHistoryLimit :: int where "DefaultHistoryLimit \<equiv> 100"
abbreviation (input) DefaultApprovalWindow :: nanos where "DefaultApprovalWindow \<equiv> 5000000000"
abbreviation (input) DefaultAutoApproveDuration :: nanos where "DefaultAutoApproveDuration \<equiv> 120000000000"
abbreviation (input) DefaultNotificationDelay :: nanos where "DefaultNotificationDelay \<equiv> 500000000"
abbreviation (input) DefaultUpstreamSlowThreshold :: nanos where "DefaultUpstreamSlowThreshold \<equiv> 1500000000"

definition defaultSocketsDir :: "string \<Rightarrow> string" where
  "defaultSocketsDir runtimeDir = (if runtimeDir = [] then [] else runtimeDir @ ''/secrets-dispatcher/sockets'')"

text \<open>A field that has its zero value is replaced.\<close>

definition orStr :: "string \<Rightarrow> string \<Rightarrow> string" where "orStr x d = (if x = [] then d else x)"
definition orInt :: "int \<Rightarrow> int \<Rightarrow> int" where "orInt x d = (if x = 0 then d else x)"
definition orPtr :: "'a option \<Rightarrow> 'a \<Rightarrow> 'a option" where "orPtr x d = (if x = None then Some d else x)"

definition WithDefaults :: "string \<Rightarrow> Config \<Rightarrow> Config" where
  "WithDefaults runtimeDir cfg =
     (let s = cf_Serve cfg in
      cfg\<lparr>cf_Listen := orStr (cf_Listen cfg) DefaultListenAddr,
          cf_Serve := s\<lparr>sv_LogLevel := orStr (sv_LogLevel s) ''info'',
                        sv_LogFormat := orStr (sv_LogFormat s) ''text'',
                        sv_Timeout := orInt (sv_Timeout s) DefaultTimeout,
                        sv_HistoryLimit := orInt (sv_HistoryLimit s) DefaultHistoryLimit,
                        sv_Notifications := orPtr (sv_Notifications s) True,
                        sv_ShowPIDs := orPtr (sv_ShowPIDs s) False,
                        sv_TrimProcessChain := orPtr (sv_TrimProcessChain s) True,
                        sv_IgnoreChromeDummySecret := orPtr (sv_IgnoreChromeDummySecret s) True,
                        sv_ApprovalWindow := orInt (sv_ApprovalWindow s) DefaultApprovalWindow,
                        sv_AutoApproveDuration := orInt (sv_AutoApproveDuration s) DefaultAutoApproveDuration,
                        sv_NotificationDelay := orInt (sv_NotificationDelay s) DefaultNotificationDelay,
                        sv_UpstreamSlowThreshold := orPtr (sv_UpstreamSlowThreshold s) DefaultUpstreamSlowThreshold,
                        sv_Upstream := (if bc_Type (sv_Upstream s) = [] then \<lparr>bc_Type = ''session_bus'', bc_Path = []\<rparr> else sv_Upstream s),
                        sv_Downstream := (if sv_Downstream s = [] then [\<lparr>bc_Type = ''sockets'', bc_Path = defaultSocketsDir runtimeDir\<rparr>]
                                          else sv_Downstream s)\<rparr>\<rparr>)"

subsection \<open>Validation\<close>

text \<open>The errors of \<open>Validate\<close>, with the values their texts name.\<close>

datatype config_error =
    UpstreamType string | UpstreamNeedsPath
  | DownstreamTwice nat | DownstreamNeedsPath nat string | DownstreamType nat string | SameBus
  | RuleAction nat string | IgnoreNeedsTypes nat | IgnoreType nat string | RuleType nat string
  | BadGlob nat string | BadAttribute nat string | BadSearchAttribute nat string

fun validateDownstream :: "nat \<Rightarrow> bool \<Rightarrow> BusConfig list \<Rightarrow> config_error + bool" where
  "validateDownstream i hasSessionBusDown [] = Inr hasSessionBusDown"
| "validateDownstream i hasSessionBusDown (d # ds) =
     (if bc_Type d = ''session_bus'' then
        (if hasSessionBusDown then Inl (DownstreamTwice i) else validateDownstream (Suc i) True ds)
      else if bc_Type d = ''socket'' \<or> bc_Type d = ''sockets'' then
        (if bc_Path d = [] then Inl (DownstreamNeedsPath i (bc_Type d)) else validateDownstream (Suc i) hasSessionBusDown ds)
      else Inl (DownstreamType i (bc_Type d)))"

definition validRequestTypes :: "string list" where
  "validRequestTypes = [''get_secret'', ''search'', ''delete'', ''write'', ''unlock'']"

definition strFromProcessMatcher :: "ProcessMatcher option \<Rightarrow> string \<Rightarrow> string" where
  "strFromProcessMatcher p field =
     (case p of None \<Rightarrow> []
      | Some p \<Rightarrow>
          if field = ''exe'' then pm_Exe p else if field = ''name'' then pm_Name p else if field = ''args'' then pm_Args p
          else if field = ''cwd'' then pm_CWD p else if field = ''unit'' then pm_Unit p else [])"

definition strFromSecretMatcher :: "SecretMatcher option \<Rightarrow> string \<Rightarrow> string" where
  "strFromSecretMatcher s field =
     (case s of None \<Rightarrow> []
      | Some s \<Rightarrow> if field = ''collection'' then sm_Collection s else if field = ''label'' then sm_Label s else [])"

definition rulePatterns :: "TrustRule \<Rightarrow> (string \<times> string) list" where
  "rulePatterns rule =
     [(''process.exe'', strFromProcessMatcher (tr_Process rule) ''exe''),
      (''process.name'', strFromProcessMatcher (tr_Process rule) ''name''),
      (''process.args'', strFromProcessMatcher (tr_Process rule) ''args''),
      (''process.cwd'', strFromProcessMatcher (tr_Process rule) ''cwd''),
      (''process.unit'', strFromProcessMatcher (tr_Process rule) ''unit''),
      (''secret.collection'', strFromSecretMatcher (tr_Secret rule) ''collection''),
      (''secret.label'', strFromSecretMatcher (tr_Secret rule) ''label'')]"

text \<open>The first entry for which the check fails.\<close>

definition badPattern :: "(string \<times> string) \<Rightarrow> bool" where
  "badPattern nv \<longleftrightarrow> snd nv \<noteq> [] \<and> Match (snd nv) ''test'' = None"

definition badAttribute :: "(string \<times> string) \<Rightarrow> bool" where
  "badAttribute kv \<longleftrightarrow> Match (snd kv) ''test'' = None"

definition validateRule :: "nat \<Rightarrow> TrustRule \<Rightarrow> config_error option" where
  "validateRule i rule =
     (let action = (if tr_Action rule = [] then ''approve'' else tr_Action rule);
          attrs = (case tr_Secret rule of None \<Rightarrow> [] | Some s \<Rightarrow> sm_Attributes s)
      in if action \<noteq> ''approve'' \<and> action \<noteq> ''ignore'' \<and> action \<noteq> ''deny'' then Some (RuleAction i (tr_Action rule))
         else if action = ''ignore'' \<and> tr_RequestTypes rule = [] then Some (IgnoreNeedsTypes i)
         else case (if action = ''ignore'' then find (\<lambda>rt. rt \<noteq> ''write'') (tr_RequestTypes rule) else None) of
           Some rt \<Rightarrow> Some (IgnoreType i rt)
         | None \<Rightarrow>
        (case find (\<lambda>rt. rt \<notin> set validRequestTypes) (tr_RequestTypes rule) of
           Some rt \<Rightarrow> Some (RuleType i rt)
         | None \<Rightarrow>
        (case find badPattern (rulePatterns rule) of
           Some (name, _) \<Rightarrow> Some (BadGlob i name)
         | None \<Rightarrow>
        (case find badAttribute attrs of
           Some (k, _) \<Rightarrow> Some (BadAttribute i k)
         | None \<Rightarrow>
        (case find badAttribute (tr_SearchAttributes rule) of
           Some (k, _) \<Rightarrow> Some (BadSearchAttribute i k)
         | None \<Rightarrow> None)))))"

fun validateRules :: "nat \<Rightarrow> TrustRule list \<Rightarrow> config_error option" where
  "validateRules i [] = None"
| "validateRules i (r # rs) = (case validateRule i r of Some e \<Rightarrow> Some e | None \<Rightarrow> validateRules (Suc i) rs)"

definition Validate :: "Config \<Rightarrow> config_error option" where
  "Validate cfg =
     (let s = cf_Serve cfg; up = sv_Upstream s in
      if bc_Type up \<noteq> ''session_bus'' \<and> bc_Type up \<noteq> ''socket'' then Some (UpstreamType (bc_Type up))
      else if bc_Type up = ''socket'' \<and> bc_Path up = [] then Some UpstreamNeedsPath
      else case validateDownstream 0 False (sv_Downstream s) of
        Inl e \<Rightarrow> Some e
      | Inr hasSessionBusDown \<Rightarrow>
          if bc_Type up = ''session_bus'' \<and> hasSessionBusDown then Some SameBus
          else validateRules 0 (sv_Rules s))"

subsection \<open>Loading\<close>

definition DefaultPath :: "string \<Rightarrow> go_error + string \<Rightarrow> string" where
  "DefaultPath configHome home =
     (case (if configHome = [] then map_sum id (\<lambda>h. h @ ''/.config'') home else Inr configHome) of
        Inl _ \<Rightarrow> []
      | Inr c \<Rightarrow> c @ ''/secrets-dispatcher/config.yaml'')"

text \<open>What is at a path: nothing, a read error, or contents with the result of decoding them.\<close>

datatype config_file = NoFile | Unreadable go_error | FileData "go_error + Config"

definition Load :: "string \<Rightarrow> config_file \<Rightarrow> go_error + Config" where
  "Load path file =
     (case file of
        NoFile \<Rightarrow> Inr zeroConfig
      | Unreadable e \<Rightarrow> Inl e
      | FileData (Inl e) \<Rightarrow> Inl (ErrText (''parsing config '' @ path @ '': '' @ error_text e))
      | FileData (Inr cfg) \<Rightarrow> Inr cfg)"

definition loadConfig :: "string \<Rightarrow> go_error + string \<Rightarrow> string \<Rightarrow> (string \<Rightarrow> config_file) \<Rightarrow> go_error + Config" where
  "loadConfig configHome home explicitPath files =
     (let load = (\<lambda>path. map_sum (\<lambda>e. ErrText (''load config '' @ path @ '': '' @ error_text e)) id (Load path (files path))) in
      if explicitPath \<noteq> [] then
        (case load explicitPath of
           Inl e \<Rightarrow> Inl e
         | Inr cfg \<Rightarrow> if files explicitPath = NoFile then Inl (ErrText (''config file not found: '' @ explicitPath)) else Inr cfg)
      else (let defaultPath = DefaultPath configHome home in
            if defaultPath = [] then Inr zeroConfig else load defaultPath))"

definition getStateDir :: "string \<Rightarrow> go_error + string \<Rightarrow> go_error + string" where
  "getStateDir stateHome home =
     map_sum (\<lambda>e. ErrText (''get home dir: '' @ error_text e)) (\<lambda>d. d @ ''/secrets-dispatcher'')
       (if stateHome = [] then map_sum id (\<lambda>h. h @ ''/.local/state'') home else Inr stateHome)"

subsection \<open>The settings of \<open>serve\<close>\<close>

text \<open>The flags of the command line: \<open>None\<close> when not given.\<close>

record serve_flags =
  fl_stateDir :: "string option"
  fl_listen :: "string option"
  fl_logLevel :: "string option"
  fl_logFormat :: "string option"
  fl_timeout :: "nanos option"
  fl_historyLimit :: "int option"
  fl_notifications :: "bool option"

record serve_settings =
  ss_stateDir :: string
  ss_listen :: string
  ss_logLevel :: string
  ss_logFormat :: string
  ss_timeout :: nanos
  ss_historyLimit :: int
  ss_notifications :: bool
  ss_config :: Config

definition serveSettings :: "string \<Rightarrow> serve_flags \<Rightarrow> Config \<Rightarrow> config_error + serve_settings" where
  "serveSettings runtimeDir fl cfg =
     (let s = cf_Serve cfg;
          str = (\<lambda>flag v d. case flag of Some x \<Rightarrow> x | None \<Rightarrow> if v \<noteq> [] then v else d);
          num = (\<lambda>flag v d. case flag of Some x \<Rightarrow> x | None \<Rightarrow> if v \<noteq> 0 then v else d);
          full = WithDefaults runtimeDir cfg
      in case Validate full of
           Some e \<Rightarrow> Inl e
         | None \<Rightarrow> Inr \<lparr>ss_stateDir = str (fl_stateDir fl) (cf_StateDir cfg) [],
                         ss_listen = str (fl_listen fl) (cf_Listen cfg) DefaultListenAddr,
                         ss_logLevel = str (fl_logLevel fl) (sv_LogLevel s) ''info'',
                         ss_logFormat = str (fl_logFormat fl) (sv_LogFormat s) ''text'',
                         ss_timeout = num (fl_timeout fl) (sv_Timeout s) DefaultTimeout,
                         ss_historyLimit = num (fl_historyLimit fl) (sv_HistoryLimit s) DefaultHistoryLimit,
                         ss_notifications = (case fl_notifications fl of Some b \<Rightarrow> b | None \<Rightarrow>
                            (case sv_Notifications s of Some b \<Rightarrow> b | None \<Rightarrow> True)),
                         ss_config = full\<rparr>)"

definition managerConfig :: "serve_settings \<Rightarrow> ManagerConfig" where
  "managerConfig st =
     (let s = cf_Serve (ss_config st) in
      \<lparr>mc_Timeout = ss_timeout st, mc_HistoryMax = ss_historyLimit st, mc_ApprovalWindow = sv_ApprovalWindow s,
       mc_AutoApproveDuration = sv_AutoApproveDuration s, mc_TrustedSigners = sv_TrustedSigners s,
       mc_IgnoreChromeDummy = (case sv_IgnoreChromeDummySecret s of Some b \<Rightarrow> b | None \<Rightarrow> False), mc_TrustRules = sv_Rules s\<rparr>)"

datatype log_level = LevelDebug | LevelInfo | LevelWarn | LevelError

definition parseLogLevel :: "string \<Rightarrow> log_level" where
  "parseLogLevel s = (if s = ''debug'' then LevelDebug else if s = ''info'' then LevelInfo else if s = ''warn'' then LevelWarn
     else if s = ''error'' then LevelError else LevelInfo)"

subsection \<open>What a valid configuration is\<close>

definition goodPattern :: "string \<Rightarrow> bool" where
  "goodPattern p \<longleftrightarrow> (\<forall>name. Match p name \<noteq> None)"

definition patternsOf :: "TrustRule \<Rightarrow> string set" where
  "patternsOf r = snd ` set (rulePatterns r) \<union> snd ` set (tr_SearchAttributes r) \<union>
     (case tr_Secret r of None \<Rightarrow> {} | Some s \<Rightarrow> snd ` set (sm_Attributes s))"

definition ruleOK :: "TrustRule \<Rightarrow> bool" where
  "ruleOK r \<longleftrightarrow> tr_Action r \<in> {[], ''approve'', ''ignore'', ''deny''} \<and>
     (tr_Action r = ''ignore'' \<longrightarrow> tr_RequestTypes r \<noteq> [] \<and> set (tr_RequestTypes r) \<subseteq> {''write''}) \<and>
     set (tr_RequestTypes r) \<subseteq> set validRequestTypes \<and> (\<forall>p \<in> patternsOf r. goodPattern p)"

definition busOK :: "BusConfig \<Rightarrow> bool" where
  "busOK d \<longleftrightarrow> bc_Type d = ''session_bus'' \<or> bc_Type d \<in> {''socket'', ''sockets''} \<and> bc_Path d \<noteq> []"

definition sessionBuses :: "BusConfig list \<Rightarrow> nat" where
  "sessionBuses ds = length (filter (\<lambda>d. bc_Type d = ''session_bus'') ds)"

definition configOK :: "Config \<Rightarrow> bool" where
  "configOK cfg \<longleftrightarrow> (let s = cf_Serve cfg; up = sv_Upstream s in
     busOK up \<and> bc_Type up \<noteq> ''sockets'' \<and> list_all busOK (sv_Downstream s) \<and>
     sessionBuses (sv_Downstream s) + (if bc_Type up = ''session_bus'' then 1 else 0) \<le> 1 \<and>
     list_all ruleOK (sv_Rules s))"

lemma Match_test: "Match p ''test'' = None \<longleftrightarrow> \<not> goodPattern p"
  using Match_bad_pattern by (auto simp: goodPattern_def)

lemma goodPattern_Nil [simp]: "goodPattern []"
  by (simp add: goodPattern_def)

lemma find_badPattern: "find badPattern xs = None \<longleftrightarrow> (\<forall>p \<in> snd ` set xs. goodPattern p)"
  by (force simp: find_None_iff badPattern_def Match_test)

lemma find_badAttribute: "find badAttribute xs = None \<longleftrightarrow> (\<forall>p \<in> snd ` set xs. goodPattern p)"
  by (force simp: find_None_iff badAttribute_def Match_test)

lemma find_type: "find (\<lambda>rt. rt \<notin> A) xs = None \<longleftrightarrow> set xs \<subseteq> A"
  by (auto simp: find_None_iff)

lemma find_other: "find (\<lambda>rt. rt \<noteq> a) xs = None \<longleftrightarrow> set xs \<subseteq> {a}"
  by (auto simp: find_None_iff)

lemma validateRule_iff: "validateRule i r = None \<longleftrightarrow> ruleOK r"
proof -
  define attrs where "attrs = (case tr_Secret r of None \<Rightarrow> [] | Some s \<Rightarrow> sm_Attributes s)"
  have p: "(\<forall>p \<in> patternsOf r. goodPattern p) \<longleftrightarrow> find badPattern (rulePatterns r) = None \<and>
      find badAttribute attrs = None \<and> find badAttribute (tr_SearchAttributes r) = None"
    unfolding find_badPattern find_badAttribute patternsOf_def attrs_def by (cases "tr_Secret r") (auto simp: ball_Un)
  show ?thesis
    unfolding ruleOK_def p validateRule_def Let_def attrs_def[symmetric] find_type[symmetric] find_other[symmetric]
    by (auto split: option.splits)
qed

lemma validateRules_iff: "validateRules i rs = None \<longleftrightarrow> list_all ruleOK rs"
proof (induction i rs rule: validateRules.induct)
  case (2 i r rs)
  then show ?case using validateRule_iff[of i r] by (auto split: option.splits)
qed simp

lemma validateDownstream_iff:
  "validateDownstream i b ds = Inr b' \<longleftrightarrow>
     list_all busOK ds \<and> sessionBuses ds + of_bool b \<le> 1 \<and> b' = (sessionBuses ds + of_bool b = 1)"
proof (induction i b ds rule: validateDownstream.induct)
  case (1 i b)
  then show ?case by (auto simp: sessionBuses_def)
next
  case (2 i b d ds)
  then show ?case by (auto simp: sessionBuses_def busOK_def)
qed

lemma Validate_decides: "Validate cfg = None \<longleftrightarrow> configOK cfg"
proof -
  define s where "s = cf_Serve cfg"
  define ds where "ds = sv_Downstream s"
  have up: "(bc_Type up = ''session_bus'' \<or> bc_Type up = ''socket'') \<and> \<not> (bc_Type up = ''socket'' \<and> bc_Path up = []) \<longleftrightarrow>
      busOK up \<and> bc_Type up \<noteq> ''sockets''" for up by (auto simp: busOK_def)
  show ?thesis
  proof (cases "validateDownstream 0 False ds")
    case (Inl e)
    then have "\<not> (list_all busOK ds \<and> sessionBuses ds \<le> 1)" using validateDownstream_iff[of 0 False ds] by auto
    then show ?thesis using Inl up[of "sv_Upstream s"]
      by (auto simp: Validate_def configOK_def Let_def s_def[symmetric] ds_def[symmetric])
  next
    case (Inr b)
    then have "list_all busOK ds" "sessionBuses ds \<le> 1" "b \<longleftrightarrow> sessionBuses ds = 1"
      using validateDownstream_iff[of 0 False ds b] by auto
    then show ?thesis using Inr up[of "sv_Upstream s"]
      by (auto simp: Validate_def configOK_def Let_def s_def[symmetric] ds_def[symmetric] validateRules_iff)
  qed
qed

text \<open>
  C16: \<open>Validate\<close> accepts exactly the well-formed configurations: known bus types with their paths, at most one use of
  the session bus in all, rules with a known action and known request types, ignore rules for writes only, and
  patterns that \<open>path.Match\<close> will not reject for any text, although each is tried on one word only.
\<close>

theorem Validate_decides_wellformed: "Validate cfg = None \<longleftrightarrow> configOK cfg"
  by (rule Validate_decides)

text \<open>
  A second pass adds nothing; a program started without a configuration file is well-configured unless
  the runtime directory is not known.
\<close>

lemma or_idem [simp]: "orStr (orStr x d) d = orStr x d" "orInt (orInt n k) k = orInt n k" "orPtr (orPtr p b) b = orPtr p b"
  by (auto simp: orStr_def orInt_def orPtr_def)

lemma WithDefaults_idem: "WithDefaults rd (WithDefaults rd c) = WithDefaults rd c"
  by (simp add: WithDefaults_def Let_def)

lemma WithDefaults_zero:
  "Validate (WithDefaults rd zeroConfig) = (if rd = [] then Some (DownstreamNeedsPath 0 ''sockets'') else None)"
  by (simp add: Validate_def WithDefaults_def zeroConfig_def zeroServe_def defaultSocketsDir_def Let_def)

text \<open>The flag wins over the file, the file over the default, and the settings carry no undefined value.\<close>

lemma serveSettings_config:
  assumes "serveSettings rd fl cfg = Inr st"
  shows "ss_config st = WithDefaults rd cfg \<and> Validate (ss_config st) = None"
  using assms unfolding serveSettings_def Let_def by (cases "Validate (WithDefaults rd cfg)") auto

text \<open>
  C21: In a daemon that has started, no rule of the configuration can swallow anything but a write: a request is
  answered as ignored (success to the client, nothing done) only if it is a write request.  The check at start-up and the
  rule engine guarantee this together.
\<close>

theorem only_writes_are_ignored:
  assumes "serveSettings rd fl cfg = Inr st" and "mg_trustRules m = mg_trustRules (NewManager (managerConfig st))"
    and "fst (RequireApproval_begin now uid client items session t sa s m) = Some (b, Some ErrIgnored)"
  shows "t = RequestTypeWrite"
proof -
  have "Validate (ss_config st) = None" using serveSettings_config[OF assms(1)] by blast
  then have ok: "list_all ruleOK (sv_Rules (cf_Serve (ss_config st)))"
    by (auto simp: Validate_def Let_def validateRules_iff split: if_splits sum.splits)
  obtain r where r: "List.find (\<lambda>r. matchTrustRule r s items t sa) (mg_trustRules m) = Some r" "trustOutcome r = (b, Some ErrIgnored)"
    using assms(3) unfolding RequireApproval_begin_policy approvalPolicy_def by (auto split: if_splits)
  from r(1) have m: "r \<in> set (mg_trustRules m)" "matchTrustRule r s items t sa" by (auto simp: find_Some_iff)
  have "ruleOK r" using ok m(1) assms(2) by (simp add: list_all_iff NewManager_def managerConfig_def Let_def)
  moreover have "tr_Action r = ''ignore''" using r(2) by (simp add: trustOutcome_def split: if_splits)
  ultimately have "tr_RequestTypes r \<noteq> []" "set (tr_RequestTypes r) \<subseteq> {''write''}" by (auto simp: ruleOK_def)
  then show ?thesis using m(2) by (auto simp: matchTrustRule_def split: if_splits)
qed

definition exIgnoreConfig :: Config where
  "exIgnoreConfig = zeroConfig\<lparr>cf_Serve := zeroServe\<lparr>sv_Rules := [\<lparr>tr_Name = ''probe'', tr_Action = ''ignore'',
     tr_RequestTypes = [''write''], tr_Process = None, tr_Secret = Some \<lparr>sm_Collection = [], sm_Label = ''Chrome*'', sm_Attributes = []\<rparr>,
     tr_SearchAttributes = []\<rparr>]\<rparr>\<rparr>"

definition exFlags :: serve_flags where
  "exFlags = \<lparr>fl_stateDir = None, fl_listen = None, fl_logLevel = None, fl_logFormat = None, fl_timeout = Some 1000,
     fl_historyLimit = None, fl_notifications = None\<rparr>"

definition exSettings :: serve_settings where
  "exSettings = (case serveSettings ''/run/user/1000'' exFlags exIgnoreConfig of Inr st \<Rightarrow> st)"

theorem only_writes_are_ignored_witness:
  "fst (RequireApproval_begin 0 ''r1'' ''local'' [exItem\<lparr>ii_Label := ''Chrome Safe Storage''\<rparr>] [] ''write'' [] exSender
     (NewManager (managerConfig exSettings))) = Some (True, Some ErrIgnored) \<and> ''write'' = RequestTypeWrite"
proof -
  have 1: "serveSettings ''/run/user/1000'' exFlags exIgnoreConfig = Inr exSettings" by code_simp
  have 2: "fst (RequireApproval_begin 0 ''r1'' ''local'' [exItem\<lparr>ii_Label := ''Chrome Safe Storage''\<rparr>] [] ''write'' [] exSender
     (NewManager (managerConfig exSettings))) = Some (True, Some ErrIgnored)" by code_simp
  show ?thesis using only_writes_are_ignored[OF 1 refl 2] 2 by blast
qed

text \<open>A negative history limit passes the check, and the first decision that is recorded panics.\<close>

theorem negative_history_limit_panics:
  "Validate (WithDefaults ''/run/user/1000'' (zeroConfig\<lparr>cf_Serve := zeroServe\<lparr>sv_HistoryLimit := -1\<rparr>\<rparr>)) = None \<and>
   mg_panic (AddHistoryEntry e (NewManager (managerConfig \<lparr>ss_stateDir = [], ss_listen = [], ss_logLevel = [], ss_logFormat = [],
     ss_timeout = 1, ss_historyLimit = -1, ss_notifications = True, ss_config = zeroConfig\<rparr>)))"
  by (simp add: Validate_def WithDefaults_def zeroConfig_def zeroServe_def defaultSocketsDir_def Let_def orInt_def
      AddHistoryEntry_def NewManager_def managerConfig_def goslice_def)

end
