(* ===== verification/Service_Types.thy ===== *)
theory Service_Types
  imports Go_Outcome Config Procutil Proxy_Watcher Git_Payload
begin

text \<open>
  What the installer (\<^verbatim>\<open>internal/service\<close>) works on: files, the commands it runs, and the current owner of the
  Secret Service name.

  The world is the map of files and the sequence of actions attempted so far.  Every action may fail: the
  parameter \<open>sy_fail\<close> says which, depending on what happened before.  A failing file action changes
  nothing.  Directories are not modelled beyond the attempt to create them, and a file that exists can be read.
  \<open>busctl\<close> and \<open>systemctl is-active\<close> answer through parameters.
\<close>

datatype act =
    AMkdir string | AWrite string string | ARename string string | ARemove string | ARmdir string
  | ARun "string list" | AReload | APoke | ASignal int

type_synonym files = "string \<rightharpoonup> string"

record World =
  w_files :: files
  w_log :: "act list"

record sys_env =
  sy_fail :: "act list \<Rightarrow> act \<Rightarrow> go_error option"
  sy_lookPath :: "string \<Rightarrow> go_error + string"
  sy_busctl :: "act list \<Rightarrow> go_error + string"
  sy_readlink :: "int \<Rightarrow> string option"
  sy_isActive :: "act list \<Rightarrow> string \<Rightarrow> string"
  sy_runtimeDir :: string
  sy_configHome :: string
  sy_dataHome :: string
  sy_desktop :: string
  sy_home :: "go_error + string"
  sy_self :: "go_error + string"
  sy_decode :: "string \<Rightarrow> go_error + Config"
  sy_encode :: "Config \<Rightarrow> go_error + string"

text \<open>The effect of an action on the files.\<close>

fun effect :: "act \<Rightarrow> files \<Rightarrow> files" where
  "effect (AWrite p c) f = f(p \<mapsto> c)"
| "effect (ARename p q) f = f(p := None, q := f p)"
| "effect (ARemove p) f = f(p := None)"
| "effect _ f = f"

definition perform :: "sys_env \<Rightarrow> act \<Rightarrow> World \<Rightarrow> go_error option \<times> World" where
  "perform env a w =
     (case sy_fail env (w_log w) a of
        Some e \<Rightarrow> (Some e, w\<lparr>w_log := w_log w @ [a]\<rparr>)
      | None \<Rightarrow> (None, w\<lparr>w_files := effect a (w_files w), w_log := w_log w @ [a]\<rparr>))"

type_synonym outcome = "go_error option \<times> World"

definition systemctl :: "sys_env \<Rightarrow> string list \<Rightarrow> World \<Rightarrow> outcome" where
  "systemctl env args w = perform env (ARun args) w"

subsection \<open>Places\<close>

definition xdgDir :: "string \<Rightarrow> string \<Rightarrow> go_error + string \<Rightarrow> string \<Rightarrow> go_error + string" where
  "xdgDir var fallback home sub =
     map_sum (\<lambda>e. ErrText (''get home dir: '' @ error_text e)) (\<lambda>d. d @ sub)
       (if var = [] then map_sum id (\<lambda>h. h @ fallback) home else Inr var)"

definition unitDir :: "sys_env \<Rightarrow> go_error + string" where
  "unitDir env = xdgDir (sy_configHome env) ''/.config'' (sy_home env) ''/systemd/user''"

definition dbusServiceDir :: "sys_env \<Rightarrow> go_error + string" where
  "dbusServiceDir env = xdgDir (sy_dataHome env) ''/.local/share'' (sy_home env) ''/dbus-1/services''"

definition autostartDir :: "sys_env \<Rightarrow> go_error + string" where
  "autostartDir env = xdgDir (sy_configHome env) ''/.config'' (sy_home env) ''/autostart''"

definition dbusBackupSuffix :: string where "dbusBackupSuffix = ''.pre-dispatcher''"
definition dbusServiceFile :: string where "dbusServiceFile = ''/org.freedesktop.secrets.service''"
definition gkServiceUnit :: string where "gkServiceUnit = ''gnome-keyring-daemon.service''"
definition gkDropIn :: string where "gkDropIn = ''/gnome-keyring-daemon.service.d/50-secrets-dispatcher.conf''"
definition gkAutostart :: string where "gkAutostart = ''/gnome-keyring-secrets.desktop''"

lemmas path_consts = dbusBackupSuffix_def dbusServiceFile_def gkServiceUnit_def gkDropIn_def gkAutostart_def

lemma dbusBackupSuffix_nonempty [simp]: "dbusBackupSuffix \<noteq> []"
  by (simp add: dbusBackupSuffix_def)

abbreviation (input) unitFileName :: string where "unitFileName \<equiv> ''secrets-dispatcher.service''"

definition allUnitNames :: "string list" where
  "allUnitNames = [''secrets-dispatcher-bus.socket'', ''secrets-dispatcher-bus.service'', ''secrets-dispatcher-backend.service'', unitFileName]"

text \<open>\<open>filepath.Dir\<close> of a path with a slash.\<close>

definition dirOf :: "string \<Rightarrow> string" where
  "dirOf path = rev (drop 1 (dropWhile (\<lambda>c. c \<noteq> CHR ''/'') (rev path)))"

subsection \<open>File contents\<close>

definition unitTemplate :: "string \<Rightarrow> string" where
  "unitTemplate execStart = unlines
     [''[Unit]'', ''Description=Secrets Dispatcher - D-Bus Secret Service approval proxy'',
      ''Documentation=https://github.com/nikicat/secrets-dispatcher'', [], ''[Service]'', ''Type=simple'',
      ''ExecStart='' @ execStart, ''Restart=on-failure'', ''RestartSec=5'', [], ''[Install]'', ''WantedBy=graphical-session.target'']"

definition busSocketTemplate :: string where
  "busSocketTemplate = unlines
     [''[Unit]'', ''Description=Secrets Dispatcher - Private D-Bus for backend'', [], ''[Socket]'',
      ''ListenStream=%t/secrets-dispatcher/backend-bus.sock'', ''DirectoryMode=0700'', [], ''[Install]'', ''WantedBy=sockets.target'']"

definition busServiceTemplate :: "string \<Rightarrow> string" where
  "busServiceTemplate dbusDaemon = unlines
     [''[Unit]'', ''Description=Secrets Dispatcher - Private D-Bus daemon'', [], ''[Service]'', ''Type=simple'',
      ''ExecStart='' @ dbusDaemon @ '' --session --nofork --nopidfile --address=systemd:'']"

definition backendServiceTemplate :: "string \<Rightarrow> string" where
  "backendServiceTemplate backendExec = unlines
     [''[Unit]'', ''Description=Secrets Dispatcher - Secret Service backend'', ''Requires=secrets-dispatcher-bus.socket'',
      ''After=secrets-dispatcher-bus.socket'', [], ''[Service]'', ''Type=simple'', ''ExecStart='' @ backendExec,
      ''Environment=DBUS_SESSION_BUS_ADDRESS=unix:path=%t/secrets-dispatcher/backend-bus.sock'']"

definition localProxyTemplate :: "string \<Rightarrow> string" where
  "localProxyTemplate execStart = unlines
     [''[Unit]'', ''Description=Secrets Dispatcher - D-Bus Secret Service approval proxy'',
      ''Documentation=https://github.com/nikicat/secrets-dispatcher'', ''Requires=secrets-dispatcher-backend.service'',
      ''After=secrets-dispatcher-backend.service'', [], ''[Service]'', ''Type=simple'', ''ExecStart='' @ execStart,
      ''Restart=on-failure'', ''RestartSec=5'', [], ''[Install]'', ''WantedBy=graphical-session.target'']"

definition dbusActivationMask :: string where
  "dbusActivationMask = unlines [''[D-BUS Service]'', ''Name=org.freedesktop.secrets'', ''Exec=/bin/false'']"

definition gkManagedComment :: string where
  "gkManagedComment = ''# Managed by secrets-dispatcher; removed by `secrets-dispatcher service uninstall`.''"

definition gkDropInTemplate :: "string \<Rightarrow> string" where
  "gkDropInTemplate gkDaemon = unlines
     [gkManagedComment, ''# Demotes gnome-keyring to non-secrets components so secrets-dispatcher can'',
      ''# own org.freedesktop.secrets while pkcs11 and PAM unlock keep working.'', ''[Service]'', ''ExecStart='',
      ''ExecStart='' @ gkDaemon @ '' --foreground --components=pkcs11 --control-directory=%t/keyring'']"

definition gkAutostartShadow :: string where
  "gkAutostartShadow = unlines
     [gkManagedComment, ''# Hides the stock /etc/xdg/autostart gnome-keyring secrets kicker, which'',
      ''# would otherwise respawn a secrets daemon into a fresh session.'', ''[Desktop Entry]'', ''Type=Application'',
      ''Name=Secret Storage Service'', ''Hidden=true'']"

subsection \<open>The current provider\<close>

datatype ProviderKind = ProviderGnomeKeyring | ProviderGopass | ProviderKWallet | ProviderDispatcher | ProviderNone | ProviderUnknown

fun kindText :: "ProviderKind \<Rightarrow> string" where
  "kindText ProviderGnomeKeyring = ''gnome-keyring''"
| "kindText ProviderGopass = ''gopass''"
| "kindText ProviderKWallet = ''kwallet''"
| "kindText ProviderDispatcher = ''secrets-dispatcher''"
| "kindText ProviderNone = ''none''"
| "kindText ProviderUnknown = ''unknown''"

record Provider =
  pv_Kind :: ProviderKind
  pv_PID :: int
  pv_Exe :: string
  pv_Desktop :: string

definition exeToKind :: "(string, ProviderKind) gomap" where
  "exeToKind = [(''gnome-keyring-daemon'', ProviderGnomeKeyring), (''gopass-secret'', ProviderGopass),
     (''kwalletd5'', ProviderKWallet), (''kwalletd6'', ProviderKWallet), (''secrets-dispatcher'', ProviderDispatcher)]"

text \<open>\<open>fmt.Sscanf(out, "u %d", &pid)\<close>, and the test for a positive number.\<close>

definition ownerPID :: "go_error + string \<Rightarrow> int option" where
  "ownerPID out =
     (case out of
        Inl _ \<Rightarrow> None
      | Inr s \<Rightarrow> if HasPrefix s ''u ''
                 then (case sscanf_d (drop 2 s) of Some pid \<Rightarrow> if pid \<le> 0 then None else Some pid | None \<Rightarrow> None)
                 else None)"

definition DetectProvider :: "sys_env \<Rightarrow> World \<Rightarrow> Provider" where
  "DetectProvider env w =
     (let p = \<lparr>pv_Kind = ProviderNone, pv_PID = 0, pv_Exe = [], pv_Desktop = sy_desktop env\<rparr> in
      case ownerPID (sy_busctl env (w_log w)) of
        None \<Rightarrow> p
      | Some pid \<Rightarrow>
          (let p = p\<lparr>pv_PID := pid, pv_Kind := ProviderUnknown\<rparr> in
           case sy_readlink env pid of
             None \<Rightarrow> p
           | Some exe \<Rightarrow>
               (let p = p\<lparr>pv_Exe := exe\<rparr> in
                case map_of exeToKind (Base exe) of Some kind \<Rightarrow> p\<lparr>pv_Kind := kind\<rparr> | None \<Rightarrow> p)))"

definition Provider_String :: "Provider \<Rightarrow> string" where
  "Provider_String p =
     (case pv_Kind p of
        ProviderNone \<Rightarrow> ''none (org.freedesktop.secrets is unowned)''
      | ProviderUnknown \<Rightarrow>
          (if pv_Exe p \<noteq> [] then ''unknown ('' @ pv_Exe p @ '', pid '' @ dec (nat (pv_PID p)) @ '')''
           else ''unknown (pid '' @ dec (nat (pv_PID p)) @ '')'')
      | k \<Rightarrow> kindText k @ '' (pid '' @ dec (nat (pv_PID p)) @ '')'')"

definition resolveBackendExec :: "sys_env \<Rightarrow> string \<Rightarrow> Provider \<Rightarrow> go_error + string" where
  "resolveBackendExec env value provider =
     (let value = (if value = [] then (if pv_Kind provider = ProviderGnomeKeyring then ''gnome-keyring'' else ''gopass'') else value) in
      if ContainsByte value (CHR ''/'') then Inr value
      else if value = ''gopass'' then
        map_sum (\<lambda>e. ErrText (''find gopass-secret: '' @ error_text e))
          (\<lambda>path. path @ '' service --bus-address unix:path=%t/secrets-dispatcher/backend-bus.sock'') (sy_lookPath env ''gopass-secret'')
      else if value = ''gnome-keyring'' then
        map_sum (\<lambda>e. ErrText (''find gnome-keyring-daemon: '' @ error_text e))
          (\<lambda>path. path @ '' --foreground --components=secrets --control-directory=%t/secrets-dispatcher/keyring'')
          (sy_lookPath env ''gnome-keyring-daemon'')
      else Inl (ErrText (''unknown backend '' @ [CHR 0x22] @ value @ [CHR 0x22] @ '' (use a path, or one of: gopass, gnome-keyring)'')))"

end
