(* ===== verification/Service_Install.thy ===== *)
theory Service_Install
  imports Service_Types
begin

text \<open>
  Installing, removing, previewing and inspecting the systemd user service: \<^verbatim>\<open>install.go\<close>, \<^verbatim>\<open>gnomekeyring.go\<close>,
  \<^verbatim>\<open>plan.go\<close>, \<^verbatim>\<open>status.go\<close> and \<^verbatim>\<open>try.go\<close> of \<^verbatim>\<open>internal/service\<close>.  Printed narration is left out.
\<close>

subsection \<open>The D-Bus activation mask\<close>

definition maskDBusActivation :: "sys_env \<Rightarrow> World \<Rightarrow> outcome" where
  "maskDBusActivation env w =
     (case dbusServiceDir env of
        Inl e \<Rightarrow> (Some e, w)
      | Inr dir \<Rightarrow>
          (let path = dir @ dbusServiceFile; backupPath = path @ dbusBackupSuffix in
           andThen
             (case w_files w path of
                Some existing \<Rightarrow>
                  (if existing \<noteq> dbusActivationMask
                   then wrapping ''backup org.freedesktop.secrets.service'' (perform env (ARename path backupPath) w) else (None, w))
              | None \<Rightarrow> (None, w))
          (\<lambda>w. andThen (wrapping ''create dbus service dir'' (perform env (AMkdir dir) w))
          (\<lambda>w. andThen (wrapping ''write dbus mask'' (perform env (AWrite path dbusActivationMask) w))
          (\<lambda>w. (None, ignoring (perform env AReload w)))))))"

definition unmaskDBusActivation :: "sys_env \<Rightarrow> World \<Rightarrow> outcome" where
  "unmaskDBusActivation env w =
     (case dbusServiceDir env of
        Inl e \<Rightarrow> (Some e, w)
      | Inr dir \<Rightarrow>
          (let path = dir @ dbusServiceFile; backupPath = path @ dbusBackupSuffix in
           case w_files w path of
             None \<Rightarrow> (None, w)
           | Some existing \<Rightarrow>
               if existing \<noteq> dbusActivationMask then (None, w)
               else andThen
                 (if w_files w backupPath \<noteq> None
                  then wrapping ''restore org.freedesktop.secrets.service'' (perform env (ARename backupPath path) w)
                  else wrapping ''remove dbus mask'' (perform env (ARemove path) w))
                 (\<lambda>w. (None, ignoring (perform env AReload w)))))"

subsection \<open>Demoting gnome-keyring\<close>

definition demoteGnomeKeyring :: "sys_env \<Rightarrow> World \<Rightarrow> outcome" where
  "demoteGnomeKeyring env w =
     (case (sy_lookPath env ''gnome-keyring-daemon'', unitDir env) of
        (Inl e, _) \<Rightarrow> (Some (ErrText (''find gnome-keyring-daemon: '' @ error_text e)), w)
      | (_, Inl e) \<Rightarrow> (Some e, w)
      | (Inr gkDaemon, Inr unitsDir) \<Rightarrow>
          (let dropIn = unitsDir @ gkDropIn in
           andThen (wrapping ''create drop-in dir'' (perform env (AMkdir (unitsDir @ ''/gnome-keyring-daemon.service.d'')) w))
          (\<lambda>w. andThen (wrapping ''write drop-in'' (perform env (AWrite dropIn (gkDropInTemplate gkDaemon)) w))
          (\<lambda>w. case autostartDir env of
             Inl e \<Rightarrow> (Some e, w)
           | Inr asDir \<Rightarrow>
               (let shadow = asDir @ gkAutostart in
                andThen (wrapping ''create autostart dir'' (perform env (AMkdir asDir) w))
               (\<lambda>w. andThen
                 (case w_files w shadow of
                    Some existing \<Rightarrow>
                      (if existing \<noteq> gkAutostartShadow
                       then wrapping ''backup gnome-keyring-secrets.desktop'' (perform env (ARename shadow (shadow @ dbusBackupSuffix)) w)
                       else (None, w))
                  | None \<Rightarrow> (None, w))
               (\<lambda>w. andThen (wrapping ''write autostart shadow'' (perform env (AWrite shadow gkAutostartShadow) w))
               (\<lambda>w. andThen (systemctl env [''daemon-reload''] w)
               (\<lambda>w. (None, ignoring (systemctl env [''try-restart'', gkServiceUnit] w)))))))))))"

definition restoreGnomeKeyring :: "sys_env \<Rightarrow> World \<Rightarrow> outcome" where
  "restoreGnomeKeyring env w =
     (case unitDir env of
        Inl e \<Rightarrow> (Some e, w)
      | Inr unitsDir \<Rightarrow>
          (let dropIn = unitsDir @ gkDropIn; hadDropIn = (w_files w dropIn \<noteq> None) in
           andThen
             (if hadDropIn
              then andThen (wrapping ''remove drop-in'' (perform env (ARemove dropIn) w))
                     (\<lambda>w. (None, ignoring (perform env (ARmdir (unitsDir @ ''/gnome-keyring-daemon.service.d'')) w)))
              else (None, w))
          (\<lambda>w. case autostartDir env of
             Inl e \<Rightarrow> (Some e, w)
           | Inr asDir \<Rightarrow>
               (let shadow = asDir @ gkAutostart; ours = (w_files w shadow = Some gkAutostartShadow) in
                andThen
                  (if ours
                   then andThen (wrapping ''remove autostart shadow'' (perform env (ARemove shadow) w))
                     (\<lambda>w. if w_files w (shadow @ dbusBackupSuffix) \<noteq> None
                          then wrapping ''restore gnome-keyring-secrets.desktop'' (perform env (ARename (shadow @ dbusBackupSuffix) shadow) w)
                          else (None, w))
                   else (None, w))
               (\<lambda>w. if \<not> (hadDropIn \<or> ours) then (None, w)
                    else andThen (systemctl env [''daemon-reload''] w)
                      (\<lambda>w. (None, ignoring (systemctl env [''try-restart'', gkServiceUnit] w))))))))"

definition stopDBusActivatedService :: "sys_env \<Rightarrow> World \<Rightarrow> World" where
  "stopDBusActivatedService env w =
     (case ownerPID (sy_busctl env (w_log w)) of None \<Rightarrow> w | Some pid \<Rightarrow> ignoring (perform env (ASignal pid) w))"

subsection \<open>Install\<close>

record Options =
  op_ConfigPath :: string
  op_Start :: bool
  op_Mode :: string
  op_BackendPath :: string

record installInputs =
  in_mode :: string
  in_runtimeDir :: string
  in_configPath :: string
  in_execStart :: string

definition resolveInstallInputs :: "sys_env \<Rightarrow> Options \<Rightarrow> go_error + installInputs" where
  "resolveInstallInputs env opts =
     (let mode = (if op_Mode opts = [] then ''remote'' else op_Mode opts) in
      if mode \<noteq> ''remote'' \<and> mode \<noteq> ''local'' \<and> mode \<noteq> ''full'' then
        Inl (ErrText (''unknown mode '' @ [CHR 0x22] @ mode @ [CHR 0x22] @ '' (must be remote, local, or full)''))
      else if sy_runtimeDir env = [] then Inl (ErrText ''XDG_RUNTIME_DIR must be set'')
      else case sy_self env of
        Inl e \<Rightarrow> Inl e
      | Inr self \<Rightarrow>
          (let configPath = (if op_ConfigPath opts = [] then DefaultPath (sy_configHome env) (sy_home env) else op_ConfigPath opts) in
           if configPath = [] then Inl (ErrText ''cannot determine config path (is HOME set?)'')
           else Inr \<lparr>in_mode = mode, in_runtimeDir = sy_runtimeDir env, in_configPath = configPath,
                     in_execStart = self @ '' serve --config '' @ configPath\<rparr>))"

definition buildUnits :: "sys_env \<Rightarrow> string \<Rightarrow> string \<Rightarrow> Provider \<Rightarrow> string \<Rightarrow> go_error + (string, string) gomap" where
  "buildUnits env mode execStart provider backendPath =
     (if mode = ''remote'' then Inr [(unitFileName, unitTemplate execStart)]
      else case (sy_lookPath env ''dbus-daemon'', resolveBackendExec env backendPath provider) of
        (Inl e, _) \<Rightarrow> Inl (ErrText (''find dbus-daemon: '' @ error_text e))
      | (_, Inl e) \<Rightarrow> Inl e
      | (Inr dbusDaemon, Inr backendExec) \<Rightarrow>
          Inr [(''secrets-dispatcher-bus.socket'', busSocketTemplate),
               (''secrets-dispatcher-bus.service'', busServiceTemplate dbusDaemon),
               (''secrets-dispatcher-backend.service'', backendServiceTemplate backendExec),
               (unitFileName, localProxyTemplate execStart)])"

definition topologyFor :: "string \<Rightarrow> string \<Rightarrow> Config \<Rightarrow> Config" where
  "topologyFor runtimeDir mode cfg =
     (let busSocket = runtimeDir @ ''/secrets-dispatcher/backend-bus.sock'';
          socketsDir = runtimeDir @ ''/secrets-dispatcher/sockets'';
          set = (\<lambda>up down. cfg\<lparr>cf_Serve := (cf_Serve cfg)\<lparr>sv_Upstream := up, sv_Downstream := down\<rparr>\<rparr>)
      in if mode = ''remote'' then set \<lparr>bc_Type = ''session_bus'', bc_Path = []\<rparr> [\<lparr>bc_Type = ''sockets'', bc_Path = socketsDir\<rparr>]
         else if mode = ''local'' then set \<lparr>bc_Type = ''socket'', bc_Path = busSocket\<rparr> [\<lparr>bc_Type = ''session_bus'', bc_Path = []\<rparr>]
         else if mode = ''full'' then set \<lparr>bc_Type = ''socket'', bc_Path = busSocket\<rparr>
           [\<lparr>bc_Type = ''session_bus'', bc_Path = []\<rparr>, \<lparr>bc_Type = ''sockets'', bc_Path = socketsDir\<rparr>]
         else cfg)"

definition fileAt :: "sys_env \<Rightarrow> World \<Rightarrow> string \<Rightarrow> config_file" where
  "fileAt env w path = (case w_files w path of None \<Rightarrow> NoFile | Some text \<Rightarrow> FileData (sy_decode env text))"

definition updateTopologyConfig :: "sys_env \<Rightarrow> string \<Rightarrow> string \<Rightarrow> string \<Rightarrow> World \<Rightarrow> outcome" where
  "updateTopologyConfig env configPath runtimeDir mode w =
     (case Load configPath (fileAt env w configPath) of
        Inl e \<Rightarrow> (Some (ErrText (''load config: '' @ error_text e)), w)
      | Inr cfg \<Rightarrow>
          (case sy_encode env (topologyFor runtimeDir mode cfg) of
             Inl e \<Rightarrow> (Some (ErrText (''marshal config: '' @ error_text e)), w)
           | Inr text \<Rightarrow>
               andThen (wrapping ''create config dir'' (perform env (AMkdir (dirOf configPath)) w))
                 (\<lambda>w. perform env (AWrite configPath text) w)))"

text \<open>The loop over the unit files: write the needed ones, stop and remove the others.\<close>

fun installUnits :: "sys_env \<Rightarrow> string \<Rightarrow> (string, string) gomap \<Rightarrow> string list \<Rightarrow> World \<Rightarrow> outcome" where
  "installUnits env dir needed [] w = (None, w)"
| "installUnits env dir needed (name # names) w =
     (let path = dir @ ''/'' @ name in
      andThen
        (case map_of needed name of
           Some content \<Rightarrow> wrapping (''write '' @ name) (perform env (AWrite path content) w)
         | None \<Rightarrow>
             if w_files w path \<noteq> None
             then (let w = ignoring (systemctl env [''stop'', name] w); w = ignoring (systemctl env [''disable'', name] w)
                   in wrapping (''remove stale '' @ name) (perform env (ARemove path) w))
             else (None, w))
        (installUnits env dir needed names))"

definition enableUnits :: "sys_env \<Rightarrow> bool \<Rightarrow> string \<Rightarrow> World \<Rightarrow> outcome" where
  "enableUnits env start mode w =
     andThen (systemctl env [''daemon-reload''] w)
    (\<lambda>w. andThen (if mode \<noteq> ''remote'' then systemctl env [''enable'', ''secrets-dispatcher-bus.socket''] w else (None, w))
    (\<lambda>w. andThen (systemctl env [''enable'', unitFileName] w)
    (\<lambda>w. if start then
           andThen (if mode \<noteq> ''remote'' then systemctl env [''start'', ''secrets-dispatcher-bus.socket''] w else (None, w))
             (\<lambda>w. systemctl env [''start'', unitFileName] w)
         else (None, w))))"

definition takeOver :: "sys_env \<Rightarrow> string \<Rightarrow> Provider \<Rightarrow> World \<Rightarrow> outcome" where
  "takeOver env mode provider w =
     (if mode = ''remote'' then andThen (unmaskDBusActivation env w) (restoreGnomeKeyring env)
      else andThen (maskDBusActivation env w)
        (\<lambda>w. andThen (if pv_Kind provider = ProviderGnomeKeyring then demoteGnomeKeyring env w else (None, w))
        (\<lambda>w. (None, stopDBusActivatedService env w))))"

definition Install :: "sys_env \<Rightarrow> Options \<Rightarrow> World \<Rightarrow> outcome" where
  "Install env opts w =
     (case resolveInstallInputs env opts of
        Inl e \<Rightarrow> (Some e, w)
      | Inr inp \<Rightarrow>
          andThen (updateTopologyConfig env (in_configPath inp) (in_runtimeDir inp) (in_mode inp) w)
         (\<lambda>w. let provider = (if in_mode inp \<noteq> ''remote'' then DetectProvider env w
                              else \<lparr>pv_Kind = ProviderNone, pv_PID = 0, pv_Exe = [], pv_Desktop = []\<rparr>)
              in andThen (takeOver env (in_mode inp) provider w)
             (\<lambda>w. case (buildUnits env (in_mode inp) (in_execStart inp) provider (op_BackendPath opts), unitDir env) of
                    (Inl e, _) \<Rightarrow> (Some e, w)
                  | (_, Inl e) \<Rightarrow> (Some e, w)
                  | (Inr needed, Inr dir) \<Rightarrow>
                      andThen (wrapping ''create unit dir'' (perform env (AMkdir dir) w))
                     (\<lambda>w. andThen (installUnits env dir needed allUnitNames w)
                     (\<lambda>w. enableUnits env (op_Start opts) (in_mode inp) w)))))"

subsection \<open>Uninstall\<close>

fun stopUnits :: "sys_env \<Rightarrow> string list \<Rightarrow> World \<Rightarrow> World" where
  "stopUnits env [] w = w"
| "stopUnits env (name # names) w =
     stopUnits env names (ignoring (systemctl env [''disable'', name] (ignoring (systemctl env [''stop'', name] w))))"

fun removeUnits :: "sys_env \<Rightarrow> string \<Rightarrow> string list \<Rightarrow> World \<Rightarrow> outcome" where
  "removeUnits env dir [] w = (None, w)"
| "removeUnits env dir (name # names) w =
     (let path = dir @ ''/'' @ name in
      andThen (if w_files w path = None then (None, w) else wrapping (''remove '' @ name) (perform env (ARemove path) w))
        (removeUnits env dir names))"

definition Uninstall :: "sys_env \<Rightarrow> World \<Rightarrow> outcome" where
  "Uninstall env w =
     (let w = stopUnits env allUnitNames w in
      case unitDir env of
        Inl e \<Rightarrow> (Some e, w)
      | Inr dir \<Rightarrow>
          andThen (removeUnits env dir allUnitNames w)
         (\<lambda>w. andThen (unmaskDBusActivation env w)
         (\<lambda>w. andThen (restoreGnomeKeyring env w)
         (\<lambda>w. systemctl env [''daemon-reload''] w))))"

end
