(* ===== verification/Service_Plan.thy ===== *)
theory Service_Plan
  imports Service_Install
begin

text \<open>
  The dry run (\<^verbatim>\<open>plan.go\<close>), the health report (\<^verbatim>\<open>status.go\<close>) and the reversible trial (\<^verbatim>\<open>try.go\<close>).
\<close>

subsection \<open>Plan\<close>

record Change =
  ch_Op :: string
  ch_Target :: string
  ch_Note :: string

definition change :: "string \<Rightarrow> string \<Rightarrow> string \<Rightarrow> Change" where
  "change op target note = \<lparr>ch_Op = op, ch_Target = target, ch_Note = note\<rparr>"

fun execStart_loop :: "string list \<Rightarrow> string" where
  "execStart_loop [] = ''?''"
| "execStart_loop (l # ls) = (if HasPrefix l ''ExecStart='' then TrimSpace (drop 10 l) else execStart_loop ls)"

definition execStartOf :: "string \<Rightarrow> string" where
  "execStartOf content = execStart_loop (Split content LF)"

definition planBackup :: "files \<Rightarrow> string \<Rightarrow> string \<Rightarrow> Change list" where
  "planBackup f path ours =
     (case f path of
        Some existing \<Rightarrow> if existing \<noteq> ours then [change ''backup'' path (''-> '' @ path @ dbusBackupSuffix)] else []
      | None \<Rightarrow> [])"

definition planTakeover :: "files \<Rightarrow> Provider \<Rightarrow> string \<Rightarrow> string \<Rightarrow> string \<Rightarrow> Change list" where
  "planTakeover f provider maskPath dropIn shadow =
     planBackup f maskPath dbusActivationMask @
     [change ''write'' maskPath ''mask D-Bus activation of org.freedesktop.secrets''] @
     (if pv_Kind provider = ProviderGnomeKeyring then
        [change ''write'' dropIn ''demote gnome-keyring to pkcs11-only (secrets move to the private backend)''] @
        planBackup f shadow gkAutostartShadow @
        [change ''write'' shadow ''hide the gnome-keyring secrets autostart kicker (Hidden=true)'',
         change ''run'' ''systemctl --user daemon-reload'' [],
         change ''run'' (''systemctl --user try-restart '' @ gkServiceUnit) ''restart without the secrets component'']
      else []) @
     (if pv_PID provider > 0 \<and> pv_Kind provider \<noteq> ProviderDispatcher then
        [change ''signal'' (''SIGTERM -> pid '' @ dec (nat (pv_PID provider)) @ '' ('' @ kindText (pv_Kind provider) @ '')'')
           ''current owner of org.freedesktop.secrets'']
      else [])"

definition planRelease :: "files \<Rightarrow> string \<Rightarrow> string \<Rightarrow> string \<Rightarrow> Change list" where
  "planRelease f maskPath dropIn shadow =
     (if f maskPath = Some dbusActivationMask then
        (if f (maskPath @ dbusBackupSuffix) \<noteq> None
         then [change ''restore'' (maskPath @ dbusBackupSuffix) (''-> '' @ maskPath)]
         else [change ''remove'' maskPath ''D-Bus activation mask''])
      else []) @
     (if f dropIn \<noteq> None then [change ''remove'' dropIn ''gnome-keyring demotion drop-in''] else []) @
     (if f shadow = Some gkAutostartShadow then
        [change ''remove'' shadow ''autostart shadow''] @
        (if f (shadow @ dbusBackupSuffix) \<noteq> None then [change ''restore'' (shadow @ dbusBackupSuffix) (''-> '' @ shadow)] else [])
      else []) @
     (if f dropIn \<noteq> None \<or> f shadow = Some gkAutostartShadow then
        [change ''run'' ''systemctl --user daemon-reload'' [],
         change ''run'' (''systemctl --user try-restart '' @ gkServiceUnit) ''restart with all components'']
      else [])"

fun planUnits :: "files \<Rightarrow> string \<Rightarrow> (string, string) gomap \<Rightarrow> string list \<Rightarrow> Change list" where
  "planUnits f unitsDir needed [] = []"
| "planUnits f unitsDir needed (name # names) =
     (let path = unitsDir @ ''/'' @ name in
      (case map_of needed name of
         Some content \<Rightarrow>
           [change ''write'' path (if name = ''secrets-dispatcher-backend.service'' then ''private backend: '' @ execStartOf content else [])]
       | None \<Rightarrow>
           if f path \<noteq> None then [change ''remove'' path ''stale unit from a previous mode (stopped and disabled first)''] else []) @
      planUnits f unitsDir needed names)"

definition planEnable :: "bool \<Rightarrow> string \<Rightarrow> Change list" where
  "planEnable start mode =
     [change ''run'' ''systemctl --user daemon-reload'' []] @
     (if mode \<noteq> ''remote'' then [change ''run'' ''systemctl --user enable secrets-dispatcher-bus.socket'' []] else []) @
     [change ''run'' (''systemctl --user enable '' @ unitFileName) []] @
     (if start then
        (if mode \<noteq> ''remote'' then [change ''run'' ''systemctl --user start secrets-dispatcher-bus.socket'' []] else []) @
        [change ''run'' (''systemctl --user start '' @ unitFileName) []]
      else [])"

definition Plan :: "sys_env \<Rightarrow> Options \<Rightarrow> World \<Rightarrow> go_error + Change list" where
  "Plan env opts w =
     (case resolveInstallInputs env opts of
        Inl e \<Rightarrow> Inl e
      | Inr inp \<Rightarrow>
     (case (unitDir env, dbusServiceDir env, autostartDir env) of
        (Inl e, _, _) \<Rightarrow> Inl e
      | (_, Inl e, _) \<Rightarrow> Inl e
      | (_, _, Inl e) \<Rightarrow> Inl e
      | (Inr unitsDir, Inr dbusDir, Inr asDir) \<Rightarrow>
          (let maskPath = dbusDir @ dbusServiceFile; dropIn = unitsDir @ gkDropIn; shadow = asDir @ gkAutostart;
               f = w_files w; mode = in_mode inp;
               provider = (if mode \<noteq> ''remote'' then DetectProvider env w
                           else \<lparr>pv_Kind = ProviderNone, pv_PID = 0, pv_Exe = [], pv_Desktop = []\<rparr>);
               changes = [change ''write'' (in_configPath inp) (''set serve topology: '' @ mode @ '' (other settings preserved)'')] @
                 (if mode = ''remote'' then planRelease f maskPath dropIn shadow else planTakeover f provider maskPath dropIn shadow)
           in case buildUnits env mode (in_execStart inp) provider (op_BackendPath opts) of
                Inl e \<Rightarrow> Inl e
              | Inr needed \<Rightarrow> Inr (changes @ planUnits f unitsDir needed allUnitNames @ planEnable (op_Start opts) mode))))"

subsection \<open>Status\<close>

text \<open>The problems \<open>Status\<close> reports; it returns an error when there are any.\<close>

datatype problem =
    Leftover string | NotInFront Provider | NotMasked | InconsistentDemotion bool bool | UnitNotActive string string
  | TakeoverInRemote | MissingUnit | NoOwner

definition unitState :: "sys_env \<Rightarrow> World \<Rightarrow> string \<Rightarrow> string" where
  "unitState env w name = (let s = TrimSpace (sy_isActive env (w_log w) name) in if s \<noteq> [] then s else ''unknown'')"

definition inactiveUnits :: "sys_env \<Rightarrow> World \<Rightarrow> string list \<Rightarrow> string list \<Rightarrow> problem list" where
  "inactiveUnits env w installed names =
     map (\<lambda>n. UnitNotActive n (unitState env w n)) (filter (\<lambda>n. n \<in> set installed \<and> unitState env w n \<noteq> ''active'') names)"

definition Status :: "sys_env \<Rightarrow> World \<Rightarrow> go_error + problem list" where
  "Status env w =
     (case (unitDir env, dbusServiceDir env, autostartDir env) of
        (Inl e, _, _) \<Rightarrow> Inl e
      | (_, Inl e, _) \<Rightarrow> Inl e
      | (_, _, Inl e) \<Rightarrow> Inl e
      | (Inr unitsDir, Inr dbusDir, Inr asDir) \<Rightarrow>
          (let f = w_files w;
               installed = filter (\<lambda>n. f (unitsDir @ ''/'' @ n) \<noteq> None) allUnitNames;
               takeover = (''secrets-dispatcher-bus.socket'' \<in> set installed);
               masked = (f (dbusDir @ dbusServiceFile) = Some dbusActivationMask);
               demoted = (f (unitsDir @ gkDropIn) \<noteq> None);
               shadowed = (f (asDir @ gkAutostart) = Some gkAutostartShadow);
               p = DetectProvider env w
           in Inr
             (if installed = [] then
                (if masked then [Leftover ''D-Bus activation mask''] else []) @
                (if demoted then [Leftover ''gnome-keyring demotion drop-in''] else []) @
                (if shadowed then [Leftover ''gnome-keyring autostart shadow''] else [])
              else if takeover then
                (if pv_Kind p \<noteq> ProviderDispatcher then [NotInFront p] else []) @
                (if \<not> masked then [NotMasked] else []) @
                (if demoted \<noteq> shadowed then [InconsistentDemotion demoted shadowed] else []) @
                inactiveUnits env w installed [''secrets-dispatcher-bus.socket'', ''secrets-dispatcher-backend.service'', unitFileName]
              else
                (if masked \<or> demoted \<or> shadowed then [TakeoverInRemote] else []) @
                (if unitFileName \<notin> set installed then [MissingUnit] else inactiveUnits env w installed [unitFileName]) @
                (if pv_Kind p = ProviderNone then [NoOwner] else []))))"

subsection \<open>Try\<close>

record TryOptions =
  to_ConfigPath :: string
  to_BackendPath :: string

definition trialConfigPath :: "sys_env \<Rightarrow> go_error + string" where
  "trialConfigPath env = (if sy_runtimeDir env = [] then Inl (ErrText ''XDG_RUNTIME_DIR must be set'')
     else Inr (sy_runtimeDir env @ ''/secrets-dispatcher/try-config.yaml''))"

definition restoreTrial :: "sys_env \<Rightarrow> string \<Rightarrow> World \<Rightarrow> outcome" where
  "restoreTrial env trialConfig w =
     (case Uninstall env w of (err, w) \<Rightarrow>
       (case (if w_files w trialConfig = None then (None, w) else wrapping ''remove trial config'' (perform env (ARemove trialConfig) w)) of
          (rmErr, w) \<Rightarrow> (if err = None then rmErr else err, ignoring (perform env APoke w))))"

text \<open>
  A trial that is not a dry run.  \<open>meanwhile\<close> is what happens to the world while the trial runs, until the
  user ends it.
\<close>

definition Try :: "sys_env \<Rightarrow> (World \<Rightarrow> World) \<Rightarrow> TryOptions \<Rightarrow> World \<Rightarrow> outcome" where
  "Try env meanwhile opts w =
     (case unitDir env of
        Inl e \<Rightarrow> (Some e, w)
      | Inr unitsDir \<Rightarrow>
     (case find (\<lambda>n. w_files w (unitsDir @ ''/'' @ n) \<noteq> None) allUnitNames of
        Some name \<Rightarrow> (Some (ErrText (name @ '' is already installed'')), w)
      | None \<Rightarrow>
     (case trialConfigPath env of
        Inl e \<Rightarrow> (Some e, w)
      | Inr trialConfig \<Rightarrow>
          (let baseConfig = (if to_ConfigPath opts = [] then DefaultPath (sy_configHome env) (sy_home env) else to_ConfigPath opts);
               installOpts = \<lparr>op_ConfigPath = trialConfig, op_Start = True, op_Mode = ''local'', op_BackendPath = to_BackendPath opts\<rparr>
           in andThen
             (case w_files w baseConfig of
                None \<Rightarrow> (None, w)
              | Some text \<Rightarrow>
                  andThen (wrapping ''create trial config dir'' (perform env (AMkdir (dirOf trialConfig)) w))
                    (\<lambda>w. wrapping ''write trial config'' (perform env (AWrite trialConfig text) w)))
             (\<lambda>w. case Install env installOpts w of
                (Some e, w) \<Rightarrow> (Some e, ignoring (restoreTrial env trialConfig w))
              | (None, w) \<Rightarrow> restoreTrial env trialConfig (meanwhile w))))))"

end
