(* ===== verification/Service_Props.thy ===== *)
theory Service_Props
  imports Service_Plan
begin

text \<open>
  What the installer promises: removing it gives every file back, the trial leaves no trace, the dry run shows
  what will happen, and the topology it writes is accepted at start-up.
\<close>

subsection \<open>The files the installer touches\<close>

definition ourPaths :: "string \<Rightarrow> string \<Rightarrow> string \<Rightarrow> string list" where
  "ourPaths U D A =
     [D @ dbusServiceFile, D @ dbusServiceFile @ dbusBackupSuffix, U @ gkDropIn, A @ gkAutostart, A @ gkAutostart @ dbusBackupSuffix] @
     map (\<lambda>n. U @ ''/'' @ n) allUnitNames"

lemma ourPaths_distinct: "distinct (ourPaths U D A)"
proof -
  have "distinct (map rev (ourPaths U D A))" by (simp add: ourPaths_def allUnitNames_def path_consts)
  then show ?thesis by (simp add: distinct_map)
qed

lemma path_ne: "rev (a @ s) \<noteq> rev (b @ t) \<Longrightarrow> a @ s \<noteq> b @ t"
  using arg_cong[of "a @ s" "b @ t" rev] by blast

definition fileAct :: "act \<Rightarrow> bool" where
  "fileAct a = (case a of AMkdir _ \<Rightarrow> True | AWrite _ _ \<Rightarrow> True | ARename _ _ \<Rightarrow> True | ARemove _ \<Rightarrow> True | _ \<Rightarrow> False)"

text \<open>No file operation fails; commands may.\<close>

definition fileSafe :: "sys_env \<Rightarrow> bool" where
  "fileSafe env \<longleftrightarrow> (\<forall>log a. fileAct a \<longrightarrow> sy_fail env log a = None)"

definition places :: "sys_env \<Rightarrow> string \<Rightarrow> string \<Rightarrow> string \<Rightarrow> bool" where
  "places env U D A \<longleftrightarrow> unitDir env = Inr U \<and> dbusServiceDir env = Inr D \<and> autostartDir env = Inr A"

lemma perform_file [simp]:
  "fileSafe env \<Longrightarrow> fileAct a \<Longrightarrow> perform env a w = (None, w\<lparr>w_files := effect a (w_files w), w_log := w_log w @ [a]\<rparr>)"
  by (simp add: perform_def fileSafe_def)

lemma perform_command: "\<not> fileAct a \<Longrightarrow> w_files (snd (perform env a w)) = w_files w"
  by (cases a) (auto simp: perform_def fileAct_def split: option.splits)

lemma fileAct_simps [simp]:
  "fileAct (AMkdir p)" "fileAct (AWrite p c)" "fileAct (ARename p q)" "fileAct (ARemove p)"
  "\<not> fileAct (ARun args)" "\<not> fileAct AReload" "\<not> fileAct APoke" "\<not> fileAct (ASignal i)" "\<not> fileAct (ARmdir p)"
  by (simp_all add: fileAct_def)

lemma systemctl_files [simp]: "w_files (snd (systemctl env args w)) = w_files w"
  by (simp add: systemctl_def perform_command)

lemma ignoring_command [simp]: "\<not> fileAct a \<Longrightarrow> w_files (ignoring (perform env a w)) = w_files w"
  by (simp add: ignoring_def perform_command)

lemma ignoring_systemctl [simp]: "w_files (ignoring (systemctl env args w)) = w_files w"
  by (simp add: ignoring_def)

lemma andThen_files:
  assumes "P (w_files (snd r))" and "\<And>w. r = (None, w) \<Longrightarrow> P (w_files w) \<Longrightarrow> P (w_files (snd (f w)))"
  shows "P (w_files (snd (andThen r f)))"
  using assms by (cases r; cases "fst r") (auto simp: andThen_def)

lemma andThen_command:
  assumes "w_files (snd r) = f0" and "\<And>w. w_files w = f0 \<Longrightarrow> w_files (snd (f w)) = f1" and "f0 = f1"
  shows "w_files (snd (andThen r f)) = f1"
  using assms by (cases r; cases "fst r") (auto simp: andThen_def)

lemma andThen_keeps:
  assumes "w_files (snd r) = F" and "\<And>w. w_files (snd (f w)) = w_files w"
  shows "w_files (snd (andThen r f)) = F"
  using assms by (cases r; cases "fst r") (auto simp: andThen_def)

lemma reload_files [simp]:
  "w_files (snd (andThen (systemctl env a w) (\<lambda>w. (None, ignoring (systemctl env b w))))) = w_files w"
  by (auto intro: andThen_command)

subsection \<open>What each operation does to the files\<close>

lemma mask_files:
  assumes "fileSafe env" and "dbusServiceDir env = Inr D"
  defines "mp \<equiv> D @ dbusServiceFile"
  shows "w_files (snd (maskDBusActivation env w)) =
    (let f = w_files w in
     if f mp \<noteq> None \<and> f mp \<noteq> Some dbusActivationMask
     then f(mp @ dbusBackupSuffix := f mp, mp \<mapsto> dbusActivationMask) else f(mp \<mapsto> dbusActivationMask))"
  using assms(1,2) by (auto simp: maskDBusActivation_def mp_def Let_def fun_upd_twist split: option.splits)

lemma unmask_files:
  assumes "fileSafe env" and "dbusServiceDir env = Inr D"
  defines "mp \<equiv> D @ dbusServiceFile"
  shows "fst (unmaskDBusActivation env w) = None \<and> w_files (snd (unmaskDBusActivation env w)) =
    (let f = w_files w in
     if f mp = Some dbusActivationMask
     then (if f (mp @ dbusBackupSuffix) \<noteq> None then f(mp @ dbusBackupSuffix := None, mp := f (mp @ dbusBackupSuffix))
           else f(mp := None))
     else f)"
  using assms(1,2) by (auto simp: unmaskDBusActivation_def mp_def Let_def split: option.splits)

lemma restore_files:
  assumes "fileSafe env" and "unitDir env = Inr U" and "autostartDir env = Inr A"
  defines "dp \<equiv> U @ gkDropIn" and "sp \<equiv> A @ gkAutostart"
  shows "w_files (snd (restoreGnomeKeyring env w)) =
    (let f = (w_files w)(dp := None) in
     if f sp = Some gkAutostartShadow
     then (if f (sp @ dbusBackupSuffix) \<noteq> None then f(sp @ dbusBackupSuffix := None, sp := f (sp @ dbusBackupSuffix)) else f(sp := None))
     else f)"
proof -
  have ne: "sp \<noteq> dp" "sp @ dbusBackupSuffix \<noteq> dp" "sp @ dbusBackupSuffix \<noteq> sp"
    unfolding dp_def sp_def append_assoc by (rule path_ne, simp add: path_consts)+
  define w1 where "w1 = (if w_files w dp \<noteq> None
    then ignoring (perform env (ARmdir (U @ ''/gnome-keyring-daemon.service.d'')) (w\<lparr>w_files := (w_files w)(dp := None), w_log := w_log w @ [ARemove dp]\<rparr>)) else w)"
  have w1: "w_files w1 = (w_files w)(dp := None)" by (auto simp: w1_def fun_upd_idem)
  have r: "restoreGnomeKeyring env w =
      (let ours = (w_files w1 sp = Some gkAutostartShadow) in
       andThen
         (if ours
          then andThen (wrapping ''remove autostart shadow'' (perform env (ARemove sp) w1))
            (\<lambda>w. if w_files w (sp @ dbusBackupSuffix) \<noteq> None
                 then wrapping ''restore gnome-keyring-secrets.desktop'' (perform env (ARename (sp @ dbusBackupSuffix) sp) w)
                 else (None, w))
          else (None, w1))
         (\<lambda>w'. if \<not> (w_files w dp \<noteq> None \<or> ours) then (None, w')
               else andThen (systemctl env [''daemon-reload''] w') (\<lambda>w. (None, ignoring (systemctl env [''try-restart'', gkServiceUnit] w)))))"
    using assms(1-3) by (simp add: restoreGnomeKeyring_def dp_def sp_def w1_def Let_def)
  show ?thesis
    unfolding r Let_def using ne assms(1)
    by (cases "w_files w sp = Some gkAutostartShadow") (auto simp: w1 fun_upd_twist)
qed

lemma demote_files:
  assumes "fileSafe env" and "unitDir env = Inr U" and "autostartDir env = Inr A"
  defines "dp \<equiv> U @ gkDropIn" and "sp \<equiv> A @ gkAutostart"
  shows "w_files (snd (demoteGnomeKeyring env w)) =
    (case sy_lookPath env ''gnome-keyring-daemon'' of
       Inl _ \<Rightarrow> w_files w
     | Inr gk \<Rightarrow>
        (let f = (w_files w)(dp \<mapsto> gkDropInTemplate gk) in
         if f sp \<noteq> None \<and> f sp \<noteq> Some gkAutostartShadow
         then f(sp @ dbusBackupSuffix := f sp, sp \<mapsto> gkAutostartShadow) else f(sp \<mapsto> gkAutostartShadow)))"
proof (cases "sy_lookPath env ''gnome-keyring-daemon''")
  case (Inl e)
  then show ?thesis by (simp add: demoteGnomeKeyring_def)
next
  case (Inr gk)
  show ?thesis
    using assms(1-3) Inr
    by (auto simp: demoteGnomeKeyring_def dp_def sp_def Let_def fun_upd_twist split: option.splits)
qed

lemma stopUnits_files [simp]: "w_files (stopUnits env names w) = w_files w"
  by (induction env names w rule: stopUnits.induct) auto

lemma stopService_files [simp]: "w_files (stopDBusActivatedService env w) = w_files w"
  by (simp add: stopDBusActivatedService_def split: option.splits)

lemma removeUnits_files:
  assumes "fileSafe env"
  shows "fst (removeUnits env U names w) = None \<and>
    w_files (snd (removeUnits env U names w)) = (\<lambda>p. if p \<in> (\<lambda>n. U @ ''/'' @ n) ` set names then None else w_files w p)"
proof (induction names arbitrary: w)
  case Nil
  then show ?case by simp
next
  case (Cons n names)
  show ?case
  proof (cases "w_files w (U @ ''/'' @ n)")
    case None
    then show ?thesis using Cons[of w] by (auto simp: Let_def)
  next
    case (Some c)
    then show ?thesis using Cons assms by (auto simp: Let_def)
  qed
qed

lemma installUnits_files:
  assumes "fileSafe env"
  shows "fst (installUnits env U needed names w) = None \<and>
    (\<forall>p. p \<notin> (\<lambda>n. U @ ''/'' @ n) ` set names \<longrightarrow> w_files (snd (installUnits env U needed names w)) p = w_files w p)"
proof (induction names arbitrary: w)
  case Nil
  then show ?case by simp
next
  case (Cons n names)
  then show ?case using assms by (auto simp: Let_def split: option.splits)
qed

lemma enableUnits_files [simp]: "w_files (snd (enableUnits env start mode w)) = w_files w"
  unfolding enableUnits_def by (auto intro!: andThen_keeps)

subsection \<open>Removing the installation gives every file back\<close>

text \<open>
  No trace of an earlier installation: no mask, no backup, no drop-in, no shadow, no unit file.
\<close>

definition pristine :: "string \<Rightarrow> string \<Rightarrow> string \<Rightarrow> files \<Rightarrow> bool" where
  "pristine U D A f \<longleftrightarrow> f (D @ dbusServiceFile) \<noteq> Some dbusActivationMask \<and> f (D @ dbusServiceFile @ dbusBackupSuffix) = None \<and>
     f (U @ gkDropIn) = None \<and> f (A @ gkAutostart) \<noteq> Some gkAutostartShadow \<and> f (A @ gkAutostart @ dbusBackupSuffix) = None \<and>
     (\<forall>n \<in> set allUnitNames. f (U @ ''/'' @ n) = None)"

text \<open>A file is untouched, or ours stands in its place and the user's, if any, is in the backup.\<close>

definition kept :: "string \<Rightarrow> string \<Rightarrow> files \<Rightarrow> files \<Rightarrow> bool" where
  "kept path ours f0 f \<longleftrightarrow> f path = f0 path \<and> f (path @ dbusBackupSuffix) = None \<or>
     f path = Some ours \<and> f (path @ dbusBackupSuffix) = f0 path"

definition halfway :: "string \<Rightarrow> string \<Rightarrow> string \<Rightarrow> string \<Rightarrow> files \<Rightarrow> files \<Rightarrow> bool" where
  "halfway U D A c f0 f \<longleftrightarrow> (\<forall>p. p \<notin> set (c # ourPaths U D A) \<longrightarrow> f p = f0 p) \<and>
     kept (D @ dbusServiceFile) dbusActivationMask f0 f \<and> kept (A @ gkAutostart) gkAutostartShadow f0 f"

lemma halfway_start: "pristine U D A f0 \<Longrightarrow> halfway U D A c f0 f0"
  by (simp add: pristine_def halfway_def kept_def)

text \<open>Changes elsewhere among our paths do not matter.\<close>

lemma halfway_elsewhere:
  assumes "halfway U D A c f0 f" and "\<forall>p. p \<notin> P \<longrightarrow> f' p = f p" and "P \<subseteq> insert c (set (ourPaths U D A))"
    and "\<forall>p \<in> {D @ dbusServiceFile, D @ dbusServiceFile @ dbusBackupSuffix, A @ gkAutostart, A @ gkAutostart @ dbusBackupSuffix}. p \<notin> P"
  shows "halfway U D A c f0 f'"
  using assms by (auto simp: halfway_def kept_def subset_iff)

lemma units_not_ours:
  "p \<in> {D @ dbusServiceFile, D @ dbusServiceFile @ dbusBackupSuffix, A @ gkAutostart, A @ gkAutostart @ dbusBackupSuffix, U @ gkDropIn}
   \<Longrightarrow> p \<notin> (\<lambda>n. U @ ''/'' @ n) ` set allUnitNames"
  using ourPaths_distinct[of U D A] by (auto simp: ourPaths_def allUnitNames_def)

lemma ourPaths_units: "(\<lambda>n. U @ ''/'' @ n) ` set allUnitNames \<subseteq> set (ourPaths U D A)"
  by (auto simp: ourPaths_def)

lemma halfway_mask:
  assumes "fileSafe env" and "places env U D A" and "halfway U D A c f0 (w_files w)"
    and "pristine U D A f0"
  shows "halfway U D A c f0 (w_files (snd (maskDBusActivation env w)))"
proof -
  let ?m = "D @ dbusServiceFile"
  have ne: "A @ gkAutostart \<noteq> ?m" "A @ gkAutostart @ dbusBackupSuffix \<noteq> ?m"
    "A @ gkAutostart \<noteq> ?m @ dbusBackupSuffix" "A @ gkAutostart @ dbusBackupSuffix \<noteq> ?m @ dbusBackupSuffix"
    unfolding append_assoc by (rule path_ne, simp add: path_consts)+
  have m: "{?m, ?m @ dbusBackupSuffix} \<subseteq> set (ourPaths U D A)" by (simp add: ourPaths_def)
  have D: "dbusServiceDir env = Inr D" using assms(2) by (simp add: places_def)
  show ?thesis
    unfolding mask_files[OF assms(1) D] using assms(3,4) ne m
    by (auto simp: halfway_def kept_def pristine_def Let_def)
qed

lemma halfway_demote:
  assumes "fileSafe env" and "places env U D A" and "halfway U D A c f0 (w_files w)"
    and "pristine U D A f0"
  shows "halfway U D A c f0 (w_files (snd (demoteGnomeKeyring env w)))"
proof -
  let ?s = "A @ gkAutostart" and ?d = "U @ gkDropIn" and ?m = "D @ dbusServiceFile"
  have ne: "?m \<noteq> ?s" "?m @ dbusBackupSuffix \<noteq> ?s" "?m \<noteq> ?s @ dbusBackupSuffix" "?m @ dbusBackupSuffix \<noteq> ?s @ dbusBackupSuffix"
    "?m \<noteq> ?d" "?m @ dbusBackupSuffix \<noteq> ?d" "?s \<noteq> ?d" "?s @ dbusBackupSuffix \<noteq> ?d"
    unfolding append_assoc by (rule path_ne, simp add: path_consts)+
  have m: "{?s, ?s @ dbusBackupSuffix, ?d} \<subseteq> set (ourPaths U D A)" by (simp add: ourPaths_def)
  have UA: "unitDir env = Inr U" "autostartDir env = Inr A" using assms(2) by (simp_all add: places_def)
  show ?thesis
    unfolding demote_files[OF assms(1) UA] using assms(3,4) ne m
    by (auto simp: halfway_def kept_def pristine_def Let_def split: sum.splits)
qed

end
