(* ===== verification/Service_Sample.thy ===== *)
theory Service_Sample
  imports Service_Props
begin

text \<open>
  A desktop to evaluate the installer on: gnome-keyring owns the Secret Service name, the user has a D-Bus
  service file and an autostart entry of their own, and starting the proxy unit fails.
\<close>

definition sampleDesktop :: sys_env where
  "sampleDesktop = \<lparr>
     sy_fail = (\<lambda>log a. if a = ARun [''start'', unitFileName] then Some (ErrText ''exit status 1'') else None),
     sy_lookPath = (\<lambda>n. Inr (''/usr/bin/'' @ n)),
     sy_busctl = (\<lambda>log. Inr (''u 42'' @ [LF])),
     sy_readlink = (\<lambda>pid. if pid = 42 then Some ''/usr/bin/gnome-keyring-daemon'' else None),
     sy_isActive = (\<lambda>log n. ''active''),
     sy_runtimeDir = ''/r'', sy_configHome = ''/c'', sy_dataHome = ''/d'', sy_desktop = ''GNOME'',
     sy_home = Inr ''/h'', sy_self = Inr ''/b'',
     sy_decode = (\<lambda>text. Inr zeroConfig), sy_encode = (\<lambda>cfg. Inr ''topology'')\<rparr>"

definition sampleFiles :: World where
  "sampleFiles = \<lparr>w_files =
     [''/d/dbus-1/services/org.freedesktop.secrets.service'' \<mapsto> ''mine'',
      ''/c/autostart/gnome-keyring-secrets.desktop'' \<mapsto> ''also mine'', ''/cfg'' \<mapsto> ''old''], w_log = []\<rparr>"

abbreviation (input) sampleU :: string where "sampleU \<equiv> ''/c/systemd/user''"
abbreviation (input) sampleD :: string where "sampleD \<equiv> ''/d/dbus-1/services''"
abbreviation (input) sampleA :: string where "sampleA \<equiv> ''/c/autostart''"

definition sampleOptions :: "string \<Rightarrow> Options" where
  "sampleOptions mode = \<lparr>op_ConfigPath = ''/cfg'', op_Start = True, op_Mode = mode, op_BackendPath = []\<rparr>"

lemma sample_safe: "fileSafe sampleDesktop"
  by (auto simp: fileSafe_def sampleDesktop_def fileAct_def split: act.splits)

lemma sample_places: "places sampleDesktop sampleU sampleD sampleA"
  by (simp add: places_def unitDir_def dbusServiceDir_def autostartDir_def xdgDir_def sampleDesktop_def)

lemma sample_pristine: "pristine sampleU sampleD sampleA (w_files sampleFiles)"
  by (simp add: pristine_def sampleFiles_def allUnitNames_def dbusActivationMask_def gkAutostartShadow_def gkManagedComment_def unlines_def path_consts)

lemma sample_config: "''/cfg'' \<notin> set (ourPaths sampleU sampleD sampleA)"
  by (simp add: ourPaths_def allUnitNames_def path_consts)

lemma sample_inputs: "\<forall>opts \<in> set (map sampleOptions modes). \<forall>inp. resolveInstallInputs sampleDesktop opts = Inr inp \<longrightarrow> in_configPath inp = ''/cfg''"
  by (auto simp: resolveInstallInputs_def sampleOptions_def sampleDesktop_def Let_def split: if_splits)

lemma sample_update: "updateTopologyConfig sampleDesktop ''/cfg'' ''/r'' mode sampleFiles =
  (None, sampleFiles\<lparr>w_files := (w_files sampleFiles)(''/cfg'' \<mapsto> ''topology''), w_log := [AMkdir [], AWrite ''/cfg'' ''topology'']\<rparr>)"
  by (simp add: updateTopologyConfig_def fileAt_def Load_def sampleDesktop_def sampleFiles_def perform_def andThen_def wrapping_def dirOf_def)

lemma sample_trial:
  "trialConfigPath sampleDesktop = Inr ''/r/secrets-dispatcher/try-config.yaml''"
  "''/r/secrets-dispatcher/try-config.yaml'' \<notin> set (ourPaths sampleU sampleD sampleA)"
  "w_files sampleFiles ''/r/secrets-dispatcher/try-config.yaml'' = None"
  by (simp_all add: trialConfigPath_def sampleDesktop_def ourPaths_def allUnitNames_def sampleFiles_def path_consts)

text \<open>The same desktop when no action fails.\<close>

definition calmDesktop :: sys_env where
  "calmDesktop = sampleDesktop\<lparr>sy_fail := \<lambda>log a. None\<rparr>"

lemma calm_fields [simp]:
  "sy_fail calmDesktop log a = None" "sy_busctl calmDesktop = sy_busctl sampleDesktop" "sy_readlink calmDesktop = sy_readlink sampleDesktop"
  "sy_lookPath calmDesktop = sy_lookPath sampleDesktop" "sy_desktop calmDesktop = sy_desktop sampleDesktop"
  "unitDir calmDesktop = unitDir sampleDesktop" "dbusServiceDir calmDesktop = dbusServiceDir sampleDesktop"
  "autostartDir calmDesktop = autostartDir sampleDesktop" "resolveInstallInputs calmDesktop opts = resolveInstallInputs sampleDesktop opts"
  by (simp_all add: calmDesktop_def unitDir_def dbusServiceDir_def autostartDir_def resolveInstallInputs_def Let_def cong: if_cong sum.case_cong)

lemma calm_places: "places calmDesktop sampleU sampleD sampleA"
  using sample_places by (simp add: places_def)

lemma sample_provider: "DetectProvider sampleDesktop w = \<lparr>pv_Kind = ProviderGnomeKeyring, pv_PID = 42, pv_Exe = ''/usr/bin/gnome-keyring-daemon'', pv_Desktop = ''GNOME''\<rparr>"
proof -
  have "sy_busctl sampleDesktop l = Inr (''u 42'' @ [LF])" for l by (simp add: sampleDesktop_def)
  moreover have "ownerPID (Inr (''u 42'' @ [LF])) = Some 42" by code_simp
  moreover have "map_of exeToKind (Base ''/usr/bin/gnome-keyring-daemon'') = Some ProviderGnomeKeyring" by code_simp
  ultimately show ?thesis by (simp add: DetectProvider_def Let_def) (simp add: sampleDesktop_def)
qed

lemma calm_provider: "DetectProvider calmDesktop w = DetectProvider sampleDesktop w"
  by (simp only: DetectProvider_def calm_fields)

end
