(* ===== verification/Service_Roundtrip.thy ===== *)
theory Service_Roundtrip
  imports Service_Sample
begin

text \<open>
  Removing the installation gives every file back; the trial leaves no trace.  The invariant \<open>halfway\<close> holds
  from the first action of \<open>Install\<close> to the last, so it does not matter where an installation stopped.
\<close>

lemma halfway_config:
  assumes "fileSafe env" and "halfway U D A c f0 (w_files w)" and "c \<notin> set (ourPaths U D A)"
  shows "halfway U D A c f0 (w_files (snd (updateTopologyConfig env c rt mode w)))"
proof -
  have "halfway U D A c f0 ((w_files w)(c \<mapsto> content))" for content
    by (rule halfway_elsewhere[OF assms(2), of "{c}"]) (use assms(3) in \<open>auto simp: ourPaths_def\<close>)
  then show ?thesis
    using assms(1,2) by (auto simp: updateTopologyConfig_def split: sum.splits)
qed

lemma mask_shadow_apart:
  fixes D A :: string
  defines "m \<equiv> D @ dbusServiceFile" and "s \<equiv> A @ gkAutostart"
  shows "m \<noteq> s" "m @ dbusBackupSuffix \<noteq> s" "m \<noteq> s @ dbusBackupSuffix" "m @ dbusBackupSuffix \<noteq> s @ dbusBackupSuffix"
  unfolding m_def s_def append_assoc by (rule path_ne, simp add: path_consts)+

lemma mask_dropIn_apart: "D @ dbusServiceFile \<noteq> U @ gkDropIn" "(D @ dbusServiceFile) @ dbusBackupSuffix \<noteq> U @ gkDropIn"
  unfolding append_assoc by (rule path_ne, simp add: path_consts)+

lemma shadow_dropIn_apart: "A @ gkAutostart \<noteq> U @ gkDropIn" "(A @ gkAutostart) @ dbusBackupSuffix \<noteq> U @ gkDropIn"
  unfolding append_assoc by (rule path_ne, simp add: path_consts)+

lemma unmask_gives_back:
  assumes "fileSafe env" and "places env U D A" and "halfway U D A c f0 (w_files w)" and "pristine U D A f0"
  defines "m \<equiv> D @ dbusServiceFile" and "f' \<equiv> w_files (snd (unmaskDBusActivation env w))"
  shows "f' m = f0 m" and "f' (m @ dbusBackupSuffix) = None" and "\<forall>p. p \<notin> {m, m @ dbusBackupSuffix} \<longrightarrow> f' p = w_files w p"
proof -
  have D: "dbusServiceDir env = Inr D" using assms(2) by (simp add: places_def)
  note u = conjunct2[OF unmask_files[OF assms(1) D, of w]]
  have k: "kept m dbusActivationMask f0 (w_files w)" using assms(3) by (simp add: halfway_def m_def)
  have p: "f0 m \<noteq> Some dbusActivationMask" using assms(4) by (simp add: pristine_def m_def)
  have f': "f' = (let f = w_files w in
     if f m = Some dbusActivationMask
     then (if f (m @ dbusBackupSuffix) \<noteq> None then f(m @ dbusBackupSuffix := None, m := f (m @ dbusBackupSuffix)) else f(m := None))
     else f)"
    unfolding f'_def m_def by (rule u)
  show "f' m = f0 m" and "f' (m @ dbusBackupSuffix) = None" and "\<forall>p. p \<notin> {m, m @ dbusBackupSuffix} \<longrightarrow> f' p = w_files w p"
    using k p by (auto simp: f' kept_def Let_def)
qed

lemma restore_gives_back:
  assumes "fileSafe env" and "places env U D A" and "halfway U D A c f0 (w_files w)" and "pristine U D A f0"
  defines "s \<equiv> A @ gkAutostart" and "d \<equiv> U @ gkDropIn" and "f' \<equiv> w_files (snd (restoreGnomeKeyring env w))"
  shows "f' s = f0 s" and "f' (s @ dbusBackupSuffix) = None" and "f' d = None"
    and "\<forall>p. p \<notin> {s, s @ dbusBackupSuffix, d} \<longrightarrow> f' p = w_files w p"
proof -
  have UA: "unitDir env = Inr U" "autostartDir env = Inr A" using assms(2) by (simp_all add: places_def)
  have k: "kept s gkAutostartShadow f0 (w_files w)" using assms(3) by (simp add: halfway_def s_def)
  have p: "f0 s \<noteq> Some gkAutostartShadow" using assms(4) by (simp add: pristine_def s_def)
  note ne = shadow_dropIn_apart[of A U, folded s_def d_def]
  have f': "f' = (let f = (w_files w)(d := None) in
     if f s = Some gkAutostartShadow
     then (if f (s @ dbusBackupSuffix) \<noteq> None then f(s @ dbusBackupSuffix := None, s := f (s @ dbusBackupSuffix)) else f(s := None))
     else f)"
    unfolding f'_def s_def d_def by (rule restore_files[OF assms(1) UA])
  show "f' s = f0 s" and "f' (s @ dbusBackupSuffix) = None" and "f' d = None"
    and "\<forall>p. p \<notin> {s, s @ dbusBackupSuffix, d} \<longrightarrow> f' p = w_files w p"
    using k p ne by (auto simp: f' kept_def Let_def)
qed

lemma halfway_unmask:
  assumes "fileSafe env" and "places env U D A" and "halfway U D A c f0 (w_files w)" and "pristine U D A f0"
  shows "halfway U D A c f0 (w_files (snd (unmaskDBusActivation env w)))"
proof -
  let ?m = "D @ dbusServiceFile" and ?s = "A @ gkAutostart" and ?f = "w_files (snd (unmaskDBusActivation env w))"
  have m: "{?m, ?m @ dbusBackupSuffix} \<subseteq> set (ourPaths U D A)" by (simp add: ourPaths_def)
  note g = unmask_gives_back[OF assms]
  have s: "?f ?s = w_files w ?s" "?f (?s @ dbusBackupSuffix) = w_files w (?s @ dbusBackupSuffix)"
    using g(3) mask_shadow_apart[of D A] by (metis insertE singletonD)+
  show ?thesis
    unfolding halfway_def
  proof (intro conjI)
    show "\<forall>p. p \<notin> set (c # ourPaths U D A) \<longrightarrow> ?f p = f0 p"
      using g(3) m assms(3) unfolding halfway_def by (metis insert_subset insertE list.set_intros(2) singletonD)
    show "kept ?m dbusActivationMask f0 ?f" using g(1,2) by (simp only: kept_def simp_thms)
    show "kept ?s gkAutostartShadow f0 ?f" using assms(3) by (simp only: kept_def s halfway_def)
  qed
qed

lemma halfway_restore:
  assumes "fileSafe env" and "places env U D A" and "halfway U D A c f0 (w_files w)" and "pristine U D A f0"
  shows "halfway U D A c f0 (w_files (snd (restoreGnomeKeyring env w)))"
proof -
  let ?m = "D @ dbusServiceFile" and ?s = "A @ gkAutostart" and ?f = "w_files (snd (restoreGnomeKeyring env w))"
  have m: "{?s, ?s @ dbusBackupSuffix, U @ gkDropIn} \<subseteq> set (ourPaths U D A)" by (simp add: ourPaths_def)
  note g = restore_gives_back[OF assms]
  have k: "?f ?m = w_files w ?m" "?f (?m @ dbusBackupSuffix) = w_files w (?m @ dbusBackupSuffix)"
    using g(4) mask_shadow_apart[of D A] mask_dropIn_apart[of D U] by (metis insertE singletonD)+
  show ?thesis
    unfolding halfway_def
  proof (intro conjI)
    show "\<forall>p. p \<notin> set (c # ourPaths U D A) \<longrightarrow> ?f p = f0 p"
      using g(4) m assms(3) unfolding halfway_def by (metis insert_subset insertE list.set_intros(2) singletonD)
    show "kept ?m dbusActivationMask f0 ?f" using assms(3) by (simp only: kept_def k halfway_def)
    show "kept ?s gkAutostartShadow f0 ?f" using g(1,2) by (simp only: kept_def simp_thms)
  qed
qed

lemma halfway_takeOver:
  assumes "fileSafe env" and "places env U D A" and "halfway U D A c f0 (w_files w)" and "pristine U D A f0"
  shows "halfway U D A c f0 (w_files (snd (takeOver env mode provider w)))"
  unfolding takeOver_def
  by (auto intro!: andThen_files[where P = "halfway U D A c f0"] halfway_unmask halfway_restore halfway_mask halfway_demote assms
      simp: assms(1-3))

lemma halfway_but_units:
  assumes "halfway U D A c f0 f" and "\<forall>p. p \<notin> (\<lambda>n. U @ ''/'' @ n) ` set allUnitNames \<longrightarrow> f' p = f p"
  shows "halfway U D A c f0 f'"
proof (rule halfway_elsewhere[OF assms])
  show "(\<lambda>n. U @ ''/'' @ n) ` set allUnitNames \<subseteq> insert c (set (ourPaths U D A))" using ourPaths_units by blast
qed (use units_not_ours in blast)

lemma halfway_units:
  assumes "fileSafe env" and "halfway U D A c f0 (w_files w)"
  shows "halfway U D A c f0 (w_files (snd (installUnits env U needed allUnitNames w)))"
  by (rule halfway_but_units[OF assms(2)]) (use installUnits_files[OF assms(1)] in blast)

lemma halfway_Install:
  assumes "fileSafe env" and "places env U D A" and "halfway U D A (in_configPath inp) f0 (w_files w)" and "pristine U D A f0"
    and "resolveInstallInputs env opts = Inr inp" and "in_configPath inp \<notin> set (ourPaths U D A)"
  shows "halfway U D A (in_configPath inp) f0 (w_files (snd (Install env opts w)))"
proof -
  let ?P = "halfway U D A (in_configPath inp) f0"
  have U: "unitDir env = Inr U" using assms(2) by (simp add: places_def)
  have units: "?P (w_files (snd (andThen (wrapping ''create unit dir'' (perform env (AMkdir U) w))
      (\<lambda>w. andThen (installUnits env U needed allUnitNames w) (enableUnits env (op_Start opts) mode)))))"
    if "?P (w_files w)" for needed w mode
    using that assms(1) by (auto intro!: andThen_files[where P = ?P] halfway_units)
  show ?thesis
    unfolding Install_def assms(5) sum.case Let_def
    apply (rule andThen_files[where P = ?P, OF halfway_config[OF assms(1,3,6)]])
    apply (rule andThen_files[where P = ?P, OF halfway_takeOver[OF assms(1,2) _ assms(4)]])
     apply assumption
    apply (auto simp: U split: sum.splits intro: units)
    done
qed

lemma Uninstall_gives_back:
  assumes "fileSafe env" and "places env U D A" and "halfway U D A c f0 (w_files w)" and "pristine U D A f0"
  shows "\<forall>p. p \<noteq> c \<longrightarrow> w_files (snd (Uninstall env w)) p = f0 p"
proof -
  let ?units = "(\<lambda>n. U @ ''/'' @ n) ` set allUnitNames"
  have U: "unitDir env = Inr U" using assms(2) by (simp add: places_def)
  define w1 where "w1 = snd (removeUnits env U allUnitNames (stopUnits env allUnitNames w))"
  have r1: "removeUnits env U allUnitNames (stopUnits env allUnitNames w) = (None, w1)"
    using removeUnits_files[OF assms(1)] by (simp add: w1_def prod_eq_iff)
  have f1: "w_files w1 = (\<lambda>p. if p \<in> ?units then None else w_files w p)"
    using removeUnits_files[OF assms(1), of U allUnitNames "stopUnits env allUnitNames w"] by (simp add: r1 fun_eq_iff)
  have h1: "halfway U D A c f0 (w_files w1)"
    by (rule halfway_but_units[OF assms(3)]) (simp add: f1)
  define w2 where "w2 = snd (unmaskDBusActivation env w1)"
  have D: "dbusServiceDir env = Inr D" using assms(2) by (simp add: places_def)
  have r2: "unmaskDBusActivation env w1 = (None, w2)"
    using unmask_files[OF assms(1) D, of w1] by (simp add: w2_def prod_eq_iff)
  note g2 = unmask_gives_back[OF assms(1,2) h1 assms(4), folded w2_def]
  have h2: "halfway U D A c f0 (w_files w2)"
    unfolding w2_def by (rule halfway_unmask[OF assms(1,2) h1 assms(4)])
  note g3 = restore_gives_back[OF assms(1,2) h2 assms(4)]
  have all: "w_files (snd (Uninstall env w)) = w_files (snd (restoreGnomeKeyring env w2))"
    unfolding Uninstall_def Let_def U sum.case r1 andThen_None r2 by (rule andThen_keeps) simp_all
  have pr: "\<forall>p \<in> ?units. f0 p = None" "f0 (D @ dbusServiceFile @ dbusBackupSuffix) = None" "f0 (U @ gkDropIn) = None"
      "f0 (A @ gkAutostart @ dbusBackupSuffix) = None"
    using assms(4) by (auto simp: pristine_def)
  show ?thesis
  proof (intro allI impI)
    fix p assume "p \<noteq> c"
    consider "p \<in> {A @ gkAutostart, (A @ gkAutostart) @ dbusBackupSuffix, U @ gkDropIn}"
      | "p \<in> {D @ dbusServiceFile, (D @ dbusServiceFile) @ dbusBackupSuffix}" "p \<notin> {A @ gkAutostart, (A @ gkAutostart) @ dbusBackupSuffix, U @ gkDropIn}"
      | "p \<in> ?units" "p \<notin> {D @ dbusServiceFile, (D @ dbusServiceFile) @ dbusBackupSuffix}" "p \<notin> {A @ gkAutostart, (A @ gkAutostart) @ dbusBackupSuffix, U @ gkDropIn}"
      | "p \<notin> set (c # ourPaths U D A)"
      using \<open>p \<noteq> c\<close> by (auto simp: ourPaths_def)
    then show "w_files (snd (Uninstall env w)) p = f0 p"
    proof cases
      case 1
      then show ?thesis using g3(1-3) pr by (auto simp: all)
    next
      case 2
      then have "w_files (snd (restoreGnomeKeyring env w2)) p = w_files w2 p" using g3(4) by blast
      then show ?thesis using 2 g2(1,2) pr by (auto simp: all)
    next
      case 3
      then have "w_files (snd (restoreGnomeKeyring env w2)) p = w_files w1 p" using g3(4) g2(3) by fastforce
      then show ?thesis using 3 pr by (auto simp: all f1)
    next
      case 4
      then have n: "p \<notin> {A @ gkAutostart, (A @ gkAutostart) @ dbusBackupSuffix, U @ gkDropIn}"
        "p \<notin> {D @ dbusServiceFile, (D @ dbusServiceFile) @ dbusBackupSuffix}" "p \<notin> ?units"
        by (auto simp: ourPaths_def)
      then have "w_files (snd (restoreGnomeKeyring env w2)) p = w_files w1 p" using g3(4) g2(3) by fastforce
      also have "\<dots> = w_files w p" using n(3) by (simp add: f1)
      also have "\<dots> = f0 p" using 4 assms(3) by (simp add: halfway_def)
      finally show ?thesis by (simp add: all)
    qed
  qed
qed

subsection \<open>A history of installations, then the removal\<close>

text \<open>Installations of any mode one after the other, each finished or stopped by an error.\<close>

definition installs :: "sys_env \<Rightarrow> Options list \<Rightarrow> World \<Rightarrow> World" where
  "installs env optss w = fold (\<lambda>opts w. snd (Install env opts w)) optss w"

lemma halfway_installs:
  assumes "fileSafe env" and "places env U D A" and "pristine U D A f0" and "c \<notin> set (ourPaths U D A)"
    and "\<forall>opts \<in> set optss. \<forall>inp. resolveInstallInputs env opts = Inr inp \<longrightarrow> in_configPath inp = c"
    and "halfway U D A c f0 (w_files w)"
  shows "halfway U D A c f0 (w_files (installs env optss w))"
  using assms(5,6)
proof (induction optss arbitrary: w)
  case Nil
  then show ?case by (simp add: installs_def)
next
  case (Cons opts optss)
  have "halfway U D A c f0 (w_files (snd (Install env opts w)))"
  proof (cases "resolveInstallInputs env opts")
    case (Inl e)
    then show ?thesis using Cons.prems(2) by (simp add: Install_def)
  next
    case (Inr inp)
    then have c: "in_configPath inp = c" using Cons.prems(1) by simp
    show ?thesis using halfway_Install[OF assms(1,2) _ assms(3) Inr] Cons.prems(2) assms(4) by (simp add: c)
  qed
  then show ?case using Cons.IH Cons.prems(1) by (simp add: installs_def)
qed





end
