(* ===== verification/Service_Actions.thy ===== *)
theory Service_Actions
  imports Service_Roundtrip
begin

text \<open>
  Every operation of the installer characterised by the list of actions it performs when it succeeds, a function of
  the files it starts from.
\<close>

subsection \<open>Successful operations as lists of actions\<close>

definition after :: "act list \<Rightarrow> World \<Rightarrow> World" where
  "after acts w = w\<lparr>w_files := fold effect acts (w_files w), w_log := w_log w @ acts\<rparr>"

definition did :: "outcome \<Rightarrow> World \<Rightarrow> act list \<Rightarrow> bool" where
  "did r w acts \<longleftrightarrow> (fst r = None \<longrightarrow> snd r = after acts w)"

lemma after_simps [simp]:
  "after [] w = w" "after b (after a w) = after (a @ b) w"
  "w_files (after acts w) = fold effect acts (w_files w)" "w_log (after acts w) = w_log w @ acts"
  by (simp_all add: after_def)

lemma did_None [simp, intro]: "did (None, w) w []"
  by (simp add: did_def)

lemma did_perform [intro]: "did (perform env a w) w [a]"
  by (simp add: did_def perform_def after_def split: option.splits)

lemma did_systemctl [intro]: "did (systemctl env args w) w [ARun args]"
  by (simp add: systemctl_def did_perform)

lemma did_wrapping [intro]: "did r w acts \<Longrightarrow> did (wrapping what r) w acts"
  by (cases r; cases "fst r") (simp_all add: did_def wrapping_def)

lemma ignoring_after: "\<not> fileAct a \<Longrightarrow> ignoring (perform env a w) = after [a] w"
  by (cases a) (auto simp: ignoring_def perform_def after_def fileAct_def split: option.splits)

lemma ignoring_systemctl_after: "ignoring (systemctl env args w) = after [ARun args] w"
  by (simp add: systemctl_def ignoring_after)

lemma did_ignoring: "\<not> fileAct a \<Longrightarrow> did (None, ignoring (perform env a w)) w [a]"
  by (simp add: did_def ignoring_after)

lemma did_ignoring_systemctl: "did (None, ignoring (systemctl env args w)) w [ARun args]"
  by (simp add: did_def ignoring_systemctl_after)

lemma did_andThen [intro]:
  assumes "did r w a" and "did (f (after a w)) (after a w) b"
  shows "did (andThen r f) w (a @ b)"
  using assms by (cases r; cases "fst r") (auto simp: did_def andThen_def)

lemma did_step:
  assumes "did r w [a]" and "did (f (after [a] w)) (after [a] w) b"
  shows "did (andThen r f) w (a # b)"
  using did_andThen[where a = "[a]" and r = r and f = f and b = b and w = w] assms by simp

lemma did_if [intro]:
  assumes "c \<Longrightarrow> did r w a" and "\<not> c \<Longrightarrow> did r' w b"
  shows "did (if c then r else r') w (if c then a else b)"
  using assms by simp

definition backupActs :: "string \<Rightarrow> string \<Rightarrow> files \<Rightarrow> act list" where
  "backupActs path ours f = (if f path \<noteq> None \<and> f path \<noteq> Some ours then [ARename path (path @ dbusBackupSuffix)] else [])"

lemma did_backup:
  "did (case w_files w path of
          Some existing \<Rightarrow> if existing \<noteq> ours then wrapping what (perform env (ARename path (path @ dbusBackupSuffix)) w) else (None, w)
        | None \<Rightarrow> (None, w)) w (backupActs path ours (w_files w))"
  by (auto simp: backupActs_def split: option.splits)

definition maskActs :: "string \<Rightarrow> files \<Rightarrow> act list" where
  "maskActs D f = backupActs (D @ dbusServiceFile) dbusActivationMask f @
     [AMkdir D, AWrite (D @ dbusServiceFile) dbusActivationMask, AReload]"

lemma did_mask:
  assumes "dbusServiceDir env = Inr D"
  shows "did (maskDBusActivation env w) w (maskActs D (w_files w))"
  unfolding maskDBusActivation_def assms sum.case Let_def maskActs_def
  by (rule did_andThen[OF did_backup])
    (intro did_step did_wrapping did_perform did_ignoring fileAct_simps)

definition demoteActs :: "string \<Rightarrow> string \<Rightarrow> string \<Rightarrow> files \<Rightarrow> act list" where
  "demoteActs U A gk f =
     [AMkdir (U @ ''/gnome-keyring-daemon.service.d''), AWrite (U @ gkDropIn) (gkDropInTemplate gk), AMkdir A] @
     backupActs (A @ gkAutostart) gkAutostartShadow f @
     [AWrite (A @ gkAutostart) gkAutostartShadow, ARun [''daemon-reload''], ARun [''try-restart'', gkServiceUnit]]"

lemma did_demote:
  assumes "places env U D A" and "sy_lookPath env ''gnome-keyring-daemon'' = Inr gk"
  shows "did (demoteGnomeKeyring env w) w (demoteActs U A gk (w_files w))"
proof -
  have UA: "unitDir env = Inr U" "autostartDir env = Inr A" using assms(1) by (simp_all add: places_def)
  let ?d = "U @ gkDropIn" and ?s = "A @ gkAutostart"
  have f: "backupActs ?s gkAutostartShadow (w_files (after [AMkdir A] (after [AWrite ?d (gkDropInTemplate gk)] (after [AMkdir x] w)))) =
      backupActs ?s gkAutostartShadow (w_files w)" for x
    using shadow_dropIn_apart[of A U] by (simp add: backupActs_def)
  show ?thesis
    unfolding demoteGnomeKeyring_def UA assms(2) sum.case prod.case Let_def demoteActs_def append_Cons append_Nil
    apply (rule did_step[OF did_wrapping[OF did_perform]])+
    apply (rule did_andThen)
     apply (subst f[symmetric], rule did_backup)
    apply (intro did_step did_wrapping did_perform did_systemctl did_ignoring_systemctl)
    done
qed

definition giveBackActs :: "string \<Rightarrow> files \<Rightarrow> act list" where
  "giveBackActs path f = (if f (path @ dbusBackupSuffix) \<noteq> None then [ARename (path @ dbusBackupSuffix) path] else [])"

definition unmaskActs :: "string \<Rightarrow> files \<Rightarrow> act list" where
  "unmaskActs D f =
     (let m = D @ dbusServiceFile in
      if f m \<noteq> Some dbusActivationMask then []
      else if f (m @ dbusBackupSuffix) \<noteq> None then [ARename (m @ dbusBackupSuffix) m, AReload] else [ARemove m, AReload])"

lemma did_unmask:
  assumes "dbusServiceDir env = Inr D"
  shows "did (unmaskDBusActivation env w) w (unmaskActs D (w_files w))"
proof -
  let ?m = "D @ dbusServiceFile"
  have "did (andThen (if c then wrapping x (perform env a w) else wrapping y (perform env b w)) (\<lambda>w. (None, ignoring (perform env AReload w)))) w
      (if c then [a, AReload] else [b, AReload])" for c a b x y
    by (cases c) (auto intro!: did_step did_ignoring)
  then show ?thesis
    unfolding unmaskDBusActivation_def assms sum.case Let_def unmaskActs_def
    by (cases "w_files w ?m") (auto simp del: append_assoc simp: append_assoc)
qed

definition restoreActs :: "string \<Rightarrow> string \<Rightarrow> files \<Rightarrow> act list" where
  "restoreActs U A f =
     (let s = A @ gkAutostart; d = U @ gkDropIn in
      (if f d \<noteq> None then [ARemove d, ARmdir (U @ ''/gnome-keyring-daemon.service.d'')] else []) @
      (if f s = Some gkAutostartShadow then ARemove s # giveBackActs s f else []) @
      (if f d \<noteq> None \<or> f s = Some gkAutostartShadow then [ARun [''daemon-reload''], ARun [''try-restart'', gkServiceUnit]] else []))"

lemma did_restore:
  assumes "places env U D A"
  shows "did (restoreGnomeKeyring env w) w (restoreActs U A (w_files w))"
proof -
  have UA: "unitDir env = Inr U" "autostartDir env = Inr A" using assms by (simp_all add: places_def)
  let ?d = "U @ gkDropIn" and ?s = "A @ gkAutostart"
  let ?drop = "if w_files w ?d \<noteq> None then [ARemove ?d, ARmdir (U @ ''/gnome-keyring-daemon.service.d'')] else []"
  have s: "w_files (after ?drop w) ?s = w_files w ?s" "w_files (after ?drop w) (?s @ dbusBackupSuffix) = w_files w (?s @ dbusBackupSuffix)"
    using shadow_dropIn_apart[of A U] by simp_all
  have gb: "did (if w_files w' (?s @ dbusBackupSuffix) \<noteq> None then wrapping x (perform env (ARename (?s @ dbusBackupSuffix) ?s) w') else (None, w')) w'
      (giveBackActs ?s (w_files w'))" for w' x
    unfolding giveBackActs_def by (intro did_if did_wrapping did_perform did_None)
  have rm: "giveBackActs ?s (w_files (after [ARemove ?s] w')) = giveBackActs ?s (w_files w')" for w'
    by (simp add: giveBackActs_def)
  have g: "giveBackActs ?s (w_files (after ?drop w)) = giveBackActs ?s (w_files w)" unfolding giveBackActs_def s ..
  show ?thesis
    unfolding restoreGnomeKeyring_def UA sum.case Let_def restoreActs_def
    apply (rule did_andThen)
     apply (rule did_if)
      apply (intro did_step did_wrapping did_perform did_ignoring fileAct_simps)
     apply (rule did_None)
    apply (rule did_andThen)
     apply (unfold s(1))
     apply (rule did_if)
      apply (rule did_step[OF did_wrapping[OF did_perform]])
      apply (subst g[symmetric], subst rm[symmetric], rule gb)
     apply (rule did_None)
    apply (auto intro!: did_step did_ignoring_systemctl)
    done
qed

fun unitActs :: "string \<Rightarrow> (string, string) gomap \<Rightarrow> string list \<Rightarrow> files \<Rightarrow> act list" where
  "unitActs U needed [] f = []"
| "unitActs U needed (name # names) f =
     (case map_of needed name of
        Some content \<Rightarrow> [AWrite (U @ ''/'' @ name) content]
      | None \<Rightarrow> if f (U @ ''/'' @ name) \<noteq> None then [ARun [''stop'', name], ARun [''disable'', name], ARemove (U @ ''/'' @ name)] else []) @
     unitActs U needed names f"

lemma unitActs_cong: "\<forall>n \<in> set names. f (U @ ''/'' @ n) = f' (U @ ''/'' @ n) \<Longrightarrow> unitActs U needed names f = unitActs U needed names f'"
  by (induction names) (auto split: option.splits)

lemma unitActs_nil: "\<forall>n \<in> set names. f' (U @ ''/'' @ n) = f (U @ ''/'' @ n) \<Longrightarrow> unitActs U needed names f = unitActs U needed names f'"
  by (rule unitActs_cong) simp

lemma did_units: "distinct names \<Longrightarrow> did (installUnits env U needed names w) w (unitActs U needed names (w_files w))"
proof (induction names arbitrary: w)
  case Nil
  then show ?case by simp
next
  case (Cons name names)
  let ?p = "U @ ''/'' @ name"
  define acts where "acts = (case map_of needed name of
        Some content \<Rightarrow> [AWrite ?p content]
      | None \<Rightarrow> if w_files w ?p \<noteq> None then [ARun [''stop'', name], ARun [''disable'', name], ARemove ?p] else [])"
  have "\<forall>n \<in> set names. w_files (after acts w) (U @ ''/'' @ n) = w_files w (U @ ''/'' @ n)"
    using Cons.prems by (auto simp: acts_def split: option.splits)
  then have later: "unitActs U needed names (w_files w) = unitActs U needed names (w_files (after acts w))"
    by (rule unitActs_nil)
  have stale: "did (wrapping x (perform env r (ignoring (systemctl env b (ignoring (systemctl env a w)))))) w [ARun a, ARun b, r]" for a b x r
    using did_wrapping[OF did_perform[of env r "after [ARun a, ARun b] w"]]
    by (simp add: ignoring_systemctl_after did_def)
  have "did (case map_of needed name of
           Some content \<Rightarrow> wrapping (''write '' @ name) (perform env (AWrite ?p content) w)
         | None \<Rightarrow> if w_files w ?p \<noteq> None
             then (let w = ignoring (systemctl env [''stop'', name] w); w = ignoring (systemctl env [''disable'', name] w)
                   in wrapping (''remove stale '' @ name) (perform env (ARemove ?p) w))
             else (None, w)) w acts"
    unfolding acts_def Let_def by (cases "map_of needed name") (auto intro!: stale)
  then show ?case
    unfolding installUnits.simps unitActs.simps Let_def acts_def[symmetric] later
    by (rule did_andThen) (rule Cons.IH, use Cons.prems in simp)
qed

definition enableActs :: "bool \<Rightarrow> string \<Rightarrow> act list" where
  "enableActs start mode =
     ARun [''daemon-reload''] # (if mode \<noteq> ''remote'' then [ARun [''enable'', ''secrets-dispatcher-bus.socket'']] else []) @
     ARun [''enable'', unitFileName] #
     (if start then (if mode \<noteq> ''remote'' then [ARun [''start'', ''secrets-dispatcher-bus.socket'']] else []) @ [ARun [''start'', unitFileName]]
      else [])"

lemma did_enable: "did (enableUnits env start mode w) w (enableActs start mode)"
  unfolding enableUnits_def enableActs_def
  apply (rule did_step[OF did_systemctl])
  apply (rule did_andThen[OF did_if[OF did_systemctl did_None]])
  apply (rule did_step[OF did_systemctl])
  apply (rule did_if)
   apply (rule did_andThen[OF did_if[OF did_systemctl did_None]], rule did_systemctl)
  apply (rule did_None)
  done

lemma did_config: "\<exists>content. did (updateTopologyConfig env c rt mode w) w [AMkdir (dirOf c), AWrite c content]"
proof (cases "Load c (fileAt env w c)")
  case (Inl e)
  then show ?thesis by (simp add: updateTopologyConfig_def did_def)
next
  case l: (Inr cfg)
  show ?thesis
  proof (cases "sy_encode env (topologyFor rt mode cfg)")
    case (Inl e)
    then show ?thesis using l by (simp add: updateTopologyConfig_def did_def)
  next
    case (Inr content)
    have "did (updateTopologyConfig env c rt mode w) w [AMkdir (dirOf c), AWrite c content]"
      unfolding updateTopologyConfig_def l Inr sum.case by (intro did_step did_wrapping did_perform)
    then show ?thesis ..
  qed
qed

end
