(* ===== verification/Service_Dryrun.thy ===== *)
theory Service_Dryrun
  imports Service_Actions
begin

text \<open>The whole installation as a list of actions, and the theorem about the dry run.\<close>

definition agree :: "string \<Rightarrow> string \<Rightarrow> string \<Rightarrow> files \<Rightarrow> files \<Rightarrow> bool" where
  "agree U D A f f' \<longleftrightarrow> (\<forall>p \<in> set (ourPaths U D A). f p = f' p)"

lemma agree_paths:
  assumes "agree U D A f f'"
  shows "f (D @ dbusServiceFile) = f' (D @ dbusServiceFile)"
    "f ((D @ dbusServiceFile) @ dbusBackupSuffix) = f' ((D @ dbusServiceFile) @ dbusBackupSuffix)"
    "f (U @ gkDropIn) = f' (U @ gkDropIn)" "f (A @ gkAutostart) = f' (A @ gkAutostart)"
    "f ((A @ gkAutostart) @ dbusBackupSuffix) = f' ((A @ gkAutostart) @ dbusBackupSuffix)"
    "n \<in> set allUnitNames \<Longrightarrow> f (U @ ''/'' @ n) = f' (U @ ''/'' @ n)"
  using assms by (simp_all add: agree_def ourPaths_def)

definition ownerStable :: "sys_env \<Rightarrow> bool" where
  "ownerStable env \<longleftrightarrow> (\<forall>log. sy_busctl env log = sy_busctl env [])"

lemma DetectProvider_stable: "ownerStable env \<Longrightarrow> DetectProvider env w = DetectProvider env w'"
  by (simp add: DetectProvider_def ownerStable_def) metis

lemma did_demote_any:
  assumes "places env U D A"
  shows "\<exists>gk. \<forall>w. did (demoteGnomeKeyring env w) w (demoteActs U A gk (w_files w))"
proof (cases "sy_lookPath env ''gnome-keyring-daemon''")
  case (Inl e)
  then show ?thesis by (simp add: demoteGnomeKeyring_def did_def)
next
  case (Inr gk)
  then show ?thesis using did_demote[OF assms] by blast
qed

definition takeOverActs :: "string \<Rightarrow> string \<Rightarrow> string \<Rightarrow> string \<Rightarrow> string \<Rightarrow> Provider \<Rightarrow> int option \<Rightarrow> files \<Rightarrow> act list" where
  "takeOverActs U D A gk mode provider owner f =
     (if mode = ''remote'' then unmaskActs D f @ restoreActs U A f
      else maskActs D f @ (if pv_Kind provider = ProviderGnomeKeyring then demoteActs U A gk f else []) @
        (case owner of None \<Rightarrow> [] | Some pid \<Rightarrow> [ASignal pid]))"

lemma takeOverActs_cong: "agree U D A f f' \<Longrightarrow> takeOverActs U D A gk mode provider owner f = takeOverActs U D A gk mode provider owner f'"
  unfolding takeOverActs_def unmaskActs_def restoreActs_def maskActs_def demoteActs_def backupActs_def giveBackActs_def Let_def
  by (simp only: agree_paths)

lemma restoreActs_after_unmask: "restoreActs U A (fold effect (unmaskActs D f) f) = restoreActs U A f"
proof -
  let ?f = "fold effect (unmaskActs D f) f"
  note ne = mask_shadow_apart[of D A] mask_dropIn_apart[of D U]
  have "?f (A @ gkAutostart) = f (A @ gkAutostart)" "?f ((A @ gkAutostart) @ dbusBackupSuffix) = f ((A @ gkAutostart) @ dbusBackupSuffix)"
    "?f (U @ gkDropIn) = f (U @ gkDropIn)"
    using ne by (simp_all add: unmaskActs_def Let_def)
  then show ?thesis by (simp only: restoreActs_def giveBackActs_def Let_def)
qed

lemma demoteActs_after_mask: "demoteActs U A gk (fold effect (maskActs D f) f) = demoteActs U A gk f"
proof -
  have "fold effect (maskActs D f) f (A @ gkAutostart) = f (A @ gkAutostart)"
    using mask_shadow_apart[of D A] by (simp add: maskActs_def backupActs_def)
  then show ?thesis by (simp only: demoteActs_def backupActs_def)
qed

lemma did_stop: "ownerStable env \<Longrightarrow> did (None, stopDBusActivatedService env w) w
  (case ownerPID (sy_busctl env []) of None \<Rightarrow> [] | Some pid \<Rightarrow> [ASignal pid])"
proof -
  assume "ownerStable env"
  then have "sy_busctl env (w_log w) = sy_busctl env []" by (simp add: ownerStable_def)
  then show ?thesis by (auto simp: stopDBusActivatedService_def did_ignoring split: option.splits)
qed

lemma did_takeOver:
  assumes "places env U D A" and "ownerStable env"
  shows "\<exists>gk. \<forall>w. did (takeOver env mode provider w) w (takeOverActs U D A gk mode provider (ownerPID (sy_busctl env [])) (w_files w))"
proof -
  obtain gk where gk: "\<And>w. did (demoteGnomeKeyring env w) w (demoteActs U A gk (w_files w))"
    using did_demote_any[OF assms(1)] by blast
  have D: "dbusServiceDir env = Inr D" using assms(1) by (simp add: places_def)
  have "did (takeOver env mode provider w) w (takeOverActs U D A gk mode provider (ownerPID (sy_busctl env [])) (w_files w))" for w
  proof (cases "mode = ''remote''")
    case True
    have "did (restoreGnomeKeyring env (after (unmaskActs D (w_files w)) w)) (after (unmaskActs D (w_files w)) w) (restoreActs U A (w_files w))"
      using did_restore[OF assms(1), of "after (unmaskActs D (w_files w)) w"] by (simp only: after_simps restoreActs_after_unmask)
    then show ?thesis
      using True by (simp only: takeOver_def takeOverActs_def simp_thms if_True did_andThen[OF did_unmask[OF D]])
  next
    case False
    let ?w = "after (maskActs D (w_files w)) w"
    have "did (demoteGnomeKeyring env ?w) ?w (demoteActs U A gk (w_files w))"
      using gk[of ?w] by (simp only: after_simps demoteActs_after_mask)
    then have "did (andThen (if pv_Kind provider = ProviderGnomeKeyring then demoteGnomeKeyring env ?w else (None, ?w))
        (\<lambda>w. (None, stopDBusActivatedService env w))) ?w
      ((if pv_Kind provider = ProviderGnomeKeyring then demoteActs U A gk (w_files w) else []) @
        (case ownerPID (sy_busctl env []) of None \<Rightarrow> [] | Some pid \<Rightarrow> [ASignal pid]))"
      by (intro did_andThen did_if did_None did_stop[OF assms(2)])
    then show ?thesis
      using False did_andThen[OF did_mask[OF D]] by (simp only: takeOver_def takeOverActs_def if_False)
  qed
  then show ?thesis by blast
qed

subsection \<open>The installation\<close>

definition providerFor :: "sys_env \<Rightarrow> string \<Rightarrow> World \<Rightarrow> Provider" where
  "providerFor env mode w = (if mode \<noteq> ''remote'' then DetectProvider env w
     else \<lparr>pv_Kind = ProviderNone, pv_PID = 0, pv_Exe = [], pv_Desktop = []\<rparr>)"

definition installActs :: "string \<Rightarrow> string \<Rightarrow> string \<Rightarrow> string \<Rightarrow> string \<Rightarrow> string \<Rightarrow> bool \<Rightarrow> installInputs \<Rightarrow> Provider \<Rightarrow>
    int option \<Rightarrow> (string, string) gomap \<Rightarrow> files \<Rightarrow> act list" where
  "installActs U D A gk dir content start inp provider owner needed f =
     AMkdir (dirOf (in_configPath inp)) # AWrite (in_configPath inp) content #
     takeOverActs U D A gk (in_mode inp) provider owner f @ AMkdir dir # unitActs U needed allUnitNames f @ enableActs start (in_mode inp)"

lemma units_apart:
  "\<forall>n \<in> set allUnitNames. U @ ''/'' @ n \<noteq> D @ dbusServiceFile \<and> U @ ''/'' @ n \<noteq> (D @ dbusServiceFile) @ dbusBackupSuffix \<and>
     U @ ''/'' @ n \<noteq> A @ gkAutostart \<and> U @ ''/'' @ n \<noteq> (A @ gkAutostart) @ dbusBackupSuffix \<and> U @ ''/'' @ n \<noteq> U @ gkDropIn"
proof
  fix n assume n: "n \<in> set allUnitNames"
  have u: "U @ ''/'' @ n \<noteq> p" if "p \<in> {D @ dbusServiceFile, D @ dbusServiceFile @ dbusBackupSuffix, A @ gkAutostart, A @ gkAutostart @ dbusBackupSuffix, U @ gkDropIn}" for p
  proof
    assume "U @ ''/'' @ n = p"
    then have "p \<in> (\<lambda>n. U @ ''/'' @ n) ` set allUnitNames" using n by blast
    then show False using units_not_ours[OF that] by blast
  qed
  show "U @ ''/'' @ n \<noteq> D @ dbusServiceFile \<and> U @ ''/'' @ n \<noteq> (D @ dbusServiceFile) @ dbusBackupSuffix \<and>
     U @ ''/'' @ n \<noteq> A @ gkAutostart \<and> U @ ''/'' @ n \<noteq> (A @ gkAutostart) @ dbusBackupSuffix \<and> U @ ''/'' @ n \<noteq> U @ gkDropIn"
    unfolding append_assoc by (intro conjI u) (simp_all only: insert_iff simp_thms append_assoc)
qed

fun acted :: "act \<Rightarrow> string list" where
  "acted (AWrite p c) = [p]"
| "acted (ARename p q) = [p, q]"
| "acted (ARemove p) = [p]"
| "acted _ = []"

lemma effect_elsewhere: "p \<notin> set (acted a) \<Longrightarrow> effect a f p = f p"
  by (cases a) auto

lemma fold_effect_elsewhere: "p \<notin> set (concat (map acted acts)) \<Longrightarrow> fold effect acts f p = f p"
  by (induction acts arbitrary: f) (auto simp: effect_elsewhere)

abbreviation touched :: "act list \<Rightarrow> string set" where
  "touched acts \<equiv> set (concat (map acted acts))"

lemma touched_backup: "touched (backupActs p ours f) \<subseteq> {p, p @ dbusBackupSuffix}"
  by (simp only: backupActs_def split: if_split) simp

lemma touched_giveBack: "touched (giveBackActs p f) \<subseteq> {p, p @ dbusBackupSuffix}"
  by (simp only: giveBackActs_def split: if_split) simp

lemmas touched_simps = list.map concat.simps acted.simps set_append list.set concat_append map_append append_Nil append_Cons

lemma touched_append: "touched (a @ b) = touched a \<union> touched b"
  by simp

lemma touched_mask: "touched (maskActs D f) \<subseteq> {D @ dbusServiceFile, (D @ dbusServiceFile) @ dbusBackupSuffix}"
  using touched_backup[of "D @ dbusServiceFile" dbusActivationMask f] unfolding maskActs_def touched_simps by blast

lemma touched_unmask: "touched (unmaskActs D f) \<subseteq> {D @ dbusServiceFile, (D @ dbusServiceFile) @ dbusBackupSuffix}"
  unfolding unmaskActs_def Let_def by (simp only: touched_simps split: if_split) blast

lemma touched_demote: "touched (demoteActs U A gk f) \<subseteq> {A @ gkAutostart, (A @ gkAutostart) @ dbusBackupSuffix, U @ gkDropIn}"
  using touched_backup[of "A @ gkAutostart" gkAutostartShadow f] unfolding demoteActs_def touched_simps by blast

lemma touched_restore: "touched (restoreActs U A f) \<subseteq> {A @ gkAutostart, (A @ gkAutostart) @ dbusBackupSuffix, U @ gkDropIn}"
  using touched_giveBack[of "A @ gkAutostart" f] unfolding restoreActs_def Let_def
  by (simp only: touched_simps split: if_split) blast

lemma acted_takeOver:
  "touched (takeOverActs U D A gk mode provider owner f) \<subseteq>
     {D @ dbusServiceFile, (D @ dbusServiceFile) @ dbusBackupSuffix, A @ gkAutostart, (A @ gkAutostart) @ dbusBackupSuffix, U @ gkDropIn}"
proof (cases "mode = ''remote''")
  case True
  then show ?thesis
    using touched_unmask[of D f] touched_restore[of U A f] by (simp only: takeOverActs_def simp_thms if_True touched_append) blast
next
  case False
  have o: "touched (case owner of None \<Rightarrow> [] | Some pid \<Rightarrow> [ASignal pid]) = {}" by (cases owner) simp_all
  have d: "touched (if c then demoteActs U A gk f else []) \<subseteq> {A @ gkAutostart, (A @ gkAutostart) @ dbusBackupSuffix, U @ gkDropIn}" for c
    using touched_demote[of U A gk f] by (cases c) (simp_all only: if_True if_False touched_simps empty_subsetI)
  show ?thesis
    using False touched_mask[of D f] d[of "pv_Kind provider = ProviderGnomeKeyring"]
    by (simp only: takeOverActs_def if_False touched_append o) blast
qed

lemma did_install_steps:
  assumes p: "places env U D A" and s: "ownerStable env" and c: "in_configPath inp \<notin> set (ourPaths U D A)"
    and i: "resolveInstallInputs env opts = Inr inp"
    and b: "buildUnits env (in_mode inp) (in_execStart inp) (providerFor env (in_mode inp) w) (op_BackendPath opts) = Inr needed"
  shows "\<exists>gk content. did (Install env opts w) w
    (installActs U D A gk U content (op_Start opts) inp (providerFor env (in_mode inp) w) (ownerPID (sy_busctl env [])) needed (w_files w))"
proof -
  let ?c = "in_configPath inp" and ?prov = "providerFor env (in_mode inp) w" and ?own = "ownerPID (sy_busctl env [])"
  obtain gk where gk: "\<And>w. did (takeOver env (in_mode inp) ?prov w) w (takeOverActs U D A gk (in_mode inp) ?prov ?own (w_files w))"
    using did_takeOver[OF p s] by blast
  obtain content where u: "did (updateTopologyConfig env ?c (in_runtimeDir inp) (in_mode inp) w) w [AMkdir (dirOf ?c), AWrite ?c content]"
    using did_config by blast
  let ?w1 = "after [AMkdir (dirOf ?c), AWrite ?c content] w"
  have a1: "agree U D A (w_files ?w1) (w_files w)" using c by (auto simp: agree_def)
  have pr: "(if in_mode inp \<noteq> ''remote'' then DetectProvider env ?w1
              else \<lparr>pv_Kind = ProviderNone, pv_PID = 0, pv_Exe = [], pv_Desktop = []\<rparr>) = ?prov"
    using DetectProvider_stable[OF s] by (simp add: providerFor_def)
  let ?take = "takeOverActs U D A gk (in_mode inp) ?prov ?own (w_files w)"
  have take: "did (takeOver env (in_mode inp) ?prov ?w1) ?w1 ?take"
    using gk[of ?w1] takeOverActs_cong[OF a1] by simp
  let ?w2 = "after [AMkdir U] (after ?take ?w1)"
  have f2: "\<forall>n \<in> set allUnitNames. w_files ?w2 (U @ ''/'' @ n) = w_files w (U @ ''/'' @ n)"
  proof
    fix n assume n: "n \<in> set allUnitNames"
    have "fold effect ?take (w_files ?w1) (U @ ''/'' @ n) = w_files ?w1 (U @ ''/'' @ n)"
      by (rule fold_effect_elsewhere) (use acted_takeOver units_apart n in blast)
    then show "w_files ?w2 (U @ ''/'' @ n) = w_files w (U @ ''/'' @ n)"
      using agree_paths(6)[OF a1 n] by simp
  qed
  have d: "distinct allUnitNames" by (simp add: allUnitNames_def)
  have units: "did (installUnits env U needed allUnitNames ?w2) ?w2 (unitActs U needed allUnitNames (w_files w))"
    using did_units[OF d, of env U needed ?w2] unitActs_cong[OF f2] by simp
  have U: "unitDir env = Inr U" using p by (simp add: places_def)
  have tail: "did (andThen (wrapping ''create unit dir'' (perform env (AMkdir U) (after ?take ?w1)))
        (\<lambda>w. andThen (installUnits env U needed allUnitNames w) (enableUnits env (op_Start opts) (in_mode inp)))) (after ?take ?w1)
      (AMkdir U # unitActs U needed allUnitNames (w_files w) @ enableActs (op_Start opts) (in_mode inp))"
    by (intro did_step did_wrapping did_perform did_andThen units did_enable)
  have rest: "did (let provider = (if in_mode inp \<noteq> ''remote'' then DetectProvider env ?w1
                              else \<lparr>pv_Kind = ProviderNone, pv_PID = 0, pv_Exe = [], pv_Desktop = []\<rparr>)
              in andThen (takeOver env (in_mode inp) provider ?w1)
             (\<lambda>w. case (buildUnits env (in_mode inp) (in_execStart inp) provider (op_BackendPath opts), unitDir env) of
                    (Inl e, _) \<Rightarrow> (Some e, w)
                  | (_, Inl e) \<Rightarrow> (Some e, w)
                  | (Inr needed, Inr dir) \<Rightarrow>
                      andThen (wrapping ''create unit dir'' (perform env (AMkdir dir) w))
                     (\<lambda>w. andThen (installUnits env dir needed allUnitNames w)
                     (\<lambda>w. enableUnits env (op_Start opts) (in_mode inp) w)))) ?w1
      (?take @ AMkdir U # unitActs U needed allUnitNames (w_files w) @ enableActs (op_Start opts) (in_mode inp))"
    unfolding pr Let_def b U sum.case prod.case by (rule did_andThen, rule take, rule tail)
  have "did (Install env opts w) w ([AMkdir (dirOf ?c), AWrite ?c content] @
      ?take @ AMkdir U # unitActs U needed allUnitNames (w_files w) @ enableActs (op_Start opts) (in_mode inp))"
    unfolding Install_def i sum.case by (rule did_andThen, rule u, rule rest)
  then show ?thesis unfolding installActs_def by auto
qed

subsection \<open>What the user sees of an action\<close>

text \<open>Directories, the bus reload and the stopping of a stale unit, noted on its removal, are not listed.\<close>

fun shown :: "Provider \<Rightarrow> act \<Rightarrow> (string \<times> string) list" where
  "shown p (AWrite path c) = [(''write'', path)]"
| "shown p (ARename q r) = [(if r = q @ dbusBackupSuffix then ''backup'' else ''restore'', q)]"
| "shown p (ARemove path) = [(''remove'', path)]"
| "shown p (ARun args) =
     (if take 1 args = [''stop''] \<or> take 1 args = [''disable''] then [] else [(''run'', ''systemctl --user '' @ Join args '' '')])"
| "shown p (ASignal pid) = [(''signal'', ''SIGTERM -> pid '' @ dec (nat pid) @ '' ('' @ kindText (pv_Kind p) @ '')'')]"
| "shown p _ = []"

definition seen :: "Provider \<Rightarrow> act list \<Rightarrow> (string \<times> string) list" where
  "seen p acts = concat (map (shown p) acts)"

definition visible :: "Change \<Rightarrow> string \<times> string" where
  "visible c = (ch_Op c, ch_Target c)"

lemma seen_simps: "seen p [] = []" "seen p (a # acts) = shown p a @ seen p acts" "seen p (acts @ acts') = seen p acts @ seen p acts'"
  by (simp_all add: seen_def)

lemma visible_change: "visible (change op target note) = (op, target)"
  by (simp add: visible_def change_def)

lemma seen_if: "seen p (if c then a else b) = (if c then seen p a else seen p b)"
  by simp

lemma map_if: "map g (if c then a else b) = (if c then map g a else map g b)"
  by simp

lemma restore_not_backup: "(q :: string) \<noteq> (q @ s) @ s" if "s \<noteq> []"
  using that by simp

lemmas seen_rules = seen_simps seen_if map_if map_append list.map visible_change shown.simps append_Nil append_Cons append_Nil2

lemma seen_backup: "seen p (backupActs path ours f) = map visible (planBackup f path ours)"
  by (cases "f path") (simp_all add: backupActs_def planBackup_def seen_simps visible_change)

lemma seen_mask: "seen p (maskActs D f) = map visible (planBackup f (D @ dbusServiceFile) dbusActivationMask @
    [change ''write'' (D @ dbusServiceFile) nt])"
  unfolding maskActs_def seen_rules seen_backup ..

lemma seen_demote: "seen p (demoteActs U A gk f) = map visible ([change ''write'' (U @ gkDropIn) n1] @ planBackup f (A @ gkAutostart) gkAutostartShadow @
    [change ''write'' (A @ gkAutostart) n2, change ''run'' ''systemctl --user daemon-reload'' n3,
     change ''run'' (''systemctl --user try-restart '' @ gkServiceUnit) n4])"
  unfolding demoteActs_def seen_rules seen_backup by simp

lemma seen_unmask: "seen p (unmaskActs D f) = map visible
    (if f (D @ dbusServiceFile) = Some dbusActivationMask then
        (if f ((D @ dbusServiceFile) @ dbusBackupSuffix) \<noteq> None
         then [change ''restore'' ((D @ dbusServiceFile) @ dbusBackupSuffix) n1]
         else [change ''remove'' (D @ dbusServiceFile) n2])
      else [])"
  unfolding unmaskActs_def Let_def seen_rules using restore_not_backup[of dbusBackupSuffix "D @ dbusServiceFile"] by simp

lemma seen_restore: "seen p (restoreActs U A f) = map visible
    ((if f (U @ gkDropIn) \<noteq> None then [change ''remove'' (U @ gkDropIn) n1] else []) @
     (if f (A @ gkAutostart) = Some gkAutostartShadow then
        [change ''remove'' (A @ gkAutostart) n2] @
        (if f ((A @ gkAutostart) @ dbusBackupSuffix) \<noteq> None then [change ''restore'' ((A @ gkAutostart) @ dbusBackupSuffix) n3] else [])
      else []) @
     (if f (U @ gkDropIn) \<noteq> None \<or> f (A @ gkAutostart) = Some gkAutostartShadow then
        [change ''run'' ''systemctl --user daemon-reload'' [],
         change ''run'' (''systemctl --user try-restart '' @ gkServiceUnit) n4]
      else []))"
  unfolding restoreActs_def giveBackActs_def Let_def seen_rules using restore_not_backup[of dbusBackupSuffix "A @ gkAutostart"] by simp

lemma seen_units: "seen p (unitActs U needed names f) = map visible (planUnits f U needed names)"
  by (induction names) (auto simp: seen_simps visible_change Let_def split: option.splits)

lemma seen_enable: "seen p (enableActs start mode) = map visible (planEnable start mode)"
  unfolding enableActs_def planEnable_def seen_rules by simp

lemma ownerPID_positive: "ownerPID out = Some pid \<Longrightarrow> 0 < pid"
  by (auto simp: ownerPID_def split: sum.splits if_splits option.splits)

lemma Detect_PID: "pv_PID (DetectProvider env w) = (case ownerPID (sy_busctl env (w_log w)) of None \<Rightarrow> 0 | Some pid \<Rightarrow> pid)"
  by (simp add: DetectProvider_def Let_def split: option.splits)

lemma seen_signal:
  assumes "ownerStable env" and "pv_Kind (DetectProvider env w) \<noteq> ProviderDispatcher"
  defines "p \<equiv> DetectProvider env w"
  shows "seen p (case ownerPID (sy_busctl env []) of None \<Rightarrow> [] | Some pid \<Rightarrow> [ASignal pid]) = map visible
     (if pv_PID p > 0 \<and> pv_Kind p \<noteq> ProviderDispatcher then
        [change ''signal'' (''SIGTERM -> pid '' @ dec (nat (pv_PID p)) @ '' ('' @ kindText (pv_Kind p) @ '')'') n]
      else [])"
proof -
  have "sy_busctl env (w_log w) = sy_busctl env []" using assms(1) by (simp add: ownerStable_def)
  then have pid: "pv_PID p = (case ownerPID (sy_busctl env []) of None \<Rightarrow> 0 | Some pid \<Rightarrow> pid)" by (simp add: p_def Detect_PID)
  show ?thesis
    using assms(2) ownerPID_positive by (cases "ownerPID (sy_busctl env [])") (simp_all add: pid p_def[symmetric] seen_simps visible_change)
qed

lemma Install_builds:
  assumes "ownerStable env" and "resolveInstallInputs env opts = Inr inp" and "Install env opts w = (None, w')"
  shows "\<exists>needed. buildUnits env (in_mode inp) (in_execStart inp) (providerFor env (in_mode inp) w) (op_BackendPath opts) = Inr needed"
proof (rule ccontr)
  let ?prov = "providerFor env (in_mode inp) w"
  assume "\<not> ?thesis"
  then obtain e where e: "buildUnits env (in_mode inp) (in_execStart inp) ?prov (op_BackendPath opts) = Inl e"
    by (cases "buildUnits env (in_mode inp) (in_execStart inp) ?prov (op_BackendPath opts)") auto
  have pr: "(if in_mode inp \<noteq> ''remote'' then DetectProvider env w1
      else \<lparr>pv_Kind = ProviderNone, pv_PID = 0, pv_Exe = [], pv_Desktop = []\<rparr>) = ?prov" for w1
    using DetectProvider_stable[OF assms(1)] by (simp add: providerFor_def)
  have fails: "fst (andThen r (\<lambda>w. (Some e, w))) \<noteq> None" for r
    by (cases r; cases "fst r") (auto simp: andThen_def)
  have fails2: "fst (andThen r f) \<noteq> None" if "\<And>w. fst (f w) \<noteq> None" for r f
    using that by (cases r; cases "fst r") (auto simp: andThen_def)
  have "fst (Install env opts w) \<noteq> None"
    unfolding Install_def assms(2) sum.case Let_def pr e prod.case by (intro fails2 fails)
  then show False by (simp add: assms(3))
qed

lemma seen_takeOver:
  assumes "ownerStable env" and "pv_Kind (DetectProvider env w) \<noteq> ProviderDispatcher"
  defines "p \<equiv> DetectProvider env w"
  shows "seen p (takeOverActs U D A gk mode (providerFor env mode w) (ownerPID (sy_busctl env [])) f) = map visible
    (if mode = ''remote'' then planRelease f (D @ dbusServiceFile) (U @ gkDropIn) (A @ gkAutostart)
     else planTakeover f (providerFor env mode w) (D @ dbusServiceFile) (U @ gkDropIn) (A @ gkAutostart))"
proof (cases "mode = ''remote''")
  case True
  then show ?thesis
    unfolding takeOverActs_def planRelease_def seen_simps map_append if_P[OF True]
    by (simp only: map_append append_assoc
      seen_unmask[where ?n1.0 = "''-> '' @ D @ dbusServiceFile" and ?n2.0 = "''D-Bus activation mask''", unfolded append_assoc]
      seen_restore[where ?n1.0 = "''gnome-keyring demotion drop-in''" and ?n2.0 = "''autostart shadow''" and
        ?n3.0 = "''-> '' @ A @ gkAutostart" and ?n4.0 = "''restart with all components''", unfolded append_assoc map_append])
next
  case False
  then have pr: "providerFor env mode w = p" by (simp add: providerFor_def p_def)
  let ?n1 = "''demote gnome-keyring to pkcs11-only (secrets move to the private backend)''"
    and ?n2 = "''hide the gnome-keyring secrets autostart kicker (Hidden=true)''" and ?n4 = "''restart without the secrets component''"
  have d: "seen p (if c then demoteActs U A gk f else []) = map visible (if c then
        [change ''write'' (U @ gkDropIn) ?n1] @ planBackup f (A @ gkAutostart) gkAutostartShadow @
        [change ''write'' (A @ gkAutostart) ?n2, change ''run'' ''systemctl --user daemon-reload'' [],
         change ''run'' (''systemctl --user try-restart '' @ gkServiceUnit) ?n4] else [])" for c
    by (cases c) (simp_all only: if_True if_False seen_demote[of p U A gk f ?n1 ?n2 "[]" ?n4] seen_simps list.map)
  show ?thesis
    unfolding takeOverActs_def planTakeover_def pr seen_simps map_append if_not_P[OF False]
      d seen_signal[OF assms(1,2), folded p_def, where n = "''current owner of org.freedesktop.secrets''"]
      seen_mask[where nt = "''mask D-Bus activation of org.freedesktop.secrets''"]
    by (simp only: map_append append_assoc)
qed


subsection \<open>An installation on which nothing fails\<close>

definition calm :: "sys_env \<Rightarrow> bool" where
  "calm env \<longleftrightarrow> (\<forall>log a. sy_fail env log a = None)"

definition succeeds :: "outcome \<Rightarrow> bool" where
  "succeeds r \<longleftrightarrow> fst r = None"

lemma succeeds_None: "succeeds (None, w)"
  by (simp add: succeeds_def)

lemma succeeds_andThen: "succeeds r \<Longrightarrow> (\<And>w. succeeds (f w)) \<Longrightarrow> succeeds (andThen r f)"
  by (cases r) (auto simp: succeeds_def)

lemma succeeds_wrapping: "succeeds r \<Longrightarrow> succeeds (wrapping what r)"
  by (cases r) (auto simp: succeeds_def)

lemma succeeds_perform: "calm env \<Longrightarrow> succeeds (perform env a w)"
  by (simp add: calm_def succeeds_def perform_def)

lemma succeeds_systemctl: "calm env \<Longrightarrow> succeeds (systemctl env args w)"
  by (simp add: systemctl_def succeeds_perform)

lemma succeeds_if: "succeeds r \<Longrightarrow> succeeds r' \<Longrightarrow> succeeds (if c then r else r')"
  by simp

lemma succeeds_case: "(\<And>x. succeeds (g x)) \<Longrightarrow> succeeds r \<Longrightarrow> succeeds (case z of Some x \<Rightarrow> g x | None \<Rightarrow> r)"
  by (cases z) simp_all

lemmas succeeds_intros = succeeds_None succeeds_andThen succeeds_wrapping succeeds_perform succeeds_systemctl succeeds_if succeeds_case

lemma calm_takeOver:
  assumes "calm env" and "places env U D A" and "sy_lookPath env ''gnome-keyring-daemon'' = Inr gk"
  shows "succeeds (takeOver env mode provider w)"
proof -
  have d: "unitDir env = Inr U" "dbusServiceDir env = Inr D" "autostartDir env = Inr A" using assms(2) by (simp_all add: places_def)
  show ?thesis
    unfolding takeOver_def maskDBusActivation_def unmaskDBusActivation_def demoteGnomeKeyring_def restoreGnomeKeyring_def d assms(3)
      sum.case prod.case Let_def
    by (intro succeeds_intros assms(1))
qed

lemma calm_units: "calm env \<Longrightarrow> succeeds (installUnits env U needed names w)"
  by (induction names arbitrary: w) (auto simp: Let_def intro!: succeeds_intros)

lemma calm_install:
  assumes "calm env" and "places env U D A" and "ownerStable env" and "sy_lookPath env ''gnome-keyring-daemon'' = Inr gk"
    and "resolveInstallInputs env opts = Inr inp" and "updateTopologyConfig env (in_configPath inp) (in_runtimeDir inp) (in_mode inp) w = (None, w1)"
    and "buildUnits env (in_mode inp) (in_execStart inp) (providerFor env (in_mode inp) w) (op_BackendPath opts) = Inr needed"
  shows "succeeds (Install env opts w)"
proof -
  have pr: "(if in_mode inp \<noteq> ''remote'' then DetectProvider env w1
      else \<lparr>pv_Kind = ProviderNone, pv_PID = 0, pv_Exe = [], pv_Desktop = []\<rparr>) = providerFor env (in_mode inp) w"
    using DetectProvider_stable[OF assms(3)] by (simp add: providerFor_def)
  have U: "unitDir env = Inr U" using assms(2) by (simp add: places_def)
  show ?thesis
    unfolding Install_def assms(5,6) sum.case andThen_None Let_def pr assms(7) U prod.case enableUnits_def
    by (intro succeeds_intros calm_takeOver[OF assms(1,2,4)] calm_units assms(1))
qed

lemma calm_sample: "Install calmDesktop (sampleOptions ''local'') sampleFiles = (None, snd (Install calmDesktop (sampleOptions ''local'') sampleFiles))"
proof -
  let ?inp = "\<lparr>in_mode = ''local'', in_runtimeDir = ''/r'', in_configPath = ''/cfg'', in_execStart = ''/b serve --config /cfg''\<rparr>"
  have stable: "ownerStable calmDesktop" by (simp add: ownerStable_def calmDesktop_def sampleDesktop_def)
  have gk: "sy_lookPath calmDesktop ''gnome-keyring-daemon'' = Inr ''/usr/bin/gnome-keyring-daemon''"
    by (simp add: calmDesktop_def sampleDesktop_def)
  have inp: "resolveInstallInputs calmDesktop (sampleOptions ''local'') = Inr ?inp"
    by (simp only: calm_fields) (simp add: resolveInstallInputs_def sampleOptions_def sampleDesktop_def Let_def)
  have u: "updateTopologyConfig calmDesktop ''/cfg'' ''/r'' ''local'' sampleFiles = (None, snd (updateTopologyConfig calmDesktop ''/cfg'' ''/r'' ''local'' sampleFiles))"
    by (simp add: updateTopologyConfig_def fileAt_def Load_def calmDesktop_def sampleDesktop_def sampleFiles_def perform_def andThen_def wrapping_def)
  have p: "providerFor calmDesktop ''local'' sampleFiles = DetectProvider sampleDesktop sampleFiles"
    by (simp add: providerFor_def calm_provider)
  have b: "\<exists>needed. buildUnits calmDesktop ''local'' x (providerFor calmDesktop ''local'' sampleFiles) [] = Inr needed" for x
    unfolding p sample_provider
    by (simp add: buildUnits_def resolveBackendExec_def ContainsByte_def calmDesktop_def sampleDesktop_def)
  then obtain needed where needed: "buildUnits calmDesktop (in_mode ?inp) (in_execStart ?inp) (providerFor calmDesktop (in_mode ?inp) sampleFiles)
      (op_BackendPath (sampleOptions ''local'')) = Inr needed"
    by (simp add: sampleOptions_def) blast
  have "succeeds (Install calmDesktop (sampleOptions ''local'') sampleFiles)"
    by (rule calm_install[OF _ calm_places stable gk inp _ needed]) (use u in \<open>simp_all add: calm_def\<close>)
  then show ?thesis by (simp add: succeeds_def prod_eq_iff)
qed


end
