(* ===== verification/Service_Findings.thy ===== *)
theory Service_Findings
  imports Service_Dryrun
begin

text \<open>Where the installer falls short of what it promises: each theorem names a way.\<close>

subsection \<open>A write that fails after the backup\<close>

text \<open>
  When the mask cannot be written after the user's service file was moved away, removing the installation does
  not bring it back: \<open>unmaskDBusActivation\<close> restores the backup only when it finds the mask.
\<close>

theorem failed_mask_loses_user_file:
  assumes "dbusServiceDir env = Inr D" and "w_files w (D @ dbusServiceFile) = Some mine" and "mine \<noteq> dbusActivationMask"
    and "\<forall>log. sy_fail env log (ARename (D @ dbusServiceFile) (D @ dbusServiceFile @ dbusBackupSuffix)) = None"
    and "\<forall>log. sy_fail env log (AMkdir D) = None"
    and "\<forall>log. sy_fail env log (AWrite (D @ dbusServiceFile) dbusActivationMask) \<noteq> None"
  defines "w' \<equiv> snd (unmaskDBusActivation env (snd (maskDBusActivation env w)))"
  shows "fst (maskDBusActivation env w) \<noteq> None" and "w_files w' (D @ dbusServiceFile) = None"
    and "w_files w' (D @ dbusServiceFile @ dbusBackupSuffix) = Some mine"
proof -
  let ?m = "D @ dbusServiceFile" and ?b = "D @ dbusServiceFile @ dbusBackupSuffix"
  define err where "err log = the (sy_fail env log (AWrite ?m dbusActivationMask))" for log
  have err: "sy_fail env log (AWrite ?m dbusActivationMask) = Some (err log)" for log
    unfolding err_def by (rule option.collapse[OF spec[OF assms(6)], symmetric])
  let ?moved = "(w_files w)(?m := None, ?b \<mapsto> mine)"
  define l where "l = w_log w @ [ARename ?m ?b]"
  have p1: "perform env (ARename ?m (?m @ dbusBackupSuffix)) w = (None, w\<lparr>w_files := ?moved, w_log := l\<rparr>)"
    using assms(2,4) by (simp add: perform_def l_def)
  have p2: "perform env (AMkdir D) (w\<lparr>w_files := ?moved, w_log := l\<rparr>) = (None, w\<lparr>w_files := ?moved, w_log := l @ [AMkdir D]\<rparr>)"
    using assms(5) by (simp add: perform_def)
  have p3: "perform env (AWrite ?m dbusActivationMask) (w\<lparr>w_files := ?moved, w_log := l @ [AMkdir D]\<rparr>) =
      (Some (err (l @ [AMkdir D])), w\<lparr>w_files := ?moved, w_log := l @ [AMkdir D] @ [AWrite ?m dbusActivationMask]\<rparr>)"
    by (simp add: perform_def err)
  have "\<exists>e l. maskDBusActivation env w = (Some e, w\<lparr>w_files := ?moved, w_log := l\<rparr>)"
    unfolding maskDBusActivation_def assms(1,2) sum.case option.case Let_def if_P[OF assms(3)] p1 wrapping_None andThen_None p2 p3
    by (simp only: wrapping_def andThen_def prod.case option.case) (rule exI, rule exI, rule refl)
  then obtain e l where m: "maskDBusActivation env w = (Some e, w\<lparr>w_files := (w_files w)(?m := None, ?b \<mapsto> mine), w_log := l\<rparr>)" by blast
  have u: "w' = w\<lparr>w_files := (w_files w)(?m := None, ?b \<mapsto> mine), w_log := l\<rparr>"
    using assms(1) by (simp add: w'_def m unmaskDBusActivation_def Let_def)
  show "fst (maskDBusActivation env w) \<noteq> None" by (simp add: m)
  show "w_files w' ?m = None" by (simp add: u)
  show "w_files w' ?b = Some mine" by (simp add: u)
qed

subsection \<open>The backend is looked for after the take-over\<close>

lemma takeOver_masks:
  assumes "fileSafe env" and "places env U D A" and "mode \<noteq> ''remote''"
  shows "w_files (snd (takeOver env mode provider w)) (D @ dbusServiceFile) = Some dbusActivationMask"
proof -
  let ?P = "\<lambda>f. f (D @ dbusServiceFile) = Some dbusActivationMask"
  have D: "dbusServiceDir env = Inr D" and UA: "unitDir env = Inr U" "autostartDir env = Inr A"
    using assms(2) by (simp_all add: places_def)
  have mask: "?P (w_files (snd (maskDBusActivation env w)))" for w
    unfolding mask_files[OF assms(1) D] by (simp add: Let_def)
  note ne = mask_shadow_apart(1,3)[of D A] mask_dropIn_apart(1)[of D U]
  have demote: "?P (w_files (snd (demoteGnomeKeyring env w)))" if "?P (w_files w)" for w
    using that ne unfolding demote_files[OF assms(1) UA] by (auto simp: Let_def split: sum.splits)
  show ?thesis
    unfolding takeOver_def if_not_P[OF assms(3)]
    by (rule andThen_files[where P = ?P, OF mask], rule andThen_files[where P = ?P]) (auto intro: demote)
qed

text \<open>
  When the backend cannot be resolved, \<open>Install\<close> fails, as \<open>Plan\<close> does; but the D-Bus activation of the
  previous provider stays masked, with no unit installed to answer in its place.
\<close>

theorem failed_install_leaves_mask:
  assumes "fileSafe env" and "places env U D A" and "ownerStable env" and "resolveInstallInputs env opts = Inr inp"
    and "in_mode inp \<noteq> ''remote''" and "fst (updateTopologyConfig env (in_configPath inp) (in_runtimeDir inp) (in_mode inp) w) = None"
    and "buildUnits env (in_mode inp) (in_execStart inp) (DetectProvider env w) (op_BackendPath opts) = Inl e"
  shows "fst (Install env opts w) \<noteq> None" and "Plan env opts w = Inl e"
    and "w_files (snd (Install env opts w)) (D @ dbusServiceFile) = Some dbusActivationMask"
proof -
  obtain w1 where u: "updateTopologyConfig env (in_configPath inp) (in_runtimeDir inp) (in_mode inp) w = (None, w1)"
    using assms(6) by (cases "updateTopologyConfig env (in_configPath inp) (in_runtimeDir inp) (in_mode inp) w") simp
  have pr: "DetectProvider env w1 = DetectProvider env w" by (rule DetectProvider_stable[OF assms(3)])
  have i: "Install env opts w = andThen (takeOver env (in_mode inp) (DetectProvider env w) w1) (\<lambda>w. (Some e, w))"
    using assms(5) by (simp add: Install_def assms(4,7) u pr)
  let ?t = "takeOver env (in_mode inp) (DetectProvider env w) w1"
  show "fst (Install env opts w) \<noteq> None" unfolding i by (cases ?t; cases "fst ?t") (auto simp: andThen_def)
  show "w_files (snd (Install env opts w)) (D @ dbusServiceFile) = Some dbusActivationMask"
    unfolding i using takeOver_masks[OF assms(1,2,5), of "DetectProvider env w" w1]
    by (cases ?t; cases "fst ?t") (auto simp: andThen_def)
  show "Plan env opts w = Inl e"
    using assms(2,5) by (simp add: Plan_def places_def assms(4,7) Let_def)
qed

subsection \<open>Installing again\<close>

text \<open>
  Once the dispatcher owns the name, the default backend is gopass, also where the first installation found
  gnome-keyring: installing again without naming the backend replaces it.
\<close>

theorem reinstall_changes_backend:
  assumes "pv_Kind first = ProviderGnomeKeyring" and "pv_Kind second = ProviderDispatcher"
    and "sy_lookPath env ''gnome-keyring-daemon'' = Inr gk" and "sy_lookPath env ''gopass-secret'' = Inr gp"
  shows "resolveBackendExec env [] first = Inr (gk @ '' --foreground --components=secrets --control-directory=%t/secrets-dispatcher/keyring'')"
    and "resolveBackendExec env [] second = Inr (gp @ '' service --bus-address unix:path=%t/secrets-dispatcher/backend-bus.sock'')"
  using assms by (simp_all add: resolveBackendExec_def ContainsByte_def)

text \<open>\<open>Install\<close> signals the owner of the name also when it is the dispatcher itself; \<open>Plan\<close> does not list that.\<close>

theorem plan_hides_own_signal:
  assumes "pv_Kind provider = ProviderDispatcher" and "ownerPID (sy_busctl env (w_log w)) = Some pid"
  shows "\<forall>c \<in> set (planTakeover f provider m d s). ch_Op c \<noteq> ''signal''"
    and "ASignal pid \<in> set (w_log (stopDBusActivatedService env w))"
proof -
  show "\<forall>c \<in> set (planTakeover f provider m d s). ch_Op c \<noteq> ''signal''"
    by (auto simp: planTakeover_def planBackup_def change_def assms(1) split: option.split)
  show "ASignal pid \<in> set (w_log (stopDBusActivatedService env w))"
    using assms(2) by (simp add: stopDBusActivatedService_def perform_def ignoring_def split: option.split)
qed

text \<open>Any file at the drop-in's place is removed, whoever wrote it; the marker comment is not looked at.\<close>

theorem restore_removes_any_dropIn:
  assumes "fileSafe env" and "unitDir env = Inr U" and "autostartDir env = Inr A"
  shows "w_files (snd (restoreGnomeKeyring env w)) (U @ gkDropIn) = None"
  unfolding restore_files[OF assms] using shadow_dropIn_apart[of A U] by (simp add: Let_def)

end
