(* ===== verification/Cli_Client.thy ===== *)
theory Cli_Client
  imports Api_Handlers
begin

text \<open>
  The command-line client (\<^verbatim>\<open>internal/cli/client.go\<close>): list, history, show, approve and deny over the HTTP API, with
  request IDs completed from a prefix.  The HTTP transport and the JSON decoder are parameters; composed with the
  router of Api_Handlers, a command reaches exactly the request it names.
\<close>

subsection \<open>The client's own types\<close>

record CliProcess =
  cp_Name :: string
  cp_PID :: uint32
  cp_Exe :: string
  cp_Args :: "string list"
  cp_CWD :: string

record CliSender =
  cs_Sender :: string
  cs_PID :: uint32
  cs_UID :: uint32
  cs_UserName :: string
  cs_InvokerName :: string
  cs_ProcessChain :: "CliProcess list"

record CliItem =
  ci_Path :: string
  ci_Label :: string
  ci_Attributes :: "(string, string) gomap"

record CliGPG =
  cg_RepoName :: string
  cg_Kind :: string
  cg_CommitMsg :: string
  cg_Author :: string
  cg_Committer :: string
  cg_KeyID :: string
  cg_Fingerprint :: string
  cg_ChangedFiles :: "string list"
  cg_ParentHash :: string
  cg_TagName :: string
  cg_Target :: string
  cg_Pushee :: string

record CliRequest =
  cq_ID :: string
  cq_Client :: string
  cq_Items :: "CliItem list"
  cq_Session :: string
  cq_CreatedAt :: nanos
  cq_ExpiresAt :: nanos
  cq_Type :: string
  cq_SearchAttributes :: "(string, string) gomap"
  cq_GPGSignInfo :: "CliGPG option"
  cq_SenderInfo :: CliSender

record CliHistory =
  ch_Request :: CliRequest
  ch_Resolution :: string
  ch_ResolvedAt :: nanos

record ShowResult =
  sr_Request :: CliRequest
  sr_Resolution :: string
  sr_ResolvedAt :: nanos

text \<open>The two sides of a JSON document with the same field names: what the server encodes, as the client reads it.\<close>

definition cliProcess :: "ApiProcessInfo \<Rightarrow> CliProcess" where
  "cliProcess p = \<lparr>cp_Name = ap_Name p, cp_PID = ap_PID p, cp_Exe = ap_Exe p, cp_Args = ap_Args p, cp_CWD = ap_CWD p\<rparr>"

definition cliSender :: "ApiSenderInfo \<Rightarrow> CliSender" where
  "cliSender s = \<lparr>cs_Sender = as_Sender s, cs_PID = as_PID s, cs_UID = as_UID s, cs_UserName = as_UserName s,
     cs_InvokerName = as_InvokerName s, cs_ProcessChain = map cliProcess (as_ProcessChain s)\<rparr>"

definition cliItem :: "ApiItemInfo \<Rightarrow> CliItem" where
  "cliItem i = \<lparr>ci_Path = ai_Path i, ci_Label = ai_Label i, ci_Attributes = ai_Attributes i\<rparr>"

definition cliGPG :: "GPGSignInfo \<Rightarrow> CliGPG" where
  "cliGPG g = \<lparr>cg_RepoName = gi_RepoName g, cg_Kind = gi_Kind g, cg_CommitMsg = gi_CommitMsg g, cg_Author = gi_Author g,
     cg_Committer = gi_Committer g, cg_KeyID = gi_KeyID g, cg_Fingerprint = gi_Fingerprint g, cg_ChangedFiles = gi_ChangedFiles g,
     cg_ParentHash = gi_ParentHash g, cg_TagName = gi_TagName g, cg_Target = gi_Target g, cg_Pushee = gi_Pushee g\<rparr>"

definition cliRequest :: "PendingRequest \<Rightarrow> CliRequest" where
  "cliRequest r = \<lparr>cq_ID = pq_ID r, cq_Client = pq_Client r, cq_Items = map cliItem (pq_Items r), cq_Session = pq_Session r,
     cq_CreatedAt = pq_CreatedAt r, cq_ExpiresAt = pq_ExpiresAt r, cq_Type = pq_Type r,
     cq_SearchAttributes = pq_SearchAttributes r, cq_GPGSignInfo = map_option cliGPG (pq_GPGSignInfo r),
     cq_SenderInfo = cliSender (pq_SenderInfo r)\<rparr>"

definition cliHistory :: "ApiHistoryEntry \<Rightarrow> CliHistory" where
  "cliHistory e = \<lparr>ch_Request = cliRequest (ah_Request e), ch_Resolution = ah_Resolution e, ch_ResolvedAt = ah_ResolvedAt e\<rparr>"

subsection \<open>Transport\<close>

text \<open>
  A transport takes the verb, the URL and the \<open>Authorization\<close> header to an error or a response.  The decoder
  reads a body as the list of pending requests, as the history, or as an error message.
\<close>

record wire =
  wr_code :: int
  wr_status :: string
  wr_body :: string

type_synonym 'w transport = "string \<Rightarrow> string \<Rightarrow> string \<Rightarrow> 'w \<Rightarrow> (go_error + wire) \<times> 'w"

record cli_json =
  jl_pending :: "string \<Rightarrow> go_error + CliRequest list"
  jl_history :: "string \<Rightarrow> go_error + CliHistory list"
  jl_error :: "string \<Rightarrow> string option"

record Client =
  cc_baseURL :: string
  cc_token :: string

definition NewClient :: "string \<Rightarrow> string \<Rightarrow> Client" where
  "NewClient serverAddr token = \<lparr>cc_baseURL = ''http://'' @ serverAddr, cc_token = token\<rparr>"

definition httpGet :: "'w transport \<Rightarrow> Client \<Rightarrow> string \<Rightarrow> 'w \<Rightarrow> (go_error + wire) \<times> 'w" where
  "httpGet T c path = T ''GET'' (cc_baseURL c @ path) (''Bearer '' @ cc_token c)"

definition httpPost :: "'w transport \<Rightarrow> Client \<Rightarrow> string \<Rightarrow> 'w \<Rightarrow> (go_error + wire) \<times> 'w" where
  "httpPost T c path = T ''POST'' (cc_baseURL c @ path) (''Bearer '' @ cc_token c)"

definition parseError :: "cli_json \<Rightarrow> wire \<Rightarrow> go_error" where
  "parseError L resp =
     (case jl_error L (wr_body resp) of
        Some message \<Rightarrow> if message \<noteq> [] then ErrText message else ErrText (''request failed: '' @ wr_status resp)
      | None \<Rightarrow> ErrText (''request failed: '' @ wr_status resp))"

subsection \<open>Operations\<close>

definition ListRequests :: "'w transport \<Rightarrow> cli_json \<Rightarrow> Client \<Rightarrow> 'w \<Rightarrow> (go_error + CliRequest list) \<times> 'w" where
  "ListRequests T L c w =
     (case httpGet T c ''/api/v1/pending'' w of
        (Inl e, w) \<Rightarrow> (Inl e, w)
      | (Inr resp, w) \<Rightarrow>
          if wr_code resp \<noteq> StatusOK then (Inl (parseError L resp), w)
          else (case jl_pending L (wr_body resp) of
                  Inl e \<Rightarrow> (Inl (ErrText (''decode response: '' @ error_text e)), w)
                | Inr rs \<Rightarrow> (Inr rs, w)))"

definition ClientHistory :: "'w transport \<Rightarrow> cli_json \<Rightarrow> Client \<Rightarrow> 'w \<Rightarrow> (go_error + CliHistory list) \<times> 'w" where
  "ClientHistory T L c w =
     (case httpGet T c ''/api/v1/log'' w of
        (Inl e, w) \<Rightarrow> (Inl e, w)
      | (Inr resp, w) \<Rightarrow>
          if wr_code resp \<noteq> StatusOK then (Inl (parseError L resp), w)
          else (case jl_history L (wr_body resp) of
                  Inl e \<Rightarrow> (Inl (ErrText (''decode response: '' @ error_text e)), w)
                | Inr es \<Rightarrow> (Inr es, w)))"

definition noMatch :: "string \<Rightarrow> go_error" where
  "noMatch i = ErrText (''no request found matching: '' @ i)"

definition ambiguous :: "string \<Rightarrow> nat \<Rightarrow> go_error" where
  "ambiguous i n = ErrText (''ambiguous ID '' @ quoted i @ '' matches '' @ dec n @ '' requests'')"

text \<open>The loop over the pending requests: \<open>Inl\<close> the exact match, or the requests the ID is a prefix of.\<close>

fun resolve_loop :: "string \<Rightarrow> string list \<Rightarrow> CliRequest list \<Rightarrow> string + string list" where
  "resolve_loop partial matches [] = Inr matches"
| "resolve_loop partial matches (r # rs) =
     (if cq_ID r = partial then Inl partial
      else resolve_loop partial (if HasPrefix (cq_ID r) partial then matches @ [cq_ID r] else matches) rs)"

definition resolveID :: "'w transport \<Rightarrow> cli_json \<Rightarrow> Client \<Rightarrow> string \<Rightarrow> 'w \<Rightarrow> (go_error + string) \<times> 'w" where
  "resolveID T L c partial w =
     (case ListRequests T L c w of
        (Inl e, w) \<Rightarrow> (Inl e, w)
      | (Inr rs, w) \<Rightarrow>
          (case resolve_loop partial [] rs of
             Inl i \<Rightarrow> (Inr i, w)
           | Inr [] \<Rightarrow> (Inl (noMatch partial), w)
           | Inr [i] \<Rightarrow> (Inr i, w)
           | Inr ms \<Rightarrow> (Inl (ambiguous partial (length ms)), w)))"

definition cliAction :: "'w transport \<Rightarrow> cli_json \<Rightarrow> Client \<Rightarrow> string \<Rightarrow> string \<Rightarrow> 'w \<Rightarrow> go_error option \<times> 'w" where
  "cliAction T L c i act w =
     (case httpPost T c (''/api/v1/pending/'' @ i @ ''/'' @ act) w of
        (Inl e, w) \<Rightarrow> (Some e, w)
      | (Inr resp, w) \<Rightarrow> if wr_code resp \<noteq> StatusOK then (Some (parseError L resp), w) else (None, w))"

definition cliResolve :: "'w transport \<Rightarrow> cli_json \<Rightarrow> Client \<Rightarrow> string \<Rightarrow> string \<Rightarrow> 'w \<Rightarrow> go_error option \<times> 'w" where
  "cliResolve T L c act i w =
     (case resolveID T L c i w of (Inl e, w) \<Rightarrow> (Some e, w) | (Inr fullID, w) \<Rightarrow> cliAction T L c fullID act w)"

definition ClientApprove :: "'w transport \<Rightarrow> cli_json \<Rightarrow> Client \<Rightarrow> string \<Rightarrow> 'w \<Rightarrow> go_error option \<times> 'w" where
  "ClientApprove T L c i = cliResolve T L c ''approve'' i"

definition ClientDeny :: "'w transport \<Rightarrow> cli_json \<Rightarrow> Client \<Rightarrow> string \<Rightarrow> 'w \<Rightarrow> go_error option \<times> 'w" where
  "ClientDeny T L c i = cliResolve T L c ''deny'' i"

text \<open>\<open>Show\<close>: both loops, first match exact.\<close>

fun show_loop :: "string \<Rightarrow> ShowResult list \<Rightarrow> ShowResult list \<Rightarrow> ShowResult + ShowResult list" where
  "show_loop i matches [] = Inr matches"
| "show_loop i matches (r # rs) =
     (if cq_ID (sr_Request r) = i then Inl r
      else show_loop i (if HasPrefix (cq_ID (sr_Request r)) i then matches @ [r] else matches) rs)"

definition showPending :: "CliRequest \<Rightarrow> ShowResult" where
  "showPending r = \<lparr>sr_Request = r, sr_Resolution = [], sr_ResolvedAt = 0\<rparr>"

definition showEntry :: "CliHistory \<Rightarrow> ShowResult" where
  "showEntry e = \<lparr>sr_Request = ch_Request e, sr_Resolution = ch_Resolution e, sr_ResolvedAt = ch_ResolvedAt e\<rparr>"

definition Show :: "'w transport \<Rightarrow> cli_json \<Rightarrow> Client \<Rightarrow> string \<Rightarrow> 'w \<Rightarrow> (go_error + ShowResult) \<times> 'w" where
  "Show T L c i w =
     (case ListRequests T L c w of
        (Inl e, w) \<Rightarrow> (Inl e, w)
      | (Inr requests, w) \<Rightarrow>
     (case ClientHistory T L c w of
        (Inl e, w) \<Rightarrow> (Inl e, w)
      | (Inr entries, w) \<Rightarrow>
     (case show_loop i [] (map showPending requests) of
        Inl r \<Rightarrow> (Inr r, w)
      | Inr matches \<Rightarrow>
     (case show_loop i matches (map showEntry entries) of
        Inl r \<Rightarrow> (Inr r, w)
      | Inr [] \<Rightarrow> (Inl (noMatch i), w)
      | Inr [r] \<Rightarrow> (Inr r, w)
      | Inr ms \<Rightarrow> (Inl (ambiguous i (length ms)), w)))))"

subsection \<open>Which request an abbreviation names\<close>

text \<open>The specification: a full ID names itself, a proper prefix the only pending request that has it.\<close>

definition named :: "string \<Rightarrow> string list \<Rightarrow> string option" where
  "named partial ids =
     (if partial \<in> set ids then Some partial
      else (case filter (\<lambda>i. HasPrefix i partial) ids of [i] \<Rightarrow> Some i | _ \<Rightarrow> None))"

lemma resolve_loop_spec:
  "resolve_loop partial ms rs =
     (if partial \<in> cq_ID ` set rs then Inl partial else Inr (ms @ filter (\<lambda>i. HasPrefix i partial) (map cq_ID rs)))"
  by (induction partial ms rs rule: resolve_loop.induct) auto

lemma resolveID_named:
  assumes "ListRequests T L c w = (Inr rs, w')"
  shows "resolveID T L c partial w = (case named partial (map cq_ID rs) of
      Some i \<Rightarrow> (Inr i, w')
    | None \<Rightarrow> (Inl (if \<exists>r \<in> set rs. HasPrefix (cq_ID r) partial
                  then ambiguous partial (length (filter (\<lambda>i. HasPrefix i partial) (map cq_ID rs))) else noMatch partial), w'))"
proof (cases "partial \<in> cq_ID ` set rs")
  case True
  then show ?thesis by (simp add: resolveID_def assms resolve_loop_spec named_def)
next
  case False
  let ?ms = "filter (\<lambda>i. HasPrefix i partial) (map cq_ID rs)"
  have e: "?ms = [] \<longleftrightarrow> \<not> (\<exists>r \<in> set rs. HasPrefix (cq_ID r) partial)" by (auto simp: filter_empty_conv)
  show ?thesis
    using False e by (auto simp: resolveID_def assms resolve_loop_spec named_def split: list.splits)
qed

lemma named_mem: "named partial ids = Some i \<Longrightarrow> i \<in> set ids"
proof -
  assume n: "named partial ids = Some i"
  show ?thesis
  proof (cases "partial \<in> set ids")
    case True
    then show ?thesis using n by (simp add: named_def)
  next
    case False
    then have "filter (\<lambda>i. HasPrefix i partial) ids = [i]" using n by (auto simp: named_def split: list.splits)
    then have "i \<in> set (filter (\<lambda>i. HasPrefix i partial) ids)" by simp
    then show ?thesis by simp
  qed
qed

subsection \<open>The client in front of the daemon\<close>

text \<open>
  The transport when the daemon listens at \<open>base\<close>: the path is routed by \<open>rootMux\<close>, the response is encoded.  A
  handler that panics drops the connection.
\<close>

definition daemon :: "(resp_value \<Rightarrow> string) \<Rightarrow> (int \<Rightarrow> string) \<Rightarrow> Handlers \<Rightarrow> call_env \<Rightarrow> string \<Rightarrow> ApiState transport" where
  "daemon enc stat h ce base verb url auth s =
     (if \<not> HasPrefix url base then (Inl (ErrText ''connection refused''), s)
      else (case rootMux h ce \<lparr>hr_Method = verb, hr_Path = drop (length base) url, hr_Cookies = [], hr_Authorization = auth\<rparr> s of
         (Respond (Some resp), s) \<Rightarrow> (Inr \<lparr>wr_code = rp_code resp, wr_status = stat (rp_code resp), wr_body = enc (rp_value resp)\<rparr>, s)
       | (Respond None, s) \<Rightarrow> (Inl (ErrText ''EOF''), s)
       | (_, s) \<Rightarrow> (Inr \<lparr>wr_code = StatusOK, wr_status = stat StatusOK, wr_body = []\<rparr>, s)))"

text \<open>Documented behaviour of the JSON library: the client reads the fields the server wrote.\<close>

definition reads :: "cli_json \<Rightarrow> (resp_value \<Rightarrow> string) \<Rightarrow> PendingRequest list \<Rightarrow> bool" where
  "reads L enc rs \<longleftrightarrow> jl_pending L (enc (PendingListResponse rs)) = Inr (map cliRequest rs)"

fun verbOf :: "action \<Rightarrow> string" where
  "verbOf DoApproveAuto = ''approve-and-auto-approve''"
| "verbOf DoApprove = ''approve''"
| "verbOf DoDeny = ''deny''"
| "verbOf DoCancel = ''cancel''"

lemma verbOf_suffix: "actionSuffix act = ''/'' @ verbOf act"
  by (cases act) simp_all

lemma client_validated:
  "cc_token c = au_token a \<Longrightarrow> ValidateRequest a \<lparr>hr_Method = verb, hr_Path = p, hr_Cookies = [], hr_Authorization = ''Bearer '' @ cc_token c\<rparr>"
  by (simp add: ValidateRequest_iff)

lemma cliRequest_ID [simp]: "cq_ID (cliRequest r) = pq_ID r" and convertRequest_ID [simp]: "pq_ID (convertRequest q) = rq_ID q"
  by (simp_all add: cliRequest_def convertRequest_def)

lemma daemon_list:
  assumes "reads L enc (map convertRequest (ListPending (ce_now ce) (ap_mgr s)))" and "cc_token c = au_token (ap_auth s)"
  shows "ListRequests (daemon enc stat h ce (cc_baseURL c)) L c s =
    (Inr (map (cliRequest \<circ> convertRequest) (ListPending (ce_now ce) (ap_mgr s))), s)"
proof -
  let ?r = "\<lparr>hr_Method = ''GET'', hr_Path = ''/api/v1/pending'', hr_Cookies = [], hr_Authorization = ''Bearer '' @ cc_token c\<rparr>"
  have "Middleware (ap_auth s) ?r = None" using client_validated[OF assms(2)] by (simp only: Middleware_iff)
  then have "rootMux h ce ?r s = (Respond (Some (HandlePendingList (ce_now ce) ?r (ap_mgr s))), s)"
    by (simp add: rootMux_def apiMux_def Let_def HasPrefix_code)
  then show ?thesis
    using assms(1) by (simp add: ListRequests_def httpGet_def daemon_def HandlePendingList_def reads_def HasPrefix_append)
qed

lemma daemon_action:
  assumes "cc_token c = au_token (ap_auth s)" and "i \<noteq> []" and "CHR ''/'' \<notin> set i"
  shows "cliAction (daemon enc stat h ce (cc_baseURL c)) L c i (verbOf act) s =
    (case actionCall h ce act i (ap_mgr s) of
       (None, m) \<Rightarrow> (None, s\<lparr>ap_mgr := m\<rparr>)
     | (Some err, m) \<Rightarrow>
         (let resp = (if err = ErrNotFound then writeError ''request not found or expired'' StatusNotFound
                      else writeError (error_text err) StatusInternalServerError)
          in (Some (parseError L \<lparr>wr_code = rp_code resp, wr_status = stat (rp_code resp), wr_body = enc (rp_value resp)\<rparr>), s\<lparr>ap_mgr := m\<rparr>)))"
proof -
  let ?r = "\<lparr>hr_Method = ''POST'', hr_Path = actionPath act i, hr_Cookies = [], hr_Authorization = ''Bearer '' @ cc_token c\<rparr>"
  have p: "''/api/v1/pending/'' @ i @ ''/'' @ verbOf act = actionPath act i" by (simp add: actionPath_def verbOf_suffix)
  have "rootMux h ce ?r s =
    (case actionCall h ce act i (ap_mgr s) of
       (Some err, m) \<Rightarrow>
         (Respond (Some (if err = ErrNotFound then writeError ''request not found or expired'' StatusNotFound
                         else writeError (error_text err) StatusInternalServerError)), s\<lparr>ap_mgr := m\<rparr>)
     | (None, m) \<Rightarrow> (Respond (Some (writeJSON (ActionResponse (actionStatus act)))), s\<lparr>ap_mgr := m\<rparr>))"
    by (rule rootMux_action[OF client_validated[OF assms(1)] _ _ assms(2,3)]) simp_all
  then show ?thesis
    unfolding cliAction_def httpPost_def p daemon_def
    by (auto simp: HasPrefix_append Let_def split: prod.splits option.splits)
qed

lemma cliResolve_daemon:
  assumes "reads L enc (map convertRequest (ListPending (ce_now ce) (ap_mgr s)))" and "cc_token c = au_token (ap_auth s)" and "act \<in> {DoApprove, DoDeny}"
    and "\<forall>q \<in> set (ListPending (ce_now ce) (ap_mgr s)). rq_ID q \<noteq> [] \<and> CHR ''/'' \<notin> set (rq_ID q)"
  shows "case cliResolve (daemon enc stat h ce (cc_baseURL c)) L c (verbOf act) partial s of (err, s') \<Rightarrow>
    (case named partial (map rq_ID (ListPending (ce_now ce) (ap_mgr s))) of
       None \<Rightarrow> err \<noteq> None \<and> s' = s
     | Some i \<Rightarrow> s' = s\<lparr>ap_mgr := snd (actionCall h ce act i (ap_mgr s))\<rparr> \<and>
                 (err = None \<longleftrightarrow> fst (actionCall h ce act i (ap_mgr s)) = None))"
proof (cases "named partial (map rq_ID (ListPending (ce_now ce) (ap_mgr s)))")
  case None
  then show ?thesis
    using resolveID_named[OF daemon_list[OF assms(1,2), where stat = stat and h = h], of partial]
    by (simp add: cliResolve_def comp_def)
next
  case (Some i)
  have "i \<in> set (map rq_ID (ListPending (ce_now ce) (ap_mgr s)))" by (rule named_mem[OF Some])
  then have i: "i \<noteq> []" "CHR ''/'' \<notin> set i" using assms(4) by auto
  have "resolveID (daemon enc stat h ce (cc_baseURL c)) L c partial s = (Inr i, s)"
    using resolveID_named[OF daemon_list[OF assms(1,2), where stat = stat and h = h], of partial] Some by (simp add: comp_def)
  then show ?thesis
    using Some daemon_action[OF assms(2) i, of enc stat h ce L act]
    by (cases "actionCall h ce act i (ap_mgr s)"; cases "fst (actionCall h ce act i (ap_mgr s))") (simp_all add: cliResolve_def Let_def)
qed

text \<open>
  A command reaches exactly the request it names: with the daemon's token, \<open>approve\<close> or \<open>deny\<close> of a full ID, or
  of a prefix of exactly one pending request, makes that decision on that request in the daemon and
  reports success exactly if the decision was made; an unknown or ambiguous ID changes nothing and is an error.
\<close>

theorem cli_command_reaches_its_request:
  assumes "reads L enc (map convertRequest (ListPending (ce_now ce) (ap_mgr s)))" and "cc_token c = au_token (ap_auth s)" and "act \<in> {DoApprove, DoDeny}"
    and "\<forall>q \<in> set (ListPending (ce_now ce) (ap_mgr s)). rq_ID q \<noteq> [] \<and> CHR ''/'' \<notin> set (rq_ID q)"
  shows "case cliResolve (daemon enc stat h ce (cc_baseURL c)) L c (verbOf act) partial s of (err, s') \<Rightarrow>
    (case named partial (map rq_ID (ListPending (ce_now ce) (ap_mgr s))) of
       None \<Rightarrow> err \<noteq> None \<and> s' = s
     | Some i \<Rightarrow> s' = s\<lparr>ap_mgr := snd (actionCall h ce act i (ap_mgr s))\<rparr> \<and>
                 (err = None \<longleftrightarrow> fst (actionCall h ce act i (ap_mgr s)) = None))"
  by (rule cliResolve_daemon[OF assms])

definition exJson :: cli_json where
  "exJson = \<lparr>jl_pending = (\<lambda>b. Inr (map (cliRequest \<circ> convertRequest) (ListPending 110 exPending))), jl_history = (\<lambda>b. Inr []),
     jl_error = (\<lambda>b. None)\<rparr>"

theorem cli_command_reaches_its_request_witness:
  "fst (ClientDeny (daemon (\<lambda>v. ''{}'') (\<lambda>c. ''200 OK'') exHandlers exCall ''http://127.0.0.1:8484'') exJson
     (NewClient ''127.0.0.1:8484'' ''tok'') ''r'' exState) = None"
proof -
  let ?c = "NewClient ''127.0.0.1:8484'' ''tok''"
  have 1: "reads exJson (\<lambda>v. ''{}'') (map convertRequest (ListPending (ce_now exCall) (ap_mgr exState)))"
    by (simp add: reads_def exJson_def exCall_def exState_def)
  have 2: "cc_token ?c = au_token (ap_auth exState)" by code_simp
  have 3: "map rq_ID (ListPending 110 exPending) = [''r1'']" by code_simp
  have m: "ap_mgr exState = exPending" "ce_now exCall = 110" by (simp_all add: exState_def exCall_def)
  have 4: "\<forall>q \<in> set (ListPending (ce_now exCall) (ap_mgr exState)). rq_ID q \<noteq> [] \<and> CHR ''/'' \<notin> set (rq_ID q)"
    unfolding m by code_simp
  have 5: "named ''r'' [''r1''] = Some ''r1''" by code_simp
  have 6: "fst (Deny 110 ''r1'' exPending) = None" by code_simp
  show ?thesis
    using cli_command_reaches_its_request[OF 1 2 _ 4, where act = DoDeny and stat = "\<lambda>c. ''200 OK''" and h = exHandlers and partial = "''r''"]
    by (simp add: ClientDeny_def m 3 5 6 NewClient_def split: prod.splits)
qed

text \<open>
  A request that is resolved between the two queries of \<open>show\<close> is found in both answers; a prefix of its ID is
  then reported as ambiguous, although one request only has it.
\<close>

theorem show_counts_request_twice:
  assumes "ListRequests T L c w = (Inr [r], w1)" and "ClientHistory T L c w1 = (Inr [e], w2)"
    and "ch_Request e = r" and "HasPrefix (cq_ID r) i" and "i \<noteq> cq_ID r"
  shows "Show T L c i w = (Inl (ambiguous i 2), w2)"
proof -
  have ne: "cq_ID r \<noteq> i" using assms(5) by simp
  have p: "show_loop i [] (map showPending [r]) = Inr [showPending r]"
    using ne assms(4) by (simp add: showPending_def)
  have e: "show_loop i [showPending r] (map showEntry [e]) = Inr [showPending r, showEntry e]"
    using ne assms(4) by (simp add: showEntry_def assms(3))
  have n: "length [showPending r, showEntry e] = 2" by simp
  show ?thesis
    unfolding Show_def assms(1,2) prod.case sum.case p e list.case n ..
qed

end
