(* ===== verification/Cli_Format.thy ===== *)
theory Cli_Format
  imports Cli_Client "HOL-Library.List_Lexorder" "HOL-Library.Char_ord"
begin

text \<open>
  What the command-line client prints (\<^verbatim>\<open>internal/cli/format.go\<close>): tables of pending and resolved requests, and one
  request in full.  The output is a string; strings are bytes, and a column width counts characters as Go does.
  The clock, the local time format and the JSON encoder are parameters.
\<close>

record fmt_env =
  fe_now :: nanos
  fe_time :: "nanos \<Rightarrow> string"
  fe_zero :: "nanos \<Rightarrow> bool"

subsection \<open>Durations and columns\<close>

text \<open>\<open>Duration.Round(time.Second)\<close>, in seconds: half away from zero.\<close>

definition roundSecond :: "nanos \<Rightarrow> int" where
  "roundSecond d = (if d < 0 then - ((- d + 500000000) div 1000000000) else (d + 500000000) div 1000000000)"

text \<open>\<open>Duration.String\<close> of a whole number of seconds, not negative.\<close>

definition durationText :: "int \<Rightarrow> string" where
  "durationText s =
     (if s < 60 then dec (nat s) @ ''s''
      else if s < 3600 then dec (nat (s div 60)) @ ''m'' @ dec (nat (s mod 60)) @ ''s''
      else dec (nat (s div 3600)) @ ''h'' @ dec (nat (s mod 3600 div 60)) @ ''m'' @ dec (nat (s mod 60)) @ ''s'')"

text \<open>The width of the first character of a byte string: an invalid byte counts as one.\<close>

definition contByte :: "nat \<Rightarrow> nat \<Rightarrow> char \<Rightarrow> bool" where
  "contByte lo hi c \<longleftrightarrow> lo \<le> of_char c \<and> of_char c \<le> (hi :: nat)"

definition runeWidth :: "string \<Rightarrow> nat" where
  "runeWidth s =
     (case s of
        [] \<Rightarrow> 0
      | c # rest \<Rightarrow>
         (let b = of_char c :: nat;
              lo = (if b = 224 then 160 else if b = 240 then 144 else 128);
              hi = (if b = 237 then 159 else if b = 244 then 143 else 191)
          in if 194 \<le> b \<and> b \<le> 223 \<and> length rest \<ge> 1 \<and> contByte 128 191 (rest ! 0) then 2
             else if 224 \<le> b \<and> b \<le> 239 \<and> length rest \<ge> 2 \<and> contByte lo hi (rest ! 0) \<and> contByte 128 191 (rest ! 1) then 3
             else if 240 \<le> b \<and> b \<le> 244 \<and> length rest \<ge> 3 \<and> contByte lo hi (rest ! 0) \<and> contByte 128 191 (rest ! 1) \<and>
                     contByte 128 191 (rest ! 2) then 4
             else 1))"

lemma runeWidth_pos: "s \<noteq> [] \<Longrightarrow> 0 < runeWidth s"
  by (cases s) (simp_all add: runeWidth_def Let_def)

function runeCount :: "string \<Rightarrow> nat" where
  "runeCount s = (if s = [] then 0 else Suc (runeCount (drop (runeWidth s) s)))"
  by auto
termination
  by (relation "measure length") (auto simp: runeWidth_pos)

declare runeCount.simps [simp del]

definition padRight :: "nat \<Rightarrow> string \<Rightarrow> string" where
  "padRight n s = s @ replicate (n - runeCount s) (CHR '' '')"

definition padLeft :: "nat \<Rightarrow> string \<Rightarrow> string" where
  "padLeft n s = replicate (n - runeCount s) (CHR '' '') @ s"

text \<open>The ellipsis is three bytes.\<close>

definition ellipsis :: string where
  "ellipsis = [CHR 0xE2, CHR 0x80, CHR 0xA6]"

definition truncateText :: "string \<Rightarrow> nat \<Rightarrow> string" where
  "truncateText s maxLen = (if length s \<le> maxLen then s else take (maxLen - 1) s @ ellipsis)"

definition formatRemaining :: "fmt_env \<Rightarrow> nanos \<Rightarrow> string" where
  "formatRemaining env expiresAt =
     (let remaining = roundSecond (expiresAt - fe_now env) in if remaining \<le> 0 then ''expired'' else durationText remaining)"

definition formatAgo :: "fmt_env \<Rightarrow> nanos \<Rightarrow> string" where
  "formatAgo env t = (let ago = roundSecond (fe_now env - t) in if ago < 0 then ''just now'' else durationText ago @ '' ago'')"

definition formatPID :: "uint32 \<Rightarrow> string" where
  "formatPID pid = (if pid = 0 then ''-'' else dec (unat pid))"

definition formatUID :: "uint32 \<Rightarrow> string" where
  "formatUID uid = dec (unat uid)"

subsection \<open>Summaries\<close>

definition formatAttrs :: "(string, string) gomap \<Rightarrow> string" where
  "formatAttrs attrs = Join (map (\<lambda>(k, v). k @ ''='' @ v) attrs) '', ''"

definition requestSummary :: "CliRequest \<Rightarrow> string" where
  "requestSummary req =
     (case cq_GPGSignInfo req of
        Some g \<Rightarrow>
          (if cg_Kind g = ''tag'' then (if cg_TagName g \<noteq> [] then ''tag '' @ cg_TagName g else ''tag'')
           else if cg_Kind g = ''push'' then ''push''
           else if length (cg_ChangedFiles g) = 1 then ''1 file'' else dec (length (cg_ChangedFiles g)) @ '' files'')
      | None \<Rightarrow>
          (case cq_Items req of
             [] \<Rightarrow> if cq_SearchAttributes req \<noteq> [] then formatAttrs (cq_SearchAttributes req) else ''-''
           | [i] \<Rightarrow> ci_Label i
           | is \<Rightarrow> dec (length is) @ '' items''))"

definition cliCollection :: "CliRequest \<Rightarrow> string" where
  "cliCollection req = (case cq_Items req of [] \<Rightarrow> [] | i # _ \<Rightarrow> ExtractCollection (ci_Path i))"

definition collectionColumn :: "CliRequest \<Rightarrow> string" where
  "collectionColumn req = (let coll = truncateText (cliCollection req) 15 in if coll = [] then ''-'' else coll)"

subsection \<open>Tables\<close>

text \<open>Columns are separated by two spaces; the last one is not padded.\<close>

definition pendingRow :: "string list \<Rightarrow> string" where
  "pendingRow cs = Join [padRight 8 (cs ! 0), padRight 20 (cs ! 1), padLeft 7 (cs ! 2), padLeft 5 (cs ! 3), padRight 12 (cs ! 4),
     padRight 15 (cs ! 5), padRight 25 (cs ! 6), cs ! 7] ''  '' @ [LF]"

definition historyRow :: "string list \<Rightarrow> string" where
  "historyRow cs = Join [padRight 8 (cs ! 0), padRight 20 (cs ! 1), padLeft 7 (cs ! 2), padLeft 5 (cs ! 3), padRight 12 (cs ! 4),
     padRight 15 (cs ! 5), padRight 10 (cs ! 6), padRight 20 (cs ! 7), cs ! 8] ''  '' @ [LF]"

definition dashes :: "nat \<Rightarrow> string" where
  "dashes n = replicate n (CHR ''-'')"

record Formatter =
  fm_out :: string
  fm_asJSON :: bool

definition NewFormatter :: "bool \<Rightarrow> Formatter" where
  "NewFormatter asJSON = \<lparr>fm_out = [], fm_asJSON = asJSON\<rparr>"

definition print :: "string \<Rightarrow> Formatter \<Rightarrow> Formatter" where
  "print s f = f\<lparr>fm_out := fm_out f @ s\<rparr>"

definition rowOfRequest :: "fmt_env \<Rightarrow> CliRequest \<Rightarrow> string" where
  "rowOfRequest env req = pendingRow
     [truncateText (cq_ID req) 8, truncateText (cq_Client req) 20, formatPID (cs_PID (cq_SenderInfo req)), formatUID (cs_UID (cq_SenderInfo req)),
      truncateText (cq_Type req) 12, collectionColumn req, truncateText (requestSummary req) 25, formatRemaining env (cq_ExpiresAt req)]"

definition FormatRequests :: "fmt_env \<Rightarrow> (CliRequest list \<Rightarrow> string) \<Rightarrow> CliRequest list \<Rightarrow> Formatter \<Rightarrow> Formatter" where
  "FormatRequests env enc requests f =
     (if fm_asJSON f then print (enc requests) f
      else if requests = [] then print (''No pending requests'' @ [LF]) f
      else print (pendingRow [''ID'', ''CLIENT'', ''PID'', ''UID'', ''TYPE'', ''COLLECTION'', ''SUMMARY'', ''EXPIRES''] @
                  pendingRow [dashes 8, dashes 20, dashes 7, dashes 5, dashes 12, dashes 15, dashes 25, dashes 7] @
                  concat (map (rowOfRequest env) requests)) f)"

definition rowOfEntry :: "fmt_env \<Rightarrow> CliHistory \<Rightarrow> string" where
  "rowOfEntry env entry =
     (let req = ch_Request entry in historyRow
       [truncateText (cq_ID req) 8, truncateText (cq_Client req) 20, formatPID (cs_PID (cq_SenderInfo req)), formatUID (cs_UID (cq_SenderInfo req)),
        truncateText (cq_Type req) 12, collectionColumn req, truncateText (ch_Resolution entry) 10, truncateText (requestSummary req) 20,
        formatAgo env (ch_ResolvedAt entry)])"

definition FormatHistory :: "fmt_env \<Rightarrow> (CliHistory list \<Rightarrow> string) \<Rightarrow> CliHistory list \<Rightarrow> Formatter \<Rightarrow> Formatter" where
  "FormatHistory env enc entries f =
     (if fm_asJSON f then print (enc entries) f
      else if entries = [] then print (''No history entries'' @ [LF]) f
      else print (historyRow [''ID'', ''CLIENT'', ''PID'', ''UID'', ''TYPE'', ''COLLECTION'', ''RESULT'', ''SUMMARY'', ''RESOLVED''] @
                  historyRow [dashes 8, dashes 20, dashes 7, dashes 5, dashes 12, dashes 15, dashes 10, dashes 20, dashes 8] @
                  concat (map (rowOfEntry env) entries)) f)"

definition FormatAction :: "((string \<times> string) list \<Rightarrow> string) \<Rightarrow> string \<Rightarrow> string \<Rightarrow> Formatter \<Rightarrow> Formatter" where
  "FormatAction enc act i f =
     (if fm_asJSON f then print (enc [(''status'', act), (''id'', i)]) f
      else print (''Request '' @ i @ '': '' @ act @ [LF]) f)"

subsection \<open>One request in full\<close>

definition line :: "string \<Rightarrow> string \<Rightarrow> string" where
  "line name v = name @ v @ [LF]"

definition cliSubject :: "string \<Rightarrow> string" where
  "cliSubject msg = (case Cut msg LF of (before, _, ok) \<Rightarrow> if ok then before else msg)"

definition commitBody :: "string \<Rightarrow> string" where
  "commitBody msg =
     (if LF \<notin> set msg then []
      else TrimRightByte (dropWhile (\<lambda>c. c = LF) (dropWhile (\<lambda>c. c \<noteq> LF) msg)) LF)"

definition writeSignMessage :: "string \<Rightarrow> string" where
  "writeSignMessage msg =
     [LF] @ line ''    '' (cliSubject msg) @
     (let body = commitBody msg in if body \<noteq> [] then concat (map (line ''    '') (Split body LF)) else [])"

definition formatItemAttrs :: "(string, string) gomap \<Rightarrow> string \<Rightarrow> string" where
  "formatItemAttrs attrs indent =
     (if attrs = [] then []
      else line (indent @ ''Attrs:'') [] @
        concat (map (\<lambda>k. line (indent @ ''  '' @ k @ '': '') (case map_of attrs k of Some v \<Rightarrow> v | None \<Rightarrow> [])) (sort (map fst attrs))))"

definition formatProcess :: "CliProcess \<Rightarrow> string" where
  "formatProcess p =
     ''  '' @ (if cp_Exe p = [] then cp_Name p else cp_Exe p) @ ''['' @ dec (unat (cp_PID p)) @ '']'' @
     (if cp_CWD p \<noteq> [] then '' cwd='' @ cp_CWD p else []) @ [LF] @
     (if length (cp_Args p) > 1 then line ''    args: '' (Join (drop 1 (cp_Args p)) '' '') else [])"

definition formatSender :: "CliSender \<Rightarrow> string" where
  "formatSender s =
     (if cs_InvokerName s \<noteq> [] then line ''Process: '' (cs_InvokerName s) else []) @
     (if cs_PID s \<noteq> 0 then line ''PID:     '' (dec (unat (cs_PID s))) else []) @
     (if cs_UserName s \<noteq> [] then line ''User:    '' (cs_UserName s @ '' (UID '' @ dec (unat (cs_UID s)) @ '')'') else []) @
     (if cs_Sender s \<noteq> [] then line ''Sender:  '' (cs_Sender s) else []) @
     (if cs_ProcessChain s \<noteq> [] then line ''Chain:'' [] @ concat (map formatProcess (cs_ProcessChain s)) else [])"

definition formatSigning :: "CliGPG \<Rightarrow> string" where
  "formatSigning info =
     line ''Repo:    '' (cg_RepoName info) @
     (if cg_Kind info = ''tag'' then
        line ''Signing: annotated tag'' [] @
        (if cg_TagName info \<noteq> [] then line ''Tag:     '' (cg_TagName info) else []) @
        line ''Tagger:  '' (cg_Author info) @ line ''Key:     '' (cg_KeyID info) @
        (if cg_Target info \<noteq> [] then line ''Target:  '' (cg_Target info) else []) @
        writeSignMessage (cg_CommitMsg info)
      else if cg_Kind info = ''push'' then
        line ''Signing: signed push'' [] @ line ''Pusher:  '' (cg_Author info) @
        (if cg_Pushee info \<noteq> [] then line ''Pushee:  '' (cg_Pushee info) else []) @
        line ''Key:     '' (cg_KeyID info) @ [LF] @ line ''Ref updates:'' [] @
        concat (map (line ''  '') (filter (\<lambda>l. l \<noteq> []) (Split (cg_CommitMsg info) LF)))
      else
        line ''Author:  '' (cg_Author info) @ line ''Key:     '' (cg_KeyID info) @ writeSignMessage (cg_CommitMsg info) @ [LF] @
        line (''Changed files ('' @ dec (length (cg_ChangedFiles info)) @ ''):'') [] @
        concat (map (line ''  '') (cg_ChangedFiles info)) @
        (if cg_Committer info \<noteq> [] \<and> cg_Committer info \<noteq> cg_Author info then [LF] @ line ''Committer: '' (cg_Committer info) else []) @
        (if cg_ParentHash info \<noteq> [] then line ''Parent:    '' (cg_ParentHash info) else []))"

definition formatItems :: "CliRequest \<Rightarrow> string" where
  "formatItems req =
     (case cq_Items req of
        [] \<Rightarrow> []
      | [i] \<Rightarrow> line ''Secret:  '' (ci_Label i) @ line ''Path:    '' (ci_Path i) @ formatItemAttrs (ci_Attributes i) ''  ''
      | is \<Rightarrow> line ''Secrets: '' (dec (length is) @ '' items'') @
          concat (map (\<lambda>i. line ''  - '' (ci_Label i @ ''  '' @ ci_Path i) @ formatItemAttrs (ci_Attributes i) ''    '') is)) @
     (if cq_SearchAttributes req \<noteq> [] then line ''Query:   '' (formatAttrs (cq_SearchAttributes req)) else [])"

definition requestHead :: "CliRequest \<Rightarrow> string" where
  "requestHead req =
     line ''ID:      '' (cq_ID req) @ line ''Client:  '' (cq_Client req) @ line ''Type:    '' (cq_Type req) @
     (let coll = cliCollection req in if coll \<noteq> [] then line ''Coll:    '' coll else []) @
     formatSender (cq_SenderInfo req)"

definition requestTail :: "fmt_env \<Rightarrow> CliRequest \<Rightarrow> string" where
  "requestTail env req =
     (if cq_Session req \<noteq> [] then line ''Session: '' (cq_Session req) else []) @
     line ''Created: '' (fe_time env (cq_CreatedAt req)) @
     (if fe_zero env (cq_ExpiresAt req) then []
      else (let remaining = roundSecond (cq_ExpiresAt req - fe_now env) in
            line ''Expires: '' (fe_time env (cq_ExpiresAt req) @
              (if remaining > 0 then '' ('' @ durationText remaining @ '' remaining)'' else '' (expired)''))))"

definition formatRequest :: "fmt_env \<Rightarrow> CliRequest \<Rightarrow> string" where
  "formatRequest env req =
     requestHead req @ (case cq_GPGSignInfo req of Some info \<Rightarrow> formatSigning info | None \<Rightarrow> formatItems req) @ requestTail env req"

definition FormatShowResult :: "fmt_env \<Rightarrow> (ShowResult \<Rightarrow> string) \<Rightarrow> ShowResult \<Rightarrow> Formatter \<Rightarrow> Formatter" where
  "FormatShowResult env enc result f =
     (if fm_asJSON f then print (enc result) f
      else print (formatRequest env (sr_Request result) @
        (if sr_Resolution result \<noteq> [] then
           line ''Result:  '' (sr_Resolution result) @
           line ''Resolved: '' (fe_time env (sr_ResolvedAt result) @ '' ('' @ formatAgo env (sr_ResolvedAt result) @ '')'')
         else [])) f)"

subsection \<open>Lines of the output\<close>

definition linesOf :: "string \<Rightarrow> string list" where
  "linesOf s = Split s LF"

lemma Split_append_any: "Split (a @ c # b) c = Split a c @ Split b c"
  by (induction a) (auto split: list.splits simp: Cons_eq_append_conv)

lemma linesOf_append: "linesOf (a @ [LF] @ b) = linesOf a @ linesOf b"
  by (simp add: linesOf_def Split_append_any)

lemma linesOf_plain: "LF \<notin> set a \<Longrightarrow> linesOf a = [a]"
  by (simp add: linesOf_def Split_no_sep)

lemma linesOf_lines:
  assumes "LF \<notin> set pre" and "\<forall>l \<in> set ls. LF \<notin> set l"
  shows "linesOf (concat (map (line pre) ls)) = map (\<lambda>l. pre @ l) ls @ [[]]"
  using assms(2)
proof (induction ls)
  case Nil
  then show ?case by (simp add: linesOf_plain)
next
  case (Cons l ls)
  have "concat (map (line pre) (l # ls)) = (pre @ l) @ [LF] @ concat (map (line pre) ls)" by (simp add: line_def)
  then have "linesOf (concat (map (line pre) (l # ls))) = linesOf (pre @ l) @ linesOf (concat (map (line pre) ls))"
    by (simp only: linesOf_append)
  then show ?case using Cons assms(1) by (simp add: linesOf_plain)
qed

lemma subject_plain: "LF \<notin> set (cliSubject msg)"
proof (cases "LF \<in> set msg")
  case True
  then obtain ys zs where "msg = ys @ LF # zs" "LF \<notin> set ys" using split_list_first by metis
  then show ?thesis by (simp add: cliSubject_def Cut_found)
next
  case False
  then show ?thesis by (simp add: cliSubject_def Cut_not_found)
qed

text \<open>
  A signed message cannot pass for the display around it: whatever it contains, every line the client prints
  of it is blank or indented by four spaces, while the fields of the display start in the first column.
\<close>

theorem signed_message_is_indented:
  "linesOf (writeSignMessage msg) =
     [[]] @ map (\<lambda>l. ''    '' @ l) (cliSubject msg # (if commitBody msg = [] then [] else Split (commitBody msg) LF)) @ [[]]"
proof -
  let ?ls = "cliSubject msg # (if commitBody msg = [] then [] else Split (commitBody msg) LF)"
  have w: "writeSignMessage msg = [] @ [LF] @ concat (map (line ''    '') ?ls)"
    by (simp add: writeSignMessage_def Let_def)
  have p: "LF \<notin> set ''    ''" by simp
  have "\<forall>l \<in> set ?ls. LF \<notin> set l"
    using subject_plain Split_no_sep_parts[of _ "commitBody msg" LF] by auto
  from linesOf_lines[OF p this] have l: "linesOf (concat (map (line ''    '') ?ls)) = map (\<lambda>l. ''    '' @ l) ?ls @ [[]]" .
  show ?thesis unfolding w linesOf_append l by (simp add: linesOf_def)
qed

text \<open>The label of a secret is chosen by the program that stores it; printed as it is, it can add lines to the display.\<close>

theorem label_forges_line:
  assumes "cq_GPGSignInfo req = None" and "cq_Items req = [i]" and "ci_Label i = a @ [LF] @ forged @ [LF] @ b"
    and "LF \<notin> set forged"
  shows "forged \<in> set (linesOf (formatRequest env req))"
proof -
  have "formatItems req = (''Secret:  '' @ a) @ [LF] @ forged @ [LF] @ (b @ [LF] @ line ''Path:    '' (ci_Path i) @
      formatItemAttrs (ci_Attributes i) ''  '' @
      (if cq_SearchAttributes req \<noteq> [] then line ''Query:   '' (formatAttrs (cq_SearchAttributes req)) else []))"
    using assms(2,3) by (simp add: formatItems_def line_def)
  then obtain x y where "formatItems req = x @ [LF] @ forged @ [LF] @ y" by blast
  then have "formatRequest env req = (requestHead req @ x) @ [LF] @ forged @ [LF] @ (y @ requestTail env req)"
    using assms(1) by (simp add: formatRequest_def)
  then show ?thesis by (simp only: linesOf_append linesOf_plain[OF assms(4)]) simp
qed

end
