(* ===== verification/Companion.thy ===== *)
theory Companion
  imports Go_Outcome Git_Payload
begin

text \<open>
  The companion user (\<^verbatim>\<open>internal/companion\<close>): provisioning of a separate user that runs the daemon, and the check of an
  existing deployment.

  A file system maps absolute paths, lists of components, to nodes with type, permissions, owner and contents.
  The system calls are modelled as root sees them; which of them fail beyond what the file system dictates is a
  parameter, as are the programs \<open>useradd\<close> and \<open>loginctl\<close>.
\<close>

subsection \<open>The file system\<close>

type_synonym path = "string list"

record node =
  nd_dir :: bool
  nd_mode :: nat
  nd_uid :: int
  nd_gid :: int
  nd_data :: string

type_synonym fs = "path \<rightharpoonup> node"

definition isDir :: "fs \<Rightarrow> path \<Rightarrow> bool" where
  "isDir f p \<longleftrightarrow> p = [] \<or> (case f p of Some n \<Rightarrow> nd_dir n | None \<Rightarrow> False)"

text \<open>\<open>filepath.Clean\<close> of an absolute path, on components.\<close>

fun clean :: "path \<Rightarrow> string list \<Rightarrow> path" where
  "clean done [] = done"
| "clean done (c # cs) =
     (if c = [] \<or> c = ''.'' then clean done cs else if c = ''..'' then clean (butlast done) cs else clean (done @ [c]) cs)"

definition pathText :: "path \<Rightarrow> string" where
  "pathText p = (if p = [] then ''/'' else concat (map (\<lambda>c. CHR ''/'' # c) p))"

datatype call =
    CMkdirAll path nat | CChown path int int | CChmod path nat | CWriteFile path string nat

record CoWorld =
  cw_fs :: fs
  cw_users :: "(string, string \<times> string) gomap"

record co_env =
  co_euid :: int
  co_sudoUser :: string
  co_umask :: "nat \<Rightarrow> nat"
  co_fail :: "call \<Rightarrow> go_error option"
  co_useradd :: "string \<Rightarrow> string \<Rightarrow> string \<Rightarrow> CoWorld \<Rightarrow> go_error option \<times> CoWorld"
  co_loginctl :: "string list \<Rightarrow> CoWorld \<Rightarrow> go_error option \<times> CoWorld"

fun mkdirs :: "(nat \<Rightarrow> nat) \<Rightarrow> nat \<Rightarrow> path \<Rightarrow> path \<Rightarrow> fs \<Rightarrow> go_error option \<times> fs" where
  "mkdirs umask perm done [] f = (None, f)"
| "mkdirs umask perm done (c # cs) f =
     (case f (done @ [c]) of
        None \<Rightarrow> mkdirs umask perm (done @ [c]) cs (f(done @ [c] \<mapsto> \<lparr>nd_dir = True, nd_mode = umask perm, nd_uid = 0, nd_gid = 0, nd_data = []\<rparr>))
      | Some n \<Rightarrow> if nd_dir n then mkdirs umask perm (done @ [c]) cs f else (Some (ErrText ''not a directory''), f))"

fun execute :: "(nat \<Rightarrow> nat) \<Rightarrow> call \<Rightarrow> fs \<Rightarrow> go_error option \<times> fs" where
  "execute umask (CMkdirAll p perm) f = mkdirs umask perm [] p f"
| "execute umask (CChown p uid gid) f =
     (case f p of None \<Rightarrow> (Some (ErrText ''no such file or directory''), f)
      | Some n \<Rightarrow> (None, f(p \<mapsto> n\<lparr>nd_uid := uid, nd_gid := gid\<rparr>)))"
| "execute umask (CChmod p mode) f =
     (case f p of None \<Rightarrow> (Some (ErrText ''no such file or directory''), f)
      | Some n \<Rightarrow> (None, f(p \<mapsto> n\<lparr>nd_mode := mode\<rparr>)))"
| "execute umask (CWriteFile p content perm) f =
     (case f p of
        Some n \<Rightarrow> if nd_dir n then (Some (ErrText ''is a directory''), f) else (None, f(p \<mapsto> n\<lparr>nd_data := content\<rparr>))
      | None \<Rightarrow>
          if isDir f (butlast p)
          then (None, f(p \<mapsto> \<lparr>nd_dir = False, nd_mode = umask perm, nd_uid = 0, nd_gid = 0, nd_data = content\<rparr>))
          else (Some (ErrText ''no such file or directory''), f))"

definition sys :: "co_env \<Rightarrow> call \<Rightarrow> CoWorld \<Rightarrow> go_error option \<times> CoWorld" where
  "sys env c w =
     (case co_fail env c of
        Some e \<Rightarrow> (Some e, w)
      | None \<Rightarrow> (case execute (co_umask env) c (cw_fs w) of (err, f) \<Rightarrow> (err, w\<lparr>cw_fs := f\<rparr>)))"

subsection \<open>Configuration\<close>

record CoConfig =
  cc_DesktopUser :: string
  cc_CompanionName :: string
  cc_HomeBase :: string

definition defaults :: "CoConfig \<Rightarrow> CoConfig" where
  "defaults c = (if cc_HomeBase c = [] then c\<lparr>cc_HomeBase := ''/var/lib/secret-companion''\<rparr> else c)"

definition companionUsername :: "CoConfig \<Rightarrow> string" where
  "companionUsername c = (if cc_CompanionName c \<noteq> [] then cc_CompanionName c else ''secrets-'' @ cc_DesktopUser c)"

text \<open>The base is an absolute path.\<close>

definition homeDir :: "CoConfig \<Rightarrow> path" where
  "homeDir c = clean [] (Split (cc_HomeBase c) (CHR ''/'') @ Split (cc_DesktopUser c) (CHR ''/''))"

definition withSudoUser :: "co_env \<Rightarrow> CoConfig \<Rightarrow> CoConfig" where
  "withSudoUser env c = (if cc_DesktopUser c = [] then c\<lparr>cc_DesktopUser := co_sudoUser env\<rparr> else c)"

text \<open>\<open>strconv.Atoi\<close>.\<close>

definition Atoi :: "string \<Rightarrow> go_error + int" where
  "Atoi s =
     (let neg = (take 1 s = ''-''); ds = (if neg \<or> take 1 s = ''+'' then drop 1 s else s);
          n = (if neg then - int (undec ds) else int (undec ds))
      in if ds = [] \<or> \<not> (\<forall>c \<in> set ds. of_char c \<ge> (48::nat) \<and> of_char c \<le> (57::nat)) then Inl (ErrText (''strconv.Atoi: parsing '' @ s @ '': invalid syntax''))
         else if n < - (2 ^ 63) \<or> n \<ge> 2 ^ 63 then Inl (ErrText (''strconv.Atoi: parsing '' @ s @ '': value out of range''))
         else Inr n)"

subsection \<open>Templates\<close>

abbreviation (input) policyPath :: path where
  "policyPath \<equiv> [''usr'', ''share'', ''dbus-1'', ''system.d'', ''net.mowaka.SecretsDispatcher1.conf'']"
abbreviation (input) pamPath :: path where "pamPath \<equiv> [''etc'', ''pam.d'', ''secrets-dispatcher'']"
abbreviation (input) lingerPath :: "string \<Rightarrow> path" where "lingerPath user \<equiv> [''var'', ''lib'', ''systemd'', ''linger''] @ clean [] (Split user (CHR ''/''))"
abbreviation (input) gopassDir :: path where "gopassDir \<equiv> [''.config'', ''gopass'']"
abbreviation (input) coUnitDir :: path where "coUnitDir \<equiv> [''.config'', ''systemd'', ''user'']"
abbreviation (input) coUnitFile :: string where "coUnitFile \<equiv> ''secrets-dispatcher-daemon.service''"

definition inQuotes :: "string \<Rightarrow> string" where
  "inQuotes s = [CHR 0x22] @ s @ [CHR 0x22]"

definition dbusPolicyTemplate :: "string \<Rightarrow> string \<Rightarrow> string" where
  "dbusPolicyTemplate companionUser desktopUser = unlines
     [''<!DOCTYPE busconfig PUBLIC '' @ inQuotes ''-//freedesktop//DTD D-BUS Bus Configuration 1.0//EN'',
      '' '' @ inQuotes ''http://www.freedesktop.org/standards/dbus/1.0/busconfig.dtd'' @ ''>'',
      ''<busconfig>'',
      ''  <!-- Companion user owns the bus name and can send to itself -->'',
      ''  <policy user='' @ inQuotes companionUser @ ''>'',
      ''    <allow own='' @ inQuotes ''net.mowaka.SecretsDispatcher1'' @ ''/>'',
      ''    <allow send_destination='' @ inQuotes ''net.mowaka.SecretsDispatcher1'' @ ''/>'',
      ''  </policy>'', [],
      ''  <!-- Desktop user can call methods on the companion daemon -->'',
      ''  <policy user='' @ inQuotes desktopUser @ ''>'',
      ''    <allow send_destination='' @ inQuotes ''net.mowaka.SecretsDispatcher1'' @ ''/>'',
      ''  </policy>'',
      ''</busconfig>'']"

definition systemdUnitTemplate :: "string \<Rightarrow> string \<Rightarrow> string" where
  "systemdUnitTemplate companionHome companionUID = unlines
     [''[Unit]'', ''Description=Secrets Dispatcher Companion Daemon'', ''Documentation=https://github.com/nikicat/secrets-dispatcher'',
      ''After=dbus.service'', ''Requires=dbus.service'', [], ''[Service]'', ''Type=notify'',
      ''ExecStart=/usr/local/bin/secrets-dispatcher daemon'', ''Environment=HOME='' @ companionHome,
      ''Environment=XDG_RUNTIME_DIR=/run/user/'' @ companionUID, ''Restart=on-failure'', ''RestartSec=5'', [],
      ''[Install]'', ''WantedBy=default.target'']"

definition pamConfigTemplate :: string where
  "pamConfigTemplate = unlines
     [''# Managed by secrets-dispatcher provision. Do not edit manually.'',
      ''# Start/stop companion daemon on desktop user login/logout.'',
      ''session optional pam_exec.so quiet /usr/bin/systemctl start --no-block secrets-dispatcher-companion@%u.service'']"

subsection \<open>Provisioning\<close>

definition lookupUser :: "string \<Rightarrow> CoWorld \<Rightarrow> (string \<times> string) option" where
  "lookupUser name w = map_of (cw_users w) name"

definition ensureUser :: "co_env \<Rightarrow> string \<Rightarrow> path \<Rightarrow> CoWorld \<Rightarrow> go_error option \<times> CoWorld" where
  "ensureUser env username home w =
     (if lookupUser username w \<noteq> None then (None, w)
      else andThen (wrapping (''create parent dir '' @ inQuotes (pathText (butlast home))) (sys env (CMkdirAll (butlast home) 493) w))
        (co_useradd env username (pathText home) ''/usr/sbin/nologin''))"

definition ensureHomeDir :: "co_env \<Rightarrow> path \<Rightarrow> int \<Rightarrow> int \<Rightarrow> CoWorld \<Rightarrow> go_error option \<times> CoWorld" where
  "ensureHomeDir env home uid gid w =
     andThen (wrapping (''create home dir '' @ inQuotes (pathText home)) (sys env (CMkdirAll home 448) w))
    (\<lambda>w. andThen (wrapping (''chown home dir '' @ inQuotes (pathText home)) (sys env (CChown home uid gid) w))
    (\<lambda>w. wrapping (''chmod home dir '' @ inQuotes (pathText home)) (sys env (CChmod home 448) w)))"

fun skeleton_loop :: "co_env \<Rightarrow> int \<Rightarrow> int \<Rightarrow> path list \<Rightarrow> CoWorld \<Rightarrow> go_error option \<times> CoWorld" where
  "skeleton_loop env uid gid [] w = (None, w)"
| "skeleton_loop env uid gid (d # ds) w =
     andThen (wrapping (''create dir '' @ inQuotes (pathText d)) (sys env (CMkdirAll d 448) w))
    (\<lambda>w. andThen (wrapping (''chown '' @ inQuotes (pathText d)) (sys env (CChown d uid gid) w))
    (\<lambda>w. andThen (wrapping (''chmod '' @ inQuotes (pathText d)) (sys env (CChmod d 448) w))
    (\<lambda>w. skeleton_loop env uid gid ds w)))"

definition ensureDirectorySkeleton :: "co_env \<Rightarrow> path \<Rightarrow> int \<Rightarrow> int \<Rightarrow> CoWorld \<Rightarrow> go_error option \<times> CoWorld" where
  "ensureDirectorySkeleton env home uid gid = skeleton_loop env uid gid [home @ gopassDir, home @ [''.gnupg'']]"

definition writeDBusPolicy :: "co_env \<Rightarrow> string \<Rightarrow> string \<Rightarrow> CoWorld \<Rightarrow> go_error option \<times> CoWorld" where
  "writeDBusPolicy env desktopUser companionUser =
     sys env (CWriteFile policyPath (dbusPolicyTemplate companionUser desktopUser) 420)"

definition writeSystemdUnit :: "co_env \<Rightarrow> path \<Rightarrow> string \<Rightarrow> int \<Rightarrow> int \<Rightarrow> CoWorld \<Rightarrow> go_error option \<times> CoWorld" where
  "writeSystemdUnit env home uidStr uid gid w =
     (let dir = home @ coUnitDir in
      andThen (wrapping (''create systemd unit dir '' @ inQuotes (pathText dir)) (sys env (CMkdirAll dir 448) w))
     (\<lambda>w. andThen (wrapping (''chown systemd unit dir '' @ inQuotes (pathText dir)) (sys env (CChown dir uid gid) w))
     (\<lambda>w. andThen (sys env (CWriteFile (dir @ [coUnitFile]) (systemdUnitTemplate (pathText home) uidStr) 420) w)
     (\<lambda>w. sys env (CChown (dir @ [coUnitFile]) uid gid) w))))"

definition writePAMConfig :: "co_env \<Rightarrow> CoWorld \<Rightarrow> go_error option \<times> CoWorld" where
  "writePAMConfig env = sys env (CWriteFile pamPath pamConfigTemplate 420)"

text \<open>Steps 3 to 8 of \<open>Provision\<close>, once the user is known.\<close>

definition provisionFor :: "co_env \<Rightarrow> string \<Rightarrow> string \<Rightarrow> path \<Rightarrow> string \<Rightarrow> int \<Rightarrow> int \<Rightarrow> CoWorld \<Rightarrow> go_error option \<times> CoWorld" where
  "provisionFor env desktopUser user home uidStr uid gid w =
     andThen (wrapping ''ensure home dir'' (ensureHomeDir env home uid gid w))
    (\<lambda>w. andThen (wrapping ''ensure directory skeleton'' (ensureDirectorySkeleton env home uid gid w))
    (\<lambda>w. andThen (wrapping ''write D-Bus policy'' (writeDBusPolicy env desktopUser user w))
    (\<lambda>w. andThen (wrapping ''write systemd unit'' (writeSystemdUnit env home uidStr uid gid w))
    (\<lambda>w. andThen (wrapping ''write PAM config'' (writePAMConfig env w))
    (\<lambda>w. wrapping ''enable linger'' (co_loginctl env [''enable-linger'', user] w))))))"

definition provisionUser :: "co_env \<Rightarrow> string \<Rightarrow> string \<Rightarrow> path \<Rightarrow> CoWorld \<Rightarrow> go_error option \<times> CoWorld" where
  "provisionUser env desktopUser user home w =
     (case lookupUser user w of
        None \<Rightarrow> (Some (ErrText (''lookup companion user '' @ inQuotes user @ '' after creation: user: unknown user '' @ user)), w)
      | Some (uidStr, gidStr) \<Rightarrow>
          (case Atoi uidStr of
             Inl e \<Rightarrow> (Some (ErrText (''parse companion UID '' @ inQuotes uidStr @ '': '' @ error_text e)), w)
           | Inr uid \<Rightarrow>
          (case Atoi gidStr of
             Inl e \<Rightarrow> (Some (ErrText (''parse companion GID '' @ inQuotes gidStr @ '': '' @ error_text e)), w)
           | Inr gid \<Rightarrow> provisionFor env desktopUser user home uidStr uid gid w)))"

definition Provision :: "co_env \<Rightarrow> CoConfig \<Rightarrow> CoWorld \<Rightarrow> go_error option \<times> CoWorld" where
  "Provision env cfg w =
     (let cfg = defaults cfg in
      if co_euid env \<noteq> 0 then (Some (ErrText ''provision requires root; run: sudo secrets-dispatcher provision''), w)
      else
       (let cfg = withSudoUser env cfg in
        if cc_DesktopUser cfg = [] then (Some (ErrText ''no desktop user specified: use --user flag or run via sudo''), w)
        else
         (let user = companionUsername cfg; home = homeDir cfg in
          andThen (wrapping ''ensure companion user'' (ensureUser env user home w))
            (provisionUser env (cc_DesktopUser cfg) user home))))"

subsection \<open>Checking\<close>

record CheckResult =
  cr_Name :: string
  cr_Pass :: bool
  cr_Message :: string

definition passOrFix :: "bool \<Rightarrow> string \<Rightarrow> string \<Rightarrow> string" where
  "passOrFix ok passMsg fixMsg = (if ok then passMsg else fixMsg)"

definition checked :: "string \<Rightarrow> bool \<Rightarrow> string \<Rightarrow> string \<Rightarrow> CheckResult" where
  "checked name ok passMsg fixMsg = \<lparr>cr_Name = name, cr_Pass = ok, cr_Message = passOrFix ok passMsg fixMsg\<rparr>"

definition safeUID :: "(string \<times> string) option \<Rightarrow> string" where
  "safeUID u = (case u of None \<Rightarrow> ''?'' | Some (uid, _) \<Rightarrow> uid)"

definition fileExists :: "CoWorld \<Rightarrow> path \<Rightarrow> bool" where
  "fileExists w p \<longleftrightarrow> p = [] \<or> cw_fs w p \<noteq> None"

definition dirExists :: "CoWorld \<Rightarrow> path \<Rightarrow> bool" where
  "dirExists w p \<longleftrightarrow> isDir (cw_fs w) p"

definition statUID :: "CoWorld \<Rightarrow> path \<Rightarrow> int" where
  "statUID w p = (case cw_fs w p of Some n \<Rightarrow> nd_uid n | None \<Rightarrow> -1)"

definition fileOwnedByUID :: "CoWorld \<Rightarrow> path \<Rightarrow> int \<Rightarrow> bool" where
  "fileOwnedByUID w p uid \<longleftrightarrow> statUID w p = uid"

definition Check :: "co_env \<Rightarrow> CoConfig \<Rightarrow> CoWorld \<Rightarrow> CheckResult list" where
  "Check env cfg w =
     (let cfg = withSudoUser env (defaults cfg);
          user = companionUsername cfg; home = homeDir cfg; homeT = pathText home;
          u = lookupUser user w;
          provision = ''run: sudo secrets-dispatcher provision --user '' @ cc_DesktopUser cfg;
          homeExists = fileExists w home;
          homeMode = (case cw_fs w home of Some n \<Rightarrow> nd_mode n = 448 | None \<Rightarrow> False);
          owned = (case u of Some (uidStr, _) \<Rightarrow>
                     homeExists \<and> fileOwnedByUID w home (case Atoi uidStr of Inr uid \<Rightarrow> uid | Inl _ \<Rightarrow> 0) | None \<Rightarrow> False);
          gopass = home @ gopassDir; gnupg = home @ [''.gnupg'']; unit = home @ coUnitDir @ [coUnitFile]; linger = lingerPath user
      in [checked ''companion user exists'' (u \<noteq> None) (''user '' @ inQuotes user @ '' found (uid='' @ safeUID u @ '')'') provision,
          checked ''home directory exists'' homeExists (''directory '' @ inQuotes homeT @ '' exists'') provision,
          checked ''home directory mode 0700'' homeMode ''home directory has correct permissions (0700)'' (''run: sudo chmod 0700 '' @ homeT),
          checked ''home directory owned by companion user'' owned (''home directory owned by '' @ inQuotes user)
            (''run: sudo chown '' @ user @ '':'' @ user @ '' '' @ homeT),
          checked ''gopass config directory exists'' (dirExists w gopass) (''directory '' @ inQuotes (pathText gopass) @ '' exists'') provision,
          checked ''GPG home directory exists'' (dirExists w gnupg) (''directory '' @ inQuotes (pathText gnupg) @ '' exists'') provision,
          checked ''D-Bus policy file exists'' (fileExists w policyPath) (''policy file '' @ inQuotes (pathText policyPath) @ '' exists'') provision,
          checked ''systemd user unit file exists'' (fileExists w unit) (''unit file '' @ inQuotes (pathText unit) @ '' exists'') provision,
          checked ''PAM config exists'' (fileExists w pamPath) (''PAM config '' @ inQuotes (pathText pamPath) @ '' exists'') provision,
          checked ''systemd linger enabled'' (fileExists w linger)
            (''linger enabled for '' @ inQuotes user @ '' ('' @ pathText linger @ '' exists)'') (''run: sudo loginctl enable-linger '' @ user)])"

end
