(* ===== verification/Companion_Props.thy ===== *)
theory Companion_Props
  imports Companion
begin

text \<open>
  What provisioning achieves: a deployment it has set up passes every check.  Successful provisioning is a sequence of
  system calls; what each of them preserves carries the facts about the earlier ones to the end.
\<close>

subsection \<open>Provisioning as a sequence of calls\<close>

fun runCalls :: "co_env \<Rightarrow> call list \<Rightarrow> CoWorld \<Rightarrow> go_error option \<times> CoWorld" where
  "runCalls env [] w = (None, w)"
| "runCalls env (c # cs) w = andThen (sys env c w) (runCalls env cs)"

lemma runCalls_append: "runCalls env (a @ b) w = (None, w') \<longleftrightarrow> (\<exists>w1. runCalls env a w = (None, w1) \<and> runCalls env b w1 = (None, w'))"
  by (induction a arbitrary: w) (auto simp: andThen_ok)

definition homeCalls :: "path \<Rightarrow> int \<Rightarrow> int \<Rightarrow> call list" where
  "homeCalls home uid gid = [CMkdirAll home 448, CChown home uid gid, CChmod home 448]"

definition laterCalls :: "path \<Rightarrow> string \<Rightarrow> string \<Rightarrow> string \<Rightarrow> int \<Rightarrow> int \<Rightarrow> call list" where
  "laterCalls home desktopUser user uidStr uid gid =
     [CChown (home @ gopassDir) uid gid, CChmod (home @ gopassDir) 448,
      CMkdirAll (home @ [''.gnupg'']) 448, CChown (home @ [''.gnupg'']) uid gid, CChmod (home @ [''.gnupg'']) 448,
      CWriteFile policyPath (dbusPolicyTemplate user desktopUser) 420,
      CMkdirAll (home @ coUnitDir) 448, CChown (home @ coUnitDir) uid gid,
      CWriteFile ((home @ coUnitDir) @ [coUnitFile]) (systemdUnitTemplate (pathText home) uidStr) 420,
      CChown ((home @ coUnitDir) @ [coUnitFile]) uid gid, CWriteFile pamPath pamConfigTemplate 420]"

definition effective :: "co_env \<Rightarrow> CoConfig \<Rightarrow> CoConfig" where
  "effective env cfg = withSudoUser env (defaults cfg)"

lemma Provision_calls:
  assumes "Provision env cfg w = (None, w')"
  defines "user \<equiv> companionUsername (effective env cfg)" and "home \<equiv> homeDir (effective env cfg)"
  obtains w1 w2 uidStr gidStr uid gid where
    "ensureUser env user home w = (None, w1)"
    "lookupUser user w1 = Some (uidStr, gidStr)" "Atoi uidStr = Inr uid" "Atoi gidStr = Inr gid"
    "runCalls env (homeCalls home uid gid @ CMkdirAll (home @ gopassDir) 448 #
       laterCalls home (cc_DesktopUser (effective env cfg)) user uidStr uid gid) w1 = (None, w2)"
    "co_loginctl env [''enable-linger'', user] w2 = (None, w')"
proof -
  obtain w1 where e: "ensureUser env user home w = (None, w1)"
    and u: "provisionUser env (cc_DesktopUser (effective env cfg)) user home w1 = (None, w')"
    using assms(1)[unfolded Provision_def Let_def effective_def[symmetric] user_def[symmetric] home_def[symmetric]]
    by (auto simp: andThen_ok wrapping_ok split: if_splits)
  then obtain uidStr gidStr uid gid where
    1: "ensureUser env user home w = (None, w1)" "lookupUser user w1 = Some (uidStr, gidStr)" "Atoi uidStr = Inr uid" "Atoi gidStr = Inr gid"
    and p: "provisionFor env (cc_DesktopUser (effective env cfg)) user home uidStr uid gid w1 = (None, w')"
    by (auto simp: provisionUser_def split: option.splits sum.splits)
  obtain w2 where "runCalls env (homeCalls home uid gid @ CMkdirAll (home @ gopassDir) 448 #
       laterCalls home (cc_DesktopUser (effective env cfg)) user uidStr uid gid) w1 = (None, w2)"
    "co_loginctl env [''enable-linger'', user] w2 = (None, w')"
    using p unfolding provisionFor_def ensureHomeDir_def ensureDirectorySkeleton_def skeleton_loop.simps writeDBusPolicy_def
      writeSystemdUnit_def writePAMConfig_def Let_def
    by (auto simp: andThen_ok wrapping_ok homeCalls_def laterCalls_def)
  then show thesis using that 1 by blast
qed

subsection \<open>What the calls preserve\<close>

lemma mkdirs_keeps: "f p = Some n \<Longrightarrow> snd (mkdirs umask perm done cs f) p = Some n"
proof (induction cs arbitrary: "done" f)
  case (Cons c cs)
  show ?case
  proof (cases "f (done @ [c])")
    case None
    then have "p \<noteq> done @ [c]" using Cons.prems by auto
    then show ?thesis using None Cons by (simp del: fun_upd_apply) (simp add: Cons)
  next
    case (Some m)
    then show ?thesis using Cons by simp
  qed
qed simp

lemma mkdirs_makes:
  "mkdirs umask perm done cs f = (None, f') \<Longrightarrow> cs \<noteq> [] \<Longrightarrow> \<exists>n. f' (done @ cs) = Some n \<and> nd_dir n"
proof (induction cs arbitrary: "done" f)
  case (Cons c cs)
  obtain g where g: "mkdirs umask perm (done @ [c]) cs g = (None, f')" "\<exists>n. g (done @ [c]) = Some n \<and> nd_dir n"
    using Cons.prems(1) by (auto split: option.splits if_splits)
  show ?case
  proof (cases "cs = []")
    case True
    then show ?thesis using g by simp
  next
    case False
    then show ?thesis using Cons.IH[OF g(1) False] by simp
  qed
qed simp

text \<open>A directory stays one; its permissions and owner change only by a call on it.\<close>

definition stays :: "call list \<Rightarrow> path \<Rightarrow> node \<Rightarrow> node \<Rightarrow> bool" where
  "stays cs p n n' \<longleftrightarrow> nd_dir n' = nd_dir n \<and> ((\<forall>m. CChmod p m \<notin> set cs) \<longrightarrow> nd_mode n' = nd_mode n) \<and>
     ((\<forall>u g. CChown p u g \<notin> set cs) \<longrightarrow> nd_uid n' = nd_uid n)"

lemma execute_stays:
  assumes "f p = Some n"
  shows "\<exists>n'. snd (execute umask c f) p = Some n' \<and> stays [c] p n n'"
proof (cases c)
  case (CMkdirAll q m)
  then show ?thesis using mkdirs_keeps[of f p n, OF assms] by (simp add: stays_def)
qed (use assms in \<open>auto simp: stays_def split: option.splits\<close>)

lemma sys_stays: "cw_fs w p = Some n \<Longrightarrow> \<exists>n'. cw_fs (snd (sys env c w)) p = Some n' \<and> stays [c] p n n'"
  using execute_stays[of "cw_fs w" p n "co_umask env" c]
  by (auto simp: sys_def stays_def split: option.splits prod.splits)

lemma runCalls_stays:
  "cw_fs w p = Some n \<Longrightarrow> runCalls env cs w = (None, w') \<Longrightarrow> \<exists>n'. cw_fs w' p = Some n' \<and> stays cs p n n'"
proof (induction cs arbitrary: w n)
  case Nil
  then show ?case by (simp add: stays_def)
next
  case (Cons c cs)
  then obtain w1 where w1: "sys env c w = (None, w1)" "runCalls env cs w1 = (None, w')" by (auto simp: andThen_ok)
  obtain n1 where n1: "cw_fs w1 p = Some n1" "stays [c] p n n1"
    using sys_stays[OF Cons.prems(1), of env c] w1(1) by auto
  obtain n' where "cw_fs w' p = Some n'" "stays cs p n1 n'" using Cons.IH[OF n1(1) w1(2)] by blast
  then show ?case using n1(2) by (auto simp: stays_def)
qed

lemma sys_users: "cw_users (snd (sys env c w)) = cw_users w"
  by (simp add: sys_def split: option.splits prod.splits)

lemma runCalls_users: "runCalls env cs w = (None, w') \<Longrightarrow> cw_users w' = cw_users w"
proof (induction cs arbitrary: w)
  case (Cons c cs)
  then obtain w1 where "sys env c w = (None, w1)" "runCalls env cs w1 = (None, w')" by (auto simp: andThen_ok)
  then show ?case using Cons.IH[of w1] sys_users[of env c w] by simp
qed simp

text \<open>What a call that succeeds leaves at its own path.\<close>

fun achieved :: "call \<Rightarrow> fs \<Rightarrow> bool" where
  "achieved (CMkdirAll p _) f = isDir f p"
| "achieved (CChown p uid gid) f = (\<exists>n. f p = Some n \<and> nd_uid n = uid)"
| "achieved (CChmod p mode) f = (\<exists>n. f p = Some n \<and> nd_mode n = mode)"
| "achieved (CWriteFile p _ _) f = (f p \<noteq> None)"

lemma sys_achieves: "sys env c w = (None, w') \<Longrightarrow> achieved c (cw_fs w')"
proof (cases c)
  case (CMkdirAll p m)
  assume "sys env c w = (None, w')"
  then have m: "mkdirs (co_umask env) m [] p (cw_fs w) = (None, cw_fs w')"
    using CMkdirAll by (auto simp: sys_def split: option.splits prod.splits)
  show ?thesis
  proof (cases "p = []")
    case True
    then show ?thesis using CMkdirAll by (simp add: isDir_def)
  next
    case False
    then show ?thesis using mkdirs_makes[OF m False] CMkdirAll by (auto simp: isDir_def)
  qed
qed (auto simp: sys_def isDir_def split: option.splits prod.splits if_splits)

text \<open>Any call of the sequence: its achievement survives what follows.\<close>

lemma runCalls_achieves:
  assumes "runCalls env (a @ c # b) w = (None, w')"
  shows "\<exists>w1. achieved c (cw_fs w1) \<and> runCalls env b w1 = (None, w')"
  using assms sys_achieves by (auto simp: runCalls_append andThen_ok) blast

lemma isDir_stays: "isDir (cw_fs w) p \<Longrightarrow> runCalls env cs w = (None, w') \<Longrightarrow> isDir (cw_fs w') p"
  using runCalls_stays[of w p] by (fastforce simp: isDir_def stays_def split: option.splits)

lemma exists_stays: "cw_fs w p \<noteq> None \<Longrightarrow> runCalls env cs w = (None, w') \<Longrightarrow> cw_fs w' p \<noteq> None"
  using runCalls_stays[of w p] by fastforce

lemma call_isDir: "\<exists>m. CMkdirAll p m \<in> set cs \<Longrightarrow> runCalls env cs w = (None, w') \<Longrightarrow> isDir (cw_fs w') p"
  using runCalls_achieves[of env _ "CMkdirAll p _"] isDir_stays by (fastforce dest: split_list)

lemma call_exists: "\<exists>d m. CWriteFile p d m \<in> set cs \<Longrightarrow> runCalls env cs w = (None, w') \<Longrightarrow> cw_fs w' p \<noteq> None"
  using runCalls_achieves[of env _ "CWriteFile p _ _"] exists_stays by (fastforce dest: split_list)

lemma call_mode:
  assumes "runCalls env (a @ CChmod p m # b) w = (None, w')" and "\<forall>m. CChmod p m \<notin> set b"
  shows "\<exists>n. cw_fs w' p = Some n \<and> nd_mode n = m"
proof -
  obtain w1 n where n: "cw_fs w1 p = Some n" "nd_mode n = m" "runCalls env b w1 = (None, w')"
    using runCalls_achieves[OF assms(1)] by auto
  show ?thesis using runCalls_stays[OF n(1,3)] n(2) assms(2) by (auto simp: stays_def)
qed

lemma call_uid:
  assumes "runCalls env (a @ CChown p u g # b) w = (None, w')" and "\<forall>u g. CChown p u g \<notin> set b"
  shows "\<exists>n. cw_fs w' p = Some n \<and> nd_uid n = u"
proof -
  obtain w1 n where n: "cw_fs w1 p = Some n" "nd_uid n = u" "runCalls env b w1 = (None, w')"
    using runCalls_achieves[OF assms(1)] by auto
  show ?thesis using runCalls_stays[OF n(1,3)] n(2) assms(2) by (auto simp: stays_def)
qed

subsection \<open>A provisioned deployment passes the check\<close>

text \<open>Documented behaviour of \<open>loginctl enable-linger\<close>: it creates the marker file and leaves what exists alone.\<close>

definition lingers :: "co_env \<Rightarrow> bool" where
  "lingers env \<longleftrightarrow> (\<forall>user w w'. co_loginctl env [''enable-linger'', user] w = (None, w') \<longrightarrow>
     cw_users w' = cw_users w \<and> (\<forall>p n. cw_fs w p = Some n \<longrightarrow> cw_fs w' p = Some n) \<and> fileExists w' (lingerPath user))"

lemma provisioned_home:
  assumes "runCalls env (homeCalls home uid gid @ CMkdirAll (home @ gopassDir) 448 # laterCalls home d user uidStr uid gid) w = (None, w')"
  shows "\<exists>n. cw_fs w' home = Some n \<and> nd_mode n = 448 \<and> nd_uid n = uid"
proof -
  let ?rest = "CMkdirAll (home @ gopassDir) 448 # laterCalls home d user uidStr uid gid"
  have a: "homeCalls home uid gid @ ?rest = [CMkdirAll home 448, CChown home uid gid] @ CChmod home 448 # ?rest"
    "homeCalls home uid gid @ ?rest = [CMkdirAll home 448] @ CChown home uid gid # CChmod home 448 # ?rest"
    by (simp_all add: homeCalls_def)
  have "\<exists>n. cw_fs w' home = Some n \<and> nd_mode n = 448"
    by (rule call_mode[OF assms[unfolded a(1)]]) (simp add: laterCalls_def)
  moreover have "\<exists>n. cw_fs w' home = Some n \<and> nd_uid n = uid"
    by (rule call_uid[OF assms[unfolded a(2)]]) (simp add: laterCalls_def)
  ultimately show ?thesis by auto
qed

text \<open>
  C30: A deployment that has been provisioned passes every check: when \<open>Provision\<close> succeeds, \<open>Check\<close> with the same
  configuration reports no failure, whatever was there before.
\<close>

theorem provision_passes_check:
  assumes "Provision env cfg w = (None, w')" and "lingers env"
  shows "list_all cr_Pass (Check env cfg w')"
proof -
  let ?user = "companionUsername (effective env cfg)" and ?home = "homeDir (effective env cfg)"
  obtain w1 w2 uidStr gidStr uid gid where
    u: "lookupUser ?user w1 = Some (uidStr, gidStr)" "Atoi uidStr = Inr uid" and
    run: "runCalls env (homeCalls ?home uid gid @ CMkdirAll (?home @ gopassDir) 448 #
       laterCalls ?home (cc_DesktopUser (effective env cfg)) ?user uidStr uid gid) w1 = (None, w2)" and
    l: "co_loginctl env [''enable-linger'', ?user] w2 = (None, w')"
    by (rule Provision_calls[OF assms(1)])
  have keep: "cw_users w' = cw_users w1" "fileExists w' (lingerPath ?user)" "\<And>p n. cw_fs w2 p = Some n \<Longrightarrow> cw_fs w' p = Some n"
    using assms(2)[unfolded lingers_def] l runCalls_users[OF run] by auto
  obtain n where n: "cw_fs w2 ?home = Some n" "nd_mode n = 448" "nd_uid n = uid" using provisioned_home[OF run] by blast
  have dirs: "isDir (cw_fs w2) (?home @ gopassDir)" "isDir (cw_fs w2) (?home @ [''.gnupg''])"
    by (rule call_isDir[OF _ run], auto simp: laterCalls_def)+
  have files: "cw_fs w2 policyPath \<noteq> None" "cw_fs w2 (?home @ coUnitDir @ [coUnitFile]) \<noteq> None" "cw_fs w2 pamPath \<noteq> None"
    by (rule call_exists[OF _ run], force simp: laterCalls_def)+
  have dirs': "isDir (cw_fs w') (?home @ gopassDir)" "isDir (cw_fs w') (?home @ [''.gnupg''])"
    using dirs keep(3) by (auto simp: isDir_def split: option.splits)
  have files': "cw_fs w' policyPath \<noteq> None" "cw_fs w' (?home @ coUnitDir @ [coUnitFile]) \<noteq> None" "cw_fs w' pamPath \<noteq> None"
    using files keep(3) by blast+
  have us: "lookupUser ?user w' = Some (uidStr, gidStr)" using u(1) keep(1) by (simp add: lookupUser_def)
  show ?thesis
    unfolding Check_def Let_def effective_def[symmetric]
    using keep(2) keep(3)[OF n(1)] n us u(2) dirs' files'
    by (simp add: checked_def dirExists_def fileExists_def fileOwnedByUID_def statUID_def)
qed

definition exProvision :: co_env where
  "exProvision = \<lparr>co_euid = 0, co_sudoUser = ''ann'', co_umask = id, co_fail = (\<lambda>c. None),
     co_useradd = (\<lambda>name home shell w. (None, w\<lparr>cw_users := gm_put name (''1001'', ''1001'') (cw_users w)\<rparr>)),
     co_loginctl = (\<lambda>args w. (None, w\<lparr>cw_fs := (cw_fs w)([''var'', ''lib'', ''systemd'', ''linger''] @ clean [] (Split (args ! 1) (CHR ''/'')) \<mapsto>
       (case cw_fs w ([''var'', ''lib'', ''systemd'', ''linger''] @ clean [] (Split (args ! 1) (CHR ''/''))) of Some n \<Rightarrow> n
        | None \<Rightarrow> \<lparr>nd_dir = False, nd_mode = 420, nd_uid = 0, nd_gid = 0, nd_data = []\<rparr>))\<rparr>))\<rparr>"

definition rootDirectory :: node where
  "rootDirectory = \<lparr>nd_dir = True, nd_mode = 493, nd_uid = 0, nd_gid = 0, nd_data = []\<rparr>"

definition exMachine :: CoWorld where
  "exMachine = \<lparr>cw_fs = map_of (map (\<lambda>p. (p, rootDirectory)) [[''usr'', ''share'', ''dbus-1'', ''system.d''], [''etc'', ''pam.d'']]), cw_users = []\<rparr>"

definition exCoConfig :: CoConfig where
  "exCoConfig = \<lparr>cc_DesktopUser = [], cc_CompanionName = [], cc_HomeBase = ''/srv''\<rparr>"

lemma exProvision_lingers: "lingers exProvision"
  by (auto simp: lingers_def exProvision_def fileExists_def)

lemma exProvision_ok: "fst (Provision exProvision exCoConfig exMachine) = None"
  by code_simp

theorem provision_passes_check_witness:
  "list_all cr_Pass (Check exProvision exCoConfig (snd (Provision exProvision exCoConfig exMachine)))"
proof (rule provision_passes_check[OF _ exProvision_lingers])
  show "Provision exProvision exCoConfig exMachine = (None, snd (Provision exProvision exCoConfig exMachine))"
    using exProvision_ok by (simp add: prod_eq_iff)
qed

text \<open>The check does not pass on the machine as it was.\<close>

lemma exMachine_fails: "\<not> list_all cr_Pass (Check exProvision exCoConfig exMachine)"
  by code_simp

subsection \<open>A directory in between\<close>

lemma mkdirs_elsewhere: "\<forall>k. p \<noteq> done @ take k cs \<Longrightarrow> snd (mkdirs umask perm done cs f) p = f p"
proof (induction cs arbitrary: "done" f)
  case (Cons c cs)
  have "\<forall>k. p \<noteq> (done @ [c]) @ take k cs"
  proof
    fix k show "p \<noteq> (done @ [c]) @ take k cs" using spec[OF Cons.prems, of "Suc k"] by simp
  qed
  moreover have "p \<noteq> done @ [c]" using spec[OF Cons.prems, of 1] by simp
  ultimately show ?case using Cons.IH[of "done @ [c]"] by (auto split: option.splits)
qed simp

lemma mkdirs_between:
  assumes "mkdirs umask perm done (xs @ c # cs) f = (None, f')" and "f (done @ xs @ [c]) = None"
  shows "f' (done @ xs @ [c]) = Some \<lparr>nd_dir = True, nd_mode = umask perm, nd_uid = 0, nd_gid = 0, nd_data = []\<rparr>"
  using assms
proof (induction xs arbitrary: "done" f)
  case Nil
  let ?new = "\<lparr>nd_dir = True, nd_mode = umask perm, nd_uid = 0, nd_gid = 0, nd_data = []\<rparr>"
  have "mkdirs umask perm (done @ [c]) cs (f(done @ [c] \<mapsto> ?new)) = (None, f')" using Nil by simp
  then show ?case using mkdirs_keeps[of "f(done @ [c] \<mapsto> ?new)" "done @ [c]" ?new umask perm "done @ [c]" cs] by simp
next
  case (Cons x xs)
  obtain g where "mkdirs umask perm (done @ [x]) (xs @ c # cs) g = (None, f')" "g (done @ x # xs @ [c]) = None"
    using Cons.prems by (auto split: option.splits if_splits)
  then show ?case using Cons.IH[of "done @ [x]" g] by simp
qed

lemma homeCalls_below:
  assumes "runCalls env (homeCalls home uid gid) w = (None, w')" and "xs \<noteq> []"
  shows "cw_fs w' (home @ xs) = cw_fs w (home @ xs)"
proof -
  have "snd (mkdirs (co_umask env) 448 [] home f) (home @ xs) = f (home @ xs)" for f
  proof (rule mkdirs_elsewhere, rule allI)
    fix k show "home @ xs \<noteq> [] @ take k home"
      using assms(2) by (metis append_Nil append_self_conv append_take_drop_id append.assoc append_is_Nil_conv)
  qed
  then have m: "mkdirs (co_umask env) 448 [] home f = (None, f') \<Longrightarrow> f' (home @ xs) = f (home @ xs)" for f f'
    by (metis snd_conv)
  show ?thesis
    using assms m by (auto simp: homeCalls_def andThen_ok sys_def split: option.splits prod.splits)
qed

text \<open>
  The directories between the home and the two that are created below \<open>.config\<close> are made by root, with
  permissions 0700, and never given to the companion user: it cannot reach its own configuration or unit.
  The check does not look at them.
\<close>

theorem provision_locks_config_dir:
  assumes "Provision env cfg w = (None, w')" and "lingers env"
    and "\<forall>w1. ensureUser env (companionUsername (effective env cfg)) (homeDir (effective env cfg)) w = (None, w1) \<longrightarrow>
      cw_fs w1 (homeDir (effective env cfg) @ [''.config'']) = None"
  shows "\<exists>n. cw_fs w' (homeDir (effective env cfg) @ [''.config'']) = Some n \<and> nd_uid n = 0 \<and> nd_mode n = co_umask env 448"
proof -
  let ?user = "companionUsername (effective env cfg)" and ?home = "homeDir (effective env cfg)"
  let ?new = "\<lparr>nd_dir = True, nd_mode = co_umask env 448, nd_uid = 0, nd_gid = 0, nd_data = []\<rparr>"
  obtain w1 w2 uidStr uid gid where
    e: "ensureUser env ?user ?home w = (None, w1)" and
    run: "runCalls env (homeCalls ?home uid gid @ CMkdirAll (?home @ gopassDir) 448 #
       laterCalls ?home (cc_DesktopUser (effective env cfg)) ?user uidStr uid gid) w1 = (None, w2)" and
    l: "co_loginctl env [''enable-linger'', ?user] w2 = (None, w')"
    by (rule Provision_calls[OF assms(1)])
  obtain wa wb where a: "runCalls env (homeCalls ?home uid gid) w1 = (None, wa)" and
    b: "sys env (CMkdirAll (?home @ gopassDir) 448) wa = (None, wb)" and
    c: "runCalls env (laterCalls ?home (cc_DesktopUser (effective env cfg)) ?user uidStr uid gid) wb = (None, w2)"
    using run by (auto simp: runCalls_append andThen_ok)
  have "cw_fs wa (?home @ [''.config'']) = None"
    using homeCalls_below[OF a, of "[''.config'']"] assms(3) e by simp
  moreover have "mkdirs (co_umask env) 448 [] (?home @ ''.config'' # [''gopass'']) (cw_fs wa) = (None, cw_fs wb)"
    using b by (auto simp: sys_def split: option.splits prod.splits)
  ultimately have "cw_fs wb (?home @ [''.config'']) = Some ?new"
    using mkdirs_between[of "co_umask env" 448 "[]" ?home "''.config''" "[''gopass'']"] by simp
  from runCalls_stays[OF this c] obtain n where "cw_fs w2 (?home @ [''.config'']) = Some n" "nd_uid n = 0" "nd_mode n = co_umask env 448"
    by (auto simp: stays_def laterCalls_def)
  then show ?thesis using assms(2)[unfolded lingers_def] l by blast
qed

end
