(* ===== verification/Companion_Daemon.thy ===== *)
theory Companion_Daemon
  imports Go_Outcome Go_Strings
begin

text \<open>
  The companion daemon (\<^verbatim>\<open>internal/daemon\<close>): one object with two methods on the system bus, readiness reported to
  systemd, and a run that lasts until it is cancelled.  What it does is the list of its actions; each may fail.
\<close>

record Dispatcher =
  dp_version :: string

definition NewDispatcher :: "string \<Rightarrow> Dispatcher" where
  "NewDispatcher version = \<lparr>dp_version = version\<rparr>"

definition Ping :: "Dispatcher \<Rightarrow> dbus_error + string" where
  "Ping d = Inr ''pong''"

definition GetVersion :: "Dispatcher \<Rightarrow> dbus_error + string" where
  "GetVersion d = Inr (dp_version d)"

datatype daemon_act =
    DConnect string                      \<comment> \<open>address, empty for the system bus\<close>
  | DExport string string                \<comment> \<open>path and interface\<close>
  | DRequestName string | DNotify string string | DClose

record daemon_env =
  dm_fails :: "daemon_act \<Rightarrow> go_error option"
  dm_reply :: nat
  dm_notifySocket :: string

abbreviation (input) daemonName :: string where "daemonName \<equiv> ''net.mowaka.SecretsDispatcher1''"
abbreviation (input) daemonPath :: string where "daemonPath \<equiv> ''/net/mowaka/SecretsDispatcher1''"

definition daemonAct :: "daemon_env \<Rightarrow> daemon_act \<Rightarrow> daemon_act list \<Rightarrow> go_error option \<times> daemon_act list" where
  "daemonAct env a as = (case dm_fails env a of Some e \<Rightarrow> (Some e, as) | None \<Rightarrow> (None, as @ [a]))"

definition SdNotify :: "daemon_env \<Rightarrow> string \<Rightarrow> daemon_act list \<Rightarrow> daemon_act list" where
  "SdNotify env state as =
     (if dm_notifySocket env = [] then as else ignoring (daemonAct env (DNotify (dm_notifySocket env) state) as))"

definition ownName :: "daemon_env \<Rightarrow> daemon_act list \<Rightarrow> go_error option \<times> daemon_act list" where
  "ownName env as =
     andThen (wrapping (''request bus name '' @ [CHR 0x22] @ daemonName @ [CHR 0x22]) (daemonAct env (DRequestName daemonName) as))
      (\<lambda>as. (if dm_reply env = 1 then None
              else Some (ErrText (''not primary owner of '' @ [CHR 0x22] @ daemonName @ [CHR 0x22] @ '' (reply='' @ dec (dm_reply env) @
                     ''); policy rejected or name already taken'')), as))"

text \<open>\<open>Run\<close> with its context cancelled in the end; \<open>defer conn.Close()\<close> on every way out.\<close>

definition RunDaemon :: "daemon_env \<Rightarrow> string \<Rightarrow> go_error option \<times> daemon_act list" where
  "RunDaemon env busAddress =
     (case wrapping ''connect to D-Bus'' (daemonAct env (DConnect busAddress) []) of
        (Some e, as) \<Rightarrow> (Some e, as)
      | (None, as) \<Rightarrow>
         (case andThen (wrapping ''export dispatcher'' (daemonAct env (DExport daemonPath daemonName) as))
              (\<lambda>as. andThen (wrapping ''export introspectable'' (daemonAct env (DExport daemonPath ''org.freedesktop.DBus.Introspectable'') as))
              (\<lambda>as. andThen (ownName env as)
              (\<lambda>as. (None, SdNotify env ''READY=1'' as)))) of
            (e, as) \<Rightarrow> (e, as @ [DClose])))"

text \<open>Readiness is reported only once the objects are there and the name is owned, and the connection is always closed.\<close>

lemma ready_when_owned:
  assumes "DNotify sock state \<in> set (snd (RunDaemon env busAddress))"
  shows "snd (RunDaemon env busAddress) = [DConnect busAddress, DExport daemonPath daemonName,
      DExport daemonPath ''org.freedesktop.DBus.Introspectable'', DRequestName daemonName, DNotify sock state, DClose] \<and>
    dm_reply env = 1 \<and> fst (RunDaemon env busAddress) = None"
  using assms
  by (auto simp: RunDaemon_def ownName_def daemonAct_def SdNotify_def andThen_def wrapping_def ignoring_def split: option.splits if_splits)

lemma daemon_always_closes:
  "DConnect busAddress \<in> set (snd (RunDaemon env busAddress)) \<Longrightarrow> last (snd (RunDaemon env busAddress)) = DClose"
  by (auto simp: RunDaemon_def daemonAct_def wrapping_def split: option.splits prod.splits)

end
