(* ===== verification/Main_Flags.thy ===== *)
theory Main_Flags
  imports Config Service_Plan Companion
begin

text \<open>
  The command line (\<^verbatim>\<open>main.go\<close>): the arguments are turned into an \<open>invocation\<close>, with the flags parsed as the
  package \<open>flag\<close> of Go does.  Reading a duration or an integer is a parameter.
\<close>

subsection \<open>Flags\<close>

datatype flag_kind = FBool | FString | FDuration | FInt

record flag_lib =
  fb_duration :: "string \<Rightarrow> nanos option"
  fb_int :: "string \<Rightarrow> int option"

datatype flag_end = FlagHelp | FlagError string

text \<open>\<open>strconv.ParseBool\<close>.\<close>

definition ParseBool :: "string \<Rightarrow> bool option" where
  "ParseBool s = (if s \<in> {''1'', ''t'', ''T'', ''TRUE'', ''true'', ''True''} then Some True
     else if s \<in> {''0'', ''f'', ''F'', ''FALSE'', ''false'', ''False''} then Some False else None)"

definition accepts :: "flag_lib \<Rightarrow> flag_kind \<Rightarrow> string \<Rightarrow> bool" where
  "accepts L k v = (case k of FBool \<Rightarrow> ParseBool v \<noteq> None | FString \<Rightarrow> True
     | FDuration \<Rightarrow> fb_duration L v \<noteq> None | FInt \<Rightarrow> fb_int L v \<noteq> None)"

text \<open>The name and the value after \<open>=\<close>, which is not looked for in the first place.\<close>

definition cutValue :: "string \<Rightarrow> string \<times> string option" where
  "cutValue name =
     (case name of
        [] \<Rightarrow> ([], None)
      | c # cs \<Rightarrow> (case Cut cs (CHR ''='') of (n, v, found) \<Rightarrow> (c # n, if found then Some v else None)))"

type_synonym flag_spec = "(string, flag_kind) gomap"
type_synonym flag_values = "(string, string) gomap"

function parseFlags :: "flag_lib \<Rightarrow> flag_spec \<Rightarrow> string list \<Rightarrow> flag_values \<Rightarrow> flag_end + (flag_values \<times> string list)" where
  "parseFlags L spec [] vals = Inr (vals, [])"
| "parseFlags L spec (s # args) vals =
     (if length s < 2 \<or> hd s \<noteq> CHR ''-'' then Inr (vals, s # args)
      else if s = ''--'' then Inr (vals, args)
      else (let name = (if s ! 1 = CHR ''-'' then drop 2 s else drop 1 s) in
        if name = [] \<or> hd name = CHR ''-'' \<or> hd name = CHR ''='' then Inl (FlagError (''bad flag syntax: '' @ s))
        else (case cutValue name of (n, v) \<Rightarrow>
          (case gm_get spec n of
             None \<Rightarrow> if n = ''help'' \<or> n = ''h'' then Inl FlagHelp else Inl (FlagError (''flag provided but not defined: -'' @ n))
           | Some k \<Rightarrow>
              (case (if k = FBool then Some (case v of Some x \<Rightarrow> x | None \<Rightarrow> ''true'', args)
                     else (case v of Some x \<Rightarrow> Some (x, args) | None \<Rightarrow> (case args of [] \<Rightarrow> None | x # rest \<Rightarrow> Some (x, rest)))) of
                 None \<Rightarrow> Inl (FlagError (''flag needs an argument: -'' @ n))
               | Some (x, rest) \<Rightarrow>
                  if \<not> accepts L k x then Inl (FlagError (''invalid value '' @ [CHR 0x22] @ x @ [CHR 0x22] @ '' for flag -'' @ n))
                  else parseFlags L spec rest (gm_put n x vals))))))"
  by pat_completeness auto

termination
  by (relation "measure (\<lambda>(L, spec, args, vals). length args)") (auto split: if_splits option.splits list.splits)

definition strFlag :: "flag_values \<Rightarrow> string \<Rightarrow> string \<Rightarrow> string" where
  "strFlag vals n d = (case gm_get vals n of Some x \<Rightarrow> x | None \<Rightarrow> d)"

definition boolFlag :: "flag_values \<Rightarrow> string \<Rightarrow> bool \<Rightarrow> bool" where
  "boolFlag vals n d = (case gm_get vals n of Some x \<Rightarrow> (case ParseBool x of Some b \<Rightarrow> b | None \<Rightarrow> d) | None \<Rightarrow> d)"

text \<open>\<open>setFlags\<close>: a flag counts as set when it was on the command line.\<close>

definition setFlag :: "flag_values \<Rightarrow> string \<Rightarrow> string option" where
  "setFlag vals n = gm_get vals n"

subsection \<open>Commands\<close>

record cli_flags =
  cf_config :: string
  cf_stateDirFlag :: "string option"
  cf_server :: "string option"
  cf_json :: bool

datatype invocation =
    InvServe serve_flags bool string                         \<comment> \<open>api-only, config\<close>
  | InvLogin string "string option" "string option"          \<comment> \<open>config, listen, state-dir\<close>
  | InvCLI string cli_flags "string list"
  | InvConfigShow string bool | InvConfigEdit string | InvConfigValidate string
  | InvTry TryOptions bool                                   \<comment> \<open>dry run\<close>
  | InvInstall Options bool | InvUninstall | InvStatus
  | InvGPGSign "string list" | InvGPGSetup string
  | InvProvision CoConfig bool                               \<comment> \<open>check only\<close>
  | InvDaemon string string                                  \<comment> \<open>bus address, log level\<close>
  | InvVersion
  | InvUsage string int                                      \<comment> \<open>of which group, exit code\<close>
  | InvBadFlags flag_end                                     \<comment> \<open>\<open>flag.ExitOnError\<close>\<close>

definition withFlags :: "flag_lib \<Rightarrow> flag_spec \<Rightarrow> string list \<Rightarrow> (flag_values \<Rightarrow> string list \<Rightarrow> invocation) \<Rightarrow> invocation" where
  "withFlags L spec args f = (case parseFlags L spec args [] of Inl e \<Rightarrow> InvBadFlags e | Inr (vals, rest) \<Rightarrow> f vals rest)"

definition parseServe :: "flag_lib \<Rightarrow> string list \<Rightarrow> invocation" where
  "parseServe L args =
     withFlags L [(''config'', FString), (''log-level'', FString), (''log-format'', FString), (''listen'', FString), (''timeout'', FDuration),
        (''history-limit'', FInt), (''state-dir'', FString), (''api-only'', FBool), (''notifications'', FBool)] args
      (\<lambda>v _. InvServe
         \<lparr>fl_stateDir = setFlag v ''state-dir'', fl_listen = setFlag v ''listen'', fl_logLevel = setFlag v ''log-level'',
          fl_logFormat = setFlag v ''log-format'', fl_timeout = Option.bind (setFlag v ''timeout'') (fb_duration L),
          fl_historyLimit = Option.bind (setFlag v ''history-limit'') (fb_int L),
          fl_notifications = Option.bind (setFlag v ''notifications'') ParseBool\<rparr>
         (boolFlag v ''api-only'' False) (strFlag v ''config'' []))"

definition parseLogin :: "flag_lib \<Rightarrow> string list \<Rightarrow> invocation" where
  "parseLogin L args =
     withFlags L [(''config'', FString), (''listen'', FString), (''state-dir'', FString)] args
      (\<lambda>v _. InvLogin (strFlag v ''config'' []) (setFlag v ''listen'') (setFlag v ''state-dir''))"

definition parseCLI :: "flag_lib \<Rightarrow> string \<Rightarrow> string list \<Rightarrow> invocation" where
  "parseCLI L cmd args =
     withFlags L [(''config'', FString), (''state-dir'', FString), (''server'', FString), (''json'', FBool)] args
      (\<lambda>v rest. InvCLI cmd \<lparr>cf_config = strFlag v ''config'' [], cf_stateDirFlag = setFlag v ''state-dir'', cf_server = setFlag v ''server'',
         cf_json = boolFlag v ''json'' False\<rparr> rest)"

definition parseConfig :: "flag_lib \<Rightarrow> string list \<Rightarrow> invocation" where
  "parseConfig L args =
     (case args of
        [] \<Rightarrow> InvUsage ''config'' 1
      | cmd # args \<Rightarrow>
         if cmd = ''show'' then
           withFlags L [(''config'', FString), (''defaults'', FBool)] args (\<lambda>v _. InvConfigShow (strFlag v ''config'' []) (boolFlag v ''defaults'' False))
         else if cmd = ''edit'' then withFlags L [(''config'', FString)] args (\<lambda>v _. InvConfigEdit (strFlag v ''config'' []))
         else if cmd = ''validate'' then withFlags L [(''config'', FString)] args (\<lambda>v _. InvConfigValidate (strFlag v ''config'' []))
         else if cmd \<in> {''-h'', ''--help'', ''help''} then InvUsage ''config'' 0
         else InvUsage ''config'' 1)"

definition parseTry :: "flag_lib \<Rightarrow> string list \<Rightarrow> invocation" where
  "parseTry L args =
     withFlags L [(''dry-run'', FBool), (''config'', FString), (''backend'', FString), (''verbose'', FBool)] args
      (\<lambda>v _. InvTry \<lparr>to_ConfigPath = strFlag v ''config'' [], to_BackendPath = strFlag v ''backend'' []\<rparr> (boolFlag v ''dry-run'' False))"

definition parseInstall :: "flag_lib \<Rightarrow> string list \<Rightarrow> invocation" where
  "parseInstall L args =
     withFlags L [(''start'', FBool), (''no-start'', FBool), (''config'', FString), (''mode'', FString), (''backend'', FString),
        (''dry-run'', FBool), (''verbose'', FBool)] args
      (\<lambda>v _. InvInstall \<lparr>op_ConfigPath = strFlag v ''config'' [], op_Start = (boolFlag v ''start'' True \<and> \<not> boolFlag v ''no-start'' False),
         op_Mode = strFlag v ''mode'' ''local'', op_BackendPath = strFlag v ''backend'' []\<rparr> (boolFlag v ''dry-run'' False))"

definition parseService :: "flag_lib \<Rightarrow> string list \<Rightarrow> invocation" where
  "parseService L args =
     (case args of
        [] \<Rightarrow> InvUsage ''service'' 1
      | cmd # args \<Rightarrow>
         if cmd = ''install'' then parseInstall L args
         else if cmd = ''uninstall'' then withFlags L [(''verbose'', FBool)] args (\<lambda>_ _. InvUninstall)
         else if cmd = ''status'' then InvStatus
         else if cmd \<in> {''-h'', ''--help'', ''help''} then InvUsage ''service'' 0
         else InvUsage ''service'' 1)"

definition parseGPGSign :: "flag_lib \<Rightarrow> string list \<Rightarrow> invocation" where
  "parseGPGSign L args =
     (case args of
        cmd # rest \<Rightarrow>
          if cmd = ''setup'' then
            withFlags L [(''local'', FBool)] rest (\<lambda>v _. InvGPGSetup (if boolFlag v ''local'' False then ''local'' else ''global''))
          else InvGPGSign args
      | [] \<Rightarrow> InvGPGSign [])"

definition parseProvision :: "flag_lib \<Rightarrow> string list \<Rightarrow> invocation" where
  "parseProvision L args =
     withFlags L [(''user'', FString), (''companion-name'', FString), (''home-base'', FString), (''check'', FBool)] args
      (\<lambda>v _. InvProvision \<lparr>cc_DesktopUser = strFlag v ''user'' [], cc_CompanionName = strFlag v ''companion-name'' [],
         cc_HomeBase = strFlag v ''home-base'' ''/var/lib/secret-companion''\<rparr> (boolFlag v ''check'' False))"

definition parseDaemon :: "flag_lib \<Rightarrow> string list \<Rightarrow> invocation" where
  "parseDaemon L args =
     withFlags L [(''bus-address'', FString), (''log-level'', FString)] args
      (\<lambda>v _. InvDaemon (strFlag v ''bus-address'' []) (strFlag v ''log-level'' ''info''))"

text \<open>\<open>main\<close>, without the name of the program.\<close>

definition parseMain :: "flag_lib \<Rightarrow> string list \<Rightarrow> invocation" where
  "parseMain L args =
     (case args of
        [] \<Rightarrow> InvUsage [] 1
      | cmd # args \<Rightarrow>
         if cmd = ''serve'' then parseServe L args
         else if cmd = ''login'' then parseLogin L args
         else if cmd \<in> {''list'', ''show'', ''approve'', ''deny'', ''history''} then parseCLI L cmd args
         else if cmd = ''config'' then parseConfig L args
         else if cmd = ''try'' then parseTry L args
         else if cmd = ''service'' then parseService L args
         else if cmd = ''gpg-sign'' then parseGPGSign L args
         else if cmd = ''provision'' then parseProvision L args
         else if cmd = ''daemon'' then parseDaemon L args
         else if cmd = ''version'' then InvVersion
         else if cmd \<in> {''-h'', ''--help'', ''help''} then InvUsage [] 0
         else InvUsage [] 1)"

declare parseFlags.simps [simp del]

subsection \<open>Writing a command line\<close>

text \<open>Flags in the form \<open>--name=value\<close>, then arguments of which the first is no flag.\<close>

definition flagArg :: "string \<times> string \<Rightarrow> string" where
  "flagArg nv = ''--'' @ fst nv @ ''='' @ snd nv"

definition flagName :: "string \<Rightarrow> bool" where
  "flagName n \<longleftrightarrow> n \<noteq> [] \<and> hd n \<noteq> CHR ''-'' \<and> CHR ''='' \<notin> set n"

definition plainArgs :: "string list \<Rightarrow> bool" where
  "plainArgs args \<longleftrightarrow> args = [] \<or> length (hd args) < 2 \<or> hd (hd args) \<noteq> CHR ''-''"

lemma cutValue_flag: "flagName n \<Longrightarrow> cutValue (n @ ''='' @ v) = (n, Some v)"
  using Cut_found[of "CHR ''=''" "tl n" v] by (cases n) (auto simp: cutValue_def flagName_def)

lemma parseFlags_flag:
  assumes "flagName n" and "gm_get spec n = Some k" and "accepts L k v"
  shows "parseFlags L spec (flagArg (n, v) # args) vals = parseFlags L spec args (gm_put n v vals)"
proof -
  let ?s = "flagArg (n, v)" let ?nv = "n @ ''='' @ v"
  have s: "\<not> (length ?s < 2 \<or> hd ?s \<noteq> CHR ''-'')" "?s \<noteq> ''--''" "(if ?s ! 1 = CHR ''-'' then drop 2 ?s else drop 1 ?s) = ?nv"
    using assms(1) by (simp_all add: flagArg_def flagName_def)
  have h: "\<not> (?nv = [] \<or> hd ?nv = CHR ''-'' \<or> hd ?nv = CHR ''='')"
    using assms(1) by (cases n) (auto simp: flagName_def)
  show ?thesis
    unfolding parseFlags.simps Let_def s(3) cutValue_flag[OF assms(1)] prod.case assms(2) option.case
    using s(1,2) h assms(3) by (cases "k = FBool") simp_all
qed

lemma parseFlags_plain: "plainArgs args \<Longrightarrow> parseFlags L spec args vals = Inr (vals, args)"
  by (cases args) (auto simp: plainArgs_def parseFlags.simps)

lemma parseFlags_flags:
  "\<forall>(n, v) \<in> set vs. flagName n \<and> (\<exists>k. gm_get spec n = Some k \<and> accepts L k v) \<Longrightarrow> plainArgs args \<Longrightarrow>
     parseFlags L spec (map flagArg vs @ args) vals = Inr (fold (\<lambda>(n, v). gm_put n v) vs vals, args)"
proof (induction vs arbitrary: vals)
  case (Cons a vs)
  obtain n v where a: "a = (n, v)" by (cases a)
  then obtain k where "flagName n" "gm_get spec n = Some k" "accepts L k v" using Cons.prems(1) by auto
  then have "parseFlags L spec (map flagArg (a # vs) @ args) vals = parseFlags L spec (map flagArg vs @ args) (gm_put n v vals)"
    by (simp add: a parseFlags_flag)
  then show ?case using Cons by (simp add: a)
qed (simp add: parseFlags_plain)

lemma gm_get_fold_put:
  "distinct (map fst vs) \<Longrightarrow> gm_get (fold (\<lambda>(n, v). gm_put n v) vs m) n = (case gm_get vs n of Some v \<Rightarrow> Some v | None \<Rightarrow> gm_get m n)"
proof (induction vs arbitrary: m)
  case (Cons a vs)
  obtain k v where a: "a = (k, v)" by (cases a)
  have "gm_get vs k = None" using Cons.prems by (simp add: a map_of_eq_None_iff)
  then show ?case using Cons by (auto simp: a update_conv' split: option.splits)
qed simp

lemma flags_roundtrip:
  assumes "\<forall>(n, v) \<in> set vs. flagName n \<and> (\<exists>k. gm_get spec n = Some k \<and> accepts L k v)" and "distinct (map fst vs)" and "plainArgs args"
  shows "\<exists>vals. parseFlags L spec (map flagArg vs @ args) [] = Inr (vals, args) \<and> gm_get vals = gm_get vs"
  using parseFlags_flags[OF assms(1,3), of "[]"] gm_get_fold_put[OF assms(2), of "[]"]
  by (auto intro!: ext split: option.splits)

text \<open>The flags of a client command as they are written.\<close>

definition cliSettings :: "cli_flags \<Rightarrow> (string \<times> string) list" where
  "cliSettings fl =
     (if cf_config fl = [] then [] else [(''config'', cf_config fl)]) @
     (case cf_stateDirFlag fl of None \<Rightarrow> [] | Some d \<Rightarrow> [(''state-dir'', d)]) @
     (case cf_server fl of None \<Rightarrow> [] | Some a \<Rightarrow> [(''server'', a)]) @
     (if cf_json fl then [(''json'', ''true'')] else [])"

abbreviation (input) cliSpec :: flag_spec where
  "cliSpec \<equiv> [(''config'', FString), (''state-dir'', FString), (''server'', FString), (''json'', FBool)]"

lemma cliSettings_ok:
  "\<forall>(n, v) \<in> set (cliSettings fl). flagName n \<and> (\<exists>k. gm_get cliSpec n = Some k \<and> accepts L k v)"
  by (auto simp: cliSettings_def flagName_def accepts_def ParseBool_def split: option.splits)

lemma cliSettings_distinct: "distinct (map fst (cliSettings fl))"
  by (simp add: cliSettings_def split: option.splits)

lemma cliSettings_get:
  "gm_get (cliSettings fl) ''config'' = (if cf_config fl = [] then None else Some (cf_config fl))"
  "gm_get (cliSettings fl) ''state-dir'' = cf_stateDirFlag fl"
  "gm_get (cliSettings fl) ''server'' = cf_server fl"
  "gm_get (cliSettings fl) ''json'' = (if cf_json fl then Some ''true'' else None)"
  by (simp_all add: cliSettings_def split: option.splits)

text \<open>
  C36: What is written on the command line of a client command is what the command gets: any values of its flags, written
  as \<open>--name=value\<close>, followed by arguments that do not begin with a dash, are read back as exactly these values and
  these arguments.
\<close>

theorem command_line_roundtrip:
  assumes "cmd \<in> {''list'', ''show'', ''approve'', ''deny'', ''history''}" and "plainArgs args"
  shows "parseMain L (cmd # map flagArg (cliSettings fl) @ args) = InvCLI cmd fl args"
proof -
  obtain vals where "parseFlags L cliSpec (map flagArg (cliSettings fl) @ args) [] = Inr (vals, args)" "gm_get vals = gm_get (cliSettings fl)"
    using flags_roundtrip[OF cliSettings_ok cliSettings_distinct assms(2)] by blast
  then have "parseCLI L cmd (map flagArg (cliSettings fl) @ args) = InvCLI cmd fl args"
    by (simp add: parseCLI_def withFlags_def strFlag_def boolFlag_def setFlag_def cliSettings_get ParseBool_def)
  then show ?thesis using assms(1) by (auto simp: parseMain_def)
qed

theorem command_line_roundtrip_witness:
  "parseMain \<lparr>fb_duration = (\<lambda>_. None), fb_int = (\<lambda>_. None)\<rparr> [''approve'', ''--server=h:1'', ''--json=true'', ''ab12''] =
     InvCLI ''approve'' \<lparr>cf_config = [], cf_stateDirFlag = None, cf_server = Some ''h:1'', cf_json = True\<rparr> [''ab12'']"
  using command_line_roundtrip[of "''approve''" "[''ab12'']" "\<lparr>fb_duration = (\<lambda>_. None), fb_int = (\<lambda>_. None)\<rparr>"
      "\<lparr>cf_config = [], cf_stateDirFlag = None, cf_server = Some ''h:1'', cf_json = True\<rparr>"]
  by (simp add: plainArgs_def cliSettings_def flagArg_def)

text \<open>A flag after the first argument is an argument: \<open>approve ID --json\<close> does not print JSON.\<close>

lemma flag_after_argument:
  "parseCLI L ''approve'' [''ab12'', ''--json''] =
     InvCLI ''approve'' \<lparr>cf_config = [], cf_stateDirFlag = None, cf_server = None, cf_json = False\<rparr> [''ab12'', ''--json'']"
  by (simp add: parseCLI_def withFlags_def parseFlags.simps strFlag_def setFlag_def boolFlag_def)

end
