(* ===== verification/Main_Serve.thy ===== *)
theory Main_Serve
  imports Config Proxy_Watcher
begin

text \<open>
  What \<open>serve\<close> starts (\<open>runServe\<close> of \<^verbatim>\<open>main.go\<close>): the proxies of the topology, the SSH agent, the client list of the API,
  and the loop that keeps the session-bus proxy connected.
\<close>

subsection \<open>The topology\<close>

text \<open>A runner is what is started for one downstream, with the bus addresses it connects to; an empty upstream is the session bus.\<close>

datatype runner =
    RunSockets string string          \<comment> \<open>directory, upstream\<close>
  | RunSessionBus string              \<comment> \<open>upstream\<close>
  | RunSocket string string string    \<comment> \<open>client name, socket, upstream\<close>
  | RunSSH string string              \<comment> \<open>listening socket, real agent\<close>

datatype provider = StaticProvider string string | WatchProvider string | MultiProvider "provider list"

definition upstreamAddr :: "Config \<Rightarrow> string" where
  "upstreamAddr cfg =
     (let up = sv_Upstream (cf_Serve cfg) in if bc_Type up = ''socket'' then ''unix:path='' @ bc_Path up else [])"

text \<open>\<open>newManager\<close>: the error of \<open>proxy.NewManager\<close> for a directory, which ends the program.\<close>

fun downstreams :: "(string \<Rightarrow> go_error option) \<Rightarrow> string \<Rightarrow> BusConfig list \<Rightarrow> go_error + (provider list \<times> runner list)" where
  "downstreams newManager upstream [] = Inr ([], [])"
| "downstreams newManager upstream (d # ds) =
     (case (if bc_Type d = ''sockets'' then
              (case newManager (bc_Path d) of
                 Some e \<Rightarrow> Inl (ErrText (''error creating proxy manager: '' @ error_text e))
               | None \<Rightarrow> Inr ([WatchProvider (bc_Path d)], [RunSockets (bc_Path d) upstream]))
            else if bc_Type d = ''session_bus'' then
              Inr ([StaticProvider ''local'' ''session_bus''], [RunSessionBus upstream])
            else if bc_Type d = ''socket'' then
              Inr ([StaticProvider (Base (bc_Path d)) (bc_Path d)], [RunSocket (Base (bc_Path d)) (bc_Path d) upstream])
            else Inr ([], [])) of
        Inl e \<Rightarrow> Inl e
      | Inr (ps, rs) \<Rightarrow> (case downstreams newManager upstream ds of Inl e \<Rightarrow> Inl e | Inr (ps', rs') \<Rightarrow> Inr (ps @ ps', rs @ rs')))"

definition sshRunner :: "string \<Rightarrow> string \<Rightarrow> Config \<Rightarrow> runner list" where
  "sshRunner authSock runtimeDir cfg =
     (case cf_SSH cfg of
        None \<Rightarrow> []
      | Some s \<Rightarrow>
          (let upstream = (if sh_Upstream s = [] then authSock else sh_Upstream s);
               listen = (if sh_Listen s = [] then (if runtimeDir \<noteq> [] then runtimeDir @ ''/secrets-dispatcher/ssh-agent.sock'' else [])
                         else sh_Listen s)
           in if upstream = [] \<or> listen = [] then [] else [RunSSH listen upstream]))"

definition chooseProvider :: "provider list \<Rightarrow> provider" where
  "chooseProvider ps = (case ps of [] \<Rightarrow> StaticProvider [] [] | [p] \<Rightarrow> p | _ \<Rightarrow> MultiProvider ps)"

text \<open>\<open>watched\<close>: the present clients of the manager of a directory.\<close>

fun Clients :: "(string \<Rightarrow> (string \<times> string) list) \<Rightarrow> provider \<Rightarrow> (string \<times> string) list" where
  "Clients watched (StaticProvider name path) = (if name = [] then [] else [(name, path)])"
| "Clients watched (WatchProvider dir) = watched dir"
| "Clients watched (MultiProvider ps) = concat (map (Clients watched) ps)"

definition apiUnixSocket :: "bool \<Rightarrow> string \<Rightarrow> string" where
  "apiUnixSocket apiOnly runtimeDir = (if apiOnly \<or> runtimeDir = [] then [] else runtimeDir @ ''/secrets-dispatcher/api.sock'')"

record serve_plan =
  sp_manager :: ManagerConfig
  sp_provider :: provider
  sp_runners :: "runner list"
  sp_apiSocket :: string
  sp_stateDir :: string

definition servePlan :: "string \<Rightarrow> string \<Rightarrow> (string \<Rightarrow> go_error option) \<Rightarrow> bool \<Rightarrow> go_error + string \<Rightarrow> serve_settings \<Rightarrow> go_error + serve_plan" where
  "servePlan runtimeDir authSock newManager apiOnly defaultStateDir st =
     (case (if ss_stateDir st \<noteq> [] then Inr (ss_stateDir st) else defaultStateDir) of
        Inl e \<Rightarrow> Inl e
      | Inr stateDir \<Rightarrow>
          (let cfg = ss_config st in
           case downstreams newManager (upstreamAddr cfg) (sv_Downstream (cf_Serve cfg)) of
             Inl e \<Rightarrow> Inl e
           | Inr (ps, rs) \<Rightarrow>
               Inr \<lparr>sp_manager = managerConfig st, sp_provider = chooseProvider ps,
                    sp_runners = (if apiOnly then [] else rs @ sshRunner authSock runtimeDir cfg),
                    sp_apiSocket = apiUnixSocket apiOnly runtimeDir, sp_stateDir = stateDir\<rparr>))"

subsection \<open>Reconnecting\<close>

abbreviation (input) maxBackoff :: nanos where "maxBackoff \<equiv> 30000000000"
abbreviation (input) firstBackoff :: nanos where "firstBackoff \<equiv> 1000000000"

text \<open>The waits after successive attempts, each connected for a while (\<open>True\<close>) or failed at once.\<close>

fun reconnectWaits :: "nanos \<Rightarrow> bool list \<Rightarrow> nanos list" where
  "reconnectWaits backoff [] = []"
| "reconnectWaits backoff (connected # as) =
     (let backoff = (if connected then firstBackoff else backoff) in backoff # reconnectWaits (min (backoff * 2) maxBackoff) as)"

lemma min_double: "0 \<le> m \<Longrightarrow> min (min x m * 2) m = min (x * 2) (m :: int)"
  by linarith

lemma reconnectWaits_failing:
  "reconnectWaits (min x maxBackoff) (replicate n False) = map (\<lambda>i. min (x * 2 ^ i) maxBackoff) [0..<n]"
proof (induction n arbitrary: x)
  case (Suc n)
  have "reconnectWaits (min x maxBackoff) (replicate (Suc n) False) =
      min x maxBackoff # reconnectWaits (min (x * 2) maxBackoff) (replicate n False)"
    by (simp add: Let_def min_double del: min_less_iff_conj)
  also have "\<dots> = min x maxBackoff # map (\<lambda>i. min (x * 2 * 2 ^ i) maxBackoff) [0..<n]" by (simp only: Suc.IH)
  also have "\<dots> = map (\<lambda>i. min (x * 2 ^ i) maxBackoff) (0 # map Suc [0..<n])" by (simp add: mult.assoc)
  also have "0 # map Suc [0..<n] = [0..<Suc n]" by (simp add: map_Suc_upt upt_conv_Cons del: upt_Suc)
  finally show ?case .
qed simp

text \<open>
  Between attempts to connect, a proxy that keeps failing waits one second, then two, four and so on, up to half a
  minute; it never gives up and never spins.
\<close>

theorem backoff_doubles:
  "reconnectWaits firstBackoff (replicate n False) = map (\<lambda>i. min (firstBackoff * 2 ^ i) maxBackoff) [0..<n]"
  using reconnectWaits_failing[of firstBackoff n] by simp

lemma reconnectWaits_bounds:
  "firstBackoff \<le> b \<Longrightarrow> b \<le> maxBackoff \<Longrightarrow> d \<in> set (reconnectWaits b as) \<Longrightarrow> firstBackoff \<le> d \<and> d \<le> maxBackoff"
proof (induction as arbitrary: b)
  case (Cons a as)
  let ?b = "if a then firstBackoff else b"
  have b: "firstBackoff \<le> ?b" "?b \<le> maxBackoff" using Cons.prems(1,2) by auto
  then have nb: "firstBackoff \<le> min (?b * 2) maxBackoff" "min (?b * 2) maxBackoff \<le> maxBackoff" by linarith+
  have "d = ?b \<or> d \<in> set (reconnectWaits (min (?b * 2) maxBackoff) as)" using Cons.prems(3) by (simp only: reconnectWaits.simps Let_def) simp
  then show ?case using b Cons.IH[OF nb] by blast
qed simp

subsection \<open>What a validated configuration starts\<close>

definition providersOf :: "BusConfig \<Rightarrow> provider" where
  "providersOf d = (if bc_Type d = ''sockets'' then WatchProvider (bc_Path d)
     else if bc_Type d = ''session_bus'' then StaticProvider ''local'' ''session_bus''
     else StaticProvider (Base (bc_Path d)) (bc_Path d))"

definition runnerOf :: "string \<Rightarrow> BusConfig \<Rightarrow> runner" where
  "runnerOf up d = (if bc_Type d = ''sockets'' then RunSockets (bc_Path d) up
     else if bc_Type d = ''session_bus'' then RunSessionBus up
     else RunSocket (Base (bc_Path d)) (bc_Path d) up)"

lemma downstreams_valid:
  "downstreams nm up ds = Inr (ps, rs) \<Longrightarrow> list_all busOK ds \<Longrightarrow> ps = map providersOf ds \<and> rs = map (runnerOf up) ds"
proof (induction ds arbitrary: ps rs)
  case (Cons d ds)
  obtain ps' rs' where rest: "downstreams nm up ds = Inr (ps', rs')" and "ps = providersOf d # ps'" "rs = runnerOf up d # rs'"
  proof (cases "bc_Type d = ''sockets''")
    case True
    then show thesis using Cons.prems(1) that by (auto simp: providersOf_def runnerOf_def split: option.splits sum.splits)
  next
    case False
    then have "bc_Type d = ''session_bus'' \<or> bc_Type d = ''socket''" using Cons.prems(2) by (auto simp: busOK_def)
    then show thesis using Cons.prems(1) that by (elim disjE) (auto simp: providersOf_def runnerOf_def split: sum.splits)
  qed
  then show ?case using Cons.IH[OF rest] Cons.prems(2) by simp
qed simp

lemma chooseProvider_Clients: "Clients watched (chooseProvider ps) = concat (map (Clients watched) ps)"
  by (auto simp: chooseProvider_def split: list.splits)

lemma servePlan_parts:
  assumes "servePlan rd auth nm apiOnly dsd st = Inr p" and "Validate (ss_config st) = None"
  defines "up \<equiv> upstreamAddr (ss_config st)" and "ds \<equiv> sv_Downstream (cf_Serve (ss_config st))"
  shows "sp_provider p = chooseProvider (map providersOf ds)"
    and "sp_runners p = (if apiOnly then [] else map (runnerOf up) ds @ sshRunner auth rd (ss_config st))"
    and "sp_manager p = managerConfig st" and "sp_apiSocket p = apiUnixSocket apiOnly rd"
proof -
  have ok: "list_all busOK ds" using assms(2) by (simp add: Validate_decides configOK_def ds_def Let_def)
  obtain ps rs where d: "downstreams nm up ds = Inr (ps, rs)"
    using assms(1) by (auto simp: servePlan_def Let_def up_def ds_def split: sum.splits)
  note v = downstreams_valid[OF d ok]
  show "sp_provider p = chooseProvider (map providersOf ds)"
    and "sp_runners p = (if apiOnly then [] else map (runnerOf up) ds @ sshRunner auth rd (ss_config st))"
    and "sp_manager p = managerConfig st" and "sp_apiSocket p = apiUnixSocket apiOnly rd"
    using assms(1) d v by (auto simp: servePlan_def Let_def up_def[symmetric] ds_def[symmetric] split: sum.splits)
qed

lemma sshRunner_no_bus: "r \<in> set (sshRunner auth rd cfg) \<Longrightarrow> \<exists>l u. r = RunSSH l u"
  by (auto simp: sshRunner_def Let_def split: option.splits if_splits)

definition onSessionBus :: "runner \<Rightarrow> bool" where
  "onSessionBus r = (case r of RunSessionBus up \<Rightarrow> True | RunSockets dir up \<Rightarrow> up = [] | RunSocket c s up \<Rightarrow> up = [] | _ \<Rightarrow> False)"

lemma upstreamAddr_Nil: "bc_Type (sv_Upstream (cf_Serve cfg)) = ''socket'' \<Longrightarrow> upstreamAddr cfg \<noteq> []"
  by (simp add: upstreamAddr_def Let_def)


definition exTakeoverConfig :: Config where
  "exTakeoverConfig = zeroConfig\<lparr>cf_Serve := zeroServe\<lparr>sv_Upstream := \<lparr>bc_Type = ''socket'', bc_Path = ''/r/b''\<rparr>,
     sv_Downstream := [\<lparr>bc_Type = ''session_bus'', bc_Path = []\<rparr>, \<lparr>bc_Type = ''sockets'', bc_Path = ''/r/s''\<rparr>]\<rparr>\<rparr>"


text \<open>The check compares types only: the same socket at both ends is accepted, and the proxy then forwards to itself.\<close>

theorem same_socket_at_both_ends:
  "let cfg = zeroConfig\<lparr>cf_Serve := zeroServe\<lparr>sv_Upstream := \<lparr>bc_Type = ''socket'', bc_Path = ''/r/b''\<rparr>,
       sv_Downstream := [\<lparr>bc_Type = ''socket'', bc_Path = ''/r/b''\<rparr>]\<rparr>\<rparr> in
   \<exists>st p. serveSettings ''/r'' exFlags cfg = Inr st \<and> servePlan ''/r'' [] (\<lambda>_. None) False (Inr ''/s'') st = Inr p \<and>
     sp_runners p = [RunSocket ''b'' ''/r/b'' (''unix:path='' @ ''/r/b'')]"
proof -
  define cfg where "cfg = zeroConfig\<lparr>cf_Serve := zeroServe\<lparr>sv_Upstream := \<lparr>bc_Type = ''socket'', bc_Path = ''/r/b''\<rparr>,
       sv_Downstream := [\<lparr>bc_Type = ''socket'', bc_Path = ''/r/b''\<rparr>]\<rparr>\<rparr>"
  define st where "st = (case serveSettings ''/r'' exFlags cfg of Inr st \<Rightarrow> st)"
  define p where "p = (case servePlan ''/r'' [] (\<lambda>_. None) False (Inr ''/s'') st of Inr p \<Rightarrow> p)"
  have "serveSettings ''/r'' exFlags cfg = Inr st" unfolding st_def cfg_def by code_simp
  moreover have "servePlan ''/r'' [] (\<lambda>_. None) False (Inr ''/s'') st = Inr p" unfolding p_def st_def cfg_def by code_simp
  moreover have "sp_runners p = [RunSocket ''b'' ''/r/b'' (''unix:path='' @ ''/r/b'')]" unfolding p_def st_def cfg_def by code_simp
  ultimately show ?thesis unfolding cfg_def Let_def by blast
qed

end
