(* ===== verification/Main_Commands.thy ===== *)
theory Main_Commands
  imports Main_Flags Main_Serve Cli_Format
begin

text \<open>
  What the commands do once their flags are read (\<^verbatim>\<open>main.go\<close>): the client commands, \<open>login\<close>, \<open>config\<close> and \<open>provision\<close>.
  A command ends with an exit code, its output and its complaints.
\<close>

datatype complaint = Complaint string | ErrorOf go_error | ConfigErrorOf config_error

record finished =
  ex_code :: int
  ex_out :: string
  ex_err :: "complaint list"

definition failed :: "complaint list \<Rightarrow> finished" where
  "failed cs = \<lparr>ex_code = 1, ex_out = [], ex_err = cs\<rparr>"

definition succeeded :: "string \<Rightarrow> finished" where
  "succeeded out = \<lparr>ex_code = 0, ex_out = out, ex_err = []\<rparr>"

subsection \<open>Finding the daemon\<close>

text \<open>The surroundings of a command; the cookie file may be missing or not readable.\<close>

datatype cookie_file = CookieMissing | CookieUnreadable | CookieData string

record cli_env =
  xe_configHome :: string
  xe_home :: "go_error + string"
  xe_stateHome :: string
  xe_config :: "string \<Rightarrow> config_file"
  xe_cookie :: "string \<Rightarrow> cookie_file"

definition cookieData :: "cookie_file \<Rightarrow> string option" where
  "cookieData c = (case c of CookieData d \<Rightarrow> Some d | _ \<Rightarrow> None)"

definition chosenStateDir :: "cli_env \<Rightarrow> string option \<Rightarrow> Config \<Rightarrow> go_error + string" where
  "chosenStateDir env flag cfg =
     (let dir = (case flag of Some d \<Rightarrow> d | None \<Rightarrow> cf_StateDir cfg) in
      if dir \<noteq> [] then Inr dir else getStateDir (xe_stateHome env) (xe_home env))"

definition chosenAddr :: "string option \<Rightarrow> Config \<Rightarrow> string" where
  "chosenAddr flag cfg = (case flag of Some a \<Rightarrow> a | None \<Rightarrow> if cf_Listen cfg \<noteq> [] then cf_Listen cfg else DefaultListenAddr)"

text \<open>The part \<open>runLogin\<close> and \<open>runCLI\<close> share: the address of the daemon and its token.\<close>

definition findDaemon :: "cli_env \<Rightarrow> string \<Rightarrow> string option \<Rightarrow> string option \<Rightarrow> complaint list + (string \<times> Auth)" where
  "findDaemon env config stateFlag addrFlag =
     (case loadConfig (xe_configHome env) (xe_home env) config (xe_config env) of
        Inl e \<Rightarrow> Inl [ErrorOf e]
      | Inr cfg \<Rightarrow>
     (case chosenStateDir env stateFlag cfg of
        Inl e \<Rightarrow> Inl [ErrorOf e]
      | Inr stateDir \<Rightarrow>
         (let file = xe_cookie env (cookiePath stateDir) in
          case LoadAuth stateDir (cookieData file) of
            Inr auth \<Rightarrow> Inr (chosenAddr addrFlag cfg, auth)
          | Inl e \<Rightarrow>
              if file = CookieMissing
              then Inl [Complaint ''error: secrets-dispatcher is not running (no cookie file found)'',
                        Complaint ''Start the service first with: secrets-dispatcher serve'']
              else Inl [Complaint ''error loading auth: '', ErrorOf e])))"

subsection \<open>The client commands\<close>

record cli_print =
  xp_fmt :: fmt_env
  xp_requests :: "CliRequest list \<Rightarrow> string"
  xp_show :: "ShowResult \<Rightarrow> string"
  xp_history :: "CliHistory list \<Rightarrow> string"
  xp_action :: "(string \<times> string) list \<Rightarrow> string"

definition usageOf :: "string \<Rightarrow> complaint" where
  "usageOf cmd = Complaint (''usage: secrets-dispatcher '' @ cmd @ '' <request-id>'')"

definition shown :: "Formatter \<Rightarrow> finished" where
  "shown f = succeeded (fm_out f)"

text \<open>\<open>approve\<close> and \<open>deny\<close> report the ID as it was given.\<close>

definition runDecision :: "cli_print \<Rightarrow> (string \<Rightarrow> 'w \<Rightarrow> go_error option \<times> 'w) \<Rightarrow> string \<Rightarrow> string \<Rightarrow> bool \<Rightarrow> string list \<Rightarrow> 'w \<Rightarrow> finished \<times> 'w" where
  "runDecision P act cmd participle json args w =
     (case args of
        [] \<Rightarrow> (failed [usageOf cmd], w)
      | i # _ \<Rightarrow> (case act i w of
          (Some e, w) \<Rightarrow> (failed [ErrorOf e], w)
        | (None, w) \<Rightarrow> (shown (FormatAction (xp_action P) participle i (NewFormatter json)), w)))"

definition runShow :: "cli_print \<Rightarrow> 'w transport \<Rightarrow> cli_json \<Rightarrow> Client \<Rightarrow> bool \<Rightarrow> string list \<Rightarrow> 'w \<Rightarrow> finished \<times> 'w" where
  "runShow P T L c json args w =
     (case args of
        [] \<Rightarrow> (failed [usageOf ''show''], w)
      | i # _ \<Rightarrow> (case Show T L c i w of
          (Inl e, w) \<Rightarrow> (failed [ErrorOf e], w)
        | (Inr r, w) \<Rightarrow> (shown (FormatShowResult (xp_fmt P) (xp_show P) r (NewFormatter json)), w)))"

definition runCommand :: "cli_print \<Rightarrow> 'w transport \<Rightarrow> cli_json \<Rightarrow> Client \<Rightarrow> string \<Rightarrow> bool \<Rightarrow> string list \<Rightarrow> 'w \<Rightarrow> finished \<times> 'w" where
  "runCommand P T L c cmd json args w =
     (if cmd = ''list'' then
        (case ListRequests T L c w of
           (Inl e, w) \<Rightarrow> (failed [ErrorOf e], w)
         | (Inr rs, w) \<Rightarrow> (shown (FormatRequests (xp_fmt P) (xp_requests P) rs (NewFormatter json)), w))
      else if cmd = ''show'' then runShow P T L c json args w
      else if cmd = ''approve'' then runDecision P (ClientApprove T L c) cmd ''approved'' json args w
      else if cmd = ''deny'' then runDecision P (ClientDeny T L c) cmd ''denied'' json args w
      else if cmd = ''history'' then
        (case ClientHistory T L c w of
           (Inl e, w) \<Rightarrow> (failed [ErrorOf e], w)
         | (Inr es, w) \<Rightarrow> (shown (FormatHistory (xp_fmt P) (xp_history P) es (NewFormatter json)), w))
      else (succeeded [], w))"

definition runCLI :: "cli_env \<Rightarrow> cli_print \<Rightarrow> 'w transport \<Rightarrow> cli_json \<Rightarrow> string \<Rightarrow> cli_flags \<Rightarrow> string list \<Rightarrow> 'w \<Rightarrow> finished \<times> 'w" where
  "runCLI env P T L cmd fl args w =
     (case findDaemon env (cf_config fl) (cf_stateDirFlag fl) (cf_server fl) of
        Inl cs \<Rightarrow> (failed cs, w)
      | Inr (addr, auth) \<Rightarrow> runCommand P T L (NewClient addr (au_token auth)) cmd (cf_json fl) args w)"

definition runLogin :: "cli_env \<Rightarrow> jwt_lib \<Rightarrow> nanos \<Rightarrow> go_error + string \<Rightarrow> string \<Rightarrow> string option \<Rightarrow> string option \<Rightarrow> finished" where
  "runLogin env L now rnd config listenFlag stateFlag =
     (case findDaemon env config stateFlag listenFlag of
        Inl cs \<Rightarrow> failed cs
      | Inr (addr, auth) \<Rightarrow>
         (case GenerateLoginURL L now rnd addr auth of
            Inl e \<Rightarrow> failed [Complaint ''error generating login URL: '', ErrorOf e]
          | Inr url \<Rightarrow> succeeded (unlines [''Open this URL to access the Web UI:'', url, [], ''(Single-use link; expires in 5 minutes)''])))"

subsection \<open>The configuration\<close>

definition runConfigValidate :: "cli_env \<Rightarrow> string \<Rightarrow> string \<Rightarrow> finished" where
  "runConfigValidate env runtimeDir config =
     (case loadConfig (xe_configHome env) (xe_home env) config (xe_config env) of
        Inl e \<Rightarrow> failed [ErrorOf e]
      | Inr cfg \<Rightarrow>
         (case Validate (WithDefaults runtimeDir cfg) of
            Some e \<Rightarrow> failed [ConfigErrorOf e]
          | None \<Rightarrow> \<lparr>ex_code = 0, ex_out = [], ex_err = [Complaint ''config ok'']\<rparr>))"

definition runConfigShow :: "cli_env \<Rightarrow> (Config \<Rightarrow> go_error + string) \<Rightarrow> string \<Rightarrow> string \<Rightarrow> bool \<Rightarrow> finished" where
  "runConfigShow env marshal runtimeDir config full =
     (let path = (if config = [] then DefaultPath (xe_configHome env) (xe_home env) else config) in
      case loadConfig (xe_configHome env) (xe_home env) config (xe_config env) of
        Inl e \<Rightarrow> failed [ErrorOf e]
      | Inr cfg \<Rightarrow>
         (case marshal (if full then WithDefaults runtimeDir cfg else cfg) of
            Inl e \<Rightarrow> failed [Complaint (''# '' @ path), ErrorOf e]
          | Inr out \<Rightarrow> \<lparr>ex_code = 0, ex_out = out, ex_err = [Complaint (''# '' @ path)]\<rparr>))"

text \<open>The start of \<open>runServe\<close>: the same file, with the flags put over it.\<close>

definition startServe :: "cli_env \<Rightarrow> string \<Rightarrow> serve_flags \<Rightarrow> string \<Rightarrow> complaint list + serve_settings" where
  "startServe env runtimeDir fl config =
     (case loadConfig (xe_configHome env) (xe_home env) config (xe_config env) of
        Inl e \<Rightarrow> Inl [ErrorOf e]
      | Inr cfg \<Rightarrow> (case serveSettings runtimeDir fl cfg of Inl e \<Rightarrow> Inl [ConfigErrorOf e] | Inr st \<Rightarrow> Inr st))"

text \<open>
  \<open>config edit\<close>: the editor is a parameter, from the contents of the file to those it leaves (\<open>None\<close>: no file), with its
  error; so are the decoder, the answer typed at the prompt and the outcome of the restart.
\<close>

record edit_env =
  ed_mkdir :: "go_error option"
  ed_EDITOR :: string
  ed_VISUAL :: string
  ed_run :: "string \<Rightarrow> string option \<Rightarrow> go_error option \<times> string option"
  ed_decode :: "string \<Rightarrow> go_error + Config"
  ed_answer :: string
  ed_restart :: "go_error option"

record edit_world =
  ew_file :: "string option"
  ew_restarts :: nat

definition offerRestart :: "edit_env \<Rightarrow> edit_world \<Rightarrow> finished \<times> edit_world" where
  "offerRestart ed w =
     (if ed_answer ed = ''y'' \<or> ed_answer ed = ''Y'' then
        (let w = w\<lparr>ew_restarts := ew_restarts w + 1\<rparr> in
         case ed_restart ed of
           Some e \<Rightarrow> (failed [Complaint ''config updated'', Complaint ''error restarting service: '', ErrorOf e], w)
         | None \<Rightarrow> (\<lparr>ex_code = 0, ex_out = [], ex_err = [Complaint ''config updated'', Complaint ''service restarted'']\<rparr>, w))
      else (\<lparr>ex_code = 0, ex_out = [], ex_err = [Complaint ''config updated'']\<rparr>, w))"

definition checkEdited :: "edit_env \<Rightarrow> string \<Rightarrow> string \<Rightarrow> string \<Rightarrow> edit_world \<Rightarrow> finished \<times> edit_world" where
  "checkEdited ed runtimeDir path after w =
     (let warned = (\<lambda>c. \<lparr>ex_code = 0, ex_out = [], ex_err = [c, Complaint ''the file was saved but may not load correctly'']\<rparr>) in
      case Load path (FileData (ed_decode ed after)) of
        Inl e \<Rightarrow> (warned (ErrorOf e), w)
      | Inr cfg \<Rightarrow>
         (case Validate (WithDefaults runtimeDir cfg) of
            Some e \<Rightarrow> (warned (ConfigErrorOf e), w)
          | None \<Rightarrow> offerRestart ed w))"

definition runConfigEdit :: "cli_env \<Rightarrow> edit_env \<Rightarrow> string \<Rightarrow> string \<Rightarrow> edit_world \<Rightarrow> finished \<times> edit_world" where
  "runConfigEdit env ed runtimeDir config w =
     (let path = (if config = [] then DefaultPath (xe_configHome env) (xe_home env) else config) in
      if path = [] then (failed [Complaint ''error: cannot determine config path (set XDG_CONFIG_HOME or use --config)''], w)
      else case ed_mkdir ed of
        Some e \<Rightarrow> (failed [Complaint ''error creating config directory: '', ErrorOf e], w)
      | None \<Rightarrow>
         (let before = (case ew_file w of Some c \<Rightarrow> c | None \<Rightarrow> []);
              editor = (if ed_EDITOR ed = [] then ed_VISUAL ed else ed_EDITOR ed)
          in if editor = [] then (failed [Complaint ''error: $EDITOR is not set''], w)
             else (case ed_run ed editor (ew_file w) of
                (Some e, file) \<Rightarrow> (failed [Complaint ''editor exited with error: '', ErrorOf e], w\<lparr>ew_file := file\<rparr>)
              | (None, file) \<Rightarrow>
                 (let w = w\<lparr>ew_file := file\<rparr> in
                  case file of
                    None \<Rightarrow> (failed [Complaint ''error reading config after edit: ''], w)
                  | Some after \<Rightarrow>
                      if before = after then (\<lparr>ex_code = 0, ex_out = [], ex_err = [Complaint ''config unchanged'']\<rparr>, w)
                      else checkEdited ed runtimeDir path after w))))"

subsection \<open>Provisioning\<close>

definition checkLine :: "CheckResult \<Rightarrow> string" where
  "checkLine r = (if cr_Pass r then ''[PASS]'' else ''[FAIL]'') @ '' '' @ cr_Name r @ '': '' @ cr_Message r"

definition runProvision :: "co_env \<Rightarrow> CoConfig \<Rightarrow> bool \<Rightarrow> CoWorld \<Rightarrow> finished \<times> CoWorld" where
  "runProvision env cfg check w =
     (if check then
        (let results = Check env cfg w in
         (\<lparr>ex_code = (if list_all cr_Pass results then 0 else 1), ex_out = unlines (map checkLine results), ex_err = []\<rparr>, w))
      else (case Provision env cfg w of
         (Some e, w) \<Rightarrow> (failed [ErrorOf e], w)
       | (None, w) \<Rightarrow> (succeeded [], w)))"

subsection \<open>A decision from the terminal to the daemon\<close>

lemma findDaemon_same_dir:
  assumes "loadConfig (xe_configHome env) (xe_home env) config (xe_config env) = Inr cfg" and "chosenStateDir env stateFlag cfg = Inr dir"
    and "NewAuth dir mkdirErr file (Inr bs) writeErr = (Inr a, file')" and "bs \<noteq> []"
    and "cookieData (xe_cookie env (cookiePath dir)) = file'"
  shows "findDaemon env config stateFlag addrFlag = Inr (chosenAddr addrFlag cfg, a)"
  using token_survives_restart[OF assms(3,4)] by (simp add: findDaemon_def assms(1,2,5))

text \<open>
  C37: \<open>approve\<close> and \<open>deny\<close> at the terminal decide in the daemon.  The daemon has started with the state directory the command
  uses, so that the cookie file holds its token, and listens where the command looks: then the command
  decides the one pending request its argument names, exits with 0 exactly if that worked, and changes nothing and fails
  when the argument names no request or several.
\<close>

theorem terminal_decides_in_daemon:
  assumes "loadConfig (xe_configHome env) (xe_home env) (cf_config fl) (xe_config env) = Inr cfg"
    and "chosenStateDir env (cf_stateDirFlag fl) cfg = Inr dir"
    and "NewAuth dir mkdirErr file (Inr bs) writeErr = (Inr a, file')" and "bs \<noteq> []"
    and "cookieData (xe_cookie env (cookiePath dir)) = file'" and "au_token (ap_auth s) = au_token a"
    and "reads L enc (map convertRequest (ListPending (ce_now ce) (ap_mgr s)))"
    and "\<forall>q \<in> set (ListPending (ce_now ce) (ap_mgr s)). rq_ID q \<noteq> [] \<and> CHR ''/'' \<notin> set (rq_ID q)"
    and "(cmd, act) \<in> {(''approve'', DoApprove), (''deny'', DoDeny)}"
  shows "case runCLI env P (daemon enc stat h ce (''http://'' @ chosenAddr (cf_server fl) cfg)) L cmd fl (i # rest) s of (r, s') \<Rightarrow>
    (case named i (map rq_ID (ListPending (ce_now ce) (ap_mgr s))) of
       None \<Rightarrow> ex_code r = 1 \<and> s' = s
     | Some full \<Rightarrow> s' = s\<lparr>ap_mgr := snd (actionCall h ce act full (ap_mgr s))\<rparr> \<and>
         ex_code r = (if fst (actionCall h ce act full (ap_mgr s)) = None then 0 else 1))"
proof -
  let ?c = "NewClient (chosenAddr (cf_server fl) cfg) (au_token a)"
  let ?T = "daemon enc stat h ce (''http://'' @ chosenAddr (cf_server fl) cfg)"
  have base: "cc_baseURL ?c = ''http://'' @ chosenAddr (cf_server fl) cfg" "cc_token ?c = au_token (ap_auth s)"
    using assms(6) by (simp_all add: NewClient_def)
  have "act \<in> {DoApprove, DoDeny}" using assms(9) by auto
  note d = cliResolve_daemon[OF assms(7) base(2) this assms(8), where stat = stat and h = h and partial = i, unfolded base(1)]
  have run: "runCLI env P ?T L cmd fl (i # rest) s =
      (case cliResolve ?T L ?c (verbOf act) i s of
         (Some e, w) \<Rightarrow> (failed [ErrorOf e], w)
       | (None, w) \<Rightarrow> (shown (FormatAction (xp_action P) (if act = DoApprove then ''approved'' else ''denied'') i (NewFormatter (cf_json fl))), w))"
    using assms(9) by (auto simp: runCLI_def findDaemon_same_dir[OF assms(1-5)] runCommand_def runDecision_def ClientApprove_def ClientDeny_def)
  show ?thesis
    using d unfolding run by (auto simp: failed_def shown_def succeeded_def split: prod.splits option.splits)
qed

definition exCliEnv :: cli_env where
  "exCliEnv = \<lparr>xe_configHome = ''/c'', xe_home = Inr ''/h'', xe_stateHome = ''/s'', xe_config = (\<lambda>_. NoFile),
     xe_cookie = (\<lambda>p. if p = ''/s/secrets-dispatcher/.cookie'' then CookieData ''tok'' else CookieMissing)\<rparr>"

definition exCliFlags :: cli_flags where
  "exCliFlags = \<lparr>cf_config = [], cf_stateDirFlag = None, cf_server = None, cf_json = False\<rparr>"

definition exPrint :: cli_print where
  "exPrint = \<lparr>xp_fmt = \<lparr>fe_now = 0, fe_time = (\<lambda>_. []), fe_zero = (\<lambda>_. False)\<rparr>, xp_requests = (\<lambda>_. []), xp_show = (\<lambda>_. []),
     xp_history = (\<lambda>_. []), xp_action = (\<lambda>_. [])\<rparr>"

theorem terminal_decides_in_daemon_witness:
  "ex_code (fst (runCLI exCliEnv exPrint (daemon (\<lambda>v. ''{}'') (\<lambda>c. ''200 OK'') exHandlers exCall (''http://'' @ chosenAddr None zeroConfig))
     exJson ''deny'' exCliFlags [''r''] exState)) = 0"
proof -
  have 1: "loadConfig (xe_configHome exCliEnv) (xe_home exCliEnv) (cf_config exCliFlags) (xe_config exCliEnv) = Inr zeroConfig"
    by (simp add: loadConfig_def exCliEnv_def exCliFlags_def DefaultPath_def Load_def)
  have 2: "chosenStateDir exCliEnv (cf_stateDirFlag exCliFlags) zeroConfig = Inr ''/s/secrets-dispatcher''"
    by (simp add: chosenStateDir_def exCliEnv_def exCliFlags_def zeroConfig_def getStateDir_def)
  define a where "a = newAuth ''tok'' ''/s/secrets-dispatcher/.cookie''"
  have 3: "NewAuth ''/s/secrets-dispatcher'' None (Some ''tok'') (Inr ''ab'') None = (Inr a, Some ''tok'')" unfolding a_def by code_simp
  have 4: "cookieData (xe_cookie exCliEnv (cookiePath ''/s/secrets-dispatcher'')) = Some ''tok''"
    by (simp add: cookieData_def exCliEnv_def cookiePath_def)
  have 5: "au_token (ap_auth exState) = au_token a" unfolding a_def by code_simp
  have 6: "reads exJson (\<lambda>v. ''{}'') (map convertRequest (ListPending (ce_now exCall) (ap_mgr exState)))"
    by (simp add: reads_def exJson_def exCall_def exState_def)
  have m: "ap_mgr exState = exPending" "ce_now exCall = 110" by (simp_all add: exState_def exCall_def)
  have 7: "\<forall>q \<in> set (ListPending (ce_now exCall) (ap_mgr exState)). rq_ID q \<noteq> [] \<and> CHR ''/'' \<notin> set (rq_ID q)" unfolding m by code_simp
  have 8: "map rq_ID (ListPending 110 exPending) = [''r1'']" "named ''r'' [''r1''] = Some ''r1''" "fst (Deny 110 ''r1'' exPending) = None" by code_simp+
  show ?thesis
    using terminal_decides_in_daemon[OF 1 2 3 _ 4 5 6 7, where cmd = "''deny''" and act = DoDeny and i = "''r''" and rest = "[]" and P = exPrint
        and stat = "\<lambda>c. ''200 OK''" and h = exHandlers]
    by (simp add: m 8 exCliFlags_def split: prod.splits)
qed

subsection \<open>The other commands\<close>

text \<open>The URL that \<open>login\<close> prints carries a token the daemon accepts.\<close>

lemma login_prints_valid_token:
  assumes "loadConfig (xe_configHome env) (xe_home env) config (xe_config env) = Inr cfg" and "chosenStateDir env stateFlag cfg = Inr dir"
    and "NewAuth dir mkdirErr file (Inr bs) writeErr = (Inr a, file')" and "bs \<noteq> []"
    and "cookieData (xe_cookie env (cookiePath dir)) = file'"
    and "ex_code (runLogin env L now rnd config listenFlag stateFlag) = 0"
  shows "\<exists>token. GenerateJWT L now rnd a = Inr token \<and> ex_out (runLogin env L now rnd config listenFlag stateFlag) =
      unlines [''Open this URL to access the Web UI:'', ''http://'' @ chosenAddr listenFlag cfg @ ''/?token='' @ token, [], ''(Single-use link; expires in 5 minutes)'']"
  using assms(6)
  by (auto simp: runLogin_def findDaemon_same_dir[OF assms(1-5)] GenerateLoginURL_def failed_def succeeded_def split: sum.splits)


text \<open>
  C31: \<open>config edit\<close> never touches the file itself, and restarts the service at most once, only after the user said yes
  to a changed file that decodes to a valid configuration.
\<close>

theorem edit_restarts_valid_config_only:
  assumes "runConfigEdit env ed runtimeDir config w = (r, w')"
  shows "ew_file w' \<in> {ew_file w, snd (ed_run ed (if ed_EDITOR ed = [] then ed_VISUAL ed else ed_EDITOR ed) (ew_file w))} \<and>
    (ew_restarts w' = ew_restarts w \<or>
     ew_restarts w' = ew_restarts w + 1 \<and> ed_answer ed \<in> {''y'', ''Y''} \<and>
       (\<exists>after cfg. ew_file w' = Some after \<and> ew_file w \<noteq> Some after \<and> ed_decode ed after = Inr cfg \<and> Validate (WithDefaults runtimeDir cfg) = None))"
  using assms
  by (auto simp: runConfigEdit_def checkEdited_def offerRestart_def Load_def Let_def split: if_splits option.splits sum.splits prod.splits)

theorem edit_restarts_valid_config_only_witness:
  "\<exists>r w'. runConfigEdit exCliEnv \<lparr>ed_mkdir = None, ed_EDITOR = [], ed_VISUAL = ''vi'', ed_run = (\<lambda>_ _. (None, Some ''x'')),
      ed_decode = (\<lambda>_. Inr zeroConfig), ed_answer = ''y'', ed_restart = None\<rparr> ''/r'' [] \<lparr>ew_file = None, ew_restarts = 0\<rparr> = (r, w') \<and>
     ew_restarts w' = 1 \<and> ew_file w' = Some ''x'' \<and> Validate (WithDefaults ''/r'' zeroConfig) = None"
proof -
  define ed where "ed = \<lparr>ed_mkdir = None, ed_EDITOR = [], ed_VISUAL = ''vi'', ed_run = (\<lambda>_ _. (None, Some ''x'')),
      ed_decode = (\<lambda>_. Inr zeroConfig), ed_answer = ''y'', ed_restart = None\<rparr>"
  define w :: edit_world where "w = \<lparr>ew_file = None, ew_restarts = 0\<rparr>"
  obtain r w' where run: "runConfigEdit exCliEnv ed ''/r'' [] w = (r, w')" by (metis surj_pair)
  have "ew_restarts w' = 1"
    using run by (auto simp: runConfigEdit_def checkEdited_def offerRestart_def Load_def Let_def ed_def w_def exCliEnv_def DefaultPath_def
        WithDefaults_zero split: if_splits)
  moreover have "ew_restarts w = 0" "ed_run ed x y = (None, Some ''x'')" "ed_decode ed z = Inr zeroConfig" for x y z
    by (simp_all add: w_def ed_def)
  ultimately show ?thesis
    using edit_restarts_valid_config_only[OF run] run unfolding ed_def[symmetric] w_def[symmetric] by (intro exI[of _ r] exI[of _ w']) (auto simp: w_def)
qed

text \<open>\<open>provision\<close> followed by \<open>provision --check\<close>: see \<open>Companion_Props\<close>; the exit code of the check says whether all passed.\<close>

lemma provision_check_exit: "ex_code (fst (runProvision env cfg True w)) = 0 \<longleftrightarrow> list_all cr_Pass (Check env cfg w)"
  by (simp add: runProvision_def Let_def)

end
