(* ===== verification/Proxy_Prompter.thy ===== *)
theory Proxy_Prompter
  imports Proxy_Service
begin

text \<open>
  The two bus connections of a proxy, and the bridge for the unlock dialogs of the backend keyring
  (\<^verbatim>\<open>internal/proxy/prompter.go\<close>).

  A connection keeps the objects published on it and the names it owns.  Which operations fail, and how the bus daemon
  answers a request for a name, are parameters that may depend on everything done before.
\<close>

subsection \<open>The bus connections\<close>

datatype side = Front | Back

datatype exported =
    XService | XIntrospect | XCollection | XSubtreeProperties | XItem | XPrompt
  | XBridge | XCallback string        \<comment> \<open>the keyring connection it relays to\<close>

datatype bus_op =
    OExport side ObjectPath string exported
  | OExportSubtree side ObjectPath string exported
  | OUnexport side ObjectPath string
  | ORequestName side string
  | OReleaseName side string
  | OAddMatch side
  | ORemoveSignal side
  | OCloseConn side

record conn =
  cn_open :: bool
  cn_exports :: "ObjectPath \<times> string \<rightharpoonup> exported"
  cn_subtrees :: "ObjectPath \<times> string \<rightharpoonup> exported"
  cn_names :: "string list"

record Buses =
  bu_front :: conn
  bu_back :: conn
  bu_log :: "bus_op list"
  bu_frontCalls :: "upcall list"
  bu_backCalls :: "upcall list"

definition newConn :: conn where
  "newConn = \<lparr>cn_open = True, cn_exports = Map.empty, cn_subtrees = Map.empty, cn_names = []\<rparr>"

definition newBuses :: Buses where
  "newBuses = \<lparr>bu_front = newConn, bu_back = newConn, bu_log = [], bu_frontCalls = [], bu_backCalls = []\<rparr>"

record bus_env =
  be_fails :: "bus_op list \<Rightarrow> bus_op \<Rightarrow> go_error option"
  be_reply :: "bus_op list \<Rightarrow> string \<Rightarrow> nat"
  be_frontUp :: upstream        \<comment> \<open>answers to calls over the front connection\<close>
  be_backUp :: upstream

definition onSide :: "side \<Rightarrow> (conn \<Rightarrow> conn) \<Rightarrow> Buses \<Rightarrow> Buses" where
  "onSide sd f w = (case sd of Front \<Rightarrow> w\<lparr>bu_front := f (bu_front w)\<rparr> | Back \<Rightarrow> w\<lparr>bu_back := f (bu_back w)\<rparr>)"

fun busEffect :: "bus_op \<Rightarrow> Buses \<Rightarrow> Buses" where
  "busEffect (OExport sd p i x) = onSide sd (\<lambda>c. c\<lparr>cn_exports := (cn_exports c)((p, i) \<mapsto> x)\<rparr>)"
| "busEffect (OExportSubtree sd p i x) = onSide sd (\<lambda>c. c\<lparr>cn_subtrees := (cn_subtrees c)((p, i) \<mapsto> x)\<rparr>)"
| "busEffect (OUnexport sd p i) = onSide sd (\<lambda>c. c\<lparr>cn_exports := (cn_exports c)((p, i) := None)\<rparr>)"
| "busEffect (ORequestName sd n) = onSide sd (\<lambda>c. c\<lparr>cn_names := n # cn_names c\<rparr>)"
| "busEffect (OReleaseName sd n) = onSide sd (\<lambda>c. c\<lparr>cn_names := removeAll n (cn_names c)\<rparr>)"
| "busEffect (OAddMatch sd) = id"
| "busEffect (ORemoveSignal sd) = id"
| "busEffect (OCloseConn sd) = onSide sd (\<lambda>c. c\<lparr>cn_open := False, cn_names := []\<rparr>)"

definition logged :: "bus_op \<Rightarrow> Buses \<Rightarrow> Buses" where
  "logged op w = w\<lparr>bu_log := bu_log w @ [op]\<rparr>"

definition doOp :: "bus_env \<Rightarrow> bus_op \<Rightarrow> Buses \<Rightarrow> go_error option \<times> Buses" where
  "doOp env op w =
     (case be_fails env (bu_log w) op of Some e \<Rightarrow> (Some e, logged op w) | None \<Rightarrow> (None, busEffect op (logged op w)))"

text \<open>\<open>Conn.RequestName\<close>: the reply of the bus daemon, 1 for the primary owner.\<close>

abbreviation (input) PrimaryOwner :: nat where "PrimaryOwner \<equiv> 1"

definition requestName :: "bus_env \<Rightarrow> side \<Rightarrow> string \<Rightarrow> Buses \<Rightarrow> (go_error + nat) \<times> Buses" where
  "requestName env sd n w =
     (let op = ORequestName sd n; reply = be_reply env (bu_log w) n in
      case be_fails env (bu_log w) op of
        Some e \<Rightarrow> (Inl e, logged op w)
      | None \<Rightarrow> (Inr reply, (if reply = PrimaryOwner then busEffect op else id) (logged op w)))"

subsection \<open>The bridge\<close>

definition systemPrompterName :: string where "systemPrompterName = ''org.gnome.keyring.SystemPrompter''"
definition systemPrompterPath :: ObjectPath where "systemPrompterPath = ''/org/gnome/keyring/Prompter''"
definition prompterInterface :: string where "prompterInterface = ''org.gnome.keyring.internal.Prompter''"
definition prompterCallbackInterface :: string where "prompterCallbackInterface = ''org.gnome.keyring.internal.Prompter.Callback''"

record prompterBridge =
  pb_callbacks :: "(ObjectPath, bool) gomap"
  pb_owned :: bool
  pb_active :: bool
  pb_closed :: bool

definition activate :: "bus_env \<Rightarrow> prompterBridge \<Rightarrow> Buses \<Rightarrow> go_error option \<times> prompterBridge \<times> Buses" where
  "activate env b w =
     (if pb_closed b \<or> pb_active b then (None, b, w)
      else (case requestName env Back systemPrompterName w of
              (Inl e, w) \<Rightarrow> (Some (ErrText (''claim '' @ systemPrompterName @ '' on backend bus: '' @ error_text e)), b, w)
            | (Inr reply, w) \<Rightarrow>
                if reply \<noteq> PrimaryOwner then (None, b, w)
                else
                 (let b = b\<lparr>pb_owned := True\<rparr> in
                  case doOp env (OExport Back systemPrompterPath prompterInterface XBridge) w of
                    (Some e, w) \<Rightarrow>
                      (Some (ErrText (''export prompter bridge: '' @ error_text e)), b\<lparr>pb_owned := False\<rparr>,
                       snd (doOp env (OReleaseName Back systemPrompterName) w))
                  | (None, w) \<Rightarrow> (None, b\<lparr>pb_active := True\<rparr>, w))))"

definition emptyBridge :: prompterBridge where
  "emptyBridge = \<lparr>pb_callbacks = [], pb_owned = False, pb_active = False, pb_closed = False\<rparr>"

definition newPrompterBridge :: "bus_env \<Rightarrow> Buses \<Rightarrow> (go_error + prompterBridge option) \<times> Buses" where
  "newPrompterBridge env w =
     (if nameHasOwner (be_backUp env) (bu_backCalls w) systemPrompterName then (Inr None, w)
      else (case activate env emptyBridge w of
              (Some e, b, w) \<Rightarrow> (Inl e, w)
            | (None, b, w) \<Rightarrow> (Inr (Some b), w)))"

definition exportCallback :: "bus_env \<Rightarrow> ObjectPath \<Rightarrow> string \<Rightarrow> prompterBridge \<times> Buses \<Rightarrow> go_error option \<times> prompterBridge \<times> Buses" where
  "exportCallback env path keyring bw =
     (case bw of (b, w) \<Rightarrow>
      if gm_get (pb_callbacks b) path = Some True then (None, b, w)
      else (case doOp env (OExport Front path prompterCallbackInterface (XCallback keyring)) w of
              (Some e, w) \<Rightarrow> (Some e, b, w)
            | (None, w) \<Rightarrow> (None, b\<lparr>pb_callbacks := gm_put path True (pb_callbacks b)\<rparr>, w)))"

definition unexportCallback :: "bus_env \<Rightarrow> ObjectPath \<Rightarrow> prompterBridge \<times> Buses \<Rightarrow> prompterBridge \<times> Buses" where
  "unexportCallback env path bw =
     (case bw of (b, w) \<Rightarrow>
      if gm_get (pb_callbacks b) path \<noteq> Some True then (b, w)
      else (b\<lparr>pb_callbacks := gm_del path (pb_callbacks b)\<rparr>, snd (doOp env (OUnexport Front path prompterCallbackInterface) w)))"

text \<open>Calls relayed to gnome-shell, over the front connection, and to the keyring, over the backend connection.\<close>

definition toShell :: "bus_env \<Rightarrow> message \<Rightarrow> Buses \<Rightarrow> dbus_error option \<times> Buses" where
  "toShell env msg w =
     (case forwardVoid (be_frontUp env) systemPrompterName msg (bu_frontCalls w) of (e, lg) \<Rightarrow> (e, w\<lparr>bu_frontCalls := lg\<rparr>))"

definition toKeyring :: "bus_env \<Rightarrow> string \<Rightarrow> message \<Rightarrow> Buses \<Rightarrow> dbus_error option \<times> Buses" where
  "toKeyring env keyring msg w =
     (case forwardVoid (be_backUp env) keyring msg (bu_backCalls w) of (e, lg) \<Rightarrow> (e, w\<lparr>bu_backCalls := lg\<rparr>))"

definition BeginPrompting :: "bus_env \<Rightarrow> message \<Rightarrow> ObjectPath \<Rightarrow> prompterBridge \<times> Buses \<Rightarrow> dbus_error option \<times> prompterBridge \<times> Buses" where
  "BeginPrompting env msg callback bw =
     (case exportCallback env callback (senderOf msg) bw of
        (Some e, b, w) \<Rightarrow> (Some (ErrFailed e), b, w)
      | (None, b, w) \<Rightarrow> (case toShell env msg w of (r, w) \<Rightarrow> (r, b, w)))"

definition PerformPrompt :: "bus_env \<Rightarrow> message \<Rightarrow> prompterBridge \<times> Buses \<Rightarrow> dbus_error option \<times> prompterBridge \<times> Buses" where
  "PerformPrompt env msg bw = (case bw of (b, w) \<Rightarrow> case toShell env msg w of (r, w) \<Rightarrow> (r, b, w))"

definition StopPrompting :: "bus_env \<Rightarrow> message \<Rightarrow> ObjectPath \<Rightarrow> prompterBridge \<times> Buses \<Rightarrow> dbus_error option \<times> prompterBridge \<times> Buses" where
  "StopPrompting env msg callback bw =
     (case bw of (b, w) \<Rightarrow> case toShell env msg w of (r, w) \<Rightarrow> (r, unexportCallback env callback (b, w)))"

definition PromptReady :: "bus_env \<Rightarrow> string \<Rightarrow> message \<Rightarrow> Buses \<Rightarrow> dbus_error option \<times> Buses" where
  "PromptReady env keyring msg w = toKeyring env keyring msg w"

definition PromptDone :: "bus_env \<Rightarrow> string \<Rightarrow> message \<Rightarrow> Buses \<Rightarrow> dbus_error option \<times> Buses" where
  "PromptDone env keyring msg w = toKeyring env keyring msg w"

text \<open>\<open>close\<close>: the part under the lock, then the release of the name.\<close>

fun unexportAll :: "bus_env \<Rightarrow> ObjectPath list \<Rightarrow> Buses \<Rightarrow> Buses" where
  "unexportAll env [] w = w"
| "unexportAll env (p # ps) w = unexportAll env ps (snd (doOp env (OUnexport Front p prompterCallbackInterface) w))"

definition closeBridge :: "bus_env \<Rightarrow> prompterBridge \<times> Buses \<Rightarrow> prompterBridge \<times> Buses" where
  "closeBridge env bw =
     (case bw of (b, w) \<Rightarrow>
      (let owned = pb_owned b; w = unexportAll env (map fst (pb_callbacks b)) w;
           b = b\<lparr>pb_closed := True, pb_callbacks := [], pb_owned := False\<rparr>
       in (b, if owned then snd (doOp env (OReleaseName Back systemPrompterName) w) else w)))"

subsection \<open>The conversations as a state machine\<close>

text \<open>
  The methods run concurrently; each takes the lock for its own part only, so a step is such a part, a relayed call,
  or a call of gnome-shell at a callback object.  \<open>br_begun\<close> collects who has begun prompting with which callback.
\<close>

record bridge_run =
  br_bridge :: prompterBridge
  br_buses :: Buses
  br_begun :: "(ObjectPath \<times> string) list"

definition bridge_start :: "bridge_run \<Rightarrow> bool" where
  "bridge_start s \<longleftrightarrow> s = \<lparr>br_bridge = emptyBridge, br_buses = newBuses, br_begun = []\<rparr>"

abbreviation (input) callbackAt :: "Buses \<Rightarrow> ObjectPath \<Rightarrow> exported option" where
  "callbackAt w p \<equiv> cn_exports (bu_front w) (p, prompterCallbackInterface)"

inductive bridge_step :: "bus_env \<Rightarrow> bridge_run \<Rightarrow> bridge_run \<Rightarrow> bool" for env where
  bs_activate: "activate env (br_bridge s) (br_buses s) = (e, b, w) \<Longrightarrow> bridge_step env s (s\<lparr>br_bridge := b, br_buses := w\<rparr>)"
| bs_export: "exportCallback env (ms_callback) (senderOf msg) (br_bridge s, br_buses s) = (e, b, w) \<Longrightarrow>
    bridge_step env s \<lparr>br_bridge = b, br_buses = w, br_begun = (ms_callback, senderOf msg) # br_begun s\<rparr>"
| bs_toShell: "toShell env msg (br_buses s) = (r, w) \<Longrightarrow> bridge_step env s (s\<lparr>br_buses := w\<rparr>)"
| bs_unexport: "unexportCallback env p (br_bridge s, br_buses s) = (b, w) \<Longrightarrow> bridge_step env s (s\<lparr>br_bridge := b, br_buses := w\<rparr>)"
| bs_callback: "callbackAt (br_buses s) (pathOf msg) = Some (XCallback keyring) \<Longrightarrow>
    PromptReady env keyring msg (br_buses s) = (r, w) \<or> PromptDone env keyring msg (br_buses s) = (r, w) \<Longrightarrow>
    bridge_step env s (s\<lparr>br_buses := w\<rparr>)"
| bs_close: "closeBridge env (br_bridge s, br_buses s) = (b, w) \<Longrightarrow> bridge_step env s (s\<lparr>br_bridge := b, br_buses := w\<rparr>)"

subsection \<open>Frames\<close>

lemma logged_sel [simp]:
  "bu_front (logged op w) = bu_front w" "bu_back (logged op w) = bu_back w" "bu_log (logged op w) = bu_log w @ [op]"
  "bu_frontCalls (logged op w) = bu_frontCalls w" "bu_backCalls (logged op w) = bu_backCalls w"
  by (simp_all add: logged_def)

lemma onSide_calls [simp]:
  "bu_frontCalls (onSide sd f w) = bu_frontCalls w" "bu_backCalls (onSide sd f w) = bu_backCalls w" "bu_log (onSide sd f w) = bu_log w"
  "bu_front (onSide Front f w) = f (bu_front w)" "bu_front (onSide Back f w) = bu_front w"
  "bu_back (onSide Back f w) = f (bu_back w)" "bu_back (onSide Front f w) = bu_back w"
  by (simp_all add: onSide_def split: side.splits)

lemma busEffect_calls [simp]:
  "bu_frontCalls (busEffect op w) = bu_frontCalls w" "bu_backCalls (busEffect op w) = bu_backCalls w" "bu_log (busEffect op w) = bu_log w"
  by (cases op; simp)+

lemma doOp_calls [simp]:
  "bu_frontCalls (snd (doOp env op w)) = bu_frontCalls w" "bu_backCalls (snd (doOp env op w)) = bu_backCalls w"
  "bu_log (snd (doOp env op w)) = bu_log w @ [op]"
  by (simp_all add: doOp_def split: option.splits)

lemma requestName_calls [simp]:
  "bu_frontCalls (snd (requestName env sd n w)) = bu_frontCalls w" "bu_backCalls (snd (requestName env sd n w)) = bu_backCalls w"
  "bu_log (snd (requestName env sd n w)) = bu_log w @ [ORequestName sd n]"
  by (simp_all add: requestName_def Let_def split: option.splits)

text \<open>What an operation does to the callback objects.\<close>

lemma callback_doOp:
  "callbackAt (snd (doOp env op w)) p = (if be_fails env (bu_log w) op \<noteq> None then callbackAt w p else
     case op of OExport Front q i x \<Rightarrow> if q = p \<and> i = prompterCallbackInterface then Some x else callbackAt w p
     | OUnexport Front q i \<Rightarrow> if q = p \<and> i = prompterCallbackInterface then None else callbackAt w p | _ \<Rightarrow> callbackAt w p)"
proof (cases "be_fails env (bu_log w) op")
  case None
  then show ?thesis by (cases op) (simp_all add: doOp_def onSide_def split: side.splits)
qed (simp add: doOp_def)

lemma callback_requestName: "callbackAt (snd (requestName env sd n w)) p = callbackAt w p"
  by (cases sd) (simp_all add: requestName_def Let_def split: option.splits)

lemma callback_unexportAll: "callbackAt (unexportAll env ps w) p = callbackAt w p \<or> callbackAt (unexportAll env ps w) p = None"
proof (induction ps arbitrary: w)
  case (Cons q ps)
  let ?w = "snd (doOp env (OUnexport Front q prompterCallbackInterface) w)"
  have "callbackAt ?w p = callbackAt w p \<or> callbackAt ?w p = None" by (simp only: callback_doOp) simp
  then show ?case using Cons[of ?w] by auto
qed simp

lemma calls_unexportAll [simp]:
  "bu_frontCalls (unexportAll env ps w) = bu_frontCalls w" "bu_backCalls (unexportAll env ps w) = bu_backCalls w"
  by (induction ps arbitrary: w) simp_all

lemma names_unexportAll [simp]: "bu_back (unexportAll env ps w) = bu_back w"
proof (induction ps arbitrary: w)
  case (Cons q ps)
  have "bu_back (snd (doOp env (OUnexport Front q prompterCallbackInterface) w)) = bu_back w"
    by (simp add: doOp_def split: option.splits)
  then show ?case using Cons by simp
qed simp

subsection \<open>Who hears the answer\<close>

definition bridge_ok :: "bridge_run \<Rightarrow> bool" where
  "bridge_ok s \<longleftrightarrow>
     (\<forall>p x. callbackAt (br_buses s) p = Some x \<longrightarrow> (\<exists>k. x = XCallback k \<and> (p, k) \<in> set (br_begun s))) \<and>
     (\<forall>c \<in> set (bu_backCalls (br_buses s)). (uc_path c, uc_dest c) \<in> set (br_begun s)) \<and>
     (\<forall>c \<in> set (bu_frontCalls (br_buses s)). uc_dest c = systemPrompterName)"

text \<open>A step that adds no callback object and no call.\<close>

lemma bridge_ok_less:
  assumes "bridge_ok s" and "\<And>p. callbackAt w p = callbackAt (br_buses s) p \<or> callbackAt w p = None"
    and "bu_backCalls w = bu_backCalls (br_buses s)" and "bu_frontCalls w = bu_frontCalls (br_buses s)"
  shows "bridge_ok (s\<lparr>br_bridge := b, br_buses := w\<rparr>)"
proof -
  have "callbackAt w p = Some x \<Longrightarrow> callbackAt (br_buses s) p = Some x" for p x using assms(2)[of p] by auto
  then show ?thesis using assms(1,3,4) by (simp add: bridge_ok_def)
qed

lemma activate_frame:
  assumes "activate env b w = (e, b', w')"
  shows "callbackAt w' p = callbackAt w p" "bu_backCalls w' = bu_backCalls w" "bu_frontCalls w' = bu_frontCalls w"
proof -
  obtain r w1 where r: "requestName env Back systemPrompterName w = (r, w1)" by (cases "requestName env Back systemPrompterName w")
  have w1: "callbackAt w1 p = callbackAt w p" "bu_backCalls w1 = bu_backCalls w" "bu_frontCalls w1 = bu_frontCalls w"
    using callback_requestName[of env Back systemPrompterName w p] requestName_calls[of env Back systemPrompterName w] by (simp_all add: r)
  obtain e2 w2 where x: "doOp env (OExport Back systemPrompterPath prompterInterface XBridge) w1 = (e2, w2)"
    by (cases "doOp env (OExport Back systemPrompterPath prompterInterface XBridge) w1")
  have w2: "callbackAt w2 p = callbackAt w1 p" "bu_backCalls w2 = bu_backCalls w1" "bu_frontCalls w2 = bu_frontCalls w1"
    using callback_doOp[of env "OExport Back systemPrompterPath prompterInterface XBridge" w1 p]
      doOp_calls[of env "OExport Back systemPrompterPath prompterInterface XBridge" w1] by (simp_all add: x)
  have w3: "callbackAt (snd (doOp env (OReleaseName Back systemPrompterName) w2)) p = callbackAt w2 p" by (simp only: callback_doOp) simp
  show "callbackAt w' p = callbackAt w p" "bu_backCalls w' = bu_backCalls w" "bu_frontCalls w' = bu_frontCalls w"
    using assms w1 w2 w3 by (auto simp: activate_def r x Let_def split: if_splits sum.splits option.splits)
qed

lemma exportCallback_frame:
  assumes "exportCallback env q k (b, w) = (e, b', w')"
  shows "callbackAt w' p = callbackAt w p \<or> p = q \<and> callbackAt w' p = Some (XCallback k)"
    "bu_backCalls w' = bu_backCalls w" "bu_frontCalls w' = bu_frontCalls w"
proof -
  let ?op = "OExport Front q prompterCallbackInterface (XCallback k)"
  have w': "w' = w \<or> w' = snd (doOp env ?op w)"
    using assms by (auto simp: exportCallback_def split: if_splits prod.splits option.splits)
  then show "callbackAt w' p = callbackAt w p \<or> p = q \<and> callbackAt w' p = Some (XCallback k)"
    using callback_doOp[of env ?op w p] by (auto split: if_splits)
  show "bu_backCalls w' = bu_backCalls w" "bu_frontCalls w' = bu_frontCalls w" using w' by auto
qed

lemma unexportCallback_frame:
  assumes "unexportCallback env q (b, w) = (b', w')"
  shows "callbackAt w' p = callbackAt w p \<or> callbackAt w' p = None" "bu_backCalls w' = bu_backCalls w" "bu_frontCalls w' = bu_frontCalls w"
proof -
  let ?op = "OUnexport Front q prompterCallbackInterface"
  have w': "w' = w \<or> w' = snd (doOp env ?op w)" using assms by (auto simp: unexportCallback_def split: if_splits)
  then show "callbackAt w' p = callbackAt w p \<or> callbackAt w' p = None"
    using callback_doOp[of env ?op w p] by (auto split: if_splits)
  show "bu_backCalls w' = bu_backCalls w" "bu_frontCalls w' = bu_frontCalls w" using w' by auto
qed

lemma closeBridge_frame:
  assumes "closeBridge env (b, w) = (b', w')"
  shows "callbackAt w' p = callbackAt w p \<or> callbackAt w' p = None" "bu_backCalls w' = bu_backCalls w" "bu_frontCalls w' = bu_frontCalls w"
proof -
  let ?w = "unexportAll env (map fst (pb_callbacks b)) w"
  have w': "w' = ?w \<or> w' = snd (doOp env (OReleaseName Back systemPrompterName) ?w)"
    using assms by (auto simp: closeBridge_def Let_def split: if_splits)
  have "callbackAt (snd (doOp env (OReleaseName Back systemPrompterName) ?w)) p = callbackAt ?w p" by (simp only: callback_doOp) simp
  then show "callbackAt w' p = callbackAt w p \<or> callbackAt w' p = None"
    using w' callback_unexportAll[of env "map fst (pb_callbacks b)" w p] by auto
  show "bu_backCalls w' = bu_backCalls w" "bu_frontCalls w' = bu_frontCalls w" using w' by auto
qed

lemma toShell_frame:
  "toShell env msg w = (r, w') \<Longrightarrow> w' = w\<lparr>bu_frontCalls := bu_frontCalls w @ [forwardCall systemPrompterName msg]\<rparr>"
  by (auto simp: toShell_def forwardVoid_def forward_def Let_def split: prod.splits sum.splits)

lemma toKeyring_frame:
  "toKeyring env k msg w = (r, w') \<Longrightarrow> w' = w\<lparr>bu_backCalls := bu_backCalls w @ [forwardCall k msg]\<rparr>"
  by (auto simp: toKeyring_def forwardVoid_def forward_def Let_def split: prod.splits sum.splits)

lemma bridge_step_ok: "bridge_step env s t \<Longrightarrow> bridge_ok s \<Longrightarrow> bridge_ok t"
proof (induction rule: bridge_step.induct)
  case (bs_activate s e b w)
  then show ?case by (intro bridge_ok_less) (auto dest: activate_frame)
next
  case (bs_export p msg s e b w)
  note f = exportCallback_frame[OF bs_export(1)]
  have "\<exists>k. x = XCallback k \<and> (q, k) \<in> set ((p, senderOf msg) # br_begun s)" if "callbackAt w q = Some x" for q x
  proof (cases "callbackAt w q = callbackAt (br_buses s) q")
    case True
    then have "callbackAt (br_buses s) q = Some x" using that by simp
    then have "\<exists>k. x = XCallback k \<and> (q, k) \<in> set (br_begun s)" using bs_export(2) unfolding bridge_ok_def by blast
    then show ?thesis by auto
  next
    case False
    then show ?thesis using f(1)[of q] that by simp
  qed
  then show ?case using bs_export(2) f(2,3) by (simp add: bridge_ok_def)
next
  case (bs_toShell msg s r w)
  then show ?case by (auto dest!: toShell_frame simp: bridge_ok_def forwardCall_def mkcall_def)
next
  case (bs_unexport p s b w)
  then show ?case by (intro bridge_ok_less) (auto dest: unexportCallback_frame)
next
  case (bs_callback s msg k r w)
  then have "(pathOf msg, k) \<in> set (br_begun s)" by (auto simp: bridge_ok_def)
  then show ?case using bs_callback(2,3)
    by (auto dest!: toKeyring_frame simp: PromptReady_def PromptDone_def bridge_ok_def forwardCall_def mkcall_def)
next
  case (bs_close s b w)
  then show ?case by (intro bridge_ok_less) (auto dest: closeBridge_frame)
qed

lemma bridge_start_ok: "bridge_start s \<Longrightarrow> bridge_ok s"
  by (simp add: bridge_start_def bridge_ok_def newBuses_def newConn_def)

interpretation bridge: invariant_system bridge_start "bridge_step env" bridge_ok for env
  by unfold_locales (fact bridge_start_ok bridge_step_ok)+

text \<open>
  C39: Whatever the order of calls, failures and conversations, an answer of the unlock dialog (which carries the
  encrypted password) is relayed only to an object of a keyring connection that has itself begun prompting with that
  object, and what the keyring says goes to the session's prompter and nowhere else.
\<close>

theorem prompt_answers_reach_their_keyring:
  assumes "reach bridge_start (bridge_step env) s"
  shows "(\<forall>c \<in> set (bu_backCalls (br_buses s)). (uc_path c, uc_dest c) \<in> set (br_begun s)) \<and>
    (\<forall>c \<in> set (bu_frontCalls (br_buses s)). uc_dest c = systemPrompterName)"
  using bridge.reach_inv[OF assms] by (simp add: bridge_ok_def)

definition exBusEnv :: bus_env where
  "exBusEnv = \<lparr>be_fails = (\<lambda>_ _. None), be_reply = (\<lambda>_ _. 1), be_frontUp = (\<lambda>_ _. Inr []), be_backUp = (\<lambda>_ _. Inr [DBool False])\<rparr>"

definition exBegin :: message where
  "exBegin = \<lparr>ms_sender = '':1.5'', ms_path = systemPrompterPath, ms_iface = Some prompterInterface, ms_member = Some ''BeginPrompting'',
     ms_body = [DPath ''/p0'']\<rparr>"

definition exReady :: message where
  "exReady = \<lparr>ms_sender = '':1.2'', ms_path = ''/p0'', ms_iface = Some prompterCallbackInterface, ms_member = Some ''PromptReady'',
     ms_body = [DStr ''yes'', DStr ''exchange'']\<rparr>"

theorem prompt_answers_reach_their_keyring_witness:
  "\<exists>s. reach bridge_start (bridge_step exBusEnv) s \<and> map uc_dest (bu_backCalls (br_buses s)) = ['':1.5''] \<and>
     (\<forall>c \<in> set (bu_backCalls (br_buses s)). (uc_path c, uc_dest c) \<in> set (br_begun s))"
proof -
  define bw where "bw = snd (exportCallback exBusEnv ''/p0'' (senderOf exBegin) (emptyBridge, newBuses))"
  define s1 where "s1 = \<lparr>br_bridge = fst bw, br_buses = snd bw, br_begun = [(''/p0'', senderOf exBegin)]\<rparr>"
  define w where "w = snd (PromptReady exBusEnv '':1.5'' exReady (snd bw))"
  have 0: "reach bridge_start (bridge_step exBusEnv) \<lparr>br_bridge = emptyBridge, br_buses = newBuses, br_begun = []\<rparr>"
    by (rule reach_init) (simp add: bridge_start_def)
  have "bridge_step exBusEnv \<lparr>br_bridge = emptyBridge, br_buses = newBuses, br_begun = []\<rparr> s1"
    using bs_export[of exBusEnv "''/p0''" exBegin "\<lparr>br_bridge = emptyBridge, br_buses = newBuses, br_begun = []\<rparr>" _ "fst bw" "snd bw"]
    by (simp add: s1_def bw_def prod_eq_iff)
  then have 1: "reach bridge_start (bridge_step exBusEnv) s1" by (rule reach_step[OF 0])
  have at: "callbackAt (br_buses s1) (pathOf exReady) = Some (XCallback '':1.5'')" unfolding s1_def bw_def by code_simp
  have "bridge_step exBusEnv s1 (s1\<lparr>br_buses := w\<rparr>)"
    by (rule bs_callback[OF at, where r = "fst (PromptReady exBusEnv '':1.5'' exReady (snd bw))"]) (simp add: w_def s1_def)
  then have 2: "reach bridge_start (bridge_step exBusEnv) (s1\<lparr>br_buses := w\<rparr>)" by (rule reach_step[OF 1])
  have 3: "map uc_dest (bu_backCalls w) = ['':1.5'']" unfolding w_def bw_def by code_simp
  show ?thesis using prompt_answers_reach_their_keyring[OF 2] 2 3 by (intro exI[of _ "s1\<lparr>br_buses := w\<rparr>"]) simp
qed

subsection \<open>What is left behind\<close>

text \<open>Taking an object back and giving up a name do not fail.\<close>

definition neverKept :: "bus_env \<Rightarrow> bool" where
  "neverKept env \<longleftrightarrow> (\<forall>lg sd p i. be_fails env lg (OUnexport sd p i) = None) \<and> (\<forall>lg sd n. be_fails env lg (OReleaseName sd n) = None)"

definition bridge_tidy :: "bridge_run \<Rightarrow> bool" where
  "bridge_tidy s \<longleftrightarrow>
     (\<forall>p. callbackAt (br_buses s) p \<noteq> None \<longleftrightarrow> gm_get (pb_callbacks (br_bridge s)) p = Some True) \<and>
     (systemPrompterName \<in> set (cn_names (bu_back (br_buses s))) \<longleftrightarrow> pb_owned (br_bridge s)) \<and>
     (pb_owned (br_bridge s) \<longrightarrow> pb_active (br_bridge s))"

lemma callback_unexportAll_clean:
  "neverKept env \<Longrightarrow> callbackAt (unexportAll env ps w) p = (if p \<in> set ps then None else callbackAt w p)"
proof (induction ps arbitrary: w)
  case (Cons q ps)
  then show ?case using callback_doOp[of env "OUnexport Front q prompterCallbackInterface" w p] by (auto simp: neverKept_def)
qed simp

lemma release_clean:
  "neverKept env \<Longrightarrow> bu_back (snd (doOp env (OReleaseName Back n) w)) = (bu_back w)\<lparr>cn_names := removeAll n (cn_names (bu_back w))\<rparr>"
  "neverKept env \<Longrightarrow> bu_front (snd (doOp env (OReleaseName Back n) w)) = bu_front w"
  by (simp_all add: neverKept_def doOp_def)

lemma bridge_step_tidy:
  assumes "neverKept env"
  shows "bridge_step env s t \<Longrightarrow> bridge_tidy s \<Longrightarrow> bridge_tidy t"
proof (induction rule: bridge_step.induct)
  case (bs_activate s e b w)
  then show ?case using assms
    by (auto simp: activate_def requestName_def doOp_def bridge_tidy_def Let_def neverKept_def split: if_splits sum.splits option.splits prod.splits)
next
  case (bs_export p msg s e b w)
  then show ?case
    by (auto simp: exportCallback_def doOp_def bridge_tidy_def split: if_splits option.splits prod.splits)
next
  case (bs_toShell msg s r w)
  then show ?case by (auto dest!: toShell_frame simp: bridge_tidy_def)
next
  case (bs_unexport p s b w)
  then show ?case using assms
    by (auto simp: unexportCallback_def doOp_def neverKept_def bridge_tidy_def split: if_splits)
next
  case (bs_callback s msg k r w)
  then show ?case by (auto dest!: toKeyring_frame simp: PromptReady_def PromptDone_def bridge_tidy_def)
next
  case (bs_close s b w)
  let ?m = "pb_callbacks (br_bridge s)" let ?w = "unexportAll env (map fst ?m) (br_buses s)"
  have "callbackAt ?w p = None" for p
  proof (cases "p \<in> fst ` set ?m")
    case False
    then have "gm_get ?m p = None" by (simp add: map_of_eq_None_iff)
    then have "gm_get ?m p \<noteq> Some True" by simp
    then have "callbackAt (br_buses s) p = None" using bs_close(2) unfolding bridge_tidy_def by blast
    then show ?thesis by (simp add: callback_unexportAll_clean[OF assms])
  qed (simp add: callback_unexportAll_clean[OF assms])
  then show ?case using bs_close
    by (auto simp: closeBridge_def Let_def bridge_tidy_def release_clean[OF assms] split: if_splits)
qed

lemma bridge_start_tidy: "bridge_start s \<Longrightarrow> bridge_tidy s"
  by (simp add: bridge_start_def bridge_tidy_def newBuses_def newConn_def emptyBridge_def)

text \<open>Closing the bridge at any moment takes back every callback object and the name.\<close>

lemma closing_leaves_nothing:
  assumes "bridge_tidy s" and "neverKept env" and "closeBridge env (br_bridge s, br_buses s) = (b, w)"
  shows "callbackAt w p = None \<and> systemPrompterName \<notin> set (cn_names (bu_back w))"
proof -
  have "bridge_tidy (s\<lparr>br_bridge := b, br_buses := w\<rparr>)" by (rule bridge_step_tidy[OF assms(2) bs_close[OF assms(3)] assms(1)])
  moreover have "pb_callbacks b = []" "\<not> pb_owned b" using assms(3) by (auto simp: closeBridge_def Let_def split: if_splits)
  ultimately show ?thesis by (auto simp: bridge_tidy_def)
qed

text \<open>
  A keyring that ends without \<open>StopPrompting\<close> leaves its callback behind.  A new one that uses the same path (gcr numbers
  the paths of each process from zero) is not registered: the answers go to the connection that is gone, and the unlock
  hangs.
\<close>

theorem restarted_keyring_gets_no_answer:
  assumes "gm_get (pb_callbacks b) p = None" and "\<And>lg op. be_fails env lg op = None"
    and "BeginPrompting env m1 p (b, w) = (r1, b1, w1)" and "BeginPrompting env m2 p (b1, w1) = (r2, b2, w2)"
  shows "callbackAt w2 p = Some (XCallback (senderOf m1))"
proof -
  have 1: "callbackAt w1 p = Some (XCallback (senderOf m1))" "gm_get (pb_callbacks b1) p = Some True"
    using assms(1-3) by (auto simp: BeginPrompting_def exportCallback_def doOp_def toShell_def split: prod.splits)
  then show ?thesis using assms(4) by (auto simp: BeginPrompting_def exportCallback_def toShell_def split: prod.splits)
qed

end
