(* ===== verification/Proxy_Connect.thy ===== *)
theory Proxy_Connect
  imports Proxy_Prompter Go_Outcome
begin

text \<open>
  Setting a proxy up on its two connections and taking it down again (\<open>ConnectWith\<close>, \<open>Run\<close> and \<open>Close\<close> of
  \<^verbatim>\<open>internal/proxy/proxy.go\<close>).  A new part is built before the next step is tried; a step that fails closes what
  there is.
\<close>

record ProxyLinks =
  pl_buses :: Buses
  pl_connected :: bool                 \<comment> \<open>the connections have been set\<close>
  pl_tracker :: "clientTracker option"
  pl_sessions :: SessionManager
  pl_signals :: "bool option"          \<comment> \<open>whether the signal forwarder still runs\<close>
  pl_prompter :: "prompterBridge option"
  pl_panic :: bool

definition NewLinks :: "Buses \<Rightarrow> ProxyLinks" where
  "NewLinks w = \<lparr>pl_buses = w, pl_connected = False, pl_tracker = None, pl_sessions = NewSessionManager, pl_signals = None,
     pl_prompter = None, pl_panic = False\<rparr>"

text \<open>An operation on the connections.\<close>

definition onBuses :: "(Buses \<Rightarrow> 'r \<times> Buses) \<Rightarrow> ProxyLinks \<Rightarrow> 'r \<times> ProxyLinks" where
  "onBuses f p = (case f (pl_buses p) of (r, w) \<Rightarrow> (r, p\<lparr>pl_buses := w\<rparr>))"

text \<open>Closing a channel that is closed already panics.\<close>

definition closeSignals :: "bus_env \<Rightarrow> ProxyLinks \<Rightarrow> ProxyLinks" where
  "closeSignals env p =
     (case pl_signals p of
        None \<Rightarrow> p
      | Some True \<Rightarrow> snd (onBuses (doOp env (ORemoveSignal Back)) (p\<lparr>pl_signals := Some False\<rparr>))
      | Some False \<Rightarrow> p\<lparr>pl_panic := True\<rparr>)"

definition closePrompter :: "bus_env \<Rightarrow> ProxyLinks \<Rightarrow> ProxyLinks" where
  "closePrompter env p =
     (case pl_prompter p of
        None \<Rightarrow> p
      | Some b \<Rightarrow> (case closeBridge env (b, pl_buses p) of (b, w) \<Rightarrow> p\<lparr>pl_prompter := Some b, pl_buses := w\<rparr>))"

definition closeSessions :: "ProxyLinks \<Rightarrow> ProxyLinks" where
  "closeSessions p =
     (if \<not> pl_connected p then p
      else (case CloseAll (pl_sessions p) (bu_backCalls (pl_buses p)) of
              (m, lg) \<Rightarrow> p\<lparr>pl_sessions := m, pl_buses := (pl_buses p)\<lparr>bu_backCalls := lg\<rparr>\<rparr>))"

definition closeConns :: "ProxyLinks \<Rightarrow> ProxyLinks" where
  "closeConns p =
     (if \<not> pl_connected p then p
      else p\<lparr>pl_buses := busEffect (OCloseConn Back) (logged (OCloseConn Back) (busEffect (OCloseConn Front) (logged (OCloseConn Front) (pl_buses p))))\<rparr>)"

definition CloseProxy :: "bus_env \<Rightarrow> ProxyLinks \<Rightarrow> ProxyLinks" where
  "CloseProxy env p =
     (let p = closeSignals env (closePrompter env p) in
      if pl_panic p then p
      else closeConns (closeSessions (p\<lparr>pl_tracker := map_option closeTracker (pl_tracker p)\<rparr>)))"

text \<open>\<open>if err != nil { p.Close(); return fmt.Errorf(what + ": %w", err) }\<close>.\<close>

definition orClose :: "bus_env \<Rightarrow> string \<Rightarrow> go_error option \<times> ProxyLinks \<Rightarrow> go_error option \<times> ProxyLinks" where
  "orClose env what r = (case r of (Some e, p) \<Rightarrow> (Some (ErrText (what @ '': '' @ error_text e)), CloseProxy env p) | (None, p) \<Rightarrow> (None, p))"

abbreviation (input) PropertiesInterface :: string where "PropertiesInterface \<equiv> ''org.freedesktop.DBus.Properties''"
abbreviation (input) IntrospectableInterface :: string where "IntrospectableInterface \<equiv> ''org.freedesktop.DBus.Introspectable''"

definition subtreeExports :: "ObjectPath \<Rightarrow> (bus_op \<times> string) list" where
  "subtreeExports prefix =
     [(OExportSubtree Front prefix CollectionInterface XCollection, ''export Collection subtree at '' @ prefix),
      (OExportSubtree Front prefix PropertiesInterface XSubtreeProperties, ''export Properties subtree at '' @ prefix),
      (OExportSubtree Front prefix ItemInterface XItem, ''export Item subtree at '' @ prefix)]"

definition handlerExports :: "(bus_op \<times> string) list" where
  "handlerExports =
     [(OExport Front ServicePath ServiceInterface XService, ''export Service interface''),
      (OExport Front ServicePath PropertiesInterface XService, ''export Properties interface for Service''),
      (OExport Front ServicePath IntrospectableInterface XIntrospect, ''export Introspectable interface'')] @
     concat (map subtreeExports [''/org/freedesktop/secrets/collection'', ''/org/freedesktop/secrets/aliases'']) @
     [(OExportSubtree Front ''/org/freedesktop/secrets/prompt'' PromptInterface XPrompt, ''export Prompt subtree'')]"

fun exportAll :: "bus_env \<Rightarrow> (bus_op \<times> string) list \<Rightarrow> ProxyLinks \<Rightarrow> go_error option \<times> ProxyLinks" where
  "exportAll env [] p = (None, p)"
| "exportAll env ((op, what) # ops) p = andThen (orClose env what (onBuses (doOp env op) p)) (exportAll env ops)"

definition startTracker :: "bus_env \<Rightarrow> ProxyLinks \<Rightarrow> go_error option \<times> ProxyLinks" where
  "startTracker env p =
     andThen (onBuses (doOp env (OAddMatch Front)) p) (\<lambda>p. (None, p\<lparr>pl_tracker := Some newClientTracker\<rparr>))"

definition claimName :: "bus_env \<Rightarrow> ProxyLinks \<Rightarrow> go_error option \<times> ProxyLinks" where
  "claimName env p =
     (case onBuses (requestName env Front BusName) p of
        (Inl e, p) \<Rightarrow> (Some (ErrText (''request bus name: '' @ error_text e)), CloseProxy env p)
      | (Inr reply, p) \<Rightarrow>
          if reply \<noteq> PrimaryOwner
          then (Some (ErrText (''failed to become primary owner of '' @ BusName @ '' (reply='' @ dec reply @ '')'')), CloseProxy env p)
          else (None, p))"

definition startSignals :: "bus_env \<Rightarrow> ProxyLinks \<Rightarrow> go_error option \<times> ProxyLinks" where
  "startSignals env p =
     andThen (onBuses (doOp env (OAddMatch Back)) p) (\<lambda>p. (None, p\<lparr>pl_signals := Some True\<rparr>))"

definition startPrompter :: "bus_env \<Rightarrow> ProxyLinks \<Rightarrow> go_error option \<times> ProxyLinks" where
  "startPrompter env p =
     (case onBuses (newPrompterBridge env) p of
        (Inl e, p) \<Rightarrow> (Some e, p\<lparr>pl_prompter := None\<rparr>)
      | (Inr b, p) \<Rightarrow> (None, p\<lparr>pl_prompter := b\<rparr>))"

definition ConnectWith :: "bus_env \<Rightarrow> ProxyLinks \<Rightarrow> go_error option \<times> ProxyLinks" where
  "ConnectWith env p =
     andThen (orClose env ''create client tracker'' (startTracker env (p\<lparr>pl_connected := True\<rparr>)))
    (\<lambda>p. andThen (exportAll env handlerExports p)
    (\<lambda>p. andThen (claimName env p)
    (\<lambda>p. andThen (orClose env ''start signal forwarder'' (startSignals env p))
    (\<lambda>p. orClose env ''start prompter bridge'' (startPrompter env p)))))"

text \<open>
  \<open>Run\<close> waits for the cancellation of its context or the end of the front connection, where that has a context of its
  own; \<open>None\<close> is a run that still waits after these events.
\<close>

datatype wake = Cancelled go_error | FrontClosed

fun waitFor :: "bool \<Rightarrow> wake list \<Rightarrow> go_error option" where
  "waitFor hasContext [] = None"
| "waitFor hasContext (Cancelled e # _) = Some e"
| "waitFor hasContext (FrontClosed # ws) = (if hasContext then Some (ErrText ''front connection closed'') else waitFor hasContext ws)"

definition RunProxy :: "bool \<Rightarrow> wake list \<Rightarrow> ProxyLinks \<Rightarrow> go_error option" where
  "RunProxy hasContext ws p = (if \<not> pl_connected p then Some (ErrText ''not connected'') else waitFor hasContext ws)"

subsection \<open>Closing\<close>

definition shutDown :: "ProxyLinks \<Rightarrow> bool" where
  "shutDown p \<longleftrightarrow> \<not> cn_open (bu_front (pl_buses p)) \<and> \<not> cn_open (bu_back (pl_buses p)) \<and>
     cn_names (bu_front (pl_buses p)) = [] \<and> cn_names (bu_back (pl_buses p)) = [] \<and> ss_sessions (pl_sessions p) = [] \<and>
     pl_signals p \<noteq> Some True \<and> (\<forall>b. pl_prompter p = Some b \<longrightarrow> pb_closed b \<and> \<not> pb_owned b) \<and>
     (\<forall>t. pl_tracker p = Some t \<longrightarrow> tk_done t) \<and> \<not> pl_panic p"

lemma onBuses_sel [simp]:
  "pl_connected (snd (onBuses f p)) = pl_connected p" "pl_signals (snd (onBuses f p)) = pl_signals p"
  "pl_prompter (snd (onBuses f p)) = pl_prompter p" "pl_panic (snd (onBuses f p)) = pl_panic p"
  "pl_tracker (snd (onBuses f p)) = pl_tracker p" "pl_sessions (snd (onBuses f p)) = pl_sessions p"
  by (simp_all add: onBuses_def split: prod.splits)

lemma closePrompter_sel [simp]:
  "pl_connected (closePrompter env p) = pl_connected p" "pl_signals (closePrompter env p) = pl_signals p"
  "pl_panic (closePrompter env p) = pl_panic p" "pl_tracker (closePrompter env p) = pl_tracker p"
  "pl_sessions (closePrompter env p) = pl_sessions p"
  by (simp_all add: closePrompter_def split: option.splits prod.splits)

lemma closeSignals_sel [simp]:
  "pl_connected (closeSignals env p) = pl_connected p" "pl_prompter (closeSignals env p) = pl_prompter p"
  "pl_tracker (closeSignals env p) = pl_tracker p" "pl_sessions (closeSignals env p) = pl_sessions p"
  by (simp_all add: closeSignals_def split: option.splits bool.splits)

lemma closed_prompter:
  "pl_prompter (closePrompter env p) = Some b \<Longrightarrow> pb_closed b \<and> \<not> pb_owned b"
  by (auto simp: closePrompter_def closeBridge_def Let_def split: option.splits prod.splits)

text \<open>A proxy that was never closed can be closed; only a second time its signal forwarder would panic.\<close>

definition live :: "ProxyLinks \<Rightarrow> bool" where
  "live p \<longleftrightarrow> pl_connected p \<and> pl_signals p \<noteq> Some False \<and> \<not> pl_panic p"

lemma CloseProxy_shutDown:
  assumes "live p"
  shows "shutDown (CloseProxy env p)"
proof -
  let ?q = "closeSignals env (closePrompter env p)"
  have panic: "\<not> pl_panic ?q" and sig: "pl_signals ?q \<noteq> Some True"
    using assms by (auto simp: live_def closeSignals_def split: option.splits bool.splits)
  have conn: "pl_connected ?q" using assms by (simp add: live_def)
  have pr: "pl_prompter ?q = Some b \<Longrightarrow> pb_closed b \<and> \<not> pb_owned b" for b by (simp add: closed_prompter)
  show ?thesis
    using panic sig conn pr
    by (auto simp: CloseProxy_def Let_def shutDown_def closeConns_def closeSessions_def CloseAll_def closeTracker_def split: prod.splits)
qed

subsection \<open>Connecting\<close>

definition published :: "bus_op \<Rightarrow> Buses \<Rightarrow> bool" where
  "published op w \<longleftrightarrow>
     (case op of OExport Front p i x \<Rightarrow> cn_exports (bu_front w) (p, i) = Some x
      | OExportSubtree Front p i x \<Rightarrow> cn_subtrees (bu_front w) (p, i) = Some x
      | _ \<Rightarrow> False)"

definition exportEffect :: "(bus_op \<times> string) list \<Rightarrow> Buses \<Rightarrow> Buses" where
  "exportEffect ops w = fold (\<lambda>(op, _) w. busEffect op (logged op w)) ops w"

lemma live_onBuses [simp]: "live (snd (onBuses f p)) = live p"
  by (simp add: live_def)

lemma onBuses_doOp:
  "onBuses (doOp env op) p = (None, q) \<Longrightarrow> q = p\<lparr>pl_buses := busEffect op (logged op (pl_buses p))\<rparr>"
  by (auto simp: onBuses_def doOp_def split: option.splits prod.splits)

lemma orClose_ok: "orClose env what r = (None, q) \<longleftrightarrow> r = (None, q)"
  by (auto simp: orClose_def split: prod.splits option.splits)

lemma orClose_fail:
  "orClose env what r = (Some e, q) \<Longrightarrow> live (snd r) \<Longrightarrow> shutDown q"
  by (auto simp: orClose_def CloseProxy_shutDown split: prod.splits option.splits)

lemma exportAll_cases:
  "exportAll env ops p = (e, q) \<Longrightarrow> live p \<Longrightarrow>
     (case e of None \<Rightarrow> q = p\<lparr>pl_buses := exportEffect ops (pl_buses p)\<rparr> | Some _ \<Rightarrow> shutDown q)"
proof (induction env ops p rule: exportAll.induct)
  case (2 env op what ops p)
  show ?case
  proof (cases "orClose env what (onBuses (doOp env op) p)")
    case (Pair e1 p1)
    show ?thesis
    proof (cases e1)
      case None
      then have o: "onBuses (doOp env op) p = (None, p1)" using Pair by (simp add: orClose_ok)
      then have p1: "p1 = p\<lparr>pl_buses := busEffect op (logged op (pl_buses p))\<rparr>" by (rule onBuses_doOp)
      have "live p1" using 2(3) by (simp add: p1 live_def)
      moreover have "exportAll env ops p1 = (e, q)" using 2(2) Pair None by simp
      ultimately show ?thesis using 2(1)[of p1] by (cases e) (simp_all add: p1 exportEffect_def)
    next
      case (Some e')
      then show ?thesis using 2(2,3) Pair by (auto simp: andThen_def dest!: orClose_fail)
    qed
  qed
qed (simp add: exportEffect_def)

lemma claimName_cases:
  assumes "claimName env p = (e, q)" and "live p"
  shows "case e of None \<Rightarrow> q = p\<lparr>pl_buses := busEffect (ORequestName Front BusName) (logged (ORequestName Front BusName) (pl_buses p))\<rparr>
    | Some _ \<Rightarrow> shutDown q"
proof -
  obtain r p1 where o: "onBuses (requestName env Front BusName) p = (r, p1)" by (cases "onBuses (requestName env Front BusName) p")
  have live: "live p1" using live_onBuses[of "requestName env Front BusName" p] assms(2) by (simp add: o)
  have "r = Inr PrimaryOwner \<Longrightarrow> p1 = p\<lparr>pl_buses := busEffect (ORequestName Front BusName) (logged (ORequestName Front BusName) (pl_buses p))\<rparr>"
    using o by (auto simp: onBuses_def requestName_def Let_def split: option.splits prod.splits)
  then show ?thesis using assms(1) CloseProxy_shutDown[OF live]
    by (auto simp: claimName_def o split: sum.splits if_splits)
qed

lemma startPrompter_front:
  "cn_exports (bu_front (pl_buses (snd (startPrompter env p)))) = cn_exports (bu_front (pl_buses p)) \<and>
   cn_subtrees (bu_front (pl_buses (snd (startPrompter env p)))) = cn_subtrees (bu_front (pl_buses p)) \<and>
   cn_names (bu_front (pl_buses (snd (startPrompter env p)))) = cn_names (bu_front (pl_buses p))"
  by (auto simp: startPrompter_def onBuses_def newPrompterBridge_def activate_def requestName_def doOp_def Let_def
      split: prod.splits sum.splits option.splits if_splits)

lemma startPrompter_sel [simp]:
  "pl_signals (snd (startPrompter env p)) = pl_signals p" "pl_tracker (snd (startPrompter env p)) = pl_tracker p"
  "live (snd (startPrompter env p)) = live p"
  by (auto simp: startPrompter_def live_def onBuses_def split: prod.splits sum.splits)

text \<open>The two last steps, once the name is owned.\<close>

lemma ConnectWith_tail:
  assumes "andThen (orClose env ''start signal forwarder'' (startSignals env p3)) (\<lambda>p. orClose env ''start prompter bridge'' (startPrompter env p)) = (e, p)"
    and "live p3" and "BusName \<in> set (cn_names (bu_front (pl_buses p3)))"
    and "list_all (\<lambda>(op, what). published op (pl_buses p3)) ops" and "pl_tracker p3 = Some t"
  shows "case e of Some _ \<Rightarrow> shutDown p
    | None \<Rightarrow> list_all (\<lambda>(op, what). published op (pl_buses p)) ops \<and> BusName \<in> set (cn_names (bu_front (pl_buses p))) \<and>
        pl_signals p = Some True \<and> pl_tracker p = Some t \<and> live p"
proof -
  obtain e4 p4 where c4: "orClose env ''start signal forwarder'' (startSignals env p3) = (e4, p4)" by (metis surj_pair)
  show ?thesis
  proof (cases e4)
    case (Some x)
    have "live (snd (startSignals env p3))"
      using assms(2) by (auto simp: startSignals_def andThen_def onBuses_def live_def split: prod.splits option.splits)
    then show ?thesis using assms(1) c4 Some orClose_fail[OF c4[unfolded Some]] by (auto simp: andThen_def)
  next
    case None
    obtain p3' where "onBuses (doOp env (OAddMatch Back)) p3 = (None, p3')" "p4 = p3'\<lparr>pl_signals := Some True\<rparr>"
      using c4 None by (auto simp: orClose_ok startSignals_def andThen_ok)
    then have p4: "p4 = p3\<lparr>pl_buses := logged (OAddMatch Back) (pl_buses p3), pl_signals := Some True\<rparr>"
      by (auto dest!: onBuses_doOp)
    have l4: "live p4" using assms(2) by (simp add: p4 live_def)
    have front: "bu_front (pl_buses p4) = bu_front (pl_buses p3)" by (simp add: p4)
    have c5: "orClose env ''start prompter bridge'' (startPrompter env p4) = (e, p)" using assms(1) c4 None by simp
    show ?thesis
    proof (cases e)
      case (Some x)
      then show ?thesis using orClose_fail[OF c5[unfolded Some]] l4 by simp
    next
      case e: None
      then have q: "startPrompter env p4 = (None, p)" using c5 by (simp add: orClose_ok)
      have "published op (pl_buses p) = published op (pl_buses p3)" for op
        using startPrompter_front[of env p4] front by (simp add: q published_def split: bus_op.splits side.splits)
      moreover have "cn_names (bu_front (pl_buses p)) = cn_names (bu_front (pl_buses p3))"
        using startPrompter_front[of env p4] front by (simp add: q)
      moreover have "pl_signals p = Some True" "pl_tracker p = Some t" "live p"
        using startPrompter_sel[of env p4, unfolded q] l4 assms(5) p4 by simp_all
      ultimately show ?thesis using e assms(3,4) by (simp add: case_prod_unfold)
    qed
  qed
qed

definition afterExports :: Buses where
  "afterExports = exportEffect handlerExports (busEffect (OAddMatch Front) (logged (OAddMatch Front) newBuses))"

text \<open>Each export has a place of its own, so that none replaces another.\<close>

fun placeOf :: "bus_op \<Rightarrow> (bool \<times> ObjectPath \<times> string) option" where
  "placeOf (OExport Front p i x) = Some (False, p, i)"
| "placeOf (OExportSubtree Front p i x) = Some (True, p, i)"
| "placeOf _ = None"

lemma published_kept:
  "placeOf op \<notin> {None, placeOf op'} \<Longrightarrow> placeOf op' \<noteq> None \<Longrightarrow> published op (busEffect op' (logged op' w)) = published op w"
  by (cases op rule: placeOf.cases; cases op' rule: placeOf.cases) (auto simp: published_def)

lemma placed: "None \<notin> (placeOf \<circ> fst) ` set ops \<Longrightarrow> a \<in> set ops \<Longrightarrow> placeOf (fst a) \<noteq> None"
  by (metis comp_apply image_eqI)

lemma exportEffect_kept:
  "placeOf op \<notin> insert None ((placeOf \<circ> fst) ` set ops) \<Longrightarrow> None \<notin> (placeOf \<circ> fst) ` set ops \<Longrightarrow>
     published op (exportEffect ops w) = published op w"
proof (induction ops arbitrary: w)
  case (Cons a ops)
  let ?w = "busEffect (fst a) (logged (fst a) w)"
  have "published op (exportEffect ops ?w) = published op ?w" using Cons by simp
  also have "\<dots> = published op w" using Cons.prems placed[OF Cons.prems(2), of a] by (intro published_kept) auto
  finally show ?case by (simp add: exportEffect_def case_prod_unfold)
qed (simp add: exportEffect_def)

lemma exportEffect_published:
  "distinct (map (placeOf \<circ> fst) ops) \<Longrightarrow> None \<notin> (placeOf \<circ> fst) ` set ops \<Longrightarrow> a \<in> set ops \<Longrightarrow> published (fst a) (exportEffect ops w)"
proof (induction ops arbitrary: w)
  case (Cons b ops)
  let ?w = "busEffect (fst b) (logged (fst b) w)"
  have s: "exportEffect (b # ops) w = exportEffect ops ?w" by (simp add: exportEffect_def case_prod_unfold)
  show ?case
  proof (cases "a \<in> set ops")
    case True
    then show ?thesis using Cons by (simp add: s)
  next
    case False
    then have "a = b" using Cons.prems by simp
    moreover have "published (fst b) ?w" using Cons.prems(2) by (cases "fst b" rule: placeOf.cases) (auto simp: published_def)
    moreover have "published (fst b) (exportEffect ops ?w) = published (fst b) ?w"
      using Cons.prems placed[OF Cons.prems(2), of b] by (intro exportEffect_kept) (auto simp: image_iff)
    ultimately show ?thesis by (simp add: s)
  qed
qed simp

lemma handlerExports_places: "distinct (map (placeOf \<circ> fst) handlerExports) \<and> None \<notin> (placeOf \<circ> fst) ` set handlerExports"
  by (simp add: handlerExports_def subtreeExports_def)

lemma afterExports_published: "list_all (\<lambda>(op, what). published op afterExports) handlerExports"
  using exportEffect_published[of handlerExports] handlerExports_places by (auto simp: afterExports_def list_all_iff)

lemma exportEffect_log: "bu_log (exportEffect ops w) = bu_log w @ map fst ops"
  by (induction ops arbitrary: w) (simp_all add: exportEffect_def case_prod_unfold)

lemma afterExports_log: "bu_log afterExports = OAddMatch Front # map fst handlerExports"
  by (simp add: afterExports_def exportEffect_log newBuses_def)

subsection \<open>The order of the steps\<close>

definition claims :: "Buses \<Rightarrow> bool" where
  "claims w \<longleftrightarrow> ORequestName Front BusName \<in> set (bu_log w)"

definition grows :: "Buses \<Rightarrow> Buses \<Rightarrow> bool" where
  "grows w w' \<longleftrightarrow> (\<exists>x. bu_log w' = bu_log w @ x \<and> ORequestName Front BusName \<notin> set x)"

lemma grows_refl [simp]: "grows w w"
  by (simp add: grows_def)

lemma grows_trans: "grows u v \<Longrightarrow> grows v w \<Longrightarrow> grows u w"
  by (fastforce simp: grows_def)

lemma grows_effect [simp]: "grows w (busEffect op v) = grows w v"
  by (simp add: grows_def)

lemma grows_logged: "op \<noteq> ORequestName Front BusName \<Longrightarrow> grows w (logged op w)"
  by (simp add: grows_def)

lemma grows_doOp: "op \<noteq> ORequestName Front BusName \<Longrightarrow> grows w (snd (doOp env op w))"
  by (simp add: doOp_def grows_logged split: option.splits)

lemma grows_unexportAll: "grows w (unexportAll env ps w)"
proof (induction ps arbitrary: w)
  case (Cons p ps)
  show ?case using grows_trans[OF grows_doOp Cons.IH] by simp
qed simp

lemma grows_closeBridge: "grows w (snd (closeBridge env (b, w)))"
  using grows_unexportAll[of w env "map fst (pb_callbacks b)"]
    grows_trans[OF grows_unexportAll[of w env "map fst (pb_callbacks b)"] grows_doOp[of "OReleaseName Back systemPrompterName" _ env]]
  by (simp add: closeBridge_def Let_def)

lemma grows_CloseProxy: "grows (pl_buses p) (pl_buses (CloseProxy env p))"
proof -
  have 1: "grows (pl_buses p) (pl_buses (closePrompter env p))"
    using grows_closeBridge by (auto simp: closePrompter_def split: option.splits prod.splits) (metis snd_conv)
  have 2: "grows (pl_buses q) (pl_buses (closeSignals env q))" for q
    using grows_doOp[of "ORemoveSignal Back" "pl_buses q" env]
    by (auto simp: closeSignals_def onBuses_def split: option.splits bool.splits prod.splits)
  have 3: "grows (pl_buses q) (pl_buses (closeConns (closeSessions q)))" for q
    by (auto simp: grows_def closeConns_def closeSessions_def split: prod.splits)
  have 4: "grows (pl_buses q) (pl_buses (closeConns (closeSessions (q\<lparr>pl_tracker := t\<rparr>))))" for q t
    using 3[of "q\<lparr>pl_tracker := t\<rparr>"] by simp
  show ?thesis unfolding CloseProxy_def Let_def
    using grows_trans[OF 1 2] grows_trans[OF grows_trans[OF 1 2] 4] by simp
qed

text \<open>Up to the claim of the name.\<close>

lemma grows_onBuses: "grows w (snd (f (pl_buses p))) \<Longrightarrow> grows w (pl_buses (snd (onBuses f p)))"
  by (auto simp: onBuses_def split: prod.splits)

lemma grows_orClose: "grows w (pl_buses (snd r)) \<Longrightarrow> grows w (pl_buses (snd (orClose env what r)))"
  using grows_trans[OF _ grows_CloseProxy] by (auto simp: orClose_def split: prod.splits option.splits)

lemma grows_andThen:
  "grows w (pl_buses (snd r)) \<Longrightarrow> (\<And>p. grows (pl_buses p) (pl_buses (snd (f p)))) \<Longrightarrow> grows w (pl_buses (snd (andThen r f)))"
  using grows_trans by (fastforce simp: andThen_def split: prod.splits option.splits)

lemma grows_exportAll:
  "ORequestName Front BusName \<notin> fst ` set ops \<Longrightarrow> grows (pl_buses p) (pl_buses (snd (exportAll env ops p)))"
proof (induction ops arbitrary: p)
  case (Cons a ops)
  obtain op what where a: "a = (op, what)" by (cases a)
  have "grows (pl_buses p) (pl_buses (snd (orClose env what (onBuses (doOp env op) p))))"
    using Cons.prems by (intro grows_orClose grows_onBuses grows_doOp) (auto simp: a)
  then show ?case using Cons by (auto simp: a intro: grows_andThen)
qed simp

lemma grows_startTracker: "grows (pl_buses p) (pl_buses (snd (startTracker env p)))"
  unfolding startTracker_def by (intro grows_andThen grows_onBuses grows_doOp) simp_all

lemma handlerExports_no_claim: "ORequestName Front BusName \<notin> fst ` set handlerExports"
  by (simp add: handlerExports_def subtreeExports_def)

definition connectTail :: "bus_env \<Rightarrow> ProxyLinks \<Rightarrow> go_error option \<times> ProxyLinks" where
  "connectTail env p =
     andThen (orClose env ''start signal forwarder'' (startSignals env p)) (\<lambda>p. orClose env ''start prompter bridge'' (startPrompter env p))"

lemma ConnectWith_until_name:
  obtains e p where "ConnectWith env (NewLinks newBuses) = (Some e, p)" "shutDown p" "grows newBuses (pl_buses p)"
  | p2 where "ConnectWith env (NewLinks newBuses) = andThen (claimName env p2) (connectTail env)" "live p2" "pl_buses p2 = afterExports"
      "pl_tracker p2 = Some newClientTracker"
proof -
  let ?p0 = "(NewLinks newBuses)\<lparr>pl_connected := True\<rparr>"
  have l0: "live ?p0" and w0: "pl_buses ?p0 = newBuses" by (simp_all add: live_def NewLinks_def)
  let ?r1 = "orClose env ''create client tracker'' (startTracker env ?p0)"
  obtain e1 p1 where c1: "?r1 = (e1, p1)" by (metis surj_pair)
  have g1: "grows newBuses (pl_buses p1)"
    using grows_orClose[OF grows_startTracker[of ?p0 env, unfolded w0]] c1 by (metis snd_conv)
  have C: "ConnectWith env (NewLinks newBuses) = andThen (e1, p1) (\<lambda>p. andThen (exportAll env handlerExports p)
      (\<lambda>p. andThen (claimName env p) (connectTail env)))"
    unfolding ConnectWith_def c1 connectTail_def by (rule refl)
  show thesis
  proof (cases e1)
    case (Some x)
    have "live (snd (startTracker env ?p0))"
      using l0 by (auto simp: startTracker_def andThen_def onBuses_def live_def split: prod.splits option.splits)
    then show thesis using that(1)[of x p1] C Some orClose_fail[OF c1[unfolded Some]] g1 by (simp add: andThen_def)
  next
    case None
    obtain p0' where "onBuses (doOp env (OAddMatch Front)) ?p0 = (None, p0')" "p1 = p0'\<lparr>pl_tracker := Some newClientTracker\<rparr>"
      using c1 None by (auto simp: orClose_ok startTracker_def andThen_ok)
    then have p1: "p1 = ?p0\<lparr>pl_buses := busEffect (OAddMatch Front) (logged (OAddMatch Front) newBuses), pl_tracker := Some newClientTracker\<rparr>"
      by (auto dest!: onBuses_doOp simp: NewLinks_def)
    then have l1: "live p1" by (simp add: live_def NewLinks_def)
    obtain e2 p2 where c2: "exportAll env handlerExports p1 = (e2, p2)" by (metis surj_pair)
    note x2 = exportAll_cases[OF c2 l1]
    have g2: "grows newBuses (pl_buses p2)"
      using grows_trans[OF g1 grows_exportAll[OF handlerExports_no_claim, of p1 env]] c2 by (metis snd_conv)
    show thesis
    proof (cases e2)
      case (Some x)
      then show thesis using that(1)[of x p2] C None c2 x2 g2 by (simp add: andThen_def)
    next
      case e2: None
      then have p2: "p2 = p1\<lparr>pl_buses := afterExports\<rparr>" using x2 p1 by (simp add: afterExports_def)
      then have "live p2" using l1 by (simp add: live_def)
      then show thesis using that(2)[of p2] C None c2 e2 p2 p1 by simp
    qed
  qed
qed

text \<open>What a failed or a complete set-up leaves.\<close>

lemma ConnectWith_cases:
  assumes "ConnectWith env (NewLinks newBuses) = (e, p)"
  shows "case e of Some _ \<Rightarrow> shutDown p
    | None \<Rightarrow> list_all (\<lambda>(op, what). published op (pl_buses p)) handlerExports \<and> BusName \<in> set (cn_names (bu_front (pl_buses p))) \<and>
        pl_signals p = Some True \<and> pl_tracker p = Some newClientTracker \<and> live p"
proof (rule ConnectWith_until_name[of env])
  fix e' p' assume "ConnectWith env (NewLinks newBuses) = (Some e', p')" "shutDown p'"
  then show ?thesis using assms by simp
next
  fix p2 assume C: "ConnectWith env (NewLinks newBuses) = andThen (claimName env p2) (connectTail env)"
    and l2: "live p2" and w2: "pl_buses p2 = afterExports" and t2: "pl_tracker p2 = Some newClientTracker"
  obtain e3 p3 where c3: "claimName env p2 = (e3, p3)" by (metis surj_pair)
  note x3 = claimName_cases[OF c3 l2]
  show ?thesis
  proof (cases e3)
    case (Some x)
    then show ?thesis using assms C c3 x3 by (auto simp: andThen_def)
  next
    case e3: None
    then have p3: "p3 = p2\<lparr>pl_buses := busEffect (ORequestName Front BusName) (logged (ORequestName Front BusName) afterExports)\<rparr>"
      using x3 w2 by simp
    have l3: "live p3" using l2 by (simp add: p3 live_def)
    have n3: "BusName \<in> set (cn_names (bu_front (pl_buses p3)))" by (simp add: p3)
    have pub: "published op (pl_buses p3) = published op afterExports" for op
      by (simp add: p3 published_def split: bus_op.splits side.splits)
    have t3: "pl_tracker p3 = Some newClientTracker" by (simp add: p3 t2)
    have tail: "connectTail env p3 = (e, p)" using assms C c3 e3 by simp
    show ?thesis
      by (rule ConnectWith_tail[OF tail[unfolded connectTail_def] l3 n3 _ t3]) (simp add: pub afterExports_published)
  qed
qed

text \<open>
  C33: \<open>ConnectWith\<close> leaves all or nothing.  When it succeeds, every object of the Secret Service is published, the name
  is owned and the signals are forwarded; when any step fails, whichever it is, both connections are closed, the
  names are given up, the tracker is stopped and no session is left open.
\<close>

theorem connect_all_or_nothing:
  "case ConnectWith env (NewLinks newBuses) of
     (Some _, p) \<Rightarrow> shutDown p
   | (None, p) \<Rightarrow> list_all (\<lambda>(op, what). published op (pl_buses p)) handlerExports \<and>
       BusName \<in> set (cn_names (bu_front (pl_buses p))) \<and> pl_signals p = Some True \<and> pl_tracker p = Some newClientTracker"
  using ConnectWith_cases[of env] by (auto split: prod.splits option.splits)


lemma grows_startPrompter: "grows (pl_buses p) (pl_buses (snd (startPrompter env p)))"
proof -
  have "grows w (snd (newPrompterBridge env w))" for w
    by (auto simp: grows_def newPrompterBridge_def activate_def requestName_def doOp_def Let_def split: prod.splits sum.splits option.splits if_splits)
  then have "grows (pl_buses p) (pl_buses (snd (onBuses (newPrompterBridge env) p)))" by (rule grows_onBuses)
  then show ?thesis by (auto simp: startPrompter_def split: prod.splits sum.splits)
qed

lemma grows_connectTail: "grows (pl_buses p) (pl_buses (snd (connectTail env p)))"
  unfolding connectTail_def startSignals_def
  by (intro grows_andThen grows_orClose grows_onBuses grows_doOp grows_startPrompter) simp_all

lemma claimName_log:
  "\<exists>x. bu_log (pl_buses (snd (claimName env p))) = bu_log (pl_buses p) @ ORequestName Front BusName # x \<and> ORequestName Front BusName \<notin> set x"
proof -
  obtain r p1 where o: "onBuses (requestName env Front BusName) p = (r, p1)" by (cases "onBuses (requestName env Front BusName) p")
  have "bu_log (pl_buses p1) = bu_log (pl_buses p) @ [ORequestName Front BusName]"
    using requestName_calls(3)[of env Front BusName "pl_buses p"] o by (cases "requestName env Front BusName (pl_buses p)") (auto simp: onBuses_def)
  then show ?thesis using grows_CloseProxy[of p1 env] by (auto simp: claimName_def o grows_def split: sum.splits)
qed

lemma connected_claims:
  assumes "fst (ConnectWith env (NewLinks newBuses)) = None"
  shows "ORequestName Front BusName \<in> set (bu_log (pl_buses (snd (ConnectWith env (NewLinks newBuses)))))"
proof (rule ConnectWith_until_name[of env])
  fix e p assume "ConnectWith env (NewLinks newBuses) = (Some e, p)"
  then show ?thesis using assms by simp
next
  fix p2 assume C: "ConnectWith env (NewLinks newBuses) = andThen (claimName env p2) (connectTail env)"
  have "grows (pl_buses (snd (claimName env p2))) (pl_buses (snd (andThen (claimName env p2) (connectTail env))))"
    by (rule grows_andThen) (simp_all add: grows_connectTail)
  then show ?thesis using claimName_log[of env p2] by (auto simp: C grows_def)
qed

text \<open>
  C29: No client can find the proxy before it is ready: the name of the Secret Service is asked for once, and only after
  the watch for vanished clients and every object have been set up, in whatever way the set-up ends.
\<close>

theorem name_claimed_last:
  assumes "ORequestName Front BusName \<in> set (bu_log (pl_buses (snd (ConnectWith env (NewLinks newBuses)))))"
  shows "\<exists>rest. bu_log (pl_buses (snd (ConnectWith env (NewLinks newBuses)))) =
      OAddMatch Front # map fst handlerExports @ ORequestName Front BusName # rest \<and> ORequestName Front BusName \<notin> set rest"
proof (rule ConnectWith_until_name[of env])
  fix e p assume "ConnectWith env (NewLinks newBuses) = (Some e, p)" "grows newBuses (pl_buses p)"
  then show ?thesis using assms by (auto simp: grows_def newBuses_def)
next
  fix p2 assume C: "ConnectWith env (NewLinks newBuses) = andThen (claimName env p2) (connectTail env)" and w2: "pl_buses p2 = afterExports"
  obtain x where x: "bu_log (pl_buses (snd (claimName env p2))) = OAddMatch Front # map fst handlerExports @ ORequestName Front BusName # x"
      "ORequestName Front BusName \<notin> set x"
    using claimName_log[of env p2] by (auto simp: w2 afterExports_log)
  have "grows (pl_buses (snd (claimName env p2))) (pl_buses (snd (andThen (claimName env p2) (connectTail env))))"
    by (rule grows_andThen) (simp_all add: grows_connectTail)
  then show ?thesis using x by (auto simp: C grows_def)
qed

theorem name_claimed_last_witness:
  "fst (ConnectWith exBusEnv (NewLinks newBuses)) = None \<and>
   (\<exists>rest. bu_log (pl_buses (snd (ConnectWith exBusEnv (NewLinks newBuses)))) =
      OAddMatch Front # map fst handlerExports @ ORequestName Front BusName # rest \<and> ORequestName Front BusName \<notin> set rest)"
proof -
  have d: "doOp exBusEnv op w = (None, busEffect op (logged op w))" for op w by (simp add: doOp_def exBusEnv_def)
  have r: "requestName exBusEnv sd n w = (Inr 1, busEffect (ORequestName sd n) (logged (ORequestName sd n) w))" for sd n w
    by (simp add: requestName_def exBusEnv_def)
  have b: "nameHasOwner (be_backUp exBusEnv) lg n = False" for lg n by (simp add: nameHasOwner_def store1_def exBusEnv_def)
  have "\<exists>q. exportAll exBusEnv ops p = (None, q)" for ops p
    by (induction ops arbitrary: p) (auto simp: onBuses_def d orClose_def)
  then obtain f where x: "\<And>ops p. exportAll exBusEnv ops p = (None, f ops p)" by metis
  have ok: "fst (ConnectWith exBusEnv (NewLinks newBuses)) = None"
    by (simp add: ConnectWith_def startTracker_def startSignals_def startPrompter_def claimName_def newPrompterBridge_def activate_def
        onBuses_def orClose_def emptyBridge_def Let_def b d r x)
  show ?thesis using name_claimed_last[OF connected_claims[OF ok]] ok by blast
qed

end
