(* ===== verification/Gpg_Setup.thy ===== *)
theory Gpg_Setup
  imports Go_Outcome Git_Payload
begin

text \<open>
  \<open>gpg-sign setup\<close> (\<^verbatim>\<open>internal/gpgsign/setup.go\<close>): a wrapper script, and git told to run it in the place of gpg.  The
  actions are collected in order; each may fail.
\<close>

datatype setup_act = SMkdir string | SWrite string string | SGit "string list"

record setup_env =
  su_self :: "go_error + string"
  su_resolve :: "string \<Rightarrow> go_error + string"
  su_home :: "go_error + string"
  su_fails :: "setup_act \<Rightarrow> go_error option"

definition act :: "setup_env \<Rightarrow> setup_act \<Rightarrow> setup_act list \<Rightarrow> go_error option \<times> setup_act list" where
  "act env a as = (case su_fails env a of Some e \<Rightarrow> (Some e, as) | None \<Rightarrow> (None, as @ [a]))"

definition wrapperScript :: "string \<Rightarrow> string" where
  "wrapperScript self = unlines [''#!/bin/sh'', ''exec '' @ self @ '' gpg-sign '' @ [CHR 0x22] @ ''$@'' @ [CHR 0x22]]"

definition SetupGitConfig :: "setup_env \<Rightarrow> string \<Rightarrow> go_error option \<times> setup_act list" where
  "SetupGitConfig env scope =
     (case su_self env of
        Inl e \<Rightarrow> (Some (ErrText (''find executable: '' @ error_text e)), [])
      | Inr exe \<Rightarrow>
     (case su_resolve env exe of
        Inl e \<Rightarrow> (Some (ErrText (''resolve executable: '' @ error_text e)), [])
      | Inr self \<Rightarrow>
     (case su_home env of
        Inl e \<Rightarrow> (Some (ErrText (''get home dir: '' @ error_text e)), [])
      | Inr home \<Rightarrow>
         (let wrapperDir = home @ ''/.local/bin''; wrapperPath = wrapperDir @ ''/secrets-dispatcher-gpg'' in
          andThen (wrapping ''create wrapper dir'' (act env (SMkdir wrapperDir) []))
         (\<lambda>as. andThen (wrapping ''write wrapper'' (act env (SWrite wrapperPath (wrapperScript self)) as))
         (\<lambda>as. wrapping ''git config''
            (act env (SGit [''config'', if scope = ''local'' then ''--local'' else ''--global'', ''gpg.program'', wrapperPath]) as)))))))"

text \<open>git is told about the wrapper only when the wrapper is there.\<close>

lemma git_configured_last:
  assumes "SetupGitConfig env scope = (e, as)" and "SGit args \<in> set as"
  shows "\<exists>dir path script. e = None \<and> as = [SMkdir dir, SWrite path script, SGit args] \<and> last args = path"
  using assms
  by (auto simp: SetupGitConfig_def act_def Let_def andThen_def wrapping_def split: sum.splits option.splits)

text \<open>The path of the program is not quoted: the shell runs only what comes before its first space.\<close>

theorem wrapper_splits_path:
  assumes "CHR '' '' \<notin> set dir" and "LF \<notin> set dir" and "LF \<notin> set rest"
  shows "Split (Split (wrapperScript (dir @ '' '' @ rest)) LF ! 1) (CHR '' '') ! 1 = dir"
proof -
  let ?l2 = "''exec '' @ (dir @ '' '' @ rest) @ '' gpg-sign '' @ [CHR 0x22] @ ''$@'' @ [CHR 0x22]"
  have "\<forall>l \<in> set [''#!/bin/sh'', ?l2]. LF \<notin> set l" using assms(2,3) by simp
  from Split_unlines[OF this, of "[]"] have "Split (wrapperScript (dir @ '' '' @ rest)) LF ! 1 = ?l2"
    by (simp add: wrapperScript_def)
  moreover have "Split ?l2 (CHR '' '') = ''exec'' # dir # Split (rest @ '' gpg-sign '' @ [CHR 0x22] @ ''$@'' @ [CHR 0x22]) (CHR '' '')"
    using Split_append[OF assms(1), of "rest @ '' gpg-sign '' @ [CHR 0x22] @ ''$@'' @ [CHR 0x22]"] by simp
  ultimately show ?thesis by simp
qed

end
