(* ===== verification/Keyring.thy ===== *)
theory Keyring
  imports Proxy_Props
begin

text \<open>
  The contract between the proxy and a keyring behind it: what the proxy needs of the Secret Service so that
  a client gets back what it stored.  The locale \<open>keyring\<close> states it, and the end-to-end lemma is proved from it.
  \<open>Mock_Keyring\<close> gives a keyring that fulfils it.
\<close>

subsection \<open>The names of methods\<close>

text \<open>\<open>interface.member\<close> is cut at the last dot.\<close>

definition splitMethod :: "string \<Rightarrow> string \<times> string" where
  "splitMethod s = (case LastIndexByte s (CHR ''.'') of Some i \<Rightarrow> (take i s, drop (i + 1) s) | None \<Rightarrow> ([], s))"

definition calledMember :: "upcall \<Rightarrow> string" where
  "calledMember c = snd (splitMethod (uc_method c))"

text \<open>The calls that cannot change the value of the item \<open>p\<close>.\<close>

definition spares :: "ObjectPath \<Rightarrow> upcall \<Rightarrow> bool" where
  "spares p c \<longleftrightarrow> calledMember c \<noteq> ''CreateItem'' \<and>
     (calledMember c = ''SetSecret'' \<longrightarrow> uc_path c \<noteq> p) \<and>
     (calledMember c = ''Delete'' \<longrightarrow> isItemPath (uc_path c) \<and> uc_path c \<noteq> p)"

lemma spares_read: "uc_method c = PropertiesGet \<Longrightarrow> spares p c"
  by (simp add: spares_def calledMember_def splitMethod_def)

definition createItemCall :: "ObjectPath \<Rightarrow> (string \<times> dvalue) list \<Rightarrow> Secret \<Rightarrow> bool \<Rightarrow> upcall" where
  "createItemCall path properties secret replace =
     mkcall BusName path (CollectionInterface @ ''.CreateItem'') [DProps properties, DSecret secret, DBool replace]"

definition setSecretCall :: "ObjectPath \<Rightarrow> Secret \<Rightarrow> upcall" where
  "setSecretCall path secret = mkcall BusName path (ItemInterface @ ''.SetSecret'') [DSecret secret]"

definition getSecretCall :: "ObjectPath \<Rightarrow> ObjectPath \<Rightarrow> upcall" where
  "getSecretCall path session = mkcall BusName path (ItemInterface @ ''.GetSecret'') [DPath session]"

subsection \<open>What the handlers send\<close>

lemma store1_asSecret: "store1 asSecret r = Inr s \<longleftrightarrow> r = Inr [DSecret s]"
  by (auto simp: store1_def split: sum.splits list.splits option.splits elim!: asSecret.elims)

lemma store2_asPath: "store2 asPath asPath r = Inr (p, q) \<longleftrightarrow> r = Inr [DPath p, DPath q]"
  by (auto simp: store2_def split: sum.splits list.splits option.splits elim!: asPath.elims)

text \<open>A created item went upstream with the value the client sent, decrypted.\<close>

lemma CreateItem_sends:
  assumes "Collection_CreateItem env msg properties secret replace st = (Some (Inr (q, prompt)), st')" and "q \<noteq> ''/''"
  shows "\<exists>s. ForUpstream (pe_crypto env) secret (ps_sessions st') = (s, True, None) \<and>
     ps_log st' = ps_log st @ [createItemCall (pathOf msg) properties s replace] \<and>
     pe_up env (ps_log st) (createItemCall (pathOf msg) properties s replace) = Inr [DPath q, DPath prompt]"
proof -
  obtain rid st1 where e: "enter env (senderOf msg) st = (rid, st1)" by fastforce
  obtain res st2 where a: "ask env [extractItemInfo (pathOf msg) properties] (sec_Session secret) RequestTypeWrite
      (pe_resolve env (senderOf msg)) st1 = (res, st2)" by fastforce
  have l: "ps_log st2 = ps_log st"
    using enter_log [of env "senderOf msg" st] e
      ask_log [of env "[extractItemInfo (pathOf msg) properties]" "sec_Session secret" RequestTypeWrite
        "pe_resolve env (senderOf msg)" st1] a by simp
  show ?thesis
    using assms
    by (auto simp: Collection_CreateItem_def Let_def e a l callUp_def leave_def createItemCall_def store2_asPath
        split: if_splits option.splits prod.splits sum.splits)
qed

text \<open>The value a client gets is the one the keyring sent, encoded for the session of the client.\<close>

lemma GetSecret_sends:
  assumes "Item_GetSecret env msg session st = (Some (Inr out), st')"
  shows "\<exists>cs l s. (\<forall>c \<in> set cs. uc_method c = PropertiesGet) \<and> GetLocalSession session (ps_sessions st') = (l, True) \<and>
     pe_up env (ps_log st @ cs) (getSecretCall (pathOf msg) l) = Inr [DSecret s] \<and>
     ForClient (pe_crypto env) session s (ps_sessions st') = Inr out"
proof -
  obtain x st1 where g: "getItemInfo env (pathOf msg) st = (x, st1)" by fastforce
  obtain rid st2 where e: "enter env (senderOf msg) st1 = (rid, st2)" by fastforce
  obtain res st3 where a: "ask env [x] session RequestTypeGetSecret (pe_resolve env (senderOf msg)) st2 = (res, st3)"
    by fastforce
  obtain cs where cs: "ps_log st1 = ps_log st @ cs" "\<forall>c \<in> set cs. uc_method c = PropertiesGet"
    using reads_getItemInfo [OF g] by (auto simp: reads_def)
  have l: "ps_log st3 = ps_log st @ cs"
    using enter_log [of env "senderOf msg" st1] e cs
      ask_log [of env "[x]" session RequestTypeGetSecret "pe_resolve env (senderOf msg)" st2] a by simp
  obtain loc s where "GetLocalSession session (ps_sessions st') = (loc, True)"
    "pe_up env (ps_log st @ cs) (getSecretCall (pathOf msg) loc) = Inr [DSecret s]"
    "ForClient (pe_crypto env) session s (ps_sessions st') = Inr out"
    using assms
    by (auto simp: Item_GetSecret_def Let_def g e a l callUp_def leave_def getSecretCall_def store1_asSecret
        split: if_splits option.splits prod.splits sum.splits)
  with cs(2) show ?thesis by blast
qed

text \<open>And a value that was set went upstream decrypted; a dropped write reports success too.\<close>

lemma SetSecret_sends:
  assumes "Item_SetSecret env msg secret st = (Some (Inr ()), st')"
  shows "\<exists>cs. (\<forall>c \<in> set cs. uc_method c = PropertiesGet) \<and>
     (ps_log st' = ps_log st @ cs \<or>
      (\<exists>s x. ForUpstream (pe_crypto env) secret (ps_sessions st') = (s, True, None) \<and>
         ps_log st' = ps_log st @ cs @ [setSecretCall (pathOf msg) s] \<and>
         pe_up env (ps_log st @ cs) (setSecretCall (pathOf msg) s) = Inr x))"
proof -
  obtain x st1 where g: "getItemInfo env (pathOf msg) st = (x, st1)" by fastforce
  obtain rid st2 where e: "enter env (senderOf msg) st1 = (rid, st2)" by fastforce
  obtain res st3 where a: "ask env [x] (sec_Session secret) RequestTypeWrite (pe_resolve env (senderOf msg)) st2 = (res, st3)"
    by fastforce
  obtain cs where cs: "ps_log st1 = ps_log st @ cs" "\<forall>c \<in> set cs. uc_method c = PropertiesGet"
    using reads_getItemInfo [OF g] by (auto simp: reads_def)
  have l: "ps_log st3 = ps_log st @ cs"
    using enter_log [of env "senderOf msg" st1] e cs
      ask_log [of env "[x]" "sec_Session secret" RequestTypeWrite "pe_resolve env (senderOf msg)" st2] a by simp
  show ?thesis
    using assms cs(2)
    by (auto simp: Item_SetSecret_def Let_def g e a l callUp_def leave_def setSecretCall_def intro!: exI [of _ cs]
        split: if_splits option.splits prod.splits sum.splits)
qed

subsection \<open>The contract\<close>

text \<open>
  \<open>serve c k\<close> is the keyring's answer to a call and its new state, \<open>stored k p\<close> the value of the item \<open>p\<close>.
  A keyring that has to ask its user first answers \<open>CreateItem\<close> with the item \<open>/\<close>.
\<close>

locale keyring =
  fixes serve :: "upcall \<Rightarrow> 'k \<Rightarrow> reply \<times> 'k"
    and stored :: "'k \<Rightarrow> ObjectPath \<Rightarrow> bytes option"
    and healthy :: "'k \<Rightarrow> bool"
  assumes healthy_serve: "healthy k \<Longrightarrow> healthy (snd (serve c k))"
    and stored_create: "healthy k \<Longrightarrow> serve (createItemCall path properties s replace) k = (Inr [DPath q, DPath prompt], k') \<Longrightarrow>
          q \<noteq> ''/'' \<Longrightarrow> stored k' q = Some (sec_Value s)"
    and stored_set: "healthy k \<Longrightarrow> serve (setSecretCall path s) k = (Inr x, k') \<Longrightarrow> stored k' path = Some (sec_Value s)"
    and get_stored: "healthy k \<Longrightarrow> serve (getSecretCall path session) k = (Inr [DSecret s], k') \<Longrightarrow>
          stored k path = Some (sec_Value s)"
    and stored_spared: "healthy k \<Longrightarrow> spares p c \<Longrightarrow> stored (snd (serve c k)) p = stored k p"
begin

text \<open>The keyring after a sequence of calls, and what the proxy sees of it.\<close>

definition afterCalls :: "'k \<Rightarrow> upcall list \<Rightarrow> 'k" where
  "afterCalls k cs = fold (\<lambda>c k. snd (serve c k)) cs k"

definition answers :: "'k \<Rightarrow> upstream" where
  "answers k cs c = fst (serve c (afterCalls k cs))"

lemma after_append: "afterCalls k (cs @ ds) = afterCalls (afterCalls k cs) ds"
  by (simp add: afterCalls_def)

lemma after_one: "afterCalls k [c] = snd (serve c k)"
  by (simp add: afterCalls_def)

lemma healthy_after: "healthy k \<Longrightarrow> healthy (afterCalls k cs)"
  unfolding afterCalls_def by (induction cs arbitrary: k) (simp_all add: healthy_serve)

lemma spared_after: "healthy k \<Longrightarrow> \<forall>c \<in> set cs. spares p c \<Longrightarrow> stored (afterCalls k cs) p = stored k p"
proof (induction cs arbitrary: k)
  case Nil
  then show ?case by (simp add: afterCalls_def)
next
  case (Cons c cs)
  then show ?case
    using after_append [of k "[c]" cs] by (simp add: after_one healthy_serve stored_spared)
qed

lemma serve_answers: "answers k cs c = r \<Longrightarrow> serve c (afterCalls k cs) = (r, afterCalls k (cs @ [c]))"
  by (simp add: answers_def after_append after_one prod_eq_iff)

lemma created_value:
  assumes "healthy k" and "pe_up env = answers k"
    and "Collection_CreateItem env msg properties secret replace st = (Some (Inr (q, prompt)), st')" and "q \<noteq> ''/''"
  shows "\<exists>s. ForUpstream (pe_crypto env) secret (ps_sessions st') = (s, True, None) \<and>
           stored (afterCalls k (ps_log st')) q = Some (sec_Value s)"
proof -
  obtain s where s: "ForUpstream (pe_crypto env) secret (ps_sessions st') = (s, True, None)"
    "ps_log st' = ps_log st @ [createItemCall (pathOf msg) properties s replace]"
    "pe_up env (ps_log st) (createItemCall (pathOf msg) properties s replace) = Inr [DPath q, DPath prompt]"
    using CreateItem_sends [OF assms(3,4)] by blast
  then show ?thesis
    using stored_create [OF healthy_after [OF assms(1)] serve_answers assms(4)] assms(2) by metis
qed

lemma read_value:
  assumes "healthy k" and "pe_up env = answers k"
    and "Item_GetSecret env msg session st = (Some (Inr out), st')"
  shows "\<exists>l s. GetLocalSession session (ps_sessions st') = (l, True) \<and>
           ForClient (pe_crypto env) session s (ps_sessions st') = Inr out \<and>
           stored (afterCalls k (ps_log st)) (pathOf msg) = Some (sec_Value s)"
proof -
  obtain cs l s where *: "\<forall>c \<in> set cs. uc_method c = PropertiesGet" "GetLocalSession session (ps_sessions st') = (l, True)"
    "pe_up env (ps_log st @ cs) (getSecretCall (pathOf msg) l) = Inr [DSecret s]"
    "ForClient (pe_crypto env) session s (ps_sessions st') = Inr out"
    using GetSecret_sends [OF assms(3)] by blast
  have h: "healthy (afterCalls k (ps_log st))" "healthy (afterCalls k (ps_log st @ cs))" using assms(1) by (simp_all add: healthy_after)
  have "stored (afterCalls k (ps_log st @ cs)) (pathOf msg) = Some (sec_Value s)"
    using get_stored [OF h(2) serve_answers] *(3) assms(2) by metis
  moreover have "stored (afterCalls k (ps_log st @ cs)) (pathOf msg) = stored (afterCalls k (ps_log st)) (pathOf msg)"
    unfolding after_append by (rule spared_after [OF h(1)]) (use *(1) spares_read in blast)
  ultimately show ?thesis using * by auto
qed

text \<open>A secret that was set has the new value, unless the write was dropped without a call.\<close>

lemma set_value:
  assumes "healthy k" and "pe_up env = answers k"
    and "Item_SetSecret env msg secret st = (Some (Inr ()), st')"
  shows "stored (afterCalls k (ps_log st')) (pathOf msg) =
       (if setSecretCall (pathOf msg) (fst (ForUpstream (pe_crypto env) secret (ps_sessions st'))) \<in> set (drop (length (ps_log st)) (ps_log st'))
        then Some (sec_Value (fst (ForUpstream (pe_crypto env) secret (ps_sessions st'))))
        else stored (afterCalls k (ps_log st)) (pathOf msg))"
proof -
  have h: "healthy (afterCalls k (ps_log st))" using assms(1) by (rule healthy_after)
  obtain cs where cs: "\<forall>c \<in> set cs. uc_method c = PropertiesGet"
    "ps_log st' = ps_log st @ cs \<or>
      (\<exists>s x. ForUpstream (pe_crypto env) secret (ps_sessions st') = (s, True, None) \<and>
         ps_log st' = ps_log st @ cs @ [setSecretCall (pathOf msg) s] \<and>
         pe_up env (ps_log st @ cs) (setSecretCall (pathOf msg) s) = Inr x)"
    using SetSecret_sends [OF assms(3)] by blast
  from cs(2) show ?thesis
  proof (elim disjE exE conjE)
    assume l: "ps_log st' = ps_log st @ cs"
    moreover have "setSecretCall p s \<notin> set cs" for p s
      using cs(1) by (auto simp: setSecretCall_def mkcall_def)
    ultimately show ?thesis
      using spared_after [OF h] cs(1) spares_read by (simp add: after_append)
  next
    fix s x assume s: "ForUpstream (pe_crypto env) secret (ps_sessions st') = (s, True, None)"
      "ps_log st' = ps_log st @ cs @ [setSecretCall (pathOf msg) s]"
      "pe_up env (ps_log st @ cs) (setSecretCall (pathOf msg) s) = Inr x"
    have "stored (afterCalls k (ps_log st')) (pathOf msg) = Some (sec_Value s)"
      using stored_set [OF healthy_after [OF assms(1)] serve_answers] s(2,3) assms(2) by (metis append_assoc)
    with s show ?thesis by simp
  qed
qed

text \<open>What was stored through the proxy is what is read through it.\<close>

lemma stored_then_read:
  assumes "healthy k" and "pe_up env = answers k" and "pe_up env' = answers k"
    and "Collection_CreateItem env msg properties secret replace st = (Some (Inr (q, prompt)), st1)" and "q \<noteq> ''/''"
    and "ps_log st2 = ps_log st1 @ cs" and "\<forall>c \<in> set cs. spares q c"
    and "Item_GetSecret env' msg' session st2 = (Some (Inr out), st3)" and "pathOf msg' = q"
  shows "\<exists>s l s'. ForUpstream (pe_crypto env) secret (ps_sessions st1) = (s, True, None) \<and>
     GetLocalSession session (ps_sessions st3) = (l, True) \<and>
     ForClient (pe_crypto env') session s' (ps_sessions st3) = Inr out \<and> sec_Value s' = sec_Value s"
proof -
  obtain s where s: "ForUpstream (pe_crypto env) secret (ps_sessions st1) = (s, True, None)"
    "stored (afterCalls k (ps_log st1)) q = Some (sec_Value s)"
    using created_value [OF assms(1,2,4,5)] by blast
  obtain l s' where s': "GetLocalSession session (ps_sessions st3) = (l, True)"
    "ForClient (pe_crypto env') session s' (ps_sessions st3) = Inr out"
    "stored (afterCalls k (ps_log st2)) q = Some (sec_Value s')"
    using read_value [OF assms(1,3,8)] assms(9) by blast
  have "stored (afterCalls k (ps_log st2)) q = stored (afterCalls k (ps_log st1)) q"
    using spared_after [OF healthy_after [OF assms(1)] assms(7)] assms(6) by (simp add: after_append)
  with s s' show ?thesis by auto
qed

end

end
