(* ===== verification/Mock_Keyring.thy ===== *)
theory Mock_Keyring
  imports Keyring
begin

text \<open>
  The keyring of \<^verbatim>\<open>internal/testutil/mockservice.go\<close>, a Secret Service that keeps its items in memory; the tests
  and \<^verbatim>\<open>cmd/mock-secret-service\<close> run the proxy in front of it.  Its state is a record, its D-Bus methods are
  functions on it.  It is shown to fulfil the contract \<open>keyring\<close>, so that the proxy and the keyring together give
  back what was stored.  The bus (\<open>Export\<close>, \<open>RequestName\<close>, \<open>Emit\<close>, the answer to a call of an unknown method) is a
  parameter; its table of exported objects is part of the state.
\<close>

subsection \<open>State\<close>

record MockItem =
  mi_Path :: ObjectPath
  mi_Label :: string
  mi_Attributes :: "(string, string) gomap"
  mi_Secret :: bytes
  mi_ContentType :: string

text \<open>The objects that can be exported: the service, and the handlers for collections, items and prompts.\<close>

datatype mockObject =
    MockService
  | MockIntrospectable
  | MockCollection ObjectPath
  | MockItemObject ObjectPath
  | MockPrompt ObjectPath "ObjectPath list"

record MockSecretService =
  mk_exports :: "(ObjectPath \<times> string, mockObject) gomap"
  mk_signals :: "(ObjectPath \<times> bool \<times> dvalue) list"
  mk_items :: "(ObjectPath, MockItem) gomap"
  mk_sessions :: "(ObjectPath, bool) gomap"
  mk_locked :: bool
  mk_lastWindowID :: string
  mk_sessionCtr :: "64 word"
  mk_itemCtr :: "64 word"
  mk_promptCtr :: "64 word"

definition NewMockSecretService :: MockSecretService where
  "NewMockSecretService = \<lparr>mk_exports = [], mk_signals = [], mk_items = [], mk_sessions = [], mk_locked = False,
     mk_lastWindowID = [], mk_sessionCtr = 0, mk_itemCtr = 0, mk_promptCtr = 0\<rparr>"

record mock_bus =
  mb_export :: "ObjectPath \<Rightarrow> string \<Rightarrow> go_error option"
  mb_requestName :: "go_error + nat"
  mb_emit :: "go_error option"
  mb_unknown :: "upcall \<Rightarrow> go_error"

definition RequestNameReplyPrimaryOwner :: nat where
  "RequestNameReplyPrimaryOwner = 1"

definition PropertiesInterface :: string where
  "PropertiesInterface = ''org.freedesktop.DBus.Properties''"

definition IntrospectableInterface :: string where
  "IntrospectableInterface = ''org.freedesktop.DBus.Introspectable''"

definition defaultCollection :: ObjectPath where
  "defaultCollection = ''/org/freedesktop/secrets/collection/default''"

definition defaultAlias :: ObjectPath where
  "defaultAlias = ''/org/freedesktop/secrets/aliases/default''"

definition UnknownProperty :: dbus_error where
  "UnknownProperty = DBusError ''org.freedesktop.DBus.Error.UnknownProperty'' []"

definition mockExport :: "mock_bus \<Rightarrow> mockObject \<Rightarrow> ObjectPath \<Rightarrow> string \<Rightarrow> MockSecretService \<Rightarrow> go_error option \<times> MockSecretService" where
  "mockExport bus h path iface m =
     (case mb_export bus path iface of
        Some err \<Rightarrow> (Some err, m)
      | None \<Rightarrow> (None, m\<lparr>mk_exports := gm_put (path, iface) h (mk_exports m)\<rparr>))"

text \<open>\<open>Register\<close>: everything is exported, then the name is requested; the first failure ends it.\<close>

definition mockExports :: "(mockObject \<times> ObjectPath \<times> string \<times> string) list" where
  "mockExports =
     [(MockService, ServicePath, ServiceInterface, ''export Service: ''),
      (MockService, ServicePath, PropertiesInterface, ''export Properties: ''),
      (MockIntrospectable, ServicePath, IntrospectableInterface, ''export Introspectable: '')] @
     concat (map (\<lambda>collPath.
       [(MockCollection collPath, collPath, CollectionInterface, ''export Collection at '' @ collPath @ '': ''),
        (MockCollection collPath, collPath, PropertiesInterface, ''export Collection Properties at '' @ collPath @ '': '')])
       [defaultCollection, defaultAlias])"

fun exportEach :: "mock_bus \<Rightarrow> (mockObject \<times> ObjectPath \<times> string \<times> string) list \<Rightarrow> MockSecretService
    \<Rightarrow> go_error option \<times> MockSecretService" where
  "exportEach bus [] m = (None, m)"
| "exportEach bus ((h, path, iface, text) # es) m =
     (case mockExport bus h path iface m of
        (Some err, m) \<Rightarrow> (Some (ErrText (text @ error_text err)), m)
      | (None, m) \<Rightarrow> exportEach bus es m)"

definition Register :: "mock_bus \<Rightarrow> MockSecretService \<Rightarrow> go_error option \<times> MockSecretService" where
  "Register bus m =
     (case exportEach bus mockExports m of
        (Some err, m) \<Rightarrow> (Some err, m)
      | (None, m) \<Rightarrow>
         (case mb_requestName bus of
            Inl err \<Rightarrow> (Some (ErrText (''request name: '' @ error_text err)), m)
          | Inr reply \<Rightarrow>
             if reply \<noteq> RequestNameReplyPrimaryOwner
             then (Some (ErrText (''not primary owner (reply='' @ dec reply @ '')'')), m)
             else (None, m)))"

subsection \<open>Items and prompts\<close>

text \<open>A missing attribute reads as the empty string.\<close>

definition matchesAttributes :: "(string, string) gomap \<Rightarrow> (string, string) gomap \<Rightarrow> bool" where
  "matchesAttributes itemAttrs searchAttrs \<longleftrightarrow> list_all (\<lambda>(k, v). str_get itemAttrs k = v) searchAttrs"

definition mockItemPath :: "64 word \<Rightarrow> ObjectPath" where
  "mockItemPath i = ''/org/freedesktop/secrets/collection/default/'' @ dec (unat i)"

definition AddItem :: "mock_bus \<Rightarrow> string \<Rightarrow> (string, string) gomap \<Rightarrow> bytes \<Rightarrow> MockSecretService
    \<Rightarrow> ObjectPath \<times> MockSecretService" where
  "AddItem bus label attributes secret m =
     (let i = mk_itemCtr m + 1;
          path = mockItemPath i;
          item = \<lparr>mi_Path = path, mi_Label = label, mi_Attributes = attributes, mi_Secret = secret,
                  mi_ContentType = ''text/plain''\<rparr>;
          m = m\<lparr>mk_itemCtr := i, mk_items := gm_put path item (mk_items m)\<rparr>;
          (_, m) = mockExport bus (MockItemObject path) path ItemInterface m;
          (_, m) = mockExport bus (MockItemObject path) path PropertiesInterface m
      in (path, m))"

definition ItemCount :: "MockSecretService \<Rightarrow> nat" where
  "ItemCount m = length (mk_items m)"

definition SetLocked :: "bool \<Rightarrow> MockSecretService \<Rightarrow> MockSecretService" where
  "SetLocked locked m = m\<lparr>mk_locked := locked\<rparr>"

definition Locked :: "MockSecretService \<Rightarrow> bool" where
  "Locked m = mk_locked m"

definition LastWindowID :: "MockSecretService \<Rightarrow> string" where
  "LastWindowID m = mk_lastWindowID m"

definition mockPromptPath :: "64 word \<Rightarrow> ObjectPath" where
  "mockPromptPath i = ''/org/freedesktop/secrets/prompt/p'' @ dec (unat i)"

definition newPrompt :: "mock_bus \<Rightarrow> ObjectPath list \<Rightarrow> MockSecretService \<Rightarrow> ObjectPath \<times> MockSecretService" where
  "newPrompt bus objects m =
     (let i = mk_promptCtr m + 1;
          path = mockPromptPath i;
          m = m\<lparr>mk_promptCtr := i\<rparr>;
          (_, m) = mockExport bus (MockPrompt path objects) path PromptInterface m
      in (path, m))"

subsection \<open>The methods of the service\<close>

type_synonym 'a mock_result = "(dbus_error + 'a) \<times> MockSecretService"

definition mockOpenSession :: "string \<Rightarrow> dvalue \<Rightarrow> MockSecretService \<Rightarrow> (dvalue \<times> ObjectPath) mock_result" where
  "mockOpenSession algorithm input m =
     (if algorithm \<noteq> AlgorithmPlain then (Inl (ErrUnsupportedAlgorithm algorithm), m)
      else (let i = mk_sessionCtr m + 1;
                path = ''/org/freedesktop/secrets/session/'' @ dec (unat i)
            in (Inr (DStr [], path), m\<lparr>mk_sessionCtr := i, mk_sessions := gm_put path True (mk_sessions m)\<rparr>)))"

definition mockSearchItems :: "(string, string) gomap \<Rightarrow> MockSecretService \<Rightarrow> ObjectPath list \<times> ObjectPath list" where
  "mockSearchItems attributes m =
     (let matched = map fst (filter (\<lambda>(path, item). matchesAttributes (mi_Attributes item) attributes) (mk_items m))
      in if mk_locked m then ([], matched) else (matched, []))"

definition mockSession :: "MockSecretService \<Rightarrow> ObjectPath \<Rightarrow> bool" where
  "mockSession m session = (case map_of (mk_sessions m) session of Some b \<Rightarrow> b | None \<Rightarrow> False)"

definition itemSecret :: "ObjectPath \<Rightarrow> MockItem \<Rightarrow> Secret" where
  "itemSecret session item = \<lparr>sec_Session = session, sec_Parameters = [], sec_Value = mi_Secret item,
     sec_ContentType = mi_ContentType item\<rparr>"

fun mockGetSecrets_loop :: "MockSecretService \<Rightarrow> ObjectPath \<Rightarrow> ObjectPath list \<Rightarrow> (ObjectPath, Secret) gomap
    \<Rightarrow> dbus_error + (ObjectPath, Secret) gomap" where
  "mockGetSecrets_loop m session [] secrets = Inr secrets"
| "mockGetSecrets_loop m session (path # ps) secrets =
     (if mk_locked m then Inl (ErrLocked path)
      else (case map_of (mk_items m) path of
              None \<Rightarrow> mockGetSecrets_loop m session ps secrets
            | Some item \<Rightarrow> mockGetSecrets_loop m session ps (gm_put path (itemSecret session item) secrets)))"

definition mockGetSecrets :: "ObjectPath list \<Rightarrow> ObjectPath \<Rightarrow> MockSecretService \<Rightarrow> dbus_error + (ObjectPath, Secret) gomap" where
  "mockGetSecrets items session m =
     (if \<not> mockSession m session then Inl (ErrSessionNotFound session)
      else mockGetSecrets_loop m session items [])"

definition mockUnlock :: "mock_bus \<Rightarrow> ObjectPath list \<Rightarrow> MockSecretService \<Rightarrow> (ObjectPath list \<times> ObjectPath) \<times> MockSecretService" where
  "mockUnlock bus objects m =
     (if \<not> mk_locked m then ((objects, ''/''), m)
      else (let (p, m) = newPrompt bus objects m in (([], p), m)))"

definition mockLock :: "ObjectPath list \<Rightarrow> MockSecretService \<Rightarrow> (ObjectPath list \<times> ObjectPath) \<times> MockSecretService" where
  "mockLock objects m = ((objects, ''/''), m\<lparr>mk_locked := True\<rparr>)"

definition mockReadAlias :: "string \<Rightarrow> ObjectPath" where
  "mockReadAlias name = (if name = ''default'' then defaultCollection else ''/'')"

definition mockCreateCollection :: "(string \<times> dvalue) list \<Rightarrow> string \<Rightarrow> ObjectPath \<times> ObjectPath" where
  "mockCreateCollection properties alias = (defaultCollection, ''/'')"

definition mockServiceGet :: "string \<Rightarrow> string \<Rightarrow> dbus_error + dvalue" where
  "mockServiceGet iface property =
     (if iface = ServiceInterface \<and> property = ''Collections'' then Inr (DPaths [defaultCollection])
      else Inl UnknownProperty)"

definition mockServiceGetAll :: "string \<Rightarrow> (string \<times> dvalue) list" where
  "mockServiceGetAll iface = (if iface = ServiceInterface then [(''Collections'', DPaths [defaultCollection])] else [])"

definition mockIntrospect :: string where
  \<open>mockIntrospect = Join
     [''<!DOCTYPE node PUBLIC "-//freedesktop//DTD D-BUS Object Introspection 1.0//EN"'',
      ''"http://www.freedesktop.org/standards/dbus/1.0/introspect.dtd">'',
      ''<node>'',
      ''  <interface name="org.freedesktop.Secret.Service">'',
      ''    <method name="OpenSession">'',
      ''      <arg name="algorithm" type="s" direction="in"/>'',
      ''      <arg name="input" type="v" direction="in"/>'',
      ''      <arg name="output" type="v" direction="out"/>'',
      ''      <arg name="result" type="o" direction="out"/>'',
      ''    </method>'',
      ''    <method name="SearchItems">'',
      ''      <arg name="attributes" type="a{ss}" direction="in"/>'',
      ''      <arg name="unlocked" type="ao" direction="out"/>'',
      ''      <arg name="locked" type="ao" direction="out"/>'',
      ''    </method>'',
      ''    <method name="GetSecrets">'',
      ''      <arg name="items" type="ao" direction="in"/>'',
      ''      <arg name="session" type="o" direction="in"/>'',
      ''      <arg name="secrets" type="a{o(oayays)}" direction="out"/>'',
      ''    </method>'',
      ''    <method name="Unlock">'',
      ''      <arg name="objects" type="ao" direction="in"/>'',
      ''      <arg name="unlocked" type="ao" direction="out"/>'',
      ''      <arg name="prompt" type="o" direction="out"/>'',
      ''    </method>'',
      ''    <method name="Lock">'',
      ''      <arg name="objects" type="ao" direction="in"/>'',
      ''      <arg name="locked" type="ao" direction="out"/>'',
      ''      <arg name="prompt" type="o" direction="out"/>'',
      ''    </method>'',
      ''    <method name="ReadAlias">'',
      ''      <arg name="name" type="s" direction="in"/>'',
      ''      <arg name="collection" type="o" direction="out"/>'',
      ''    </method>'',
      ''    <method name="SetAlias">'',
      ''      <arg name="name" type="s" direction="in"/>'',
      ''      <arg name="collection" type="o" direction="in"/>'',
      ''    </method>'',
      ''    <method name="CreateCollection">'',
      ''      <arg name="properties" type="a{sv}" direction="in"/>'',
      ''      <arg name="alias" type="s" direction="in"/>'',
      ''      <arg name="collection" type="o" direction="out"/>'',
      ''      <arg name="prompt" type="o" direction="out"/>'',
      ''    </method>'',
      ''    <property name="Collections" type="ao" access="read"/>'',
      ''  </interface>'',
      ''</node>''] [CHR 0x0A]\<close>

subsection \<open>The methods of a prompt\<close>

definition promptCompleted :: "mock_bus \<Rightarrow> ObjectPath \<Rightarrow> bool \<Rightarrow> dvalue \<Rightarrow> MockSecretService \<Rightarrow> unit mock_result" where
  "promptCompleted bus path dismissed result m =
     (case mb_emit bus of
        Some err \<Rightarrow> (Inl (ErrFailed err), m)
      | None \<Rightarrow> (Inr (), m\<lparr>mk_signals := mk_signals m @ [(path, dismissed, result)]\<rparr>))"

definition promptPrompt :: "mock_bus \<Rightarrow> ObjectPath \<Rightarrow> ObjectPath list \<Rightarrow> string \<Rightarrow> MockSecretService \<Rightarrow> unit mock_result" where
  "promptPrompt bus path objects windowID m =
     promptCompleted bus path False (DPaths objects) (m\<lparr>mk_locked := False, mk_lastWindowID := windowID\<rparr>)"

definition promptDismiss :: "mock_bus \<Rightarrow> ObjectPath \<Rightarrow> MockSecretService \<Rightarrow> unit mock_result" where
  "promptDismiss bus path m = promptCompleted bus path True (DStr []) m"

subsection \<open>The methods of a collection\<close>

definition collectionDelete :: ObjectPath where
  "collectionDelete = ''/''"

definition collectionSearchItems :: "(string, string) gomap \<Rightarrow> MockSecretService \<Rightarrow> ObjectPath list" where
  "collectionSearchItems attributes m = fst (mockSearchItems attributes m)"

definition createLabel :: "(string \<times> dvalue) list \<Rightarrow> string" where
  "createLabel properties = (case map_of properties ''org.freedesktop.Secret.Item.Label'' of
     Some v \<Rightarrow> (case asStr v of Some s \<Rightarrow> s | None \<Rightarrow> ''Untitled'') | None \<Rightarrow> ''Untitled'')"

definition createAttributes :: "(string \<times> dvalue) list \<Rightarrow> (string, string) gomap" where
  "createAttributes properties = (case map_of properties ''org.freedesktop.Secret.Item.Attributes'' of
     Some v \<Rightarrow> (case asAttrs v of Some a \<Rightarrow> a | None \<Rightarrow> []) | None \<Rightarrow> [])"

text \<open>The item that \<open>CreateItem\<close> replaces: the first that matches, with as many attributes.\<close>

definition replaced :: "(string, string) gomap \<Rightarrow> MockSecretService \<Rightarrow> (ObjectPath \<times> MockItem) option" where
  "replaced attrs m = find (\<lambda>(path, item). matchesAttributes (mi_Attributes item) attrs \<and>
     length (mi_Attributes item) = length attrs) (mk_items m)"

definition mockCreateItem :: "mock_bus \<Rightarrow> (string \<times> dvalue) list \<Rightarrow> Secret \<Rightarrow> bool \<Rightarrow> MockSecretService
    \<Rightarrow> (ObjectPath \<times> ObjectPath) \<times> MockSecretService" where
  "mockCreateItem bus properties secret replace m =
     (let label = createLabel properties;
          attrs = createAttributes properties
      in case (if replace then replaced attrs m else None) of
           Some (path, item) \<Rightarrow>
             ((path, ''/''),
              m\<lparr>mk_items := gm_put path (item\<lparr>mi_Label := label, mi_Secret := sec_Value secret,
                                             mi_ContentType := sec_ContentType secret\<rparr>) (mk_items m)\<rparr>)
         | None \<Rightarrow> (let (path, m) = AddItem bus label attrs (sec_Value secret) m in ((path, ''/''), m)))"

definition collectionGet :: "string \<Rightarrow> string \<Rightarrow> MockSecretService \<Rightarrow> dbus_error + dvalue" where
  "collectionGet iface property m =
     (if property = ''Label'' then Inr (DStr ''Default'')
      else if property = ''Locked'' then Inr (DBool (Locked m))
      else if property = ''Items'' then Inr (DPaths (map fst (mk_items m)))
      else Inl UnknownProperty)"

definition collectionGetAll :: "string \<Rightarrow> MockSecretService \<Rightarrow> (string \<times> dvalue) list" where
  "collectionGetAll iface m =
     [(''Label'', DStr ''Default''), (''Locked'', DBool (mk_locked m)), (''Items'', DPaths (map fst (mk_items m)))]"

subsection \<open>The methods of an item\<close>

definition itemDelete :: "ObjectPath \<Rightarrow> MockSecretService \<Rightarrow> ObjectPath \<times> MockSecretService" where
  "itemDelete path m = (''/'', m\<lparr>mk_items := gm_del path (mk_items m)\<rparr>)"

definition itemGetSecret :: "ObjectPath \<Rightarrow> ObjectPath \<Rightarrow> MockSecretService \<Rightarrow> dbus_error + Secret" where
  "itemGetSecret path session m =
     (if \<not> mockSession m session then Inl (ErrSessionNotFound session)
      else if mk_locked m then Inl (ErrLocked path)
      else (case map_of (mk_items m) path of
              None \<Rightarrow> Inl (ErrObjectNotFound path)
            | Some item \<Rightarrow> Inr (itemSecret session item)))"

definition itemSetSecret :: "ObjectPath \<Rightarrow> Secret \<Rightarrow> MockSecretService \<Rightarrow> unit mock_result" where
  "itemSetSecret path secret m =
     (case map_of (mk_items m) path of
        None \<Rightarrow> (Inl (ErrObjectNotFound path), m)
      | Some item \<Rightarrow>
         (Inr (), m\<lparr>mk_items := gm_put path (item\<lparr>mi_Secret := sec_Value secret,
                                                mi_ContentType := sec_ContentType secret\<rparr>) (mk_items m)\<rparr>))"

definition itemGet :: "ObjectPath \<Rightarrow> string \<Rightarrow> string \<Rightarrow> MockSecretService \<Rightarrow> dbus_error + dvalue" where
  "itemGet path iface property m =
     (case map_of (mk_items m) path of
        None \<Rightarrow> Inl (ErrObjectNotFound path)
      | Some item \<Rightarrow>
         if property = ''Label'' then Inr (DStr (mi_Label item))
         else if property = ''Attributes'' then Inr (DAttrs (mi_Attributes item))
         else if property = ''Locked'' then Inr (DBool (mk_locked m))
         else Inl UnknownProperty)"

definition itemGetAll :: "ObjectPath \<Rightarrow> string \<Rightarrow> MockSecretService \<Rightarrow> dbus_error + (string \<times> dvalue) list" where
  "itemGetAll path iface m =
     (case map_of (mk_items m) path of
        None \<Rightarrow> Inl (ErrObjectNotFound path)
      | Some item \<Rightarrow> Inr [(''Label'', DStr (mi_Label item)), (''Attributes'', DAttrs (mi_Attributes item)),
                          (''Locked'', DBool False)])"

text \<open>\<open>Set\<close> of all objects, and \<open>SetAlias\<close>, do nothing.\<close>

definition mockNoop :: "MockSecretService \<Rightarrow> unit mock_result" where
  "mockNoop m = (Inr (), m)"

subsection \<open>Calls over the bus\<close>

text \<open>
  A call goes to the object exported at its path and interface, whose method has the name of the member.
  A property is asked for by interface and name, or by both joined by a dot as in \<open>GetProperty\<close>.
\<close>

definition okReply :: "('a \<Rightarrow> dvalue list) \<Rightarrow> dbus_error + 'a \<Rightarrow> reply" where
  "okReply f r = (case r of Inl e \<Rightarrow> Inl (ErrRemote e) | Inr x \<Rightarrow> Inr (f x))"

fun propertyOf :: "dvalue list \<Rightarrow> (string \<times> string) option" where
  "propertyOf [DStr iface, DStr property] = Some (iface, property)"
| "propertyOf [DStr dotted] = Some (splitMethod dotted)"
| "propertyOf _ = None"

definition arg1 :: "(dvalue \<Rightarrow> 'a option) \<Rightarrow> dvalue list \<Rightarrow> 'a option" where
  "arg1 f args = (case args of [x] \<Rightarrow> f x | _ \<Rightarrow> None)"

definition arg2 :: "(dvalue \<Rightarrow> 'a option) \<Rightarrow> (dvalue \<Rightarrow> 'b option) \<Rightarrow> dvalue list \<Rightarrow> ('a \<times> 'b) option" where
  "arg2 f g args = (case args of [x, y] \<Rightarrow> (case (f x, g y) of (Some a, Some b) \<Rightarrow> Some (a, b) | _ \<Rightarrow> None) | _ \<Rightarrow> None)"

definition arg3 :: "(dvalue \<Rightarrow> 'a option) \<Rightarrow> (dvalue \<Rightarrow> 'b option) \<Rightarrow> (dvalue \<Rightarrow> 'c option) \<Rightarrow> dvalue list
    \<Rightarrow> ('a \<times> 'b \<times> 'c) option" where
  "arg3 f g h args = (case args of x # ys \<Rightarrow> (case (f x, arg2 g h ys) of (Some a, Some b) \<Rightarrow> Some (a, b) | _ \<Rightarrow> None) | [] \<Rightarrow> None)"

definition serveService :: "mock_bus \<Rightarrow> string \<Rightarrow> dvalue list \<Rightarrow> MockSecretService \<Rightarrow> (reply \<times> MockSecretService) option" where
  "serveService bus member args m =
     (if member = ''OpenSession'' then
        (map_option (\<lambda>(algorithm, input). (apfst (okReply (\<lambda>(out, path). [out, DPath path])) (mockOpenSession algorithm input m))) (arg2 asStr Some args))
      else if member = ''SearchItems'' then
        (map_option (\<lambda>a. (let (us, ls) = mockSearchItems a m in (Inr [DPaths us, DPaths ls], m))) (arg1 asAttrs args))
      else if member = ''GetSecrets'' then
        (map_option (\<lambda>(ps, session). (okReply (\<lambda>x. [DSecrets x]) (mockGetSecrets ps session m), m)) (arg2 asPaths asPath args))
      else if member = ''Unlock'' then
        (map_option (\<lambda>ps. (apfst (\<lambda>(us, p). Inr [DPaths us, DPath p]) (mockUnlock bus ps m))) (arg1 asPaths args))
      else if member = ''Lock'' then
        (map_option (\<lambda>ps. (apfst (\<lambda>(ls, p). Inr [DPaths ls, DPath p]) (mockLock ps m))) (arg1 asPaths args))
      else if member = ''ReadAlias'' then
        (map_option (\<lambda>name. (Inr [DPath (mockReadAlias name)], m)) (arg1 asStr args))
      else if member = ''SetAlias'' then
        (map_option (\<lambda>(_, _). (apfst (okReply (\<lambda>_. [])) (mockNoop m))) (arg2 asStr asPath args))
      else if member = ''CreateCollection'' then
        (map_option (\<lambda>(ps, alias). (let (c, p) = mockCreateCollection ps alias in (Inr [DPath c, DPath p], m))) (arg2 asProps asStr args))
      else if member = ''Get'' then
        (map_option (\<lambda>(i, p). (okReply (\<lambda>v. [v]) (mockServiceGet i p), m)) (propertyOf args))
      else if member = ''GetAll'' then
        (map_option (\<lambda>i. (Inr [DProps (mockServiceGetAll i)], m)) (arg1 asStr args))
      else if member = ''Set'' then
        (map_option (\<lambda>(_, _, _). (apfst (okReply (\<lambda>_. [])) (mockNoop m))) (arg3 asStr asStr Some args))
      else None)"

definition serveCollection :: "mock_bus \<Rightarrow> string \<Rightarrow> dvalue list \<Rightarrow> MockSecretService \<Rightarrow> (reply \<times> MockSecretService) option" where
  "serveCollection bus member args m =
     (if member = ''Delete'' then (if args = [] then Some (Inr [DPath collectionDelete], m) else None)
      else if member = ''SearchItems'' then
        (map_option (\<lambda>a. (Inr [DPaths (collectionSearchItems a m)], m)) (arg1 asAttrs args))
      else if member = ''CreateItem'' then
        (map_option (\<lambda>(ps, s, r). (apfst (\<lambda>(q, p). Inr [DPath q, DPath p]) (mockCreateItem bus ps s r m))) (arg3 asProps asSecret asBool args))
      else if member = ''Get'' then
        (map_option (\<lambda>(i, p). (okReply (\<lambda>v. [v]) (collectionGet i p m), m)) (propertyOf args))
      else if member = ''GetAll'' then
        (map_option (\<lambda>i. (Inr [DProps (collectionGetAll i m)], m)) (arg1 asStr args))
      else if member = ''Set'' then
        (map_option (\<lambda>(_, _, _). (apfst (okReply (\<lambda>_. [])) (mockNoop m))) (arg3 asStr asStr Some args))
      else None)"

definition serveItem :: "ObjectPath \<Rightarrow> string \<Rightarrow> dvalue list \<Rightarrow> MockSecretService \<Rightarrow> (reply \<times> MockSecretService) option" where
  "serveItem path member args m =
     (if member = ''Delete'' then
        (if args = [] then Some (apfst (\<lambda>p. Inr [DPath p]) (itemDelete path m)) else None)
      else if member = ''GetSecret'' then
        (map_option (\<lambda>session. (okReply (\<lambda>s. [DSecret s]) (itemGetSecret path session m), m)) (arg1 asPath args))
      else if member = ''SetSecret'' then
        (map_option (\<lambda>s. (apfst (okReply (\<lambda>_. [])) (itemSetSecret path s m))) (arg1 asSecret args))
      else if member = ''Get'' then
        (map_option (\<lambda>(i, p). (okReply (\<lambda>v. [v]) (itemGet path i p m), m)) (propertyOf args))
      else if member = ''GetAll'' then
        (map_option (\<lambda>i. (okReply (\<lambda>ps. [DProps ps]) (itemGetAll path i m), m)) (arg1 asStr args))
      else if member = ''Set'' then
        (map_option (\<lambda>(_, _, _). (apfst (okReply (\<lambda>_. [])) (mockNoop m))) (arg3 asStr asStr Some args))
      else None)"

definition servePrompt :: "mock_bus \<Rightarrow> ObjectPath \<Rightarrow> ObjectPath list \<Rightarrow> string \<Rightarrow> dvalue list \<Rightarrow> MockSecretService
    \<Rightarrow> (reply \<times> MockSecretService) option" where
  "servePrompt bus path objects member args m =
     (if member = ''Prompt'' then
        (map_option (\<lambda>w. (apfst (okReply (\<lambda>_. [])) (promptPrompt bus path objects w m))) (arg1 asStr args))
      else if member = ''Dismiss'' then
        (if args = [] then Some (apfst (okReply (\<lambda>_. [])) (promptDismiss bus path m)) else None)
      else None)"

fun serveObject :: "mock_bus \<Rightarrow> mockObject \<Rightarrow> string \<Rightarrow> dvalue list \<Rightarrow> MockSecretService
    \<Rightarrow> (reply \<times> MockSecretService) option" where
  "serveObject bus MockService member args m = serveService bus member args m"
| "serveObject bus MockIntrospectable member args m =
     (if member = ''Introspect'' \<and> args = [] then Some (Inr [DStr mockIntrospect], m) else None)"
| "serveObject bus (MockCollection _) member args m = serveCollection bus member args m"
| "serveObject bus (MockItemObject path) member args m = serveItem path member args m"
| "serveObject bus (MockPrompt path objects) member args m = servePrompt bus path objects member args m"

definition serveMock :: "mock_bus \<Rightarrow> upcall \<Rightarrow> MockSecretService \<Rightarrow> reply \<times> MockSecretService" where
  "serveMock bus c m =
     (case splitMethod (uc_method c) of (iface, member) \<Rightarrow>
        (case map_of (mk_exports m) (uc_path c, iface) of
           None \<Rightarrow> (Inl (mb_unknown bus c), m)
         | Some h \<Rightarrow> (case serveObject bus h member (uc_args c) m of
                       None \<Rightarrow> (Inl (mb_unknown bus c), m)
                     | Some r \<Rightarrow> r)))"

subsection \<open>The mock fulfils the contract\<close>

definition storedIn :: "MockSecretService \<Rightarrow> ObjectPath \<Rightarrow> bytes option" where
  "storedIn m p = map_option mi_Secret (map_of (mk_items m) p)"

text \<open>An item object is exported at its own path.\<close>

definition exports_ok :: "MockSecretService \<Rightarrow> bool" where
  "exports_ok m \<longleftrightarrow> (\<forall>p i path. map_of (mk_exports m) (p, i) = Some (MockItemObject path) \<longrightarrow> path = p)"

lemma exports_ok_cong: "mk_exports m' = mk_exports m \<Longrightarrow> exports_ok m' = exports_ok m"
  by (simp add: exports_ok_def)

lemma mockExport_fields [simp]:
  "mk_items (snd (mockExport bus h p i m)) = mk_items m"
  "mk_sessions (snd (mockExport bus h p i m)) = mk_sessions m"
  "mk_locked (snd (mockExport bus h p i m)) = mk_locked m"
  by (simp_all add: mockExport_def split: option.splits)

lemma exports_ok_export:
  "exports_ok m \<Longrightarrow> (\<forall>q. h = MockItemObject q \<longrightarrow> q = p) \<Longrightarrow> exports_ok (snd (mockExport bus h p i m))"
  by (auto simp: exports_ok_def mockExport_def split: option.splits)

lemma AddItem_snd: "snd (AddItem bus label attrs v m) =
   (let i = mk_itemCtr m + 1; p = mockItemPath i in
    snd (mockExport bus (MockItemObject p) p PropertiesInterface
      (snd (mockExport bus (MockItemObject p) p ItemInterface
        (m\<lparr>mk_itemCtr := i, mk_items := gm_put p \<lparr>mi_Path = p, mi_Label = label, mi_Attributes = attrs, mi_Secret = v,
                                                 mi_ContentType = ''text/plain''\<rparr> (mk_items m)\<rparr>)))))"
  by (simp add: AddItem_def Let_def split: prod.splits)

lemma AddItem_fst: "fst (AddItem bus label attrs v m) = mockItemPath (mk_itemCtr m + 1)"
  by (simp add: AddItem_def Let_def split: prod.splits)

lemma exports_ok_AddItem: "exports_ok m \<Longrightarrow> exports_ok (snd (AddItem bus label attrs v m))"
  unfolding AddItem_snd Let_def
  by (intro exports_ok_export) (simp_all add: exports_ok_def)

lemma newPrompt_snd: "snd (newPrompt bus objects m) =
   (let i = mk_promptCtr m + 1 in
    snd (mockExport bus (MockPrompt (mockPromptPath i) objects) (mockPromptPath i) PromptInterface (m\<lparr>mk_promptCtr := i\<rparr>)))"
  by (simp add: newPrompt_def Let_def split: prod.splits)

lemma exports_ok_newPrompt: "exports_ok m \<Longrightarrow> exports_ok (snd (newPrompt bus objects m))"
  unfolding newPrompt_snd Let_def
  by (intro exports_ok_export) (simp_all add: exports_ok_def)

lemma mk_items_newPrompt [simp]: "mk_items (snd (newPrompt bus objects m)) = mk_items m"
  by (simp add: newPrompt_snd Let_def)

lemma mockCreateItem_snd: "snd (mockCreateItem bus ps s r m) =
   (case (if r then replaced (createAttributes ps) m else None) of
      Some (path, item) \<Rightarrow> m\<lparr>mk_items := gm_put path (item\<lparr>mi_Label := createLabel ps, mi_Secret := sec_Value s,
                                mi_ContentType := sec_ContentType s\<rparr>) (mk_items m)\<rparr>
    | None \<Rightarrow> snd (AddItem bus (createLabel ps) (createAttributes ps) (sec_Value s) m))"
  by (simp add: mockCreateItem_def Let_def split: option.splits prod.splits)

lemma exports_ok_CreateItem: "exports_ok m \<Longrightarrow> exports_ok (snd (mockCreateItem bus ps s r m))"
  using exports_ok_AddItem [of m bus]
  by (simp add: mockCreateItem_snd exports_ok_def split: option.splits prod.splits)

lemma apfst_eq: "apfst f x = (a, b) \<longleftrightarrow> f (fst x) = a \<and> snd x = b"
  by (cases x) auto

text \<open>What a call can do to the keyring.\<close>

lemma service_effect:
  "serveService bus member args m = Some (r, m') \<Longrightarrow>
     m' = m \<or> (\<exists>a x. m' = snd (mockOpenSession a x m)) \<or> (\<exists>ps. m' = snd (mockUnlock bus ps m)) \<or> (\<exists>ps. m' = snd (mockLock ps m))"
  by (auto simp: serveService_def mockNoop_def Let_def apfst_eq split_beta split: if_splits)

lemma collection_effect:
  "serveCollection bus member args m = Some (r, m') \<Longrightarrow>
     m' = m \<or> member = ''CreateItem'' \<and> (\<exists>ps s b. m' = snd (mockCreateItem bus ps s b m))"
  by (auto simp: serveCollection_def mockNoop_def apfst_eq split_beta split: if_splits)

lemma item_effect:
  "serveItem path member args m = Some (r, m') \<Longrightarrow>
     m' = m \<or> member = ''Delete'' \<and> m' = snd (itemDelete path m) \<or>
     member = ''SetSecret'' \<and> (\<exists>s. m' = snd (itemSetSecret path s m))"
  by (auto simp: serveItem_def mockNoop_def apfst_eq split_beta split: if_splits)

lemma prompt_effect:
  "servePrompt bus path objects member args m = Some (r, m') \<Longrightarrow>
     mk_exports m' = mk_exports m \<and> mk_items m' = mk_items m"
  by (auto simp: servePrompt_def promptPrompt_def promptDismiss_def promptCompleted_def apfst_eq split: if_splits option.splits)

lemma exports_ok_session: "exports_ok (snd (mockOpenSession a x m)) = exports_ok m"
  by (rule exports_ok_cong) (simp add: mockOpenSession_def Let_def)

lemma mockUnlock_snd: "snd (mockUnlock bus ps m) = (if mk_locked m then snd (newPrompt bus ps m) else m)"
  by (simp add: mockUnlock_def split_beta)

lemma exports_ok_lock: "exports_ok (snd (mockLock ps m)) = exports_ok m"
  by (rule exports_ok_cong) (simp add: mockLock_def)

lemma exports_ok_item:
  "exports_ok (snd (itemDelete path m)) = exports_ok m" "exports_ok (snd (itemSetSecret path s m)) = exports_ok m"
  by (rule exports_ok_cong, simp add: itemDelete_def itemSetSecret_def split: option.splits)+

lemma exports_ok_object:
  assumes "serveObject bus h member args m = Some (r, m')" and "exports_ok m"
  shows "exports_ok m'"
proof (cases h)
  case MockService
  with assms(1) have "serveService bus member args m = Some (r, m')" by simp
  from service_effect [OF this] show ?thesis
    by (elim disjE exE) (simp_all add: assms(2) exports_ok_session exports_ok_lock mockUnlock_snd exports_ok_newPrompt)
next
  case (MockCollection x)
  with assms(1) have "serveCollection bus member args m = Some (r, m')" by simp
  from collection_effect [OF this] assms(2) show ?thesis by (auto intro: exports_ok_CreateItem)
next
  case (MockItemObject path)
  with assms(1) have "serveItem path member args m = Some (r, m')" by simp
  from item_effect [OF this] assms(2) show ?thesis by (auto simp: exports_ok_item)
next
  case (MockPrompt path objects)
  with assms(1) have "servePrompt bus path objects member args m = Some (r, m')" by simp
  from prompt_effect [OF this] assms(2) show ?thesis by (simp add: exports_ok_def)
next
  case MockIntrospectable
  with assms show ?thesis by (auto split: if_splits)
qed

lemma serveMock_effect:
  assumes "snd (serveMock bus c m) \<noteq> m"
  shows "\<exists>h r. map_of (mk_exports m) (uc_path c, fst (splitMethod (uc_method c))) = Some h \<and>
           serveObject bus h (calledMember c) (uc_args c) m = Some (r, snd (serveMock bus c m))"
  using assms by (auto simp: serveMock_def calledMember_def split_beta split: option.splits)

lemma exports_ok_serve: "exports_ok m \<Longrightarrow> exports_ok (snd (serveMock bus c m))"
  using serveMock_effect [of bus c m] exports_ok_object by (cases "snd (serveMock bus c m) = m") auto

lemma items_object:
  assumes "serveObject bus h member args m = Some (r, m')" and "member \<noteq> ''CreateItem''"
    and "\<And>path. h = MockItemObject path \<Longrightarrow> member = ''SetSecret'' \<or> member = ''Delete'' \<Longrightarrow> path \<noteq> p"
  shows "storedIn m' p = storedIn m p"
proof (cases h)
  case MockService
  then show ?thesis
    using assms(1) service_effect [of bus member args m r m']
    by (auto simp: storedIn_def mockOpenSession_def mockUnlock_snd mockLock_def Let_def)
next
  case (MockCollection x)
  then show ?thesis using assms(1,2) collection_effect [of bus member args m r m'] by auto
next
  case (MockItemObject path)
  then show ?thesis
    using assms(1) assms(3) [OF MockItemObject] item_effect [of path member args m r m']
    by (auto simp: storedIn_def itemDelete_def itemSetSecret_def split: option.splits)
next
  case (MockPrompt path objects)
  then show ?thesis using assms(1) prompt_effect [of bus path objects member args m r m'] by (simp add: storedIn_def)
qed (use assms(1) in \<open>auto split: if_splits\<close>)

lemma spared_serve:
  assumes "exports_ok m" and "spares p c"
  shows "storedIn (snd (serveMock bus c m)) p = storedIn m p"
proof (cases "snd (serveMock bus c m) = m")
  case False
  then obtain h r where *: "map_of (mk_exports m) (uc_path c, fst (splitMethod (uc_method c))) = Some h"
    "serveObject bus h (calledMember c) (uc_args c) m = Some (r, snd (serveMock bus c m))"
    using serveMock_effect by blast
  show ?thesis
    by (rule items_object [OF *(2)]) (use assms *(1) in \<open>auto simp: spares_def exports_ok_def\<close>)
qed simp

subsection \<open>Reading, writing, creating\<close>

lemma split_calls [simp]:
  "splitMethod (uc_method (createItemCall path ps s r)) = (CollectionInterface, ''CreateItem'')"
  "splitMethod (uc_method (setSecretCall path s)) = (ItemInterface, ''SetSecret'')"
  "splitMethod (uc_method (getSecretCall path l)) = (ItemInterface, ''GetSecret'')"
  by (simp_all add: splitMethod_def createItemCall_def setSecretCall_def getSecretCall_def mkcall_def)

lemma call_fields [simp]:
  "uc_path (createItemCall path ps s r) = path" "uc_args (createItemCall path ps s r) = [DProps ps, DSecret s, DBool r]"
  "uc_path (setSecretCall path s) = path" "uc_args (setSecretCall path s) = [DSecret s]"
  "uc_path (getSecretCall path l) = path" "uc_args (getSecretCall path l) = [DPath l]"
  by (simp_all add: createItemCall_def setSecretCall_def getSecretCall_def mkcall_def)

text \<open>Which objects answer a call with success at all.\<close>

lemma serveMock_Inr:
  assumes "serveMock bus c m = (Inr x, m')" and "splitMethod (uc_method c) = (iface, member)"
  shows "\<exists>h. map_of (mk_exports m) (uc_path c, iface) = Some h \<and> serveObject bus h member (uc_args c) m = Some (Inr x, m')"
  using assms by (auto simp: serveMock_def split: option.splits)

lemma member_objects:
  "serveObject bus h ''CreateItem'' args m = Some r \<Longrightarrow> \<exists>x. h = MockCollection x"
  "serveObject bus h ''SetSecret'' args m = Some r \<Longrightarrow> \<exists>p. h = MockItemObject p"
  "serveObject bus h ''GetSecret'' args m = Some r \<Longrightarrow> \<exists>p. h = MockItemObject p"
  by (cases h; simp add: serveService_def serveCollection_def serveItem_def servePrompt_def)+

lemma mockCreateItem_stored:
  "storedIn (snd (mockCreateItem bus ps s r m)) (fst (fst (mockCreateItem bus ps s r m))) = Some (sec_Value s)"
  by (auto simp: storedIn_def mockCreateItem_def Let_def AddItem_def split_beta split: option.splits)

lemma create_serve:
  assumes "serveMock bus (createItemCall path ps s r) m = (Inr [DPath q, DPath prompt], m')"
  shows "storedIn m' q = Some (sec_Value s)"
proof -
  obtain h where h: "serveObject bus h ''CreateItem'' [DProps ps, DSecret s, DBool r] m = Some (Inr [DPath q, DPath prompt], m')"
    using serveMock_Inr [OF assms split_calls(1)] by auto
  obtain y where "h = MockCollection y" using member_objects(1) [OF h] ..
  with h have "fst (fst (mockCreateItem bus ps s r m)) = q" "snd (mockCreateItem bus ps s r m) = m'"
    by (simp_all add: serveCollection_def arg3_def arg2_def apfst_eq split_beta)
  then show ?thesis using mockCreateItem_stored [of bus ps s r m] by simp
qed

lemma set_serve:
  assumes "exports_ok m" and "serveMock bus (setSecretCall path s) m = (Inr x, m')"
  shows "storedIn m' path = Some (sec_Value s)"
proof -
  obtain h where h: "map_of (mk_exports m) (path, ItemInterface) = Some h"
    "serveObject bus h ''SetSecret'' [DSecret s] m = Some (Inr x, m')"
    using serveMock_Inr [OF assms(2) split_calls(2)] by auto
  obtain p where "h = MockItemObject p" using member_objects(2) [OF h(2)] ..
  moreover with h(1) assms(1) have "p = path" by (simp add: exports_ok_def)
  ultimately show ?thesis
    using h(2) by (auto simp: serveItem_def arg1_def apfst_eq itemSetSecret_def okReply_def storedIn_def split: option.splits)
qed

lemma get_serve:
  assumes "exports_ok m" and "serveMock bus (getSecretCall path l) m = (Inr [DSecret s], m')"
  shows "storedIn m path = Some (sec_Value s) \<and> \<not> mk_locked m \<and> mockSession m l"
proof -
  obtain h where h: "map_of (mk_exports m) (path, ItemInterface) = Some h"
    "serveObject bus h ''GetSecret'' [DPath l] m = Some (Inr [DSecret s], m')"
    using serveMock_Inr [OF assms(2) split_calls(3)] by auto
  obtain p where "h = MockItemObject p" using member_objects(3) [OF h(2)] ..
  moreover with h(1) assms(1) have "p = path" by (simp add: exports_ok_def)
  ultimately show ?thesis
    using h(2) by (auto simp: serveItem_def arg1_def itemGetSecret_def okReply_def storedIn_def itemSecret_def
        split: option.splits if_splits sum.splits)
qed

interpretation mock: keyring "serveMock bus" storedIn exports_ok
proof unfold_locales
  show "exports_ok (snd (serveMock bus c m))" if "exports_ok m" for c m using that by (rule exports_ok_serve)
  show "storedIn m' q = Some (sec_Value s)"
    if "serveMock bus (createItemCall path ps s r) m = (Inr [DPath q, DPath prompt], m')" for m path ps s r q prompt m'
    using that by (rule create_serve)
  show "storedIn m' path = Some (sec_Value s)"
    if "exports_ok m" "serveMock bus (setSecretCall path s) m = (Inr x, m')" for m path s x m'
    using that by (rule set_serve)
  show "storedIn m path = Some (sec_Value s)"
    if "exports_ok m" "serveMock bus (getSecretCall path l) m = (Inr [DSecret s], m')" for m path l s m'
    using get_serve [OF that] by simp
  show "storedIn (snd (serveMock bus c m)) p = storedIn m p" if "exports_ok m" "spares p c" for m p c
    using that by (rule spared_serve)
qed

subsection \<open>The proxy in front of the mock\<close>

text \<open>What the mock answers after the calls in the log.\<close>

definition mockUpstream :: "mock_bus \<Rightarrow> MockSecretService \<Rightarrow> upstream" where
  "mockUpstream bus m cs c = fst (serveMock bus c (fold (\<lambda>c m. snd (serveMock bus c m)) cs m))"

lemma mockUpstream_answers: "mockUpstream bus m = mock.answers bus m"
  by (simp add: fun_eq_iff mockUpstream_def mock.answers_def mock.afterCalls_def)

lemma exports_ok_each:
  "\<forall>e \<in> set es. \<forall>q. fst e \<noteq> MockItemObject q \<Longrightarrow> exports_ok m \<Longrightarrow> exports_ok (snd (exportEach bus es m))"
proof (induction bus es m rule: exportEach.induct)
  case (2 bus h path iface what es m)
  have "exports_ok (snd (mockExport bus h path iface m))" by (rule exports_ok_export) (use 2 in auto)
  with 2 show ?case by (auto split: prod.splits option.splits)
qed simp

lemma mockExports_no_items: "\<forall>e \<in> set mockExports. \<forall>q. fst e \<noteq> MockItemObject q"
  by (simp add: mockExports_def)

lemma exports_ok_Register:
  assumes "exports_ok m"
  shows "exports_ok (snd (Register bus m))"
proof -
  obtain e m' where m': "exportEach bus mockExports m = (e, m')" by fastforce
  with exports_ok_each [OF mockExports_no_items assms, of bus] have "exports_ok m'" by simp
  with m' show ?thesis by (simp add: Register_def split: option.splits sum.splits)
qed

lemma exports_ok_New: "exports_ok NewMockSecretService"
  by (simp add: exports_ok_def NewMockSecretService_def)

text \<open>A session the client's cipher works on: a key of the right length, and the block cipher can be inverted.\<close>

definition sound_crypto :: "crypto \<Rightarrow> SessionManager \<Rightarrow> bool" where
  "sound_crypto cr sm \<longleftrightarrow> (\<exists>iv. cr_iv cr = Inr iv \<and> length iv = BlockSize) \<and>
     (\<forall>p entry k. map_of (ss_sessions sm) p = Some entry \<longrightarrow> se_cipher entry = Some k \<longrightarrow>
        length (ds_key k) = aesKeyLen \<and> block_inverse (bc_enc (cr_cipher cr) (ds_key k)) (bc_dec (cr_cipher cr) (ds_key k)))"

lemma client_decrypts:
  assumes "sound_crypto cr sm" and "GetLocalSession session sm = (l, True)" and "ForClient cr session s sm = Inr out"
  shows "sec_Session out = session \<and> (\<exists>s'. ForUpstream cr out sm = (s', True, None) \<and> sec_Value s' = sec_Value s)"
proof -
  obtain entry where e: "map_of (ss_sessions sm) session = Some entry"
    using assms(2) by (auto simp: GetLocalSession_def split: option.splits)
  obtain iv where iv: "cr_iv cr = Inr iv" "length iv = BlockSize" using assms(1) by (auto simp: sound_crypto_def)
  have k: "\<forall>k. se_cipher entry = Some k \<longrightarrow> length (ds_key k) = aesKeyLen \<and>
      block_inverse (bc_enc (cr_cipher cr) (ds_key k)) (bc_dec (cr_cipher cr) (ds_key k))"
    using assms(1) e by (auto simp: sound_crypto_def)
  show ?thesis using ForUpstream_ForClient [OF e k iv, of s] assms(3) by auto
qed

lemma stored_comes_back:
  assumes "exports_ok m" and "pe_up env = mockUpstream bus m" and "pe_up env' = mockUpstream bus m"
    and "Collection_CreateItem env msg properties secret replace st = (Some (Inr (q, prompt)), st1)" and "q \<noteq> ''/''"
    and "ps_log st2 = ps_log st1 @ cs" and "\<forall>c \<in> set cs. spares q c"
    and "Item_GetSecret env' msg' session st2 = (Some (Inr out), st3)" and "pathOf msg' = q"
    and "sound_crypto (pe_crypto env') (ps_sessions st3)"
  shows "\<exists>s s'. ForUpstream (pe_crypto env) secret (ps_sessions st1) = (s, True, None) \<and>
     ForUpstream (pe_crypto env') out (ps_sessions st3) = (s', True, None) \<and>
     sec_Session out = session \<and> sec_Value s' = sec_Value s"
  using mock.stored_then_read [OF assms(1) assms(2,3) [unfolded mockUpstream_answers] assms(4-9)]
    client_decrypts [OF assms(10)] by metis

text \<open>While the keyring is locked no secret leaves it, and only a prompt unlocks it.\<close>

lemma locked_keeps_secrets:
  "exports_ok m \<Longrightarrow> mk_locked m \<Longrightarrow> fst (serveMock bus (getSecretCall path l) m) \<noteq> Inr [DSecret s]"
  using get_serve [of m bus path l s "snd (serveMock bus (getSecretCall path l) m)"] by (auto simp: prod_eq_iff)

lemma locked_AddItem [simp]: "mk_locked (snd (AddItem bus label a v m)) = mk_locked m"
  by (simp add: AddItem_snd Let_def)

lemma locked_CreateItem [simp]: "mk_locked (snd (mockCreateItem bus ps s r m)) = mk_locked m"
  by (simp add: mockCreateItem_snd split: option.splits prod.splits)

lemma only_prompt_unlocks_object:
  assumes "serveObject bus h member args m = Some (r, m')" and "mk_locked m" and "\<not> mk_locked m'"
  shows "member = ''Prompt'' \<and> (\<exists>p os. h = MockPrompt p os)"
proof (cases h)
  case MockService
  then have "serveService bus member args m = Some (r, m')" using assms(1) by simp
  from service_effect [OF this] show ?thesis using assms(2,3)
    by (elim disjE exE) (simp_all add: mockOpenSession_def mockUnlock_snd newPrompt_snd mockLock_def Let_def split: if_splits)
next
  case (MockCollection x)
  then have "serveCollection bus member args m = Some (r, m')" using assms(1) by simp
  from collection_effect [OF this] show ?thesis using assms(2,3) by auto
next
  case (MockItemObject path)
  then have "serveItem path member args m = Some (r, m')" using assms(1) by simp
  from item_effect [OF this] show ?thesis using assms(2,3)
    by (auto simp: itemDelete_def itemSetSecret_def split: option.splits)
next
  case (MockPrompt path objects)
  then have "servePrompt bus path objects member args m = Some (r, m')" using assms(1) by simp
  then show ?thesis using assms(2,3) MockPrompt
    by (auto simp: servePrompt_def promptDismiss_def promptCompleted_def apfst_eq split: if_splits option.splits)
qed (use assms in \<open>auto split: if_splits\<close>)

text \<open>A locked keyring is unlocked by nothing but the \<open>Prompt\<close> call on a prompt it handed out.\<close>

lemma only_prompt_unlocks:
  assumes "mk_locked m" and "\<not> mk_locked (snd (serveMock bus c m))"
  shows "calledMember c = ''Prompt'' \<and> (\<exists>i p os. map_of (mk_exports m) (uc_path c, i) = Some (MockPrompt p os))"
proof -
  have "snd (serveMock bus c m) \<noteq> m" using assms by auto
  then obtain h r where "map_of (mk_exports m) (uc_path c, fst (splitMethod (uc_method c))) = Some h"
    "serveObject bus h (calledMember c) (uc_args c) m = Some (r, snd (serveMock bus c m))"
    using serveMock_effect by blast
  with only_prompt_unlocks_object [OF this(2) assms] show ?thesis by blast
qed

subsection \<open>Where the mock differs from a real keyring\<close>

text \<open>
  \<open>matchesAttributes\<close> reads a missing attribute as the empty string, so a replacement with an empty attribute
  overwrites an item that does not have the attribute at all.
\<close>

lemma replace_overwrites_other_item:
  assumes "mk_items m = [(p, item)]" and "mi_Attributes item = [(''user'', ''bob'')]"
    and "properties = [(ItemInterface @ ''.Attributes'', DAttrs [(''app'', [])])]"
  shows "fst (mockCreateItem bus properties s True m) = (p, ''/'')"
  using assms
  by (simp add: mockCreateItem_def createAttributes_def replaced_def matchesAttributes_def str_get_def)

text \<open>\<open>GetAll\<close> of an item says that it is not locked when \<open>Get\<close> says that it is.\<close>

lemma item_lock_reported_twice:
  assumes "map_of (mk_items m) p = Some item" and "mk_locked m"
  shows "itemGet p ItemInterface ''Locked'' m = Inr (DBool True) \<and>
     (\<exists>ps. itemGetAll p ItemInterface m = Inr ps \<and> map_of ps ''Locked'' = Some (DBool False))"
  using assms by (simp add: itemGet_def itemGetAll_def)

text \<open>A new item does not keep the content type it was created with; a replaced one does.\<close>

lemma created_content_type_lost:
  "map_option mi_ContentType (map_of (mk_items (snd (mockCreateItem bus ps s False m)))
     (fst (fst (mockCreateItem bus ps s False m)))) = Some ''text/plain''"
  by (simp add: mockCreateItem_def Let_def AddItem_def split_beta)

subsection \<open>End to end\<close>

definition exMockBus :: mock_bus where
  "exMockBus = \<lparr>mb_export = (\<lambda>_ _. None), mb_requestName = Inr 1, mb_emit = None, mb_unknown = (\<lambda>_. ErrText ''unknown method'')\<rparr>"

definition exMock :: MockSecretService where
  "exMock = snd (Register exMockBus NewMockSecretService)"

definition exStoreEnv :: proxy_env where
  "exStoreEnv = exEnv\<lparr>pe_up := mockUpstream exMockBus exMock\<rparr>"

definition exStoreMsg :: message where
  "exStoreMsg = exCollMsg\<lparr>ms_path := defaultCollection\<rparr>"

definition exStoreRead :: message where
  "exStoreRead = exMsg\<lparr>ms_path := mockItemPath 1\<rparr>"

text \<open>The client's session is encrypted, and the keyring has the session the proxy opened for it.\<close>

definition exStoreProxy :: ProxyState where
  "exStoreProxy = \<lparr>ps_mgr = NewManager (exConfig\<lparr>mc_TrustRules := [exTrust\<lparr>tr_RequestTypes := [''write''],
         tr_Secret := Some \<lparr>sm_Collection = ''default'', sm_Label = [], sm_Attributes = []\<rparr>\<rparr>]\<rparr>),
     ps_sessions = \<lparr>ss_sessions = [(''/s/1'', \<lparr>se_local = ''/org/freedesktop/secrets/session/1'',
         se_cipher = Some \<lparr>ds_key = ''secretkey1234567''\<rparr>\<rparr>)], ss_counter = 1\<rparr>,
     ps_tracker = newClientTracker, ps_log = [openUpstream]\<rparr>"

definition exSealed :: Secret where
  "exSealed = (case ForClient exCrypto ''/s/1'' (zeroSecret\<lparr>sec_Value := ''hunter2''\<rparr>) (ps_sessions exStoreProxy) of
     Inr s \<Rightarrow> s | Inl _ \<Rightarrow> zeroSecret)"

definition exStored :: "(dbus_error + ObjectPath \<times> ObjectPath) option \<times> ProxyState" where
  "exStored = Collection_CreateItem exStoreEnv exStoreMsg [] exSealed True exStoreProxy"

definition exRead :: "(dbus_error + Secret) option \<times> ProxyState" where
  "exRead = Item_GetSecret exStoreEnv exStoreRead ''/s/1'' (snd exStored)"
lemma exStored_result: "fst exStored = Some (Inr (mockItemPath 1, ''/''))" "mockItemPath 1 \<noteq> ''/''"
  by code_simp+

lemma exStored_value: "sec_Value (fst (ForUpstream exCrypto exSealed (ps_sessions (snd exStored)))) = ''hunter2''"
  by code_simp

lemma exRead_result: "case fst exRead of Some (Inr out) \<Rightarrow> sec_Value out \<noteq> ''hunter2'' | _ \<Rightarrow> False"
  by code_simp

lemma exStore_sound: "sound_crypto (pe_crypto exStoreEnv) (ps_sessions (snd exRead))"
proof -
  have "ps_sessions (snd exRead) = ps_sessions exStoreProxy" by code_simp
  moreover have "pe_crypto exStoreEnv = exCrypto" by (simp add: exStoreEnv_def exEnv_def)
  ultimately show ?thesis
    by (auto simp: sound_crypto_def exStoreProxy_def exCrypto_def xorCipher_inverse split: if_splits)
qed

text \<open>
  C2: A stored secret comes back.  In front of the in-memory keyring, when a client has created an item through the proxy
  and any client later gets the secret of that item through the proxy, what it decrypts with its own session is the
  value the first client encrypted with its session, whatever the proxy sent to the keyring in between, as long as that
  neither created another item nor set or deleted this one.
\<close>

theorem stored_secret_comes_back:
  assumes "exports_ok m" and "pe_up env = mockUpstream bus m" and "pe_up env' = mockUpstream bus m"
    and "Collection_CreateItem env msg properties secret replace st = (Some (Inr (q, prompt)), st1)" and "q \<noteq> ''/''"
    and "ps_log st2 = ps_log st1 @ cs" and "\<forall>c \<in> set cs. spares q c"
    and "Item_GetSecret env' msg' session st2 = (Some (Inr out), st3)" and "pathOf msg' = q"
    and "sound_crypto (pe_crypto env') (ps_sessions st3)"
  shows "\<exists>s s'. ForUpstream (pe_crypto env) secret (ps_sessions st1) = (s, True, None) \<and>
     ForUpstream (pe_crypto env') out (ps_sessions st3) = (s', True, None) \<and>
     sec_Session out = session \<and> sec_Value s' = sec_Value s"
  using assms by (rule stored_comes_back)

theorem stored_secret_comes_back_witness:
  "\<exists>out s'. fst exRead = Some (Inr out) \<and> sec_Value out \<noteq> ''hunter2'' \<and>
     ForUpstream exCrypto out (ps_sessions (snd exRead)) = (s', True, None) \<and> sec_Value s' = ''hunter2''"
proof -
  obtain out where out: "fst exRead = Some (Inr out)" "sec_Value out \<noteq> ''hunter2''"
    using exRead_result by (auto split: option.splits sum.splits)
  have 1: "exports_ok exMock" unfolding exMock_def by (intro exports_ok_Register exports_ok_New)
  have up: "pe_up exStoreEnv = mockUpstream exMockBus exMock" "pe_crypto exStoreEnv = exCrypto"
    by (simp_all add: exStoreEnv_def exEnv_def)
  have 2: "Collection_CreateItem exStoreEnv exStoreMsg [] exSealed True exStoreProxy =
      (Some (Inr (mockItemPath 1, ''/'')), snd exStored)"
    using exStored_result(1) by (simp add: exStored_def prod_eq_iff)
  have 3: "Item_GetSecret exStoreEnv exStoreRead ''/s/1'' (snd exStored) = (Some (Inr out), snd exRead)"
    using out(1) by (simp add: exRead_def prod_eq_iff)
  have 4: "pathOf exStoreRead = mockItemPath 1" by (simp add: exStoreRead_def pathOf_def)
  show ?thesis
    using stored_secret_comes_back [OF 1 up(1) up(1) 2 exStored_result(2) _ _ 3 4 exStore_sound, of "[]"] out
      exStored_value up(2) by auto
qed

end
