(* ===== verification/Notify_Conn.thy ===== *)
theory Notify_Conn
  imports Notify_Handler Go_Outcome
begin

text \<open>
  The bus connection of the desktop notifier (\<open>DBusNotifier\<close> of \<^verbatim>\<open>internal/notification/desktop.go\<close>): how it is
  opened, found dead and opened again, and closed.  Connections are numbered.  Dialling the bus and subscribing to its
  signals may fail, and an open connection may be lost at any time.
\<close>

subsection \<open>Connections\<close>

record NotifierConn =
  nt_conn :: "nat option"      \<comment> \<open>the connection in use, dead or alive\<close>
  nt_open :: "nat list"        \<comment> \<open>the connections that are open\<close>
  nt_listening :: "nat list"   \<comment> \<open>the connections whose signals a goroutine processes\<close>
  nt_next :: nat
  nt_stopped :: bool

definition newNotifierConn :: NotifierConn where
  "newNotifierConn = \<lparr>nt_conn = None, nt_open = [], nt_listening = [], nt_next = 0, nt_stopped = False\<rparr>"

record dial_env =
  de_dial :: "go_error option"
  de_matchAction :: "go_error option"
  de_matchClosed :: "go_error option"

text \<open>A closed connection closes its channel of signals, and the goroutine that reads it returns.\<close>

definition closeBusConn :: "nat \<Rightarrow> NotifierConn \<Rightarrow> NotifierConn" where
  "closeBusConn c n = n\<lparr>nt_open := removeAll c (nt_open n), nt_listening := removeAll c (nt_listening n)\<rparr>"

definition dialBus :: "dial_env \<Rightarrow> NotifierConn \<Rightarrow> go_error option \<times> NotifierConn" where
  "dialBus env n = (case de_dial env of
      Some e \<Rightarrow> (Some e, n)
    | None \<Rightarrow> (None, n\<lparr>nt_open := nt_next n # nt_open n, nt_next := nt_next n + 1\<rparr>))"

definition subscribe :: "nat \<Rightarrow> go_error option \<Rightarrow> NotifierConn \<Rightarrow> go_error option \<times> NotifierConn" where
  "subscribe c r n = (case r of Some e \<Rightarrow> (Some e, closeBusConn c n) | None \<Rightarrow> (None, n))"

definition connectBus :: "dial_env \<Rightarrow> NotifierConn \<Rightarrow> go_error option \<times> NotifierConn" where
  "connectBus env n =
     (let c = nt_next n in
      andThen (wrapping ''connect to session bus'' (dialBus env n)) (\<lambda>n.
      andThen (wrapping ''subscribe to ActionInvoked'' (subscribe c (de_matchAction env) n)) (\<lambda>n.
      andThen (wrapping ''subscribe to NotificationClosed'' (subscribe c (de_matchClosed env) n)) (\<lambda>n.
      (None, n\<lparr>nt_conn := Some c\<rparr>)))))"

text \<open>\<open>go n.processSignals(n.signals)\<close>; after \<open>Stop\<close> the goroutine returns at once.\<close>

definition listen :: "NotifierConn \<Rightarrow> NotifierConn" where
  "listen n = (case nt_conn n of
      Some c \<Rightarrow> if nt_stopped n then n else n\<lparr>nt_listening := c # nt_listening n\<rparr>
    | None \<Rightarrow> n)"

definition NewDBusNotifier :: "dial_env \<Rightarrow> go_error option \<times> NotifierConn" where
  "NewDBusNotifier env = andThen (connectBus env newNotifierConn) (\<lambda>n. (None, listen n))"

definition reconnect :: "dial_env \<Rightarrow> NotifierConn \<Rightarrow> go_error option \<times> NotifierConn" where
  "reconnect env n =
     (let n = (case nt_conn n of Some c \<Rightarrow> closeBusConn c n | None \<Rightarrow> n) in
      andThen (wrapping ''reconnect'' (connectBus env n)) (\<lambda>n. (None, listen n)))"

definition StopNotifier :: "NotifierConn \<Rightarrow> NotifierConn" where
  "StopNotifier n =
     (let n = n\<lparr>nt_stopped := True, nt_listening := []\<rparr> in
      case nt_conn n of Some c \<Rightarrow> closeBusConn c n | None \<Rightarrow> n)"

text \<open>A call on a connection that is not open fails with \<open>ErrClosed\<close>.\<close>

definition callNow :: "'a bus_reply \<Rightarrow> NotifierConn \<Rightarrow> 'a bus_reply" where
  "callNow reply n = (case nt_conn n of Some c \<Rightarrow> if c \<in> set (nt_open n) then reply else BusClosed | None \<Rightarrow> BusClosed)"

text \<open>\<open>Notify\<close>, \<open>NotifyPersistent\<close> and \<open>Close\<close>: one call, and after \<open>ErrClosed\<close> a reconnect and one more call.\<close>

definition reconnecting :: "(go_error option \<Rightarrow> 'a bus_reply \<Rightarrow> go_error + 'a) \<Rightarrow> dial_env \<Rightarrow> 'a bus_reply \<Rightarrow> NotifierConn
    \<Rightarrow> (go_error + 'a) \<times> NotifierConn" where
  "reconnecting result env again n = (case reconnect env n of (e, n) \<Rightarrow> (result e (callNow again n), n))"

definition NotifyConn :: "dial_env \<Rightarrow> uint32 bus_reply \<Rightarrow> uint32 bus_reply \<Rightarrow> NotifierConn \<Rightarrow> (go_error + uint32) \<times> NotifierConn" where
  "NotifyConn env reply again n =
     (let r = callNow reply n in
      if r = BusClosed then reconnecting (Notify BusClosed) env again n else (Notify r None again, n))"

definition NotifyPersistent :: "dial_env \<Rightarrow> uint32 bus_reply \<Rightarrow> uint32 bus_reply \<Rightarrow> NotifierConn \<Rightarrow> (go_error + uint32) \<times> NotifierConn" where
  "NotifyPersistent env reply again n =
     (let r = callNow reply n in
      if r = BusClosed then reconnecting (Notify BusClosed) env again n else (Notify r None again, n))"

definition CloseConnNotification :: "dial_env \<Rightarrow> unit bus_reply \<Rightarrow> unit bus_reply \<Rightarrow> NotifierConn \<Rightarrow> (go_error + unit) \<times> NotifierConn" where
  "CloseConnNotification env reply again n =
     (let r = callNow reply n in
      if r = BusClosed then reconnecting (CloseNotification BusClosed) env again n else (CloseNotification r None again, n))"

subsection \<open>Every history of a notifier\<close>

inductive nt_step :: "NotifierConn \<Rightarrow> NotifierConn \<Rightarrow> bool" where
  nt_lost: "nt_step n (closeBusConn c n)"
| nt_notify: "nt_step n (snd (NotifyConn env reply again n))"
| nt_persistent: "nt_step n (snd (NotifyPersistent env reply again n))"
| nt_close: "nt_step n (snd (CloseConnNotification env reply again n))"
| nt_stop: "nt_step n (StopNotifier n)"

definition nt_init :: "NotifierConn \<Rightarrow> bool" where
  "nt_init n \<longleftrightarrow> (\<exists>env. NewDBusNotifier env = (None, n))"

text \<open>No connection but the one in use is open or listened to, and the one in use is listened to while it is open.\<close>

definition nt_inv :: "NotifierConn \<Rightarrow> bool" where
  "nt_inv n \<longleftrightarrow> set (nt_open n) \<subseteq> set_option (nt_conn n) \<and>
     nt_listening n = (if nt_stopped n then [] else nt_open n) \<and>
     length (nt_open n) \<le> 1 \<and> (\<forall>c. nt_conn n = Some c \<longrightarrow> c < nt_next n)"

lemma closeBusConn_fields [simp]:
  "nt_conn (closeBusConn c n) = nt_conn n" "nt_next (closeBusConn c n) = nt_next n" "nt_stopped (closeBusConn c n) = nt_stopped n"
  "nt_open (closeBusConn c n) = removeAll c (nt_open n)" "nt_listening (closeBusConn c n) = removeAll c (nt_listening n)"
  by (simp_all add: closeBusConn_def)

lemma closeBusConn_inv: "nt_inv n \<Longrightarrow> nt_inv (closeBusConn c n)"
  by (auto simp: nt_inv_def removeAll_filter_not_eq intro: le_trans [OF length_filter_le])

text \<open>Connecting leaves one connection open if it works, and none if it does not.\<close>

lemma connectBus_cases:
  assumes "connectBus env n = (e, n')" and "nt_open n = []" and "nt_listening n = []"
  shows "nt_listening n' = [] \<and> nt_stopped n' = nt_stopped n \<and> nt_next n \<le> nt_next n' \<and>
     (if e = None then nt_open n' = [nt_next n] \<and> nt_conn n' = Some (nt_next n) \<and> nt_next n' = nt_next n + 1
      else nt_open n' = [] \<and> nt_conn n' = nt_conn n)"
  using assms
  by (auto simp: connectBus_def dialBus_def subscribe_def andThen_def wrapping_def Let_def split: option.splits)

lemma listen_fields [simp]:
  "nt_open (listen n) = nt_open n" "nt_conn (listen n) = nt_conn n" "nt_next (listen n) = nt_next n"
  "nt_stopped (listen n) = nt_stopped n"
  by (simp_all add: listen_def split: option.splits)

lemma removeAll_all: "set xs \<subseteq> {c} \<Longrightarrow> removeAll c xs = []"
  by (induction xs) auto

lemma reconnect_inv:
  assumes "nt_inv n"
  shows "nt_inv (snd (reconnect env n))"
proof -
  define m where "m = (case nt_conn n of Some c \<Rightarrow> closeBusConn c n | None \<Rightarrow> n)"
  have m: "nt_open m = []" "nt_listening m = []" "nt_conn m = nt_conn n" "nt_next m = nt_next n" "nt_stopped m = nt_stopped n"
    using assms by (auto simp: m_def nt_inv_def removeAll_all split: option.splits if_splits)
  obtain e n' where c: "connectBus env m = (e, n')" by fastforce
  from connectBus_cases [OF c m(1,2)] assms m show ?thesis
    by (auto simp: reconnect_def c m_def [symmetric] nt_inv_def andThen_def wrapping_def listen_def
        split: option.splits if_splits)
qed

lemma reconnect_stopped: "nt_stopped (snd (reconnect env n)) = nt_stopped n"
  by (auto simp: reconnect_def connectBus_def dialBus_def subscribe_def andThen_def wrapping_def Let_def listen_def
      split: option.splits)

lemma reconnecting_snd [simp]: "snd (reconnecting f env again n) = snd (reconnect env n)"
  by (simp add: reconnecting_def split: prod.splits)

lemma StopNotifier_inv: "nt_inv n \<Longrightarrow> nt_inv (StopNotifier n)"
  by (auto simp: StopNotifier_def Let_def nt_inv_def removeAll_all split: option.splits)

lemma NewDBusNotifier_inv:
  assumes "NewDBusNotifier env = (None, n)"
  shows "nt_inv n \<and> nt_open n \<noteq> []"
proof -
  obtain e n' where c: "connectBus env newNotifierConn = (e, n')" by fastforce
  have "nt_open newNotifierConn = []" "nt_listening newNotifierConn = []" "\<not> nt_stopped newNotifierConn"
    by (simp_all add: newNotifierConn_def)
  with connectBus_cases [OF c] assms show ?thesis
    by (auto simp: NewDBusNotifier_def c nt_inv_def andThen_def listen_def split: option.splits)
qed

interpretation notifier: invariant_system nt_init nt_step nt_inv
proof unfold_locales
  show "nt_inv s" if "nt_init s" for s using that NewDBusNotifier_inv by (auto simp: nt_init_def)
  show "nt_inv t" if "nt_step s t" "nt_inv s" for s t
    using that
    by (induction rule: nt_step.induct)
       (auto simp: NotifyConn_def NotifyPersistent_def CloseConnNotification_def Let_def
         intro: closeBusConn_inv reconnect_inv StopNotifier_inv)
qed

text \<open>
  However often the bus connection is lost and opened again, the notifier holds at most one, and it hears the clicks on
  its notifications whenever it has one and was not stopped.
\<close>

lemma notifier_holds_one_connection:
  assumes "reach nt_init nt_step n"
  shows "length (nt_open n) \<le> 1 \<and> (\<not> nt_stopped n \<longrightarrow> nt_listening n = nt_open n)"
  using notifier.reach_inv [OF assms] by (simp add: nt_inv_def)

text \<open>
  A notification reported as shown was shown on a connection that is open: its buttons are heard (until \<open>Stop\<close>).
\<close>

lemma shown_is_heard:
  assumes "reach nt_init nt_step n" and "\<not> nt_stopped n" and "NotifyConn env reply again n = (Inr i, n')"
  shows "\<exists>c. nt_conn n' = Some c \<and> c \<in> set (nt_open n') \<and> c \<in> set (nt_listening n')"
proof -
  have i: "nt_inv n" using assms(1) by (rule notifier.reach_inv)
  have n': "n' = snd (NotifyConn env reply again n)" using assms(3) by simp
  have "nt_inv n'" "\<not> nt_stopped n'"
    using i assms(2) reconnect_inv [OF i] unfolding n'
    by (auto simp: NotifyConn_def Let_def reconnect_stopped)
  moreover have "\<exists>c. nt_conn n' = Some c \<and> c \<in> set (nt_open n')"
    using assms(3)
    by (auto simp: NotifyConn_def reconnecting_def Let_def Notify_def withReconnect_def callNow_def doNotifyFull_def
        split: if_splits option.splits prod.splits bus_reply.splits sum.splits)
  ultimately show ?thesis by (auto simp: nt_inv_def)
qed

text \<open>
  \<open>Stop\<close> does not end it: a notification sent or closed afterwards finds the connection dead, opens a new one, and
  nothing closes that.
\<close>

lemma notify_after_stop_reopens:
  assumes "nt_inv n" and "de_dial env = None" and "de_matchAction env = None" and "de_matchClosed env = None"
  shows "nt_open (snd (CloseConnNotification env reply again (StopNotifier n))) = [nt_next n] \<and>
         nt_listening (snd (CloseConnNotification env reply again (StopNotifier n))) = []"
  using assms
  by (auto simp: CloseConnNotification_def callNow_def StopNotifier_def Let_def reconnect_def connectBus_def dialBus_def
      subscribe_def nt_inv_def removeAll_all listen_def split: option.splits)

end
