(* ===== verification/Server_Lifecycle.thy ===== *)
theory Server_Lifecycle
  imports Proxy_Watcher Go_Outcome
begin

text \<open>
  The daemon's servers from start to end: the listeners of the API server (\<^verbatim>\<open>internal/api/server.go\<close>) and its static
  files (\<^verbatim>\<open>static.go\<close>), the accept loop of the SSH agent proxy (\<^verbatim>\<open>internal/sshagent/server.go\<close>), and the loop of the
  manager of remote sockets (\<^verbatim>\<open>internal/proxy/manager.go\<close>).  What the kernel does with sockets is a small world:
  listeners are numbered, and the file of a Unix socket remembers its listener.
\<close>

subsection \<open>Sockets\<close>

record sockets =
  so_files :: "(string, nat) gomap"
  so_open :: "nat list"
  so_next :: nat

definition addressInUse :: go_error where
  "addressInUse = ErrText ''bind: address already in use''"

definition openListener :: "sockets \<Rightarrow> nat \<times> sockets" where
  "openListener w = (so_next w, w\<lparr>so_open := so_next w # so_open w, so_next := so_next w + 1\<rparr>)"

text \<open>\<open>net.Listen("unix", path)\<close>: an existing file at the path is an error, whoever made it.\<close>

definition listenUnix :: "go_error option \<Rightarrow> string \<Rightarrow> sockets \<Rightarrow> (go_error + nat) \<times> sockets" where
  "listenUnix err path w =
     (case err of
        Some e \<Rightarrow> (Inl e, w)
      | None \<Rightarrow> if map_of (so_files w) path \<noteq> None then (Inl addressInUse, w)
                else (case openListener w of (l, w) \<Rightarrow> (Inr l, w\<lparr>so_files := gm_put path l (so_files w)\<rparr>)))"

definition closeListener :: "nat \<Rightarrow> sockets \<Rightarrow> sockets" where
  "closeListener l w = w\<lparr>so_open := removeAll l (so_open w)\<rparr>"

definition removeFile :: "string \<Rightarrow> sockets \<Rightarrow> sockets" where
  "removeFile path w = w\<lparr>so_files := gm_del path (so_files w)\<rparr>"

text \<open>Closing a Unix listener also removes the file at its path.\<close>

definition closeUnixListener :: "nat \<Rightarrow> string \<Rightarrow> sockets \<Rightarrow> sockets" where
  "closeUnixListener l path w = removeFile path (closeListener l w)"

definition sockets_ok :: "sockets \<Rightarrow> bool" where
  "sockets_ok w \<longleftrightarrow> distinct (so_open w) \<and> (\<forall>l \<in> set (so_open w). l < so_next w)"

subsection \<open>The API server\<close>

record ApiServer =
  as_listener :: nat
  as_unixListener :: "nat option"
  as_UnixSocketPath :: string
  as_testMode :: bool
  as_serving :: "nat list"     \<comment> \<open>the listeners \<open>Start\<close> gave to the HTTP server\<close>

record listen_env =
  le_tcp :: "go_error option"
  le_mkdir :: "go_error option"
  le_unix :: "go_error option"

definition newApiServer :: "listen_env \<Rightarrow> string \<Rightarrow> sockets \<Rightarrow> (go_error + ApiServer) \<times> sockets" where
  "newApiServer env unixSocketPath w =
     (case le_tcp env of
        Some err \<Rightarrow> (Inl err, w)
      | None \<Rightarrow>
         (case openListener w of (listener, w) \<Rightarrow>
           (let s = \<lparr>as_listener = listener, as_unixListener = None, as_UnixSocketPath = [], as_testMode = False, as_serving = []\<rparr> in
            if unixSocketPath = [] then (Inr s, w)
            else
             (let w = removeFile unixSocketPath w in
              case le_mkdir env of
                Some err \<Rightarrow> (Inl err, closeListener listener w)
              | None \<Rightarrow>
                 (case listenUnix (le_unix env) unixSocketPath w of
                    (Inl err, w) \<Rightarrow> (Inl err, closeListener listener w)
                  | (Inr unixListener, w) \<Rightarrow>
                      (Inr (s\<lparr>as_unixListener := Some unixListener, as_UnixSocketPath := unixSocketPath\<rparr>), w))))))"

definition StartApi :: "ApiServer \<Rightarrow> ApiServer" where
  "StartApi s = s\<lparr>as_serving := as_serving s @ [as_listener s] @ (case as_unixListener s of Some l \<Rightarrow> [l] | None \<Rightarrow> [])\<rparr>"

text \<open>The HTTP server closes the listeners it serves; \<open>err\<close> is what its own shutdown returns.\<close>

definition ShutdownApi :: "go_error option \<Rightarrow> ApiServer \<Rightarrow> sockets \<Rightarrow> go_error option \<times> sockets" where
  "ShutdownApi err s w =
     (let w = (case as_unixListener s of
                 Some l \<Rightarrow> (let w = closeUnixListener l (as_UnixSocketPath s) w in
                            if as_UnixSocketPath s \<noteq> [] then removeFile (as_UnixSocketPath s) w else w)
               | None \<Rightarrow> w)
      in (err, fold closeListener (as_serving s) w))"

definition SetServerTestMode :: "bool \<Rightarrow> ApiServer \<Rightarrow> ApiServer" where
  "SetServerTestMode enabled s = s\<lparr>as_testMode := enabled\<rparr>"

lemma closeListener_fields [simp]:
  "so_open (closeListener l w) = removeAll l (so_open w)" "so_files (closeListener l w) = so_files w"
  "so_next (closeListener l w) = so_next w"
  by (simp_all add: closeListener_def)

lemma removeFile_fields [simp]:
  "so_open (removeFile p w) = so_open w" "so_files (removeFile p w) = gm_del p (so_files w)" "so_next (removeFile p w) = so_next w"
  by (simp_all add: removeFile_def)

lemma fold_closeListener: "so_open (fold closeListener ls w) = filter (\<lambda>l. l \<notin> set ls) (so_open w)"
  by (induction ls arbitrary: w) (auto simp: removeAll_filter_not_eq intro: filter_cong)

lemma fresh_listener: "sockets_ok w \<Longrightarrow> removeAll (so_next w) (so_open w) = so_open w"
  by (auto simp: sockets_ok_def removeAll_id)

text \<open>A set-up that fails leaves no listener open.\<close>

lemma api_setup_closes_on_failure:
  assumes "sockets_ok w" and "newApiServer env path w = (Inl err, w')"
  shows "so_open w' = so_open w"
  using assms fresh_listener [OF assms(1)]
  by (auto simp: newApiServer_def openListener_def listenUnix_def Let_def split: option.splits if_splits)

text \<open>A server that was started and shut down leaves nothing behind: no listener, and no socket file.\<close>

lemma api_shutdown_closes_all:
  assumes "sockets_ok w" and "newApiServer env path w = (Inr s, w')"
  shows "so_open (snd (ShutdownApi err (StartApi s) w')) = so_open w \<and>
     (path \<noteq> [] \<longrightarrow> map_of (so_files (snd (ShutdownApi err (StartApi s) w'))) path = None)"
proof -
  have f: "filter (\<lambda>l. l \<noteq> so_next w \<and> l \<noteq> Suc (so_next w)) (so_open w) = so_open w"
    "filter (\<lambda>l. l \<noteq> so_next w) (so_open w) = so_open w" "Suc (so_next w) \<notin> set (so_open w)"
    using assms(1) by (auto simp: sockets_ok_def filter_id_conv)
  have d: "so_files (fold closeListener ls x) = so_files x" for ls x by (induction ls arbitrary: x) simp_all
  show ?thesis
    using assms(2) f fresh_listener [OF assms(1)]
    by (auto simp: newApiServer_def openListener_def listenUnix_def ShutdownApi_def StartApi_def closeUnixListener_def
        fold_closeListener d Let_def split: option.splits if_splits)
qed

text \<open>
  A server that was never started keeps its TCP listener: shutting it down closes only what the HTTP server serves.
\<close>

lemma unstarted_shutdown_leaks:
  assumes "newApiServer env path w = (Inr s, w')"
  shows "as_listener s \<in> set (so_open w') \<and> (path = [] \<longrightarrow> so_open (snd (ShutdownApi err s w')) = so_open w')"
  using assms
  by (auto simp: newApiServer_def openListener_def listenUnix_def ShutdownApi_def Let_def split: option.splits if_splits)

text \<open>
  Two daemons with the same socket path and different TCP ports: the second takes the path from the first without
  an error, and when the first ends it removes the socket of the second.
\<close>

lemma second_daemon_takes_the_socket:
  assumes "path \<noteq> []" and "newApiServer env path w = (Inr s1, w1)"
    and "newApiServer env path w1 = (Inr s2, w2)"
  shows "map_of (so_files w2) path = as_unixListener s2 \<and> as_unixListener s1 \<noteq> as_unixListener s2 \<and>
         map_of (so_files (snd (ShutdownApi err (StartApi s1) w2))) path = None"
proof -
  have d: "so_files (fold closeListener ls x) = so_files x" for ls x by (induction ls arbitrary: x) simp_all
  show ?thesis
    using assms
    by (auto simp: newApiServer_def openListener_def listenUnix_def ShutdownApi_def StartApi_def closeUnixListener_def d
        Let_def split: option.splits if_splits)
qed

subsection \<open>Static files\<close>

datatype spa_response = NotBuilt | SpaNotFound | SpaFile string

text \<open>The embedded files are a parameter: whether there are any, and which paths exist.\<close>

definition SPAHandler :: "(string \<Rightarrow> bool) option \<Rightarrow> string \<Rightarrow> spa_response" where
  "SPAHandler dist path =
     (case dist of
        None \<Rightarrow> NotBuilt
      | Some exists \<Rightarrow>
         (if HasPrefix path ''/api/'' then SpaNotFound
          else if path \<noteq> ''/'' \<and> exists (TrimPrefix path ''/'') then SpaFile path
          else SpaFile ''/''))"

subsection \<open>The SSH agent proxy\<close>

datatype accepted = Accepted nat | AcceptError go_error

text \<open>What \<open>Accept\<close> returns, with the flag that the context is done by then.  \<open>None\<close>: still waiting.\<close>

fun acceptLoop :: "(accepted \<times> bool) list \<Rightarrow> go_error option \<times> nat list" where
  "acceptLoop [] = (None, [])"
| "acceptLoop ((Accepted conn, cancelled) # xs) = apsnd (Cons conn) (acceptLoop xs)"
| "acceptLoop ((AcceptError err, cancelled) # xs) = (if cancelled then (Some ErrCanceled, []) else acceptLoop xs)"

definition RunSshServer :: "go_error option \<Rightarrow> string \<Rightarrow> (accepted \<times> bool) list \<Rightarrow> sockets
    \<Rightarrow> (go_error option \<times> nat list) \<times> sockets" where
  "RunSshServer listenErr listenPath accepts w =
     (case listenUnix listenErr listenPath w of
        (Inl err, w) \<Rightarrow> ((Some (ErrText (''listen on '' @ listenPath @ '': '' @ error_text err)), []), w)
      | (Inr l, w) \<Rightarrow>
         (case acceptLoop accepts of
            (None, conns) \<Rightarrow> ((None, conns), w)
          | (Some err, conns) \<Rightarrow> ((Some err, conns), closeUnixListener l listenPath w)))"

text \<open>Every connection accepted before the end is handled, in order; errors of \<open>Accept\<close> do not end the loop.\<close>

lemma acceptLoop_handles:
  assumes "\<forall>x \<in> set xs. \<not> snd x"
  shows "acceptLoop xs = (None, [c. (Accepted c, _) \<leftarrow> xs])"
  using assms by (induction xs rule: acceptLoop.induct) auto

text \<open>A socket file left by a daemon that was killed keeps the SSH agent proxy from starting; the API server removes it.\<close>

lemma stale_socket_stops_ssh:
  assumes "map_of (so_files w) path = Some l" and "path \<noteq> []"
    and "le_tcp env = None" and "le_mkdir env = None" and "le_unix env = None"
  shows "fst (fst (RunSshServer None path accepts w)) = Some (ErrText (''listen on '' @ path @ '': bind: address already in use'')) \<and>
         (\<exists>s. fst (newApiServer env path w) = Inr s)"
  using assms
  by (simp add: RunSshServer_def newApiServer_def listenUnix_def addressInUse_def openListener_def Let_def)

subsection \<open>The manager of remote sockets\<close>

text \<open>What the select of \<open>Run\<close> receives: the end of the context, an event, an error, or the end of a channel.\<close>

datatype watch_input =
    WatchDone
  | WatchEvent bool fs_op string
  | WatchEventsClosed
  | WatchError go_error
  | WatchErrorsClosed

fun watchLoop :: "watch_input list \<Rightarrow> ProxyManager \<Rightarrow> go_error option option \<times> ProxyManager" where
  "watchLoop [] m = (None, m)"
| "watchLoop (WatchDone # xs) m = (Some (Some ErrCanceled), stopAllProxies m)"
| "watchLoop (WatchEvent connected op name # xs) m = watchLoop xs (handleEvent connected op name m)"
| "watchLoop (WatchEventsClosed # xs) m = (Some None, m)"
| "watchLoop (WatchError err # xs) m = watchLoop xs m"
| "watchLoop (WatchErrorsClosed # xs) m = (Some None, m)"

definition RunProxyManager :: "go_error option \<Rightarrow> go_error + (string \<times> bool) list \<Rightarrow> bool \<Rightarrow> string \<Rightarrow> watch_input list
    \<Rightarrow> ProxyManager \<Rightarrow> go_error option option \<times> ProxyManager" where
  "RunProxyManager watchErr entries connected socketsDir inputs m =
     (case watchErr of
        Some err \<Rightarrow> (Some (Some err), m)
      | None \<Rightarrow>
         (case entries of
            Inl err \<Rightarrow> (Some (Some err), m)
          | Inr es \<Rightarrow> watchLoop inputs (scanExistingSockets connected socketsDir es m)))"

text \<open>Cancelled, the manager has cancelled every proxy it had; but when a channel of the watcher ends, its proxies run on.\<close>

lemma watchLoop_cancelled:
  "watchLoop xs m = (Some (Some e), m') \<Longrightarrow> pw_proxies m' = []"
  by (induction xs m rule: watchLoop.induct) (auto simp: stopAllProxies_def)

lemma RunProxyManager_cancelled:
  assumes "RunProxyManager None (Inr es) connected dir inputs m = (Some (Some e), m')"
  shows "pw_proxies m' = [] \<and> e = ErrCanceled"
proof -
  have "watchLoop xs m = (Some (Some e), m') \<Longrightarrow> e = ErrCanceled" for xs m
    by (induction xs m rule: watchLoop.induct) simp_all
  then show ?thesis using assms watchLoop_cancelled by (auto simp: RunProxyManager_def)
qed

lemma watchLoop_reaches: "pw_step\<^sup>*\<^sup>* m (snd (watchLoop xs m))"
proof (induction xs m rule: watchLoop.induct)
  case (3 connected op name xs m)
  then show ?case using pw_event [of m connected op name] by (simp add: converse_rtranclp_into_rtranclp)
qed (simp_all add: r_into_rtranclp pw_stop)

end
