(* ===== verification/Thin_Interrupt.thy ===== *)
theory Thin_Interrupt
  imports Thin_Client Cli_Client
begin

text \<open>
  The rest of the signing client (\<^verbatim>\<open>internal/gpgsign\<close>): how it reaches the daemon, how it hands other invocations to
  the real gpg, and what an interrupt (SIGINT, SIGTERM) does while it waits.  The main goroutine and the goroutine of the
  signal handler are interleaved step by step.
\<close>

subsection \<open>Around the request\<close>

definition unixSocketPath :: "string \<Rightarrow> nat \<Rightarrow> string" where
  "unixSocketPath runtimeDir uid =
     ((if runtimeDir = [] then ''/run/user/'' @ dec uid else runtimeDir) @ ''/secrets-dispatcher/api.sock'')"

text \<open>How the run of a program ended: it could not be started, or with an exit code.\<close>

datatype program_run = NotStarted go_error | ExitedWith int

definition passThroughToGPG :: "go_error + string \<Rightarrow> (string \<Rightarrow> string list \<Rightarrow> program_run) \<Rightarrow> string list \<Rightarrow> int" where
  "passThroughToGPG gpgPath run args =
     (case gpgPath of
        Inl _ \<Rightarrow> 2
      | Inr path \<Rightarrow> (case run path args of NotStarted _ \<Rightarrow> 2 | ExitedWith code \<Rightarrow> code))"

definition localhost :: string where
  "localhost = ''http://localhost''"

definition CancelSigningRequest :: "'w transport \<Rightarrow> string \<Rightarrow> string \<Rightarrow> 'w \<Rightarrow> go_error option \<times> 'w" where
  "CancelSigningRequest T token requestID w =
     (case T ''POST'' (localhost @ ''/api/v1/pending/'' @ requestID @ ''/cancel'') (''Bearer '' @ token) w of
        (Inl err, w) \<Rightarrow> (Some (ErrText (''cancel signing request: '' @ error_text err)), w)
      | (Inr resp, w) \<Rightarrow>
          if wr_code resp \<noteq> StatusOK then (Some (ErrText (''daemon returned status '' @ dec_int (wr_code resp) @ '' for cancel'')), w)
          else (None, w))"

text \<open>In the daemon the cancellation is exactly \<open>Cancel\<close> of that request; it succeeds if that does.\<close>

lemma cancel_reaches_its_request:
  assumes "token = au_token (ap_auth s)" and "i \<noteq> []" and "CHR ''/'' \<notin> set i"
  shows "case CancelSigningRequest (daemon enc stat h ce localhost) token i s of (err, s') \<Rightarrow>
     s' = s\<lparr>ap_mgr := snd (Cancel (ce_now ce) i (ap_mgr s))\<rparr> \<and>
     (err = None \<longleftrightarrow> fst (Cancel (ce_now ce) i (ap_mgr s)) = None)"
proof -
  let ?c = "\<lparr>cc_baseURL = localhost, cc_token = token\<rparr>"
  let ?r = "\<lparr>hr_Method = ''POST'', hr_Path = actionPath DoCancel i, hr_Cookies = [], hr_Authorization = ''Bearer '' @ token\<rparr>"
  have "ValidateRequest (ap_auth s) ?r" using client_validated [of ?c] assms(1) by simp
  note v = this
  have r: "rootMux h ce ?r s =
    (case Cancel (ce_now ce) i (ap_mgr s) of
       (Some err, m) \<Rightarrow>
         (Respond (Some (if err = ErrNotFound then writeError ''request not found or expired'' StatusNotFound
                         else writeError (error_text err) StatusInternalServerError)), s\<lparr>ap_mgr := m\<rparr>)
     | (None, m) \<Rightarrow> (Respond (Some (writeJSON (ActionResponse ''cancelled''))), s\<lparr>ap_mgr := m\<rparr>))"
    using rootMux_action [OF v _ _ assms(2,3), of DoCancel h ce] by (auto split: prod.splits option.splits)
  have p: "''/api/v1/pending/'' @ i @ ''/cancel'' = actionPath DoCancel i" by (simp add: actionPath_def)
  from r show ?thesis
    unfolding CancelSigningRequest_def p daemon_def
    by (auto simp: HasPrefix_append writeError_def writeJSON_def Let_def split: prod.splits option.splits if_splits)
qed

subsection \<open>Interrupts\<close>

definition resultOf :: "waited \<Rightarrow> thin_result" where
  "resultOf w =
     (if wt_err w \<noteq> None then exits 1
      else if wt_denied w then exits 1
      else if wt_exitCode w \<noteq> 0 then \<lparr>tr_exit = wt_exitCode w, tr_stdout = [], tr_stderr = wt_gpgStatus w\<rparr>
      else \<lparr>tr_exit = 0, tr_stdout = wt_signature w, tr_stderr = wt_gpgStatus w\<rparr>)"

datatype trap_pc = Listening | Cancelling | TrapDone

record Interrupt =
  it_main :: "thin_result option"  \<comment> \<open>\<open>None\<close>: reading messages\<close>
  it_trap :: trap_pc
  it_msgs :: "wsMsg option list"   \<comment> \<open>the messages still to come; at the end the read fails\<close>
  it_signalled :: bool
  it_ctxDone :: bool
  it_cancels :: "string list"      \<comment> \<open>the cancellations sent\<close>
  it_exited :: bool

definition waitingFor :: "wsMsg option list \<Rightarrow> Interrupt" where
  "waitingFor msgs = \<lparr>it_main = None, it_trap = Listening, it_msgs = msgs, it_signalled = False, it_ctxDone = False,
     it_cancels = [], it_exited = False\<rparr>"

text \<open>One message read by the main goroutine; when it returns, \<open>wsCancel\<close> runs (\<open>defer\<close>).\<close>

definition readOne :: "string \<Rightarrow> wsMsg option \<Rightarrow> wsMsg option list \<Rightarrow> Interrupt \<Rightarrow> Interrupt" where
  "readOne i msg rest s =
     (case msg of
        None \<Rightarrow> s\<lparr>it_msgs := rest\<rparr>
      | Some m \<Rightarrow> (case settles i m of
                     None \<Rightarrow> s\<lparr>it_msgs := rest\<rparr>
                   | Some w \<Rightarrow> s\<lparr>it_msgs := rest, it_main := Some (resultOf w), it_ctxDone := True\<rparr>))"

inductive it_step :: "string \<Rightarrow> Interrupt \<Rightarrow> Interrupt \<Rightarrow> bool" for i where
  it_signal: "\<not> it_exited s \<Longrightarrow> it_step i s (s\<lparr>it_signalled := True\<rparr>)"
| it_trapped: "\<not> it_exited s \<Longrightarrow> it_trap s = Listening \<Longrightarrow> it_signalled s \<Longrightarrow>
    it_step i s (s\<lparr>it_trap := Cancelling, it_ctxDone := True\<rparr>)"
| it_unused: "\<not> it_exited s \<Longrightarrow> it_trap s = Listening \<Longrightarrow> it_ctxDone s \<Longrightarrow> it_step i s (s\<lparr>it_trap := TrapDone\<rparr>)"
| it_cancel: "\<not> it_exited s \<Longrightarrow> it_trap s = Cancelling \<Longrightarrow>
    it_step i s (s\<lparr>it_trap := TrapDone, it_cancels := it_cancels s @ [i]\<rparr>)"
| it_read: "it_main s = None \<Longrightarrow> it_msgs s = msg # rest \<Longrightarrow> it_step i s (readOne i msg rest s)"
| it_failed: "it_main s = None \<Longrightarrow> it_msgs s = [] \<Longrightarrow>
    it_step i s (s\<lparr>it_main := Some (resultOf (waitError ''websocket read'')), it_ctxDone := True\<rparr>)"
| it_aborted: "it_main s = None \<Longrightarrow> it_ctxDone s \<Longrightarrow>
    it_step i s (s\<lparr>it_main := Some (resultOf (waitError ''websocket read''))\<rparr>)"
| it_exit: "it_main s = Some r \<Longrightarrow> it_step i s (s\<lparr>it_exited := True\<rparr>)"

inductive_simps it_step_simps: "it_step i s t"

text \<open>What the command returns is what \<open>Run\<close> computes from the messages, or the error of an aborted read.\<close>

definition it_inv :: "string \<Rightarrow> wsMsg option list \<Rightarrow> Interrupt \<Rightarrow> bool" where
  "it_inv i msgs s \<longleftrightarrow>
     (it_main s = None \<longrightarrow> WaitForResolution i (it_msgs s) = WaitForResolution i msgs) \<and>
     (\<forall>r. it_main s = Some r \<longrightarrow> r = resultOf (WaitForResolution i msgs) \<or> (it_signalled s \<and> r = exits 1)) \<and>
     (it_ctxDone s \<longrightarrow> it_main s \<noteq> None \<or> it_signalled s) \<and>
     (it_trap s = Cancelling \<longrightarrow> it_signalled s) \<and>
     (it_exited s \<longrightarrow> it_main s \<noteq> None) \<and>
     it_cancels s = (if it_cancels s = [] then [] else [i]) \<and>
     (it_cancels s \<noteq> [] \<longrightarrow> it_trap s = TrapDone \<and> it_signalled s)"

lemma readOne_inv: "it_inv i msgs s \<Longrightarrow> it_main s = None \<Longrightarrow> it_msgs s = msg # rest \<Longrightarrow> it_inv i msgs (readOne i msg rest s)"
  by (cases msg) (auto simp: it_inv_def readOne_def split: option.splits)

lemma result_waitError: "resultOf (waitError e) = exits 1"
  by (simp add: resultOf_def waitError_def)

interpretation interrupt: invariant_system "\<lambda>s. s = waitingFor msgs" "it_step i" "it_inv i msgs"
proof unfold_locales
  show "it_inv i msgs s" if "s = waitingFor msgs" for s using that by (simp add: it_inv_def waitingFor_def)
  show "it_inv i msgs t" if "it_step i s t" "it_inv i msgs s" for s t
    using that
  proof (induction rule: it_step.induct)
    case (it_read s msg rest)
    then show ?case by (simp add: readOne_inv)
  next
    case (it_failed s)
    then have "WaitForResolution i msgs = waitError ''websocket read''" by (simp add: it_inv_def)
    with it_failed show ?case by (auto simp: it_inv_def)
  qed (auto simp: it_inv_def result_waitError)
qed

text \<open>
  Without an interrupt the client returns what \<open>Run\<close> makes of the messages; with one it returns that, or it fails
  with an empty output.  It sends at most one cancellation, only after an interrupt, and only for its own request.
\<close>

lemma interrupted_client_fails_closed:
  assumes "reach (\<lambda>s. s = waitingFor msgs) (it_step i) s"
  shows "(\<forall>r. it_main s = Some r \<longrightarrow> r = resultOf (WaitForResolution i msgs) \<or> it_signalled s \<and> r = exits 1) \<and>
         (it_cancels s = [] \<or> it_cancels s = [i] \<and> it_signalled s)"
  using interrupt.reach_inv [OF assms] by (auto simp: it_inv_def split: if_splits)

text \<open>\<open>Run\<close> itself, once the request was accepted.\<close>

lemma Run_resultOf:
  assumes "isSignRequest args" and "te_stdin e = Inr commitBytes" and "loadAuthToken e = Inr token" and "te_dial e token"
    and "PostSigningRequest (te_post e token (gi_RepoName (signInfoOf e args commitBytes)) (signInfoOf e args commitBytes)) = Inr reqID"
  shows "Run e args = resultOf (WaitForResolution reqID (te_msgs e))"
  using assms by (simp add: Run_def resultOf_def Let_def)

text \<open>
  The interrupt aborts the read before it sends the cancellation, so the process may be gone before it is sent: the
  request then stays pending, whatever the daemon would have answered.
\<close>

lemma cancellation_may_be_lost:
  "\<exists>s. reach (\<lambda>s. s = waitingFor msgs) (it_step i) s \<and> it_exited s \<and> it_signalled s \<and> it_main s = Some (exits 1) \<and>
       it_cancels s = [] \<and> \<not> (\<exists>t. it_step i s t \<and> it_cancels t \<noteq> [])"
proof -
  define s1 where "s1 = (waitingFor msgs)\<lparr>it_signalled := True\<rparr>"
  define s2 where "s2 = s1\<lparr>it_trap := Cancelling, it_ctxDone := True\<rparr>"
  define s3 where "s3 = s2\<lparr>it_main := Some (resultOf (waitError ''websocket read''))\<rparr>"
  define s4 where "s4 = s3\<lparr>it_exited := True\<rparr>"
  have "it_step i (waitingFor msgs) s1" unfolding s1_def by (rule it_signal) (simp add: waitingFor_def)
  moreover have "it_step i s1 s2" unfolding s2_def by (rule it_trapped) (simp_all add: s1_def waitingFor_def)
  moreover have "it_step i s2 s3" unfolding s3_def by (rule it_aborted) (simp_all add: s2_def s1_def waitingFor_def)
  moreover have "it_step i s3 s4" unfolding s4_def by (rule it_exit) (simp add: s3_def)
  ultimately have "reach (\<lambda>s. s = waitingFor msgs) (it_step i) s4"
    using reach_init [of "\<lambda>s. s = waitingFor msgs" "waitingFor msgs" "it_step i", OF refl]
    by (blast intro: reach_step)
  moreover have "it_exited s4" "it_signalled s4" "it_main s4 = Some (exits 1)" "it_cancels s4 = []"
    by (simp_all add: s4_def s3_def s2_def s1_def waitingFor_def result_waitError)
  moreover have "it_cancels t = []" if "it_step i s4 t" for t
    using that \<open>it_exited s4\<close> \<open>it_main s4 = Some (exits 1)\<close> \<open>it_cancels s4 = []\<close> by (auto simp: it_step_simps)
  ultimately show ?thesis by blast
qed

end
