(* ===== verification/Spec2Isabelle.thy ===== *)
theory Spec2Isabelle
  imports Thin_Client Notify_Handler Proxy_Props Proxy_Watcher Ssh_Agent Service_Findings Cli_Format Companion_Props Companion_Daemon Main_Commands Proxy_Connect Gpg_Setup Mock_Keyring Notify_Conn Server_Lifecycle Thin_Interrupt
begin

text \<open>
  A verification development for secrets-dispatcher, a daemon that stands between the programs of a
  desktop session and the secrets they ask for.  Programs speak the freedesktop Secret Service protocol
  over D-Bus, or ask for a commit signature; the daemon shows each request to the user, and forwards it to
  the real keyring, or runs gpg, only after a decision.

  \<^bold>\<open>The parts of the program.\<close>
  The approval manager (\<^verbatim>\<open>internal/approval\<close>) holds the pending requests, the approval cache, the temporary
  auto-approve rules, the configured trust rules, the history and the observers.  The proxy (\<^verbatim>\<open>internal/proxy\<close>)
  exports the Secret Service objects; its handlers ask the manager before they call the upstream keyring.
  The API (\<^verbatim>\<open>internal/api\<close>) lets the user decide over HTTP and WebSocket and takes signing requests from
  the thin client (\<^verbatim>\<open>internal/gpgsign\<close>), which git runs in the place of gpg.  Desktop notifications
  (\<^verbatim>\<open>internal/notification\<close>) are a second way to decide.  A proxy in front of the SSH agent
  (\<^verbatim>\<open>internal/sshagent\<close>) asks the same manager.  The configuration (\<^verbatim>\<open>internal/config\<close>) says what runs where, and the
  installer (\<^verbatim>\<open>internal/service\<close>) puts the daemon in front of the user's keyring and takes it away again.  The terminal client
  (\<^verbatim>\<open>internal/cli\<close>) is a third way to decide, and \<^verbatim>\<open>internal/companion\<close> sets up a separate user to run a daemon as.

  \<^bold>\<open>Conventions.\<close>
  State is a record, an operation a function from a state to a result and a state.  An error is a value of
  \<open>go_error\<close>, a panic is \<open>None\<close>.  A Go map is an association list (\<open>gomap\<close>) behind the locale \<open>go_map\<close>.  Times are
  nanoseconds in \<open>int\<close>; PIDs, UIDs and notification numbers are words of their width.  Blocking calls and
  goroutines are cut at the points where they give up the lock, and the pieces become the steps of an inductive
  relation; invariants of all interleavings go through the locale \<open>invariant_system\<close>, interpreted for each machine.
  Code that is not in the repository (the upstream keyring, gpg, git, the bus daemon, the notification server,
  HMAC, AES, HKDF, JSON decoding, \<^verbatim>\<open>/proc\<close>, the file system, random numbers, the clock) is an argument.

  \<^bold>\<open>Theories and sources.\<close>
    \<^item> Prelude, Go_Strings, Go_Glob, Go_Encoding: maps, state machines, the functions of \<open>strings\<close>, \<open>path.Match\<close>, base64
      and hexadecimal, with the round trips the other theories use.
    \<^item> DBus_Types, DBus_Conn: object paths, values, messages and errors (\<^verbatim>\<open>internal/dbus/types.go\<close>).
    \<^item> Approval_Types, Approval_Rules, Approval_Manager: \<^verbatim>\<open>internal/approval\<close> operation by operation.  Approval_Facts
      relates it to a declarative policy, Approval_AutoRules treats the temporary rules, Approval_Machine all
      interleavings of blocked calls, decisions, timeouts and cancellations.
    \<^item> DHCrypto (\<^verbatim>\<open>internal/dhcrypto\<close>), Proxy_Session, Proxy_Tracker, Proxy_Base, Proxy_Handlers, Proxy_Service: the proxy.
      Proxy_Mediation and Proxy_Props show what every run of it respects.
    \<^item> Proxy_Prompter, Proxy_Connect: the two bus connections of a proxy, the bridge for the unlock dialogs of the backend
      keyring (\<^verbatim>\<open>prompter.go\<close>), and how a proxy is set up and taken down (\<open>ConnectWith\<close>, \<open>Close\<close>).
    \<^item> Keyring, Mock_Keyring: the contract (a locale) the proxy needs of the keyring behind it, and the in-memory
      keyring of \<^verbatim>\<open>internal/testutil\<close>, which fulfils it.
    \<^item> Procutil, Unit_Path, Sender_Info: who is calling (\<^verbatim>\<open>procutil.go\<close>, \<^verbatim>\<open>unitpath.go\<close>, \<^verbatim>\<open>senderinfo.go\<close>).
    \<^item> Proxy_Slow, Proxy_Watcher: the slow-call notice and the manager of remote sockets.
    \<^item> Git_Payload, Api_Types, Api_Resolver, Api_GPGSign: what git signs, and the signing endpoint.
    \<^item> Api_Auth, Api_Handlers, Api_WebSocket, Api_Mirror: authentication, routes and handlers, live updates.
    \<^item> Thin_Client, Thin_Interrupt: the gpg-sign command and its dialogue with the daemon, also when it is interrupted.
    \<^item> Notify_Text, Notify_Handler, Notify_Conn: the text and the life of desktop notifications, and the bus connection they use.
    \<^item> Ssh_Agent: the SSH agent proxy.
    \<^item> Glob_Valid, Config: which patterns are well-formed; defaults, validation and use of the configuration.
    \<^item> Service_Types, Service_Install, Service_Plan: the installer, its dry run, health report and trial.  Service_Props and
      Service_Roundtrip show what it gives back, Service_Actions and Service_Dryrun that the dry run is exact,
      Service_Findings where it falls short; Service_Sample is a desktop to evaluate it on.
    \<^item> Cli_Client, Cli_Format: the terminal client, composed with the daemon's handlers, and what it prints.
    \<^item> Companion, Companion_Props: provisioning of the companion user over a file system, and its check.
    \<^item> Companion_Daemon: the daemon that user runs (\<^verbatim>\<open>internal/daemon\<close>).
    \<^item> Main_Flags, Main_Commands: the command line, its flags, and the commands up to the parts they call (\<^verbatim>\<open>main.go\<close>).
    \<^item> Gpg_Setup: the wrapper git runs in the place of gpg (\<^verbatim>\<open>internal/gpgsign/setup.go\<close>).
    \<^item> Main_Serve: which proxies \<open>serve\<close> starts from a configuration (\<open>runServe\<close> of \<^verbatim>\<open>main.go\<close>).
    \<^item> Server_Lifecycle: the listeners of the API server and of the SSH agent proxy, and the loop that watches for sockets.
    \<^item> Go_Outcome: operations that change a world and may fail.
    \<^item> Sample_Data: concrete values for the theorems with hypotheses.

  \<^bold>\<open>What is shown.\<close>
  No secret is read, written or deleted upstream without an approval of the fitting type for exactly
  these objects; what is stored through the proxy is what is read through it; a batch is let through only if each part of it would be; a blocked call returns the user's decision
  and nothing else; no interleaving makes the manager panic; the rules, cache and trusted-signer list mean what
  they say.  The bytes gpg signs are the bytes whose parse was displayed.  The API does nothing without
  authentication, and a login token works once.  A WebSocket client's view is the set of pending
  requests, the thin client learns the outcome of its own request and fails closed.  A click on a notification
  answers the question it showed, and its text cannot be forged.  Encodings, encryption, key agreement, unit
  paths and the payload parser have their round trips.  Validation accepts exactly the well-formed configurations.
  Uninstalling undoes any history of installations, a trial leaves no trace, and the dry run lists what a successful
  installation does.  A terminal command decides the one request its
  argument names, or none; \<open>config validate\<close> accepts what \<open>serve\<close> starts with.  What provisioning sets up passes
  its check, and a started daemon never serves the bus it forwards to.
  A proxy claims its name last, and a set-up that fails leaves nothing open.  Some theorems describe defects instead: they
  are stated at the end of the theory they belong to.

  \<^bold>\<open>Bounds and fuel.\<close>
  The walk up the process tree takes fuel; it is shown that a tree without cycles needs no more than the
  number of its processes.  All other loops are structural or have a termination measure.  The session
  counter is a 64-bit word; freshness of sessions is shown below its wrap-around.

  \<^bold>\<open>Not modelled.\<close>
  Logging (\<^verbatim>\<open>internal/logging\<close>), the HTTP and WebSocket transports, YAML parsing, usage texts, introspection data, and
  the test programs (\<^verbatim>\<open>cmd/mock-secret-service\<close>, \<^verbatim>\<open>e2e\<close>): they are I/O or calls of libraries, and decide nothing.
\<close>

end
